(* ===== verification/Prelude.thy ===== *)
theory Prelude
  imports Main
begin

text \<open>
  The shared base of the library: exceptions as values, the Python string operations the
  services use, tables as lists of rows with the SQL statements issued against them, and
  the collections of rewrite rules the component theories build on.

  A string is a list of code points below 256 (HOL's \<open>char\<close>).  Absence
  (\<^verbatim>\<open>None\<close>) is \<open>None\<close>; a raised exception is an \<open>Inl\<close>
  value.  An instant is an \<open>int\<close> counting microseconds, so a
  \<^verbatim>\<open>timedelta\<close> is a difference of instants and
  \<^verbatim>\<open>total_seconds()\<close> is kept exactly, in microseconds.
\<close>

named_theorems table_simps \<open>rewrite rules for rows, lookups, updates and inserts\<close>
named_theorems frame_simps \<open>which tables an operation leaves alone\<close>
named_theorems op_defs \<open>definitions of guards and small operations, for unfolding\<close>

section \<open>Exceptions\<close>

type_synonym instant = int

datatype exn =
    HTTPException int string
  | ValueError string
  | ValidationError string
  | RuntimeError string
  | IntegrityError
  | AssertionError
  | NoResultFound

fun is_ok :: "'e + 'a \<Rightarrow> bool" where
  "is_ok (Inl e) = False"
| "is_ok (Inr x) = True"

fun and_then :: "'e + 'a \<Rightarrow> ('a \<Rightarrow> 'e + 'b) \<Rightarrow> 'e + 'b" where
  "and_then (Inl e) f = Inl e"
| "and_then (Inr x) f = f x"

fun map_checked :: "('a \<Rightarrow> 'e + 'b) \<Rightarrow> 'a list \<Rightarrow> 'e + 'b list" where
  "map_checked f [] = Inr []"
| "map_checked f (x # xs) =
     (case f x of Inl e \<Rightarrow> Inl e
      | Inr y \<Rightarrow> (case map_checked f xs of Inl e \<Rightarrow> Inl e | Inr ys \<Rightarrow> Inr (y # ys)))"

text \<open>\<^verbatim>\<open>len(xs) != len(set(xs))\<close>.\<close>

definition repeats :: "'a list \<Rightarrow> bool" where
  "repeats xs \<longleftrightarrow> length xs \<noteq> card (set xs)"

lemma repeats_iff [simp]: "repeats xs \<longleftrightarrow> \<not> distinct xs"
  unfolding repeats_def by (metis card_distinct distinct_card)

lemma and_then_Inr_iff [simp]:
  "and_then r f = Inr y \<longleftrightarrow> (\<exists>x. r = Inr x \<and> f x = Inr y)"
  by (cases r) auto

lemma is_ok_iff: "is_ok r \<longleftrightarrow> (\<exists>x. r = Inr x)"
  by (cases r) auto

lemma map_checked_Inr_iff:
  "map_checked f xs = Inr ys \<longleftrightarrow> list_all2 (\<lambda>x y. f x = Inr y) xs ys"
proof (induction xs arbitrary: ys)
  case Nil
  then show ?case by auto
next
  case (Cons x xs)
  have "map_checked f (x # xs) = Inr ys \<longleftrightarrow>
      (\<exists>z zs. ys = z # zs \<and> f x = Inr z \<and> map_checked f xs = Inr zs)"
    by (cases "f x"; cases "map_checked f xs") auto
  then show ?case
    by (simp only: Cons.IH list_all2_Cons1)
qed

lemma map_checked_id:
  "(\<And>x. x \<in> set xs \<Longrightarrow> f x = Inr x) \<Longrightarrow> map_checked f xs = Inr xs"
  by (induction xs) auto

lemma fold_frame: "(\<And>x d. g (f x d) = g d) \<Longrightarrow> g (fold f xs d) = g d"
  by (induction xs arbitrary: d) auto

section \<open>Python strings\<close>

text \<open>\<^verbatim>\<open>if s:\<close> on a \<^verbatim>\<open>str | None\<close>, and
  \<^verbatim>\<open>a or b\<close> on two of them.\<close>

fun truthy :: "string option \<Rightarrow> bool" where
  "truthy None = False"
| "truthy (Some s) = (s \<noteq> [])"

definition py_or :: "string option \<Rightarrow> string option \<Rightarrow> string option" where
  "py_or a b = (if truthy a then a else b)"

text \<open>\<^verbatim>\<open>str.isspace\<close> on the code points below 256.\<close>

definition is_space :: "char \<Rightarrow> bool" where
  "is_space c =
     (let n = (of_char c :: nat)
      in 9 \<le> n \<and> n \<le> 13 \<or> 28 \<le> n \<and> n \<le> 32 \<or> n = 133 \<or> n = 160)"

definition strip :: "string \<Rightarrow> string" where
  "strip s = rev (dropWhile is_space (rev (dropWhile is_space s)))"

definition digit :: "nat \<Rightarrow> char" where
  "digit n = char_of (48 + n)"

fun show_nat :: "nat \<Rightarrow> string" where
  "show_nat n = (if n < 10 then [digit n] else show_nat (n div 10) @ [digit (n mod 10)])"

declare show_nat.simps [simp del]

definition show_int :: "int \<Rightarrow> string" where
  "show_int i = (if i < 0 then CHR ''-'' # show_nat (nat (- i)) else show_nat (nat i))"

lemma dropWhile_idem: "dropWhile P (dropWhile P xs) = dropWhile P xs"
  by (induction xs) auto

lemma strip_idem [simp]: "strip (strip s) = strip s"
proof -
  let ?t = "dropWhile is_space s"
  let ?u = "dropWhile is_space (rev ?t)"
  have "dropWhile is_space (rev ?u) = rev ?u"
  proof (cases "?u = []")
    case True
    then show ?thesis by (simp del: dropWhile_eq_Nil_conv)
  next
    case False
    have "rev ?t = takeWhile is_space (rev ?t) @ ?u"
      by simp
    then have t: "?t = rev ?u @ rev (takeWhile is_space (rev ?t))"
      by (metis rev_append rev_rev_ident)
    have hds: "hd ?t = hd (rev ?u)"
      by (subst t) (simp add: hd_append False del: dropWhile_eq_Nil_conv)
    have "?t \<noteq> []" using False by (metis dropWhile.simps(1) rev.simps(1))
    then have "\<not> is_space (hd (rev ?u))"
      using hd_dropWhile [of is_space s] hds by metis
    then show ?thesis by (simp add: dropWhile_eq_self_iff)
  qed
  then show ?thesis by (simp add: strip_def dropWhile_idem)
qed

lemma of_char_digit: "n < 10 \<Longrightarrow> (of_char (digit n) :: nat) = 48 + n"
  by (simp add: digit_def)

lemma digit_inj: "m < 10 \<Longrightarrow> n < 10 \<Longrightarrow> digit m = digit n \<longleftrightarrow> m = n"
  by (metis add_left_cancel of_char_digit)

lemma show_nat_nonempty [simp]: "show_nat n \<noteq> []"
  by (subst show_nat.simps) simp

lemma show_nat_small: "n < 10 \<Longrightarrow> show_nat n = [digit n]"
  by (subst show_nat.simps) simp

lemma show_nat_large: "\<not> n < 10 \<Longrightarrow> show_nat n = show_nat (n div 10) @ [digit (n mod 10)]"
  by (subst show_nat.simps) simp

lemma Nil_not_show_nat [simp]: "[] \<noteq> show_nat n"
  by (metis show_nat_nonempty)

lemma show_nat_digits: "c \<in> set (show_nat n) \<Longrightarrow> \<exists>d<10. c = digit d"
proof (induction n rule: show_nat.induct)
  case (1 n)
  show ?case
  proof (cases "n < 10")
    case True
    with "1.prems" show ?thesis by (auto simp: show_nat_small)
  next
    case False
    with "1.prems" have "c \<in> set (show_nat (n div 10)) \<or> c = digit (n mod 10)"
      by (auto simp: show_nat_large)
    moreover have "n mod 10 < 10" by simp
    ultimately show ?thesis using "1.IH" [OF False] by blast
  qed
qed

lemma show_nat_inj: "show_nat m = show_nat n \<longleftrightarrow> m = n"
proof (induction m arbitrary: n rule: show_nat.induct)
  case (1 m)
  have same: "m div 10 = n div 10 \<Longrightarrow> m mod 10 = n mod 10 \<Longrightarrow> m = n"
    by (metis div_mult_mod_eq)
  show ?case
  proof (cases "m < 10")
    case True
    then show ?thesis
      by (cases "n < 10") (auto simp: show_nat_small show_nat_large digit_inj)
  next
    case False
    then show ?thesis
      using "1.IH" [OF False, of "n div 10"] same
      by (cases "n < 10") (auto simp: show_nat_small show_nat_large digit_inj)
  qed
qed

lemma colon_not_in_show_nat: "CHR '':'' \<notin> set (show_nat n)"
proof
  assume "CHR '':'' \<in> set (show_nat n)"
  then obtain d where "d < 10" "CHR '':'' = digit d"
    using show_nat_digits by blast
  then have "(of_char (CHR '':'') :: nat) = 48 + d"
    by (simp add: of_char_digit)
  with \<open>d < 10\<close> show False by simp
qed

lemma split_at_first_colon:
  "us @ CHR '':'' # xs = vs @ CHR '':'' # ys \<Longrightarrow> CHR '':'' \<notin> set us \<Longrightarrow>
     CHR '':'' \<notin> set vs \<Longrightarrow> us = vs \<and> xs = ys"
proof (induction us arbitrary: vs)
  case Nil
  then show ?case by (cases vs) auto
next
  case (Cons u us)
  then show ?case by (cases vs) auto
qed

lemma split_at_last_colon:
  assumes "xs @ CHR '':'' # us = ys @ CHR '':'' # vs"
    and "CHR '':'' \<notin> set us" and "CHR '':'' \<notin> set vs"
  shows "xs = ys \<and> us = vs"
proof -
  have "rev us @ CHR '':'' # rev xs = rev vs @ CHR '':'' # rev ys"
    using arg_cong [OF assms(1), of rev] by simp
  then have "rev us = rev vs \<and> rev xs = rev ys"
    using assms(2,3) by (intro split_at_first_colon) auto
  then show ?thesis by simp
qed

section \<open>Instants as text\<close>

text \<open>\<^verbatim>\<open>datetime.isoformat()\<close> of an aware UTC instant, counted in microseconds
  from 1970: the civil date of a day number, zero-padded fields, the microseconds only when
  there are any.\<close>

definition civil_date :: "int \<Rightarrow> int \<times> int \<times> int" where
  "civil_date days =
     (let z = days + 719468; era = z div 146097; doe = z mod 146097;
          yoe = (doe - doe div 1460 + doe div 36524 - doe div 146096) div 365;
          doy = doe - (365 * yoe + yoe div 4 - yoe div 100);
          mp = (5 * doy + 2) div 153;
          d = doy - (153 * mp + 2) div 5 + 1;
          m = (if mp < 10 then mp + 3 else mp - 9);
          y = yoe + era * 400 + (if m \<le> 2 then 1 else 0)
      in (y, m, d))"

definition padded :: "nat \<Rightarrow> int \<Rightarrow> string" where
  "padded w n = (let s = show_nat (nat n) in replicate (w - length s) (CHR ''0'') @ s)"

definition isoformat :: "instant \<Rightarrow> string" where
  "isoformat t =
     (let (y, m, d) = civil_date (t div 86400000000); us = t mod 86400000000;
          secs = us div 1000000; frac = us mod 1000000
      in padded 4 y @ ''-'' @ padded 2 m @ ''-'' @ padded 2 d @ ''T'' @
         padded 2 (secs div 3600) @ '':'' @ padded 2 (secs div 60 mod 60) @ '':'' @
         padded 2 (secs mod 60) @
         (if frac = 0 then [] else ''.'' @ padded 6 frac) @ ''+00:00'')"

section \<open>Tables\<close>

text \<open>
  A table is the list of its rows.  \<open>get_row\<close> is \<^verbatim>\<open>session.get\<close> and
  \<^verbatim>\<open>select ... .first()\<close> on a unique key, \<open>update_where\<close> an
  \<^verbatim>\<open>UPDATE ... WHERE\<close> (or assigning to the attributes of a loaded row), and
  \<open>insert_ignore\<close> an \<^verbatim>\<open>INSERT ... ON CONFLICT DO NOTHING\<close>:
  \<open>c\<close> says which rows take part in the unique constraint (rows whose key is NULL do
  not, unless the constraint is declared NULLS NOT DISTINCT).
\<close>

definition get_row :: "('r \<Rightarrow> 'k) \<Rightarrow> 'k \<Rightarrow> 'r list \<Rightarrow> 'r option" where
  "get_row idf k rows = find (\<lambda>r. idf r = k) rows"

definition update_where :: "('r \<Rightarrow> bool) \<Rightarrow> ('r \<Rightarrow> 'r) \<Rightarrow> 'r list \<Rightarrow> 'r list" where
  "update_where p f rows = map (\<lambda>r. if p r then f r else r) rows"

definition insert_ignore ::
  "('r \<Rightarrow> bool) \<Rightarrow> ('r \<Rightarrow> 'k) \<Rightarrow> 'r \<Rightarrow> 'r list \<Rightarrow> 'r list" where
  "insert_ignore c key r rows =
     (if c r \<and> (\<exists>x\<in>set rows. c x \<and> key x = key r) then rows else rows @ [r])"

definition unique_on :: "('r \<Rightarrow> bool) \<Rightarrow> ('r \<Rightarrow> 'k) \<Rightarrow> 'r list \<Rightarrow> bool" where
  "unique_on c key rows = distinct (map key (filter c rows))"

text \<open>A Python dict comprehension: a later pair overwrites an earlier one.\<close>

definition dict_of :: "('k \<times> 'v) list \<Rightarrow> 'k \<Rightarrow> 'v option" where
  "dict_of ps = map_of (rev ps)"

lemma get_row_Nil [table_simps]: "get_row idf k [] = None"
  by (simp add: get_row_def)

lemma get_row_Cons [table_simps]:
  "get_row idf k (r # rows) = (if idf r = k then Some r else get_row idf k rows)"
  by (simp add: get_row_def)

lemma get_row_Some: "get_row idf k rows = Some r \<Longrightarrow> r \<in> set rows \<and> idf r = k"
  by (induction rows) (auto simp: table_simps split: if_splits)

lemma get_row_None: "get_row idf k rows = None \<longleftrightarrow> (\<forall>r\<in>set rows. idf r \<noteq> k)"
  by (induction rows) (auto simp: table_simps)

lemma get_row_append [table_simps]:
  "get_row idf k (xs @ ys) =
     (case get_row idf k xs of None \<Rightarrow> get_row idf k ys | Some r \<Rightarrow> Some r)"
  by (induction xs) (auto simp: table_simps)

lemma get_row_unique:
  "distinct (map idf rows) \<Longrightarrow> r \<in> set rows \<Longrightarrow> get_row idf (idf r) rows = Some r"
  by (induction rows) (auto simp: table_simps)

lemma update_where_Nil [table_simps]: "update_where p f [] = []"
  by (simp add: update_where_def)

lemma update_where_Cons [table_simps]:
  "update_where p f (r # rows) = (if p r then f r else r) # update_where p f rows"
  by (simp add: update_where_def)

lemma set_update_where: "set (update_where p f rows) = (\<lambda>r. if p r then f r else r) ` set rows"
  by (simp add: update_where_def)

lemma length_update_where [table_simps]: "length (update_where p f rows) = length rows"
  by (simp add: update_where_def)

lemma get_row_update_where:
  assumes "\<And>r. idf (f r) = idf r"
  shows "get_row idf k (update_where p f rows) =
    map_option (\<lambda>r. if p r then f r else r) (get_row idf k rows)"
  using assms by (induction rows) (auto simp: table_simps)

lemma get_row_update_other:
  "(\<And>r. p r \<Longrightarrow> idf r \<noteq> k) \<Longrightarrow> (\<And>r. p r \<Longrightarrow> idf (f r) \<noteq> k) \<Longrightarrow>
     get_row idf k (update_where p f rows) = get_row idf k rows"
  by (induction rows) (auto simp: table_simps)

lemma map_update_where:
  "(\<And>r. g (f r) = g r) \<Longrightarrow> map g (update_where p f rows) = map g rows"
  by (induction rows) (auto simp: table_simps)

lemma filter_update_where:
  "(\<And>r. q (f r) = q r) \<Longrightarrow>
     filter q (update_where p f rows) = update_where p f (filter q rows)"
  by (induction rows) (auto simp: table_simps)

lemma update_where_none: "(\<And>r. r \<in> set rows \<Longrightarrow> \<not> p r) \<Longrightarrow> update_where p f rows = rows"
  by (induction rows) (auto simp: table_simps)

lemma unique_on_update_where:
  assumes "\<And>r. key (f r) = key r" and "\<And>r. c (f r) = c r" and "unique_on c key rows"
  shows "unique_on c key (update_where p f rows)"
  using assms by (simp add: unique_on_def filter_update_where map_update_where)

lemma unique_on_filter: "unique_on c key rows \<Longrightarrow> unique_on c key (filter q rows)"
  unfolding unique_on_def
  by (induction rows) (auto simp: image_iff)

lemma unique_on_same:
  "unique_on c key rows \<Longrightarrow> x \<in> set rows \<Longrightarrow> y \<in> set rows \<Longrightarrow> c x \<Longrightarrow> c y \<Longrightarrow>
     key x = key y \<Longrightarrow> x = y"
  unfolding unique_on_def by (induction rows) (auto simp: image_iff split: if_splits)

lemma dict_of_Some: "dict_of ps k = Some v \<Longrightarrow> (k, v) \<in> set ps"
  by (auto simp: dict_of_def dest: map_of_SomeD)

lemma dict_of_None: "dict_of ps k = None \<longleftrightarrow> k \<notin> fst ` set ps"
  by (simp add: dict_of_def map_of_eq_None_iff)

section \<open>The contract of INSERT ... ON CONFLICT DO NOTHING\<close>

text \<open>
  Five tables are written this way (progression cursors, resolution rows, triggered
  communications, read receipts, launch snapshots).  The contract is stated once; each
  table's insert is shown to meet it where the table is modelled.
\<close>

locale conflict_insert =
  fixes constrained :: "'r \<Rightarrow> bool"
    and key :: "'r \<Rightarrow> 'k"
    and ins :: "'r \<Rightarrow> 'r list \<Rightarrow> 'r list"
  assumes ins_taken:
      "constrained r \<Longrightarrow> x \<in> set rows \<Longrightarrow> constrained x \<Longrightarrow> key x = key r \<Longrightarrow> ins r rows = rows"
    and ins_free:
      "(\<And>x. x \<in> set rows \<Longrightarrow> constrained x \<Longrightarrow> constrained r \<Longrightarrow> key x \<noteq> key r) \<Longrightarrow>
         ins r rows = rows @ [r]"
begin

lemma ins_cases:
  obtains (taken) x where "constrained r" "x \<in> set rows" "constrained x" "key x = key r"
      "ins r rows = rows"
    | (free) "\<And>x. x \<in> set rows \<Longrightarrow> constrained x \<Longrightarrow> constrained r \<Longrightarrow> key x \<noteq> key r"
      "ins r rows = rows @ [r]"
  using ins_taken ins_free by metis

lemma ins_keeps: "x \<in> set rows \<Longrightarrow> x \<in> set (ins r rows)"
  by (cases r rows rule: ins_cases) auto

lemma ins_mem: "x \<in> set (ins r rows) \<Longrightarrow> x \<in> set rows \<or> x = r"
  by (cases r rows rule: ins_cases) auto

lemma ins_unique: "unique_on constrained key rows \<Longrightarrow> unique_on constrained key (ins r rows)"
  by (cases r rows rule: ins_cases) (auto simp: unique_on_def, metis)

lemma ins_present: "constrained r \<Longrightarrow> \<exists>x\<in>set (ins r rows). constrained x \<and> key x = key r"
  by (cases r rows rule: ins_cases) auto

lemma ins_replay:
  assumes "constrained r" "constrained r'" "key r' = key r"
  shows "ins r' (ins r rows) = ins r rows"
proof -
  obtain x where "x \<in> set (ins r rows)" "constrained x" "key x = key r"
    using ins_present [OF assms(1)] by blast
  then show ?thesis using ins_taken assms by metis
qed

lemma fold_ins_keeps: "x \<in> set rows \<Longrightarrow> x \<in> set (fold ins rs rows)"
  by (induction rs arbitrary: rows) (auto intro: ins_keeps)

lemma fold_ins_mem: "x \<in> set (fold ins rs rows) \<Longrightarrow> x \<in> set rows \<or> x \<in> set rs"
proof (induction rs arbitrary: rows)
  case (Cons r rs)
  then have "x \<in> set (ins r rows) \<or> x \<in> set rs" by simp
  then show ?case using ins_mem by fastforce
qed simp

lemma fold_ins_unique:
  "unique_on constrained key rows \<Longrightarrow> unique_on constrained key (fold ins rs rows)"
  by (induction rs arbitrary: rows) (auto intro: ins_unique)

lemma fold_ins_present:
  "r \<in> set rs \<Longrightarrow> constrained r \<Longrightarrow> \<exists>x\<in>set (fold ins rs rows). constrained x \<and> key x = key r"
proof (induction rs arbitrary: rows)
  case (Cons a rs)
  show ?case
  proof (cases "r \<in> set rs")
    case True
    then show ?thesis using Cons by simp
  next
    case False
    then have "\<exists>x\<in>set (ins a rows). constrained x \<and> key x = key r"
      using Cons.prems ins_present by simp
    then show ?thesis using fold_ins_keeps by simp blast
  qed
qed simp

lemma fold_ins_stable:
  assumes "\<And>r. r \<in> set rs \<Longrightarrow> constrained r \<and> (\<exists>x\<in>set rows. constrained x \<and> key x = key r)"
  shows "fold ins rs rows = rows"
  using assms
proof (induction rs arbitrary: rows)
  case (Cons r rs)
  then have "ins r rows = rows" using ins_taken by (metis list.set_intros(1))
  then show ?case using Cons by simp
qed simp

end

lemma insert_ignore_contract: "conflict_insert c key (insert_ignore c key)"
  by unfold_locales (auto simp: insert_ignore_def)

end
