(* ===== verification/Scenario_Schema.thy ===== *)
theory Scenario_Schema
  imports Prelude
begin

text \<open>
  The scenario document (\<^verbatim>\<open>app/schemas/scenario_json.py\<close>): its pydantic
  models as records, its field validators and the model validator as functions into
  \<open>string + _\<close> (\<open>Inl\<close> is the message of the \<^verbatim>\<open>ValueError\<close>), and
  the cycle check.  pydantic reports every failing field at once; the model keeps the first
  failure, in the order the fields are declared.

  \<^verbatim>\<open>graphlib.TopologicalSorter(graph).prepare()\<close> raises exactly when the graph has
  a cycle.  \<open>peel\<close> computes that verdict by repeatedly removing the nodes that have no
  successor left; \<open>has_cycle_iff\<close> shows that it is the absence of a topological order.
\<close>

section \<open>The document\<close>

record participant_team =
  pt_id :: string
  pt_label :: string

record trigger_comm =
  tc_external_entity :: string
  tc_direction :: string
  tc_subject :: string
  tc_body :: string
  tc_delay_after_release_seconds :: int

record inject_option =
  io_id :: string
  io_label :: string
  io_next_inject_id :: "string option"

record inject_node =
  in_id :: string
  in_title :: string
  in_content :: string
  in_target_teams :: "string list"
  in_sequence_order :: int
  in_next_inject_id :: "string option"
  in_options :: "inject_option list"
  in_free_text_response :: bool
  in_triggers_communications :: "trigger_comm list"
  in_expected_actions :: "string list"
  in_release_at_minutes :: "int option"

record scenario_metadata =
  sm_author :: "string option"
  sm_estimated_duration_minutes :: "int option"

record scenario_definition =
  sd_schema_version :: string
  sd_title :: string
  sd_description :: "string option"
  sd_tags :: "string list"
  sd_metadata :: scenario_metadata
  sd_participant_teams :: "participant_team list"
  sd_injects :: "inject_node list"
  sd_start_inject_id :: string
  sd_debrief_notes :: "string option"

definition MAX_INJECTS :: nat where "MAX_INJECTS = 5000"
definition MAX_TRIGGER_DELAY_SECONDS :: int where "MAX_TRIGGER_DELAY_SECONDS = 86400"

section \<open>Field validators\<close>

definition normalized_id :: "string \<Rightarrow> string \<Rightarrow> string + string" where
  "normalized_id value field =
     (let normalized = strip value
      in if normalized = [] then Inl (field @ '' must not be blank'') else Inr normalized)"

definition normalize_next_inject_id :: "string \<Rightarrow> string option \<Rightarrow> string + string option" where
  "normalize_next_inject_id field value =
     (case value of None \<Rightarrow> Inr None
      | Some v \<Rightarrow> (case normalized_id v field of Inl e \<Rightarrow> Inl e | Inr n \<Rightarrow> Inr (Some n)))"

definition validate_team :: "participant_team \<Rightarrow> string + participant_team" where
  "validate_team t =
     (case normalized_id (pt_id t) ''participant team id'' of
        Inl e \<Rightarrow> Inl e | Inr n \<Rightarrow> Inr (t\<lparr>pt_id := n\<rparr>))"

definition validate_direction :: "string \<Rightarrow> string + string" where
  "validate_direction v =
     (if v \<notin> {''inbound'', ''outbound''}
      then Inl ''direction must be inbound or outbound'' else Inr v)"

definition validate_delay :: "int \<Rightarrow> string + int" where
  "validate_delay value =
     (if \<not> (0 \<le> value \<and> value \<le> MAX_TRIGGER_DELAY_SECONDS)
      then Inl ''delay_after_release_seconds must be between 0 and 86400'' else Inr value)"

definition validate_trigger :: "trigger_comm \<Rightarrow> string + trigger_comm" where
  "validate_trigger t =
     (case validate_direction (tc_direction t) of Inl e \<Rightarrow> Inl e
      | Inr _ \<Rightarrow> (case validate_delay (tc_delay_after_release_seconds t) of
                    Inl e \<Rightarrow> Inl e | Inr _ \<Rightarrow> Inr t))"

definition validate_option :: "inject_option \<Rightarrow> string + inject_option" where
  "validate_option o1 =
     (case normalized_id (io_id o1) ''option id'' of Inl e \<Rightarrow> Inl e
      | Inr n \<Rightarrow>
        (case normalize_next_inject_id ''option next_inject_id'' (io_next_inject_id o1) of
           Inl e \<Rightarrow> Inl e
         | Inr nx \<Rightarrow> Inr (o1\<lparr>io_id := n, io_next_inject_id := nx\<rparr>)))"

definition normalize_target_teams :: "string list \<Rightarrow> string + string list" where
  "normalize_target_teams values =
     (case map_checked (\<lambda>v. normalized_id v ''target team id'') values of Inl e \<Rightarrow> Inl e
      | Inr normalized \<Rightarrow>
          if repeats normalized
          then Inl ''target_teams must not contain duplicates'' else Inr normalized)"

definition validate_release_at_minutes :: "int option \<Rightarrow> string + int option" where
  "validate_release_at_minutes v =
     (case v of None \<Rightarrow> Inr None
      | Some n \<Rightarrow> if n < 0 then Inl ''release_at_minutes must be >= 0'' else Inr v)"

definition validate_node :: "inject_node \<Rightarrow> string + inject_node" where
  "validate_node n =
     and_then (normalized_id (in_id n) ''inject id'') (\<lambda>nid.
     and_then (normalize_target_teams (in_target_teams n)) (\<lambda>teams.
     and_then (normalize_next_inject_id ''inject next_inject_id'' (in_next_inject_id n)) (\<lambda>nx.
     and_then (map_checked validate_option (in_options n)) (\<lambda>opts.
     and_then (map_checked validate_trigger (in_triggers_communications n)) (\<lambda>trigs.
     and_then (validate_release_at_minutes (in_release_at_minutes n)) (\<lambda>rel.
       Inr (n\<lparr>in_id := nid, in_target_teams := teams, in_next_inject_id := nx,
              in_options := opts, in_triggers_communications := trigs,
              in_release_at_minutes := rel\<rparr>)))))))"

section \<open>The cycle check\<close>

definition node_successors :: "inject_node \<Rightarrow> string list" where
  "node_successors n =
     concat (map (\<lambda>o1. case io_next_inject_id o1 of None \<Rightarrow> [] | Some s \<Rightarrow> [s]) (in_options n)) @
     (case in_next_inject_id n of None \<Rightarrow> [] | Some s \<Rightarrow> [s])"

definition scenario_graph :: "inject_node list \<Rightarrow> (string \<times> string list) list" where
  "scenario_graph injects = map (\<lambda>n. (in_id n, node_successors n)) injects"

definition is_sink :: "('a \<times> 'a list) list \<Rightarrow> 'a \<times> 'a list \<Rightarrow> bool" where
  "is_sink g e \<longleftrightarrow> (\<forall>s\<in>set (snd e). s \<notin> fst ` set g)"

function peel :: "('a \<times> 'a list) list \<Rightarrow> ('a \<times> 'a list) list" where
  "peel g = (if filter (is_sink g) g = [] then g else peel (filter (\<lambda>e. \<not> is_sink g e) g))"
  by pat_completeness auto
termination
proof (relation "measure length")
  fix g :: "('a \<times> 'a list) list"
  assume "filter (is_sink g) g \<noteq> []"
  then obtain e where "e \<in> set g" and "is_sink g e" by (auto simp: filter_empty_conv)
  then show "(filter (\<lambda>e. \<not> is_sink g e) g, g) \<in> measure length"
    by (auto intro: length_filter_less)
qed simp

declare peel.simps [simp del]

definition has_cycle :: "('a \<times> 'a list) list \<Rightarrow> bool" where
  "has_cycle g \<longleftrightarrow> peel g \<noteq> []"

definition check_no_cycles :: "inject_node list \<Rightarrow> string + unit" where
  "check_no_cycles injects =
     (if has_cycle (scenario_graph injects)
      then Inl ''Cycle detected in scenario graph'' else Inr ())"

section \<open>The model validator\<close>

definition validate_inject_refs ::
  "string set \<Rightarrow> string set \<Rightarrow> inject_node \<Rightarrow> string + unit" where
  "validate_inject_refs inject_ids team_ids n =
     (if \<exists>t\<in>set (in_target_teams n). t \<notin> team_ids
      then Inl (''inject '' @ in_id n @ '': target_team not in participant_teams'')
      else if (case in_next_inject_id n of None \<Rightarrow> False | Some s \<Rightarrow> s \<notin> inject_ids)
      then Inl (''inject '' @ in_id n @ '': next_inject_id not found'')
      else if repeats (map io_id (in_options n))
      then Inl (''inject '' @ in_id n @ '': option ids must be unique'')
      else if \<exists>o1\<in>set (in_options n).
                (case io_next_inject_id o1 of None \<Rightarrow> False | Some s \<Rightarrow> s \<notin> inject_ids)
      then Inl (''inject '' @ in_id n @ '': option next_inject_id not found'')
      else Inr ())"

definition validate_structure :: "scenario_definition \<Rightarrow> string + scenario_definition" where
  "validate_structure d =
     (let ids = map in_id (sd_injects d);
          dupes = filter (\<lambda>i. 1 < count_list ids i) ids;
          inject_ids = set ids;
          team_id_list = map pt_id (sd_participant_teams d);
          team_ids = set team_id_list
      in if MAX_INJECTS < length (sd_injects d) then Inl ''scenario has too many injects''
         else if dupes \<noteq> [] then Inl ''duplicate inject id(s)''
         else if repeats team_id_list
         then Inl ''participant_teams must not contain duplicate ids''
         else if sd_start_inject_id d \<notin> inject_ids
         then Inl (''start_inject_id '' @ sd_start_inject_id d @ '' not found in injects'')
         else and_then (map_checked (validate_inject_refs inject_ids team_ids) (sd_injects d))
              (\<lambda>_. and_then (check_no_cycles (sd_injects d)) (\<lambda>_. Inr d)))"

definition model_validate :: "scenario_definition \<Rightarrow> string + scenario_definition" where
  "model_validate d =
     and_then (map_checked validate_team (sd_participant_teams d)) (\<lambda>teams.
     and_then (map_checked validate_node (sd_injects d)) (\<lambda>nodes.
     and_then (normalized_id (sd_start_inject_id d) ''start_inject_id'') (\<lambda>start.
       validate_structure (d\<lparr>sd_participant_teams := teams, sd_injects := nodes,
                             sd_start_inject_id := start\<rparr>))))"

text \<open>The edges of the branch graph: node to node, over options and the linear successor.\<close>

definition graph_edges :: "('a \<times> 'a list) list \<Rightarrow> ('a \<times> 'a) set" where
  "graph_edges g = {(n, s). \<exists>ss. (n, ss) \<in> set g \<and> s \<in> set ss \<and> s \<in> fst ` set g}"

definition branch_edges :: "scenario_definition \<Rightarrow> (string \<times> string) set" where
  "branch_edges d = graph_edges (scenario_graph (sd_injects d))"

text \<open>What a validated document guarantees.\<close>

definition valid_definition :: "scenario_definition \<Rightarrow> bool" where
  "valid_definition d \<longleftrightarrow>
     length (sd_injects d) \<le> MAX_INJECTS \<and>
     distinct (map in_id (sd_injects d)) \<and>
     distinct (map pt_id (sd_participant_teams d)) \<and>
     sd_start_inject_id d \<in> in_id ` set (sd_injects d) \<and>
     (\<forall>n\<in>set (sd_injects d).
        set (in_target_teams n) \<subseteq> pt_id ` set (sd_participant_teams d) \<and>
        distinct (in_target_teams n) \<and>
        distinct (map io_id (in_options n)) \<and>
        set (node_successors n) \<subseteq> in_id ` set (sd_injects d) \<and>
        (\<forall>t\<in>set (in_triggers_communications n).
            0 \<le> tc_delay_after_release_seconds t \<and>
            tc_delay_after_release_seconds t \<le> MAX_TRIGGER_DELAY_SECONDS)) \<and>
     acyclic (branch_edges d)"

section \<open>Lemmas: the cycle check\<close>

lemma peel_unfold_stop: "filter (is_sink g) g = [] \<Longrightarrow> peel g = g"
  by (subst peel.simps) simp

lemma peel_unfold_step:
  "filter (is_sink g) g \<noteq> [] \<Longrightarrow> peel g = peel (filter (\<lambda>e. \<not> is_sink g e) g)"
  by (subst peel.simps) simp

lemma set_peel_subset: "set (peel g) \<subseteq> set g"
proof (induction g rule: peel.induct)
  case (1 g)
  show ?case
  proof (cases "filter (is_sink g) g = []")
    case True
    then show ?thesis by (simp add: peel_unfold_stop)
  next
    case False
    then show ?thesis using "1.IH" [OF False] by (auto simp: peel_unfold_step)
  qed
qed

lemma peel_no_sink: "e \<in> set (peel g) \<Longrightarrow> \<not> is_sink (peel g) e"
proof (induction g rule: peel.induct)
  case (1 g)
  show ?case
  proof (cases "filter (is_sink g) g = []")
    case True
    then show ?thesis using "1.prems" by (auto simp: peel_unfold_stop filter_empty_conv)
  next
    case False
    then show ?thesis using "1.IH" [OF False] "1.prems" by (simp add: peel_unfold_step)
  qed
qed

lemma finite_graph_edges [simp]: "finite (graph_edges g)"
proof (rule finite_subset)
  show "graph_edges g \<subseteq> fst ` set g \<times> fst ` set g"
    by (force simp: graph_edges_def)
qed simp

lemma graph_edges_mono: "set h \<subseteq> set g \<Longrightarrow> graph_edges h \<subseteq> graph_edges g"
  by (fastforce simp: graph_edges_def)

lemma acyclic_peel_Nil:
  assumes "acyclic (graph_edges g)"
  shows "peel g = []"
proof (rule ccontr)
  assume ne: "peel g \<noteq> []"
  let ?E = "graph_edges (peel g)"
  have "acyclic ?E"
    using assms acyclic_subset [OF assms graph_edges_mono [OF set_peel_subset]] by simp
  then have wf: "wf (?E\<inverse>)"
    by (intro finite_acyclic_wf_converse) simp
  have "fst (hd (peel g)) \<in> fst ` set (peel g)" using ne by simp
  then obtain n where n: "n \<in> fst ` set (peel g)"
      and min: "\<And>m. (m, n) \<in> ?E\<inverse> \<Longrightarrow> m \<notin> fst ` set (peel g)"
    using wfE_min [OF wf] by metis
  then obtain ss where e: "(n, ss) \<in> set (peel g)" by auto
  then obtain s where "s \<in> set ss" "s \<in> fst ` set (peel g)"
    using peel_no_sink [OF e] by (auto simp: is_sink_def)
  with e min show False by (auto simp: graph_edges_def)
qed

lemma sink_no_edge:
  assumes "distinct (map fst g)" and "e \<in> set g" and "is_sink g e"
  shows "(fst e, s) \<notin> graph_edges g"
proof
  assume "(fst e, s) \<in> graph_edges g"
  then obtain ss where ss: "(fst e, ss) \<in> set g" "s \<in> set ss" "s \<in> fst ` set g"
    by (auto simp: graph_edges_def)
  have "(fst e, snd e) \<in> set g" using assms(2) by simp
  then have "ss = snd e" using ss(1) assms(1) by (metis eq_key_imp_eq_value)
  with ss assms(3) show False by (auto simp: is_sink_def)
qed

text \<open>A cycle never goes through a node without outgoing edges.\<close>

lemma trancl_avoids_sinks:
  assumes "(x, y) \<in> R\<^sup>+" and "y \<notin> S"
    and "\<And>a b. (a, b) \<in> R \<Longrightarrow> a \<notin> S"
    and "\<And>a b. (a, b) \<in> R \<Longrightarrow> b \<notin> S \<Longrightarrow> (a, b) \<in> R'"
  shows "(x, y) \<in> R'\<^sup>+"
  using assms(1,2)
proof (induction rule: trancl_induct)
  case (base y)
  then show ?case using assms(4) by blast
next
  case (step y z)
  then have "y \<notin> S" using assms(3) by blast
  with step have "(x, y) \<in> R'\<^sup>+" and "(y, z) \<in> R'" using assms(4) by blast+
  then show ?case by (rule trancl_into_trancl)
qed

lemma peel_Nil_acyclic:
  "distinct (map fst g) \<Longrightarrow> peel g = [] \<Longrightarrow> acyclic (graph_edges g)"
proof (induction g rule: peel.induct)
  case (1 g)
  show ?case
  proof (cases "filter (is_sink g) g = []")
    case True
    then have "g = []" using "1.prems"(2) by (simp add: peel_unfold_stop)
    then show ?thesis by (simp add: graph_edges_def acyclic_def)
  next
    case False
    let ?h = "filter (\<lambda>e. \<not> is_sink g e) g"
    let ?S = "fst ` set (filter (is_sink g) g)"
    have dh: "distinct (map fst ?h)" using "1.prems"(1) by (simp add: distinct_map_filter)
    have ac: "acyclic (graph_edges ?h)"
      using "1.IH" [OF False dh] "1.prems"(2) False by (simp add: peel_unfold_step)
    have out: "a \<notin> ?S" if "(a, b) \<in> graph_edges g" for a b
      using that sink_no_edge [OF "1.prems"(1)] by force
    have sub: "(a, b) \<in> graph_edges ?h" if "(a, b) \<in> graph_edges g" "b \<notin> ?S" for a b
    proof -
      from that(1) obtain ss bs where a: "(a, ss) \<in> set g" "b \<in> set ss" "(b, bs) \<in> set g"
        by (auto simp: graph_edges_def)
      have "\<not> is_sink g (a, ss)" using out [OF that(1)] a(1) by force
      moreover have "\<not> is_sink g (b, bs)" using that(2) a(3) by force
      ultimately show ?thesis using a by (force simp: graph_edges_def)
    qed
    show ?thesis
      unfolding acyclic_def
    proof (intro allI notI)
      fix x assume loop: "(x, x) \<in> (graph_edges g)\<^sup>+"
      then obtain b where "(x, b) \<in> graph_edges g" by (meson tranclD)
      then have "x \<notin> ?S" by (rule out)
      then have "(x, x) \<in> (graph_edges ?h)\<^sup>+"
        by (rule trancl_avoids_sinks [OF loop]) (fact out sub)+
      with ac show False by (simp add: acyclic_def)
    qed
  qed
qed

lemma has_cycle_iff:
  "distinct (map fst g) \<Longrightarrow> has_cycle g \<longleftrightarrow> \<not> acyclic (graph_edges g)"
  using acyclic_peel_Nil peel_Nil_acyclic by (auto simp: has_cycle_def)

section \<open>Lemmas: validation\<close>

lemma normalized_id_Inr: "normalized_id v f = Inr n \<longleftrightarrow> n = strip v \<and> n \<noteq> []"
  by (auto simp: normalized_id_def Let_def)

lemma normalized_id_fixed: "normalized_id v f = Inr n \<Longrightarrow> normalized_id n g = Inr n"
  by (auto simp: normalized_id_Inr)

lemma normalize_next_Inr:
  "normalize_next_inject_id f v = Inr n \<longleftrightarrow>
     n = map_option strip v \<and> (\<forall>s. v = Some s \<longrightarrow> strip s \<noteq> [])"
  by (cases v) (auto simp: normalize_next_inject_id_def normalized_id_def Let_def)

lemma normalize_next_fixed:
  "normalize_next_inject_id f v = Inr n \<Longrightarrow> normalize_next_inject_id g n = Inr n"
  by (cases v) (auto simp: normalize_next_Inr)

lemma validate_team_Inr:
  "validate_team t = Inr t' \<longleftrightarrow> strip (pt_id t) \<noteq> [] \<and> t' = t\<lparr>pt_id := strip (pt_id t)\<rparr>"
  by (auto simp: validate_team_def normalized_id_def Let_def)

lemma validate_team_fixed: "validate_team t = Inr t' \<Longrightarrow> validate_team t' = Inr t'"
  by (auto simp: validate_team_Inr)

lemma validate_option_Inr:
  "validate_option t = Inr t' \<longleftrightarrow>
     strip (io_id t) \<noteq> [] \<and> (\<forall>s. io_next_inject_id t = Some s \<longrightarrow> strip s \<noteq> []) \<and>
     t' = t\<lparr>io_id := strip (io_id t),
            io_next_inject_id := map_option strip (io_next_inject_id t)\<rparr>"
  by (cases "io_next_inject_id t")
    (auto simp: validate_option_def normalize_next_inject_id_def normalized_id_def Let_def)

lemma validate_option_fixed: "validate_option t = Inr t' \<Longrightarrow> validate_option t' = Inr t'"
  unfolding validate_option_Inr by (cases "io_next_inject_id t") auto

lemma validate_trigger_Inr: "validate_trigger t = Inr t' \<Longrightarrow> t' = t"
  by (auto simp: validate_trigger_def split: sum.splits)

lemma validate_trigger_delay:
  "validate_trigger t = Inr t' \<Longrightarrow>
     0 \<le> tc_delay_after_release_seconds t' \<and>
     tc_delay_after_release_seconds t' \<le> MAX_TRIGGER_DELAY_SECONDS"
  by (auto simp: validate_trigger_def validate_delay_def split: sum.splits if_splits)

lemma validate_release_Inr: "validate_release_at_minutes v = Inr n \<Longrightarrow> n = v"
  by (auto simp: validate_release_at_minutes_def split: option.splits if_splits)

text \<open>A validator applied along a list is again stable on its own output.\<close>

lemma map_checked_fixed:
  assumes "map_checked f xs = Inr ys" and "\<And>x y. f x = Inr y \<Longrightarrow> f y = Inr y"
  shows "map_checked f ys = Inr ys"
proof (rule map_checked_id)
  fix y assume "y \<in> set ys"
  then show "f y = Inr y"
    using assms by (auto simp: map_checked_Inr_iff list_all2_conv_all_nth in_set_conv_nth)
qed

lemma map_checked_all:
  assumes "map_checked f xs = Inr ys" and "\<And>x y. f x = Inr y \<Longrightarrow> P y" and "y \<in> set ys"
  shows "P y"
  using assms by (auto simp: map_checked_Inr_iff list_all2_conv_all_nth in_set_conv_nth)

lemma normalize_target_teams_Inr:
  "normalize_target_teams ts = Inr us \<Longrightarrow> distinct us"
  by (auto simp: normalize_target_teams_def split: sum.splits if_splits)

lemma normalize_target_teams_fixed:
  assumes "normalize_target_teams ts = Inr us"
  shows "normalize_target_teams us = Inr us"
proof -
  have "map_checked (\<lambda>v. normalized_id v ''target team id'') ts = Inr us"
    using assms by (auto simp: normalize_target_teams_def split: sum.splits if_splits)
  then have "map_checked (\<lambda>v. normalized_id v ''target team id'') us = Inr us"
    by (rule map_checked_fixed) (rule normalized_id_fixed)
  moreover have "distinct us" using assms by (rule normalize_target_teams_Inr)
  ultimately show ?thesis by (simp add: normalize_target_teams_def)
qed

lemma validate_node_Inr:
  assumes "validate_node n = Inr n'"
  shows "distinct (in_target_teams n')"
    and "\<forall>t\<in>set (in_triggers_communications n').
           0 \<le> tc_delay_after_release_seconds t \<and>
           tc_delay_after_release_seconds t \<le> MAX_TRIGGER_DELAY_SECONDS"
    and "validate_node n' = Inr n'"
proof -
  from assms obtain nid teams nx opts trigs rel where
      v: "normalized_id (in_id n) ''inject id'' = Inr nid"
        "normalize_target_teams (in_target_teams n) = Inr teams"
        "normalize_next_inject_id ''inject next_inject_id'' (in_next_inject_id n) = Inr nx"
        "map_checked validate_option (in_options n) = Inr opts"
        "map_checked validate_trigger (in_triggers_communications n) = Inr trigs"
        "validate_release_at_minutes (in_release_at_minutes n) = Inr rel"
    and n': "n' = n\<lparr>in_id := nid, in_target_teams := teams, in_next_inject_id := nx,
              in_options := opts, in_triggers_communications := trigs,
              in_release_at_minutes := rel\<rparr>"
    by (auto simp: validate_node_def)
  show "distinct (in_target_teams n')"
    using v(2) n' by (simp add: normalize_target_teams_Inr)
  have "\<forall>t\<in>set trigs. 0 \<le> tc_delay_after_release_seconds t \<and>
      tc_delay_after_release_seconds t \<le> MAX_TRIGGER_DELAY_SECONDS"
    by (intro ballI) (rule map_checked_all [OF v(5) validate_trigger_delay])
  then show "\<forall>t\<in>set (in_triggers_communications n').
      0 \<le> tc_delay_after_release_seconds t \<and>
      tc_delay_after_release_seconds t \<le> MAX_TRIGGER_DELAY_SECONDS"
    using n' by simp
  have "map_checked validate_trigger trigs = Inr trigs"
    by (rule map_checked_fixed [OF v(5)]) (metis validate_trigger_Inr)
  moreover have "rel = in_release_at_minutes n" using v(6) by (rule validate_release_Inr)
  ultimately show "validate_node n' = Inr n'"
    using v n' map_checked_fixed [OF v(4) validate_option_fixed]
    by (simp add: validate_node_def normalized_id_fixed [OF v(1)]
        normalize_target_teams_fixed [OF v(2)] normalize_next_fixed [OF v(3)])
qed

lemma validate_node_teams:
  assumes "validate_node n = Inr n'"
  shows "\<forall>t\<in>set (in_target_teams n'). strip t = t \<and> t \<noteq> []"
proof -
  from assms obtain nid teams nx opts trigs rel where
      v: "normalize_target_teams (in_target_teams n) = Inr teams"
    and n': "n' = n\<lparr>in_id := nid, in_target_teams := teams, in_next_inject_id := nx,
              in_options := opts, in_triggers_communications := trigs,
              in_release_at_minutes := rel\<rparr>"
    by (auto simp: validate_node_def)
  have "in_target_teams n' = teams" by (simp add: n')
  with v have m: "map_checked (\<lambda>v. normalized_id v ''target team id'') (in_target_teams n) =
      Inr (in_target_teams n')"
    by (simp add: normalize_target_teams_def split: sum.splits if_splits)
  have "normalized_id t ''target team id'' = Inr t" if "t \<in> set (in_target_teams n')" for t
    by (rule map_checked_all [OF m _ that]) (rule normalized_id_fixed)
  then show ?thesis by (auto simp: normalized_id_Inr)
qed

lemma mem_node_successors:
  "s \<in> set (node_successors n) \<longleftrightarrow>
     (\<exists>o1\<in>set (in_options n). io_next_inject_id o1 = Some s) \<or> in_next_inject_id n = Some s"
  by (force simp: node_successors_def split: option.splits)

lemma validate_inject_refs_Inr:
  "validate_inject_refs ids teams n = Inr u \<longleftrightarrow>
     set (in_target_teams n) \<subseteq> teams \<and> set (node_successors n) \<subseteq> ids \<and>
     distinct (map io_id (in_options n))"
  unfolding validate_inject_refs_def subset_iff mem_node_successors
  by (auto split: option.splits)

lemma count_list_le_one: "(\<forall>i\<in>set ids. count_list ids i \<le> 1) \<longleftrightarrow> distinct ids"
proof (induction ids)
  case (Cons a ids)
  have "(\<forall>i\<in>set (a # ids). count_list (a # ids) i \<le> 1) \<longleftrightarrow>
      count_list ids a = 0 \<and> (\<forall>i\<in>set ids. count_list ids i \<le> 1)"
    by (auto simp: count_list_0_iff)
  then show ?case using Cons.IH by (simp add: count_list_0_iff)
qed simp

lemma dupes_Nil_iff: "filter (\<lambda>i. 1 < count_list ids i) ids = [] \<longleftrightarrow> distinct ids"
  by (simp add: filter_empty_conv not_less flip: count_list_le_one)

lemma map_fst_scenario_graph: "map fst (scenario_graph ns) = map in_id ns"
  by (simp add: scenario_graph_def)

lemma check_no_cycles_Inr:
  assumes "distinct (map in_id ns)"
  shows "check_no_cycles ns = Inr u \<longleftrightarrow> acyclic (graph_edges (scenario_graph ns))"
  using has_cycle_iff [of "scenario_graph ns"] assms
  by (simp add: check_no_cycles_def map_fst_scenario_graph)

lemma map_checked_unit:
  "map_checked f xs = Inr us \<Longrightarrow> \<forall>x\<in>set xs. \<exists>u. f x = Inr u"
  by (auto simp: map_checked_Inr_iff list_all2_conv_all_nth in_set_conv_nth)

lemma validate_structure_Inr:
  "validate_structure d = Inr d' \<longleftrightarrow>
     d' = d \<and>
     length (sd_injects d) \<le> MAX_INJECTS \<and>
     distinct (map in_id (sd_injects d)) \<and>
     distinct (map pt_id (sd_participant_teams d)) \<and>
     sd_start_inject_id d \<in> in_id ` set (sd_injects d) \<and>
     (\<forall>n\<in>set (sd_injects d).
        set (in_target_teams n) \<subseteq> pt_id ` set (sd_participant_teams d) \<and>
        set (node_successors n) \<subseteq> in_id ` set (sd_injects d) \<and>
        distinct (map io_id (in_options n))) \<and>
     acyclic (branch_edges d)"
proof (cases "distinct (map in_id (sd_injects d))")
  case False
  then have "filter (\<lambda>i. 1 < count_list (map in_id (sd_injects d)) i) (map in_id (sd_injects d)) \<noteq> []"
    by (simp only: dupes_Nil_iff not_False_eq_True)
  then show ?thesis
    using False by (simp add: validate_structure_def Let_def del: filter_map)
next
  case dist: True
  let ?refs = "\<lambda>n. set (in_target_teams n) \<subseteq> pt_id ` set (sd_participant_teams d) \<and>
        set (node_successors n) \<subseteq> in_id ` set (sd_injects d) \<and>
        distinct (map io_id (in_options n))"
  have dn: "filter (\<lambda>i. 1 < count_list (map in_id (sd_injects d)) i) (map in_id (sd_injects d)) = []"
    using dist by (simp only: dupes_Nil_iff)
  have refs: "(\<exists>us. map_checked (validate_inject_refs (in_id ` set (sd_injects d))
        (pt_id ` set (sd_participant_teams d))) (sd_injects d) = Inr us) \<longleftrightarrow>
      (\<forall>n\<in>set (sd_injects d). ?refs n)" (is "?L \<longleftrightarrow> ?R")
  proof
    assume ?L
    then show ?R using map_checked_unit validate_inject_refs_Inr by metis
  next
    assume ?R
    then have "map_checked (validate_inject_refs (in_id ` set (sd_injects d))
        (pt_id ` set (sd_participant_teams d))) (sd_injects d) =
        Inr (map (\<lambda>_. ()) (sd_injects d))"
      by (simp add: map_checked_Inr_iff list_all2_conv_all_nth validate_inject_refs_Inr)
    then show ?L by blast
  qed
  have "validate_structure d = Inr d' \<longleftrightarrow>
      length (sd_injects d) \<le> MAX_INJECTS \<and> distinct (map pt_id (sd_participant_teams d)) \<and>
      sd_start_inject_id d \<in> in_id ` set (sd_injects d) \<and>
      (\<exists>us. map_checked (validate_inject_refs (in_id ` set (sd_injects d))
        (pt_id ` set (sd_participant_teams d))) (sd_injects d) = Inr us) \<and>
      acyclic (branch_edges d) \<and> d' = d"
    unfolding validate_structure_def Let_def dn
    by (auto simp: check_no_cycles_Inr [OF dist] branch_edges_def)
  then show ?thesis unfolding refs using dist by blast
qed

lemma model_validate_parts:
  assumes "model_validate d = Inr d'"
  shows "validate_structure d' = Inr d'"
    and "map_checked validate_team (sd_participant_teams d') = Inr (sd_participant_teams d')"
    and "map_checked validate_node (sd_injects d') = Inr (sd_injects d')"
    and "normalized_id (sd_start_inject_id d') ''start_inject_id'' = Inr (sd_start_inject_id d')"
proof -
  from assms obtain teams nodes start where
      t: "map_checked validate_team (sd_participant_teams d) = Inr teams"
    and n: "map_checked validate_node (sd_injects d) = Inr nodes"
    and st: "normalized_id (sd_start_inject_id d) ''start_inject_id'' = Inr start"
    and v: "validate_structure (d\<lparr>sd_participant_teams := teams, sd_injects := nodes,
                             sd_start_inject_id := start\<rparr>) = Inr d'"
    by (auto simp: model_validate_def)
  then have d': "d' = d\<lparr>sd_participant_teams := teams, sd_injects := nodes,
                             sd_start_inject_id := start\<rparr>"
    by (simp add: validate_structure_Inr)
  show "validate_structure d' = Inr d'" using v d' by simp
  show "map_checked validate_team (sd_participant_teams d') = Inr (sd_participant_teams d')"
    using d' map_checked_fixed [OF t validate_team_fixed] by simp
  show "map_checked validate_node (sd_injects d') = Inr (sd_injects d')"
    using d' map_checked_fixed [OF n validate_node_Inr(3)] by simp
  show "normalized_id (sd_start_inject_id d') ''start_inject_id'' = Inr (sd_start_inject_id d')"
    using d' normalized_id_fixed [OF st] by simp
qed

lemma model_validate_valid:
  assumes "model_validate d = Inr d'"
  shows "valid_definition d'"
proof -
  note parts = model_validate_parts [OF assms]
  have "\<forall>n\<in>set (sd_injects d'). validate_node n = Inr n"
    using parts(3) by (auto simp: map_checked_Inr_iff list_all2_conv_all_nth in_set_conv_nth)
  then show ?thesis
    using parts(1) validate_node_Inr(1,2)
    by (auto simp: validate_structure_Inr valid_definition_def)
qed

section \<open>A document used by the witnesses\<close>

text \<open>Two teams, a branching opening node with a triggered message, and two leaves.\<close>

definition demo_node :: "string \<Rightarrow> string list \<Rightarrow> inject_option list \<Rightarrow> trigger_comm list \<Rightarrow> inject_node" where
  "demo_node nid teams opts trigs =
     \<lparr>in_id = nid, in_title = nid, in_content = ''body'', in_target_teams = teams,
      in_sequence_order = 0, in_next_inject_id = None, in_options = opts,
      in_free_text_response = False, in_triggers_communications = trigs,
      in_expected_actions = [], in_release_at_minutes = Some 10\<rparr>"

definition demo_trigger :: trigger_comm where
  "demo_trigger = \<lparr>tc_external_entity = ''ICO'', tc_direction = ''inbound'',
     tc_subject = ''s'', tc_body = ''b'', tc_delay_after_release_seconds = 60\<rparr>"

definition demo_definition :: scenario_definition where
  "demo_definition =
     \<lparr>sd_schema_version = ''1.0'', sd_title = ''Demo'', sd_description = None, sd_tags = [],
      sd_metadata = \<lparr>sm_author = None, sm_estimated_duration_minutes = None\<rparr>,
      sd_participant_teams = [\<lparr>pt_id = ''red'', pt_label = ''Red''\<rparr>,
                              \<lparr>pt_id = ''blue'', pt_label = ''Blue''\<rparr>],
      sd_injects = [demo_node ''a'' []
                      [\<lparr>io_id = ''x'', io_label = ''X'', io_next_inject_id = Some ''b''\<rparr>,
                       \<lparr>io_id = ''y'', io_label = ''Y'', io_next_inject_id = Some ''c''\<rparr>]
                      [demo_trigger],
                    demo_node ''b'' [''red''] [] [],
                    demo_node ''c'' [] [] []],
      sd_start_inject_id = ''a'', sd_debrief_notes = None\<rparr>"

section \<open>Properties\<close>

text \<open>A scenario document that passes validation has at most 5000 injects with distinct
  ids, distinct teams, an existing start node, only declared teams and existing successor
  nodes in every inject, distinct options, delays within a day, and no cycle.\<close>

lemma model_validate_sound:
  assumes "model_validate d = Inr d'"
  shows "valid_definition d'"
  using assms by (rule model_validate_valid)

lemma model_validate_sound_witness:
  "model_validate demo_definition = Inr demo_definition \<and> valid_definition demo_definition"
proof -
  have v: "model_validate demo_definition = Inr demo_definition" by code_simp
  show ?thesis using v model_validate_sound [OF v] by simp
qed

text \<open>Validation is a normal form: validating an accepted document again changes nothing,
  so a stored definition parses back to itself on every read.\<close>

lemma model_validate_idem:
  assumes "model_validate d = Inr d'"
  shows "model_validate d' = Inr d'"
  using model_validate_parts [OF assms] by (simp add: model_validate_def)

lemma model_validate_idem_witness:
  "model_validate (demo_definition\<lparr>sd_start_inject_id := '' a ''\<rparr>) = Inr demo_definition \<and>
   model_validate demo_definition = Inr demo_definition"
proof -
  have v: "model_validate (demo_definition\<lparr>sd_start_inject_id := '' a ''\<rparr>) = Inr demo_definition"
    by code_simp
  show ?thesis using v model_validate_idem [OF v] by simp
qed



end
