(* ===== verification/Models.thy ===== *)
theory Models
  imports Scenario_Schema
begin

text \<open>
  The database: one record per SQLModel table of \<^verbatim>\<open>app/models\<close>, with the
  column names kept behind a short prefix, and the record \<open>database\<close> of all tables.

  A row of a table always has its primary key, so ids are plain integers here; the
  \<^verbatim>\<open>id is None\<close> guards of the services are about instances that were never
  flushed and cannot fire on rows read back from a session.  Primary keys come from one
  sequence per table (\<open>nextval\<close>).  \<^verbatim>\<open>Scenario.definition\<close> is the JSON
  dump of a \<^verbatim>\<open>ScenarioDefinition\<close>; the model stores the document it
  encodes and re-validates it on every read, as the code does.  Durations
  (\<^verbatim>\<open>accumulated_pause_seconds\<close>) are kept in microseconds, exactly: float
  rounding is not modelled.
\<close>

section \<open>Enumerations\<close>

datatype user_role = Facilitator | Participant | Observer

datatype exercise_state = Draft | Active | Paused | Completed

datatype snapshot_provenance = ProvPending | ProvExact | ProvUnknown

datatype inject_state = Pending | Released | Resolved

datatype comm_direction = Inbound | Outbound

datatype suggested_status = PendingReview | Approved | Rejected

fun role_value :: "user_role \<Rightarrow> string" where
  "role_value Facilitator = ''facilitator''"
| "role_value Participant = ''participant''"
| "role_value Observer = ''observer''"

fun state_value :: "exercise_state \<Rightarrow> string" where
  "state_value Draft = ''draft''"
| "state_value Active = ''active''"
| "state_value Paused = ''paused''"
| "state_value Completed = ''completed''"

fun inject_state_value :: "inject_state \<Rightarrow> string" where
  "inject_state_value Pending = ''pending''"
| "inject_state_value Released = ''released''"
| "inject_state_value Resolved = ''resolved''"

fun direction_value :: "comm_direction \<Rightarrow> string" where
  "direction_value Inbound = ''inbound''"
| "direction_value Outbound = ''outbound''"

text \<open>\<^verbatim>\<open>UserRole(value)\<close> and \<^verbatim>\<open>CommDirection(value)\<close>:
  \<^verbatim>\<open>ValueError\<close> on an unknown value.\<close>

definition parse_role :: "string \<Rightarrow> exn + user_role" where
  "parse_role v =
     (if v = ''facilitator'' then Inr Facilitator
      else if v = ''participant'' then Inr Participant
      else if v = ''observer'' then Inr Observer
      else Inl (ValueError ''not a valid UserRole''))"

definition parse_direction :: "string \<Rightarrow> exn + comm_direction" where
  "parse_direction v =
     (if v = ''inbound'' then Inr Inbound
      else if v = ''outbound'' then Inr Outbound
      else Inl (ValueError ''not a valid CommDirection''))"

text \<open>An inject only moves forward: pending, released, resolved.\<close>

instantiation inject_state :: linorder
begin

fun inject_rank :: "inject_state \<Rightarrow> nat" where
  "inject_rank Pending = 0"
| "inject_rank Released = 1"
| "inject_rank Resolved = 2"

definition less_eq_inject_state :: "inject_state \<Rightarrow> inject_state \<Rightarrow> bool" where
  "less_eq_inject_state a b = (inject_rank a \<le> inject_rank b)"

definition less_inject_state :: "inject_state \<Rightarrow> inject_state \<Rightarrow> bool" where
  "less_inject_state a b = (inject_rank a < inject_rank b)"

instance
proof
  fix x y :: inject_state
  show "x \<le> y \<Longrightarrow> y \<le> x \<Longrightarrow> x = y"
    by (cases x; cases y) (simp_all add: less_eq_inject_state_def)
qed (auto simp: less_eq_inject_state_def less_inject_state_def)

end

section \<open>The lifecycle state machine\<close>

fun VALID_TRANSITIONS :: "exercise_state \<Rightarrow> exercise_state set" where
  "VALID_TRANSITIONS Draft = {Active}"
| "VALID_TRANSITIONS Active = {Paused, Completed}"
| "VALID_TRANSITIONS Paused = {Active, Completed}"
| "VALID_TRANSITIONS Completed = {}"

text \<open>\<^verbatim>\<open>TRANSITION_ACTIONS[(from, to)]\<close>; a missing key is a
  \<^verbatim>\<open>KeyError\<close>, here \<open>None\<close>.\<close>

fun transition_action :: "exercise_state \<Rightarrow> exercise_state \<Rightarrow> string option" where
  "transition_action Draft Active = Some ''exercise.start''"
| "transition_action Active Paused = Some ''exercise.pause''"
| "transition_action Paused Active = Some ''exercise.resume''"
| "transition_action Active Completed = Some ''exercise.complete''"
| "transition_action Paused Completed = Some ''exercise.complete''"
| "transition_action _ _ = None"

section \<open>Tables\<close>

record user =
  u_id :: int
  u_email :: string
  u_display_name :: string
  u_hashed_password :: "string option"
  u_role :: user_role
  u_team :: "string option"
  u_is_active :: bool
  u_is_admin :: bool
  u_must_change_password :: bool
  u_created_at :: instant
  u_token_valid_after :: "instant option"
  u_auth_provider :: string
  u_subject :: "string option"
  u_auth_tenant :: "string option"
  u_role_managed_by_idp :: bool

text \<open>The user of a request: a row plus the attributes \<^verbatim>\<open>apply_role_preview\<close>
  stamps on the instance (absent on a plain row).\<close>

record current_user = user +
  actual_role :: "user_role option"
  actual_team :: "string option option"
  can_switch_roles :: "bool option"

record scenario =
  sc_id :: int
  sc_title :: string
  sc_description :: "string option"
  sc_version :: string
  sc_tags :: "string list option"
  sc_definition :: scenario_definition
  sc_created_by :: int
  sc_created_at :: instant
  sc_updated_at :: instant

record exercise =
  ex_id :: int
  ex_scenario_id :: int
  ex_title :: string
  ex_state :: exercise_state
  ex_current_node_id :: "string option"
  ex_llm_enabled :: bool
  ex_launch_provenance :: snapshot_provenance
  ex_launch_snapshot_digest :: "string option"
  ex_debrief_notes :: "string option"
  ex_started_at :: "instant option"
  ex_ended_at :: "instant option"
  ex_paused_at :: "instant option"
  ex_accumulated_pause :: int
  ex_created_by :: int
  ex_created_at :: instant

record exercise_member =
  em_id :: int
  em_exercise_id :: int
  em_user_id :: int
  em_group_id :: "string option"
  em_role_at_enrolment :: user_role
  em_created_during_run :: "bool option"
  em_joined_at :: instant

record state_transition =
  st_id :: int
  st_exercise_id :: int
  st_from_state :: exercise_state
  st_to_state :: exercise_state
  st_actor_id :: "int option"
  st_transitioned_at :: instant

record exercise_progress =
  ep_id :: int
  ep_exercise_id :: int
  ep_group_id :: "string option"
  ep_current_node_id :: "string option"
  ep_current_inject_id :: "int option"
  ep_advanced_at :: instant
  ep_advanced_by :: "int option"

record inject =
  ij_id :: int
  ij_exercise_id :: int
  ij_scenario_node_id :: "string option"
  ij_title :: string
  ij_content :: string
  ij_target_teams :: "string list option"
  ij_group_id :: "string option"
  ij_sequence_order :: int
  ij_release_offset_minutes :: "int option"
  ij_state :: inject_state
  ij_released_at :: "instant option"
  ij_released_by :: "int option"
  ij_resolved_at :: "instant option"
  ij_resolved_by :: "int option"
  ij_resolution_reason :: "string option"
  ij_attachment_filename :: "string option"
  ij_attachment_content_type :: "string option"
  ij_attachment_path :: "string option"
  ij_attachment_size :: "int option"
  ij_attachment_sha256 :: "string option"
  ij_created_during_run :: "bool option"

record inject_progress =
  ip_id :: int
  ip_exercise_id :: int
  ip_inject_id :: int
  ip_group_id :: "string option"
  ip_state :: inject_state
  ip_resolved_at :: "instant option"
  ip_resolved_by :: "int option"
  ip_resolution_reason :: "string option"

record response =
  rs_id :: int
  rs_inject_id :: int
  rs_exercise_id :: int
  rs_user_id :: int
  rs_group_id :: "string option"
  rs_content :: string
  rs_selected_option :: "string option"
  rs_submitted_at :: instant
  rs_assessment_id :: "int option"

record communication =
  cm_id :: int
  cm_exercise_id :: int
  cm_sender_id :: "int option"
  cm_sender_team :: "string option"
  cm_direction :: comm_direction
  cm_external_entity :: "string option"
  cm_subject :: string
  cm_body :: string
  cm_triggered_by_inject_id :: "int option"
  cm_trigger_key :: "string option"
  cm_visible_to_teams :: "string list option"
  cm_created_during_run :: "bool option"
  cm_sent_at :: instant

record communication_read =
  cr_communication_id :: int
  cr_user_id :: int
  cr_read_at :: instant

record inject_comment =
  ic_id :: int
  ic_inject_id :: int
  ic_exercise_id :: int
  ic_user_id :: int
  ic_group_id :: "string option"
  ic_content :: string
  ic_created_at :: instant

record suggested_inject =
  sj_id :: int
  sj_exercise_id :: int
  sj_triggered_by_response_id :: int
  sj_title :: string
  sj_content :: string
  sj_target_teams :: "string list option"
  sj_llm_model :: string
  sj_status :: suggested_status
  sj_reviewed_by :: "int option"
  sj_reviewed_at :: "instant option"
  sj_generated_at :: instant

record response_assessment =
  ra_id :: int
  ra_response_id :: int
  ra_llm_model :: string
  ra_assessment_text :: string
  ra_decision_quality :: "string option"
  ra_recommended_branch_option_id :: "string option"
  ra_assessed_at :: instant

record executive_summary =
  es_id :: int
  es_exercise_id :: int
  es_summary_text :: string
  es_llm_model :: string
  es_generated_at :: instant
  es_edited :: bool

datatype token_purpose = PasswordReset | Invite

record auth_token =
  tk_id :: int
  tk_token_hash :: string
  tk_purpose :: token_purpose
  tk_email :: string
  tk_user_id :: "int option"
  tk_team :: "string option"
  tk_exercise_id :: "int option"
  tk_expires_at :: instant
  tk_used_at :: "instant option"
  tk_created_at :: instant

record audit_event =
  ae_id :: int
  ae_created_at :: instant
  ae_request_id :: "string option"
  ae_source_ip :: "string option"
  ae_method :: "string option"
  ae_path :: "string option"
  ae_action :: string
  ae_result :: string
  ae_actor_id :: "int option"
  ae_actor_email :: "string option"
  ae_actor_role :: "string option"
  ae_target_type :: "string option"
  ae_target_id :: "string option"
  ae_reason :: "string option"
  ae_severity :: string
  ae_security_relevant :: bool

text \<open>The JSON content of a launch snapshot.\<close>

record launch_inject =
  li_scenario_node_id :: "string option"
  li_title :: string
  li_content :: string
  li_target_teams :: "string list"
  li_group_id :: "string option"
  li_sequence_order :: int
  li_release_offset_minutes :: "int option"
  li_attachment :: "(string option \<times> string option \<times> int \<times> string) option"

record launch_communication =
  lm_direction :: string
  lm_sender_id :: "int option"
  lm_sender_team :: "string option"
  lm_external_entity :: "string option"
  lm_subject :: string
  lm_body :: string
  lm_visible_to_teams :: "string list"
  lm_sent_at :: instant

record launch_content =
  lc_schema_version :: string
  lc_scenario_version :: string
  lc_definition :: scenario_definition
  lc_title :: string
  lc_llm_enabled :: bool
  lc_injects :: "launch_inject list"
  lc_members :: "(int \<times> string option \<times> string) list"
  lc_communications :: "launch_communication list"

record launch_snapshot =
  ls_digest :: string
  ls_schema_version :: string
  ls_content :: launch_content
  ls_created_at :: instant

text \<open>A row of \<^verbatim>\<open>procrastinate_jobs\<close>: the task with its JSON arguments.\<close>

datatype job_call =
    ReleaseInject int int
  | DeliverComm int int string nat
  | AssessResponse int int int
  | GenerateSummary int

datatype job_status = Todo | Doing | Succeeded | Failed

record job =
  jb_call :: job_call
  jb_scheduled_at :: "instant option"
  jb_queueing_lock :: "string option"
  jb_status :: job_status

datatype table = TExercise | TMember | TTransition | TCursor | TInject | TResolution
  | TResponse | TCommunication | TComment | TScenario | TSuggested | TAssessment | TUser
  | TSummary | TAuthToken

record database =
  users :: "user list"
  scenarios :: "scenario list"
  exercises :: "exercise list"
  members :: "exercise_member list"
  transitions :: "state_transition list"
  cursors :: "exercise_progress list"
  injects :: "inject list"
  resolutions :: "inject_progress list"
  responses :: "response list"
  communications :: "communication list"
  reads :: "communication_read list"
  comments :: "inject_comment list"
  suggestions :: "suggested_inject list"
  assessments :: "response_assessment list"
  summaries :: "executive_summary list"
  snapshots :: "launch_snapshot list"
  auth_tokens :: "auth_token list"
  audit_events :: "audit_event list"
  jobs :: "job list"
  sequences :: "table \<Rightarrow> int"

definition nextval :: "table \<Rightarrow> database \<Rightarrow> int" where
  "nextval t d = sequences d t"

definition bump :: "table \<Rightarrow> database \<Rightarrow> database" where
  "bump t d = d\<lparr>sequences := (sequences d)(t := sequences d t + 1)\<rparr>"

definition empty_database :: database where
  "empty_database =
     \<lparr>users = [], scenarios = [], exercises = [], members = [], transitions = [],
      cursors = [], injects = [], resolutions = [], responses = [], communications = [],
      reads = [], comments = [], suggestions = [], assessments = [], summaries = [], snapshots = [],
      auth_tokens = [], audit_events = [], jobs = [], sequences = (\<lambda>_. 1)\<rparr>"

text \<open>The primary-key reads of a session.\<close>

definition get_exercise :: "database \<Rightarrow> int \<Rightarrow> exercise option" where
  "get_exercise d i = get_row ex_id i (exercises d)"

definition get_inject :: "database \<Rightarrow> int \<Rightarrow> inject option" where
  "get_inject d i = get_row ij_id i (injects d)"

definition get_scenario :: "database \<Rightarrow> int \<Rightarrow> scenario option" where
  "get_scenario d i = get_row sc_id i (scenarios d)"

definition get_user :: "database \<Rightarrow> int \<Rightarrow> user option" where
  "get_user d i = get_row u_id i (users d)"

definition get_communication :: "database \<Rightarrow> int \<Rightarrow> communication option" where
  "get_communication d i = get_row cm_id i (communications d)"

definition get_response :: "database \<Rightarrow> int \<Rightarrow> response option" where
  "get_response d i = get_row rs_id i (responses d)"

definition get_transition :: "database \<Rightarrow> int \<Rightarrow> state_transition option" where
  "get_transition d i = get_row st_id i (transitions d)"

definition get_comment :: "database \<Rightarrow> int \<Rightarrow> inject_comment option" where
  "get_comment d i = get_row ic_id i (comments d)"

definition get_snapshot :: "database \<Rightarrow> string \<Rightarrow> launch_snapshot option" where
  "get_snapshot d i = get_row ls_digest i (snapshots d)"

definition get_suggestion :: "database \<Rightarrow> int \<Rightarrow> suggested_inject option" where
  "get_suggestion d i = get_row sj_id i (suggestions d)"

definition get_assessment :: "database \<Rightarrow> int \<Rightarrow> response_assessment option" where
  "get_assessment d i = get_row ra_id i (assessments d)"

definition get_summary :: "database \<Rightarrow> int \<Rightarrow> executive_summary option" where
  "get_summary d i = get_row es_id i (summaries d)"

lemmas get_defs = get_exercise_def get_inject_def get_scenario_def get_user_def
  get_communication_def get_response_def get_transition_def get_comment_def get_snapshot_def
  get_suggestion_def get_assessment_def get_summary_def

section \<open>Lemmas\<close>

lemma role_value_inj: "role_value a = role_value b \<longleftrightarrow> a = b"
  by (cases a; cases b) auto

lemma state_value_inj: "state_value a = state_value b \<longleftrightarrow> a = b"
  by (cases a; cases b) auto

lemma parse_role_value [simp]: "parse_role (role_value r) = Inr r"
  by (cases r) (auto simp: parse_role_def)

lemma parse_direction_value [simp]: "parse_direction (direction_value r) = Inr r"
  by (cases r) (auto simp: parse_direction_def)

lemma transition_action_defined:
  "transition_action a b \<noteq> None \<longleftrightarrow> b \<in> VALID_TRANSITIONS a"
  by (cases a; cases b) auto

lemma bump_tables [simp]:
  "users (bump t d) = users d" "scenarios (bump t d) = scenarios d"
  "exercises (bump t d) = exercises d" "members (bump t d) = members d"
  "transitions (bump t d) = transitions d" "cursors (bump t d) = cursors d"
  "injects (bump t d) = injects d" "resolutions (bump t d) = resolutions d"
  "responses (bump t d) = responses d" "communications (bump t d) = communications d"
  "reads (bump t d) = reads d" "comments (bump t d) = comments d"
  "suggestions (bump t d) = suggestions d" "assessments (bump t d) = assessments d"
  "summaries (bump t d) = summaries d"
  "snapshots (bump t d) = snapshots d" "auth_tokens (bump t d) = auth_tokens d"
  "audit_events (bump t d) = audit_events d" "jobs (bump t d) = jobs d"
  by (simp_all add: bump_def)

lemma sequences_bump [simp]: "sequences (bump t d) = (sequences d)(t := sequences d t + 1)"
  by (simp add: bump_def)

end
