(* ===== verification/Domain_Events.thy ===== *)
theory Domain_Events
  imports Models
begin

text \<open>
  Sessions, transactions and post-commit domain events
  (\<^verbatim>\<open>app/services/domain_events.py\<close>, \<^verbatim>\<open>app/services/pg_bus.py\<close>).

  A \<open>session\<close> holds the tables as its statements see them (\<open>db\<close>), the tables
  of the last commit (\<open>committed\<close>), the event buffer (\<open>pending\<close>,
  \<open>ready\<close> for \<^verbatim>\<open>_Buffer.committed\<close>), the descriptors Postgres has
  delivered on the event channel (\<open>notified\<close>) and the events handed to the local
  subscribers together with the tables those subscribers read (\<open>dispatched\<close>).

  The SQLAlchemy hooks \<^verbatim>\<open>before_commit\<close>, \<^verbatim>\<open>after_commit\<close> and
  \<^verbatim>\<open>after_soft_rollback\<close> run inside \<open>commit\<close> and \<open>rollback\<close>.
  Row locks have no effect on one session's result; what a concurrent session may have
  changed is modelled by letting an operation's row argument differ from the row in
  \<open>db\<close>.
\<close>

section \<open>Events and descriptors\<close>

datatype domain_event =
    ExerciseStateChanged int int string
  | InjectReleased int int
  | InjectUpdated int int
  | InjectCommentCreated int int
  | ResponseSubmitted int int
  | CommunicationCreated int int
  | ResponseAssessed int int int
  | InjectSuggested int int
  | SummaryGenerated int int

datatype event_type = TyExerciseStateChanged | TyInjectReleased | TyInjectUpdated
  | TyInjectCommentCreated | TyResponseSubmitted | TyCommunicationCreated
  | TyResponseAssessed | TyInjectSuggested | TySummaryGenerated

datatype json = JInt int | JStr string

type_synonym descriptor = "(string \<times> json) list"

fun event_type_of :: "domain_event \<Rightarrow> event_type" where
  "event_type_of (ExerciseStateChanged _ _ _) = TyExerciseStateChanged"
| "event_type_of (InjectReleased _ _) = TyInjectReleased"
| "event_type_of (InjectUpdated _ _) = TyInjectUpdated"
| "event_type_of (InjectCommentCreated _ _) = TyInjectCommentCreated"
| "event_type_of (ResponseSubmitted _ _) = TyResponseSubmitted"
| "event_type_of (CommunicationCreated _ _) = TyCommunicationCreated"
| "event_type_of (ResponseAssessed _ _ _) = TyResponseAssessed"
| "event_type_of (InjectSuggested _ _) = TyInjectSuggested"
| "event_type_of (SummaryGenerated _ _) = TySummaryGenerated"

fun event_exercise :: "domain_event \<Rightarrow> int" where
  "event_exercise (ExerciseStateChanged e _ _) = e"
| "event_exercise (InjectReleased e _) = e"
| "event_exercise (InjectUpdated e _) = e"
| "event_exercise (InjectCommentCreated e _) = e"
| "event_exercise (ResponseSubmitted e _) = e"
| "event_exercise (CommunicationCreated e _) = e"
| "event_exercise (ResponseAssessed e _ _) = e"
| "event_exercise (InjectSuggested e _) = e"
| "event_exercise (SummaryGenerated e _) = e"

fun EVENT_NAMES :: "event_type \<Rightarrow> string" where
  "EVENT_NAMES TyExerciseStateChanged = ''exercise_state_changed''"
| "EVENT_NAMES TyInjectReleased = ''inject_released''"
| "EVENT_NAMES TyInjectUpdated = ''inject_updated''"
| "EVENT_NAMES TyInjectCommentCreated = ''inject_comment_created''"
| "EVENT_NAMES TyResponseSubmitted = ''response_submitted''"
| "EVENT_NAMES TyCommunicationCreated = ''communication_created''"
| "EVENT_NAMES TyResponseAssessed = ''response_assessed''"
| "EVENT_NAMES TyInjectSuggested = ''inject_suggested''"
| "EVENT_NAMES TySummaryGenerated = ''summary_generated''"

definition all_event_types :: "event_type list" where
  "all_event_types = [TyExerciseStateChanged, TyInjectReleased, TyInjectUpdated,
     TyInjectCommentCreated, TyResponseSubmitted, TyCommunicationCreated,
     TyResponseAssessed, TyInjectSuggested, TySummaryGenerated]"

text \<open>\<^verbatim>\<open>_EVENTS_BY_NAME\<close>: the inverse dict.\<close>

definition events_by_name :: "string \<Rightarrow> event_type option" where
  "events_by_name = dict_of (map (\<lambda>t. (EVENT_NAMES t, t)) all_event_types)"

text \<open>\<^verbatim>\<open>dataclasses.fields\<close>: inherited fields first.\<close>

fun field_names :: "event_type \<Rightarrow> string list" where
  "field_names TyExerciseStateChanged = [''exercise_id'', ''transition_id'', ''action'']"
| "field_names TyInjectReleased = [''exercise_id'', ''inject_id'']"
| "field_names TyInjectUpdated = [''exercise_id'', ''inject_id'']"
| "field_names TyInjectCommentCreated = [''exercise_id'', ''comment_id'']"
| "field_names TyResponseSubmitted = [''exercise_id'', ''response_id'']"
| "field_names TyCommunicationCreated = [''exercise_id'', ''communication_id'']"
| "field_names TyResponseAssessed = [''exercise_id'', ''response_id'', ''assessment_id'']"
| "field_names TyInjectSuggested = [''exercise_id'', ''suggested_id'']"
| "field_names TySummaryGenerated = [''exercise_id'', ''summary_id'']"

fun field_values :: "domain_event \<Rightarrow> json list" where
  "field_values (ExerciseStateChanged e t a) = [JInt e, JInt t, JStr a]"
| "field_values (InjectReleased e i) = [JInt e, JInt i]"
| "field_values (InjectUpdated e i) = [JInt e, JInt i]"
| "field_values (InjectCommentCreated e i) = [JInt e, JInt i]"
| "field_values (ResponseSubmitted e i) = [JInt e, JInt i]"
| "field_values (CommunicationCreated e i) = [JInt e, JInt i]"
| "field_values (ResponseAssessed e r a) = [JInt e, JInt r, JInt a]"
| "field_values (InjectSuggested e i) = [JInt e, JInt i]"
| "field_values (SummaryGenerated e i) = [JInt e, JInt i]"

definition asdict :: "domain_event \<Rightarrow> descriptor" where
  "asdict ev = zip (field_names (event_type_of ev)) (field_values ev)"

text \<open>\<^verbatim>\<open>pg_bus\<close>: the envelope, the origin test, the size-limited encoding and the
  version check of a received payload.  \<open>json_dumps\<close> is \<^verbatim>\<open>json.dumps\<close> of a
  flat object with compact separators; its output is ASCII, one byte per character.\<close>

definition PAYLOAD_LIMIT_BYTES :: nat where "PAYLOAD_LIMIT_BYTES = 7000"

definition envelope :: "string \<Rightarrow> descriptor \<Rightarrow> descriptor" where
  "envelope orig flds = (''v'', JInt 1) # (''origin'', JStr orig) # flds"

definition is_own :: "string \<Rightarrow> descriptor \<Rightarrow> bool" where
  "is_own orig d = (map_of d ''origin'' = Some (JStr orig))"

definition hex_digit :: "nat \<Rightarrow> char" where
  "hex_digit n = (if n < 10 then char_of (48 + n) else char_of (87 + n))"

definition below_space :: "char \<Rightarrow> bool" where
  "below_space c \<longleftrightarrow> (of_char c :: nat) < 32"

definition above_tilde :: "char \<Rightarrow> bool" where
  "above_tilde c \<longleftrightarrow> 126 < (of_char c :: nat)"

text \<open>The same tests on the bits of a character, for evaluation.\<close>

lemma below_space_code [code]:
  "below_space (Char b0 b1 b2 b3 b4 b5 b6 b7) \<longleftrightarrow> \<not> b5 \<and> \<not> b6 \<and> \<not> b7"
  by (cases b0; cases b1; cases b2; cases b3; cases b4; cases b5; cases b6; cases b7)
    (simp_all add: below_space_def)

lemma above_tilde_code [code]:
  "above_tilde (Char b0 b1 b2 b3 b4 b5 b6 b7) \<longleftrightarrow>
     b7 \<or> (b0 \<and> b1 \<and> b2 \<and> b3 \<and> b4 \<and> b5 \<and> b6)"
  by (cases b0; cases b1; cases b2; cases b3; cases b4; cases b5; cases b6; cases b7)
    (simp_all add: above_tilde_def)

definition unicode_escape :: "char \<Rightarrow> string" where
  "unicode_escape c =
     (let n = (of_char c :: nat)
      in [CHR 0x5C, CHR ''u'', CHR ''0'', CHR ''0'', hex_digit (n div 16), hex_digit (n mod 16)])"

text \<open>The two-character escapes of JSON.\<close>

definition short_escape :: "char \<Rightarrow> char option" where
  "short_escape c =
     map_of [(CHR 0x22, CHR 0x22), (CHR 0x5C, CHR 0x5C), (CHR 0x0A, CHR ''n''),
             (CHR 0x0D, CHR ''r''), (CHR 0x09, CHR ''t''), (CHR 0x08, CHR ''b''),
             (CHR 0x0C, CHR ''f'')] c"

definition json_char :: "char \<Rightarrow> string" where
  "json_char c =
     (case short_escape c of
        Some e \<Rightarrow> [CHR 0x5C, e]
      | None \<Rightarrow> if below_space c \<or> above_tilde c then unicode_escape c else [c])"

definition json_string :: "string \<Rightarrow> string" where
  "json_string s = CHR 0x22 # concat (map json_char s) @ [CHR 0x22]"

fun json_value :: "json \<Rightarrow> string" where
  "json_value (JInt i) = show_int i"
| "json_value (JStr s) = json_string s"

fun json_members :: "descriptor \<Rightarrow> string" where
  "json_members [] = []"
| "json_members [(k, v)] = json_string k @ '':'' @ json_value v"
| "json_members ((k, v) # kvs) = json_string k @ '':'' @ json_value v @ '','' @ json_members kvs"

definition json_dumps :: "descriptor \<Rightarrow> string" where
  "json_dumps d = ''{'' @ json_members d @ ''}''"

definition encode :: "descriptor \<Rightarrow> string + string" where
  "encode d =
     (let body = json_dumps d
      in if PAYLOAD_LIMIT_BYTES < length body
         then Inl ''NOTIFY payload is over the bus limit'' else Inr body)"

text \<open>\<^verbatim>\<open>decode\<close> after \<^verbatim>\<open>json.loads\<close> has produced an object.\<close>

definition accept_version :: "descriptor \<Rightarrow> descriptor option" where
  "accept_version d = (if map_of d ''v'' \<noteq> Some (JInt 1) then None else Some d)"

definition to_descriptor :: "string \<Rightarrow> domain_event \<Rightarrow> descriptor" where
  "to_descriptor orig ev =
     envelope orig ((''event'', JStr (EVENT_NAMES (event_type_of ev))) # asdict ev)"

text \<open>The instance \<^verbatim>\<open>cls(**{...})\<close>: its class and its fields, which Python does
  not type-check.\<close>

fun read_fields :: "descriptor \<Rightarrow> string list \<Rightarrow> descriptor option" where
  "read_fields d [] = Some []"
| "read_fields d (f # fs) =
     (case map_of d f of None \<Rightarrow> None
      | Some v \<Rightarrow> (case read_fields d fs of None \<Rightarrow> None | Some r \<Rightarrow> Some ((f, v) # r)))"

definition from_descriptor :: "descriptor \<Rightarrow> (event_type \<times> descriptor) option" where
  "from_descriptor d =
     (case map_of d ''event'' of
        Some (JStr name) \<Rightarrow>
          (case events_by_name name of None \<Rightarrow> None
           | Some ty \<Rightarrow> (case read_fields d (field_names ty) of None \<Rightarrow> None
                         | Some fs \<Rightarrow> Some (ty, fs)))
      | _ \<Rightarrow> None)"

section \<open>Sessions\<close>

record session =
  db :: database
  committed :: database
  in_transaction :: bool
  pending :: "domain_event list"
  ready :: "domain_event list"
  origin :: string
  notified :: "descriptor list"
  dispatched :: "(database \<times> domain_event) list"

definition execute :: "(database \<Rightarrow> database) \<Rightarrow> session \<Rightarrow> session" where
  "execute f s = s\<lparr>db := f (db s), in_transaction := True\<rparr>"

definition record_event :: "domain_event \<Rightarrow> session \<Rightarrow> (exn + unit) \<times> session" where
  "record_event ev s =
     (if \<not> in_transaction s
      then (Inl (RuntimeError ''event was recorded with no transaction open''), s)
      else (Inr (), s\<lparr>pending := pending s @ [ev]\<rparr>))"

definition publish_on_commit :: "session \<Rightarrow> descriptor list" where
  "publish_on_commit s =
     filter (\<lambda>d. is_ok (encode d)) (map (to_descriptor (origin s)) (pending s))"

definition commit :: "session \<Rightarrow> session" where
  "commit s = s\<lparr>committed := db s, in_transaction := False,
                notified := notified s @ publish_on_commit s,
                ready := ready s @ pending s, pending := []\<rparr>"

definition rollback :: "session \<Rightarrow> session" where
  "rollback s = s\<lparr>db := committed s, in_transaction := False, pending := []\<rparr>"

definition dispatch :: "session \<Rightarrow> session" where
  "dispatch s = s\<lparr>ready := [],
                  dispatched := dispatched s @ map (\<lambda>ev. (db s, ev)) (ready s)\<rparr>"

text \<open>The end of a request: \<^verbatim>\<open>get_session\<close> drains what a handler forgot, then
  closing the session rolls back what was not committed.\<close>

definition close_session :: "session \<Rightarrow> session" where
  "close_session s = rollback (if ready s \<noteq> [] then dispatch s else s)"

definition open_session :: "string \<Rightarrow> database \<Rightarrow> session" where
  "open_session name d =
     \<lparr>db = d, committed = d, in_transaction = False, pending = [], ready = [],
      origin = name, notified = [], dispatched = []\<rparr>"

definition fresh :: "session \<Rightarrow> bool" where
  "fresh s \<longleftrightarrow> db s = committed s \<and> pending s = [] \<and> ready s = []"

section \<open>Subscribers\<close>

text \<open>The registry and \<^verbatim>\<open>project\<close>.  A handler is run in the world \<open>'w\<close> of
  sockets; it may raise, having done part of its work.\<close>

record 'h registry =
  subscribers :: "event_type \<Rightarrow> 'h list"
  local_only :: "'h list"

definition subscribe :: "event_type \<Rightarrow> 'h \<Rightarrow> 'h registry \<Rightarrow> 'h registry" where
  "subscribe ty h r =
     r\<lparr>subscribers := (subscribers r)(ty := subscribers r ty @ [h])\<rparr>"

definition subscribe_local :: "event_type \<Rightarrow> 'h \<Rightarrow> 'h registry \<Rightarrow> 'h registry" where
  "subscribe_local ty h r =
     r\<lparr>subscribers := (subscribers r)(ty := subscribers r ty @ [h]),
       local_only := (if h \<in> set (local_only r) then local_only r else local_only r @ [h])\<rparr>"

definition handlers_for :: "'h registry \<Rightarrow> bool \<Rightarrow> event_type \<Rightarrow> 'h list" where
  "handlers_for r is_local ty =
     filter (\<lambda>h. \<not> (\<not> is_local \<and> h \<in> set (local_only r))) (subscribers r ty)"

fun run_handlers :: "('h \<Rightarrow> 'w \<Rightarrow> (exn + unit) \<times> 'w) \<Rightarrow> 'h list \<Rightarrow> 'w \<Rightarrow> 'w" where
  "run_handlers run [] w = w"
| "run_handlers run (h # hs) w =
     (case run h w of (Inl e, w') \<Rightarrow> run_handlers run hs w'
      | (Inr u, w') \<Rightarrow> run_handlers run hs w')"

definition project ::
  "('h \<Rightarrow> domain_event \<Rightarrow> 'w \<Rightarrow> (exn + unit) \<times> 'w) \<Rightarrow> 'h registry \<Rightarrow> bool \<Rightarrow>
     domain_event \<Rightarrow> 'w \<Rightarrow> 'w" where
  "project run r is_local ev =
     run_handlers (\<lambda>h. run h ev) (handlers_for r is_local (event_type_of ev))"

section \<open>The steps of a session\<close>

datatype session_step = Write "database \<Rightarrow> database" | Record domain_event
  | Commit | Rollback | Dispatch

fun session_do :: "session_step \<Rightarrow> session \<Rightarrow> session" where
  "session_do (Write f) s = execute f s"
| "session_do (Record ev) s = snd (record_event ev s)"
| "session_do Commit s = commit s"
| "session_do Rollback s = rollback s"
| "session_do Dispatch s = dispatch s"

text \<open>The promise, stated without buffers: the events of the steps so far whose transaction
  committed, in the order they were recorded.  The state is the open transaction's flag and
  events, and the durable events.\<close>

fun durable_step :: "session_step \<Rightarrow> bool \<times> domain_event list \<times> domain_event list \<Rightarrow>
    bool \<times> domain_event list \<times> domain_event list" where
  "durable_step (Write f) (tx, opened, done1) = (True, opened, done1)"
| "durable_step (Record ev) (tx, opened, done1) =
     (tx, (if tx then opened @ [ev] else opened), done1)"
| "durable_step Commit (tx, opened, done1) = (False, [], done1 @ opened)"
| "durable_step Rollback (tx, opened, done1) = (False, [], done1)"
| "durable_step Dispatch (tx, opened, done1) = (tx, opened, done1)"

definition durable_events :: "session_step list \<Rightarrow> domain_event list" where
  "durable_events steps = snd (snd (fold durable_step steps (False, [], [])))"

section \<open>Lemmas\<close>

lemma session_fields [simp]:
  "db (execute f s) = f (db s)" "committed (execute f s) = committed s"
  "in_transaction (execute f s)" "pending (execute f s) = pending s"
  "ready (execute f s) = ready s" "origin (execute f s) = origin s"
  "notified (execute f s) = notified s" "dispatched (execute f s) = dispatched s"
  by (simp_all add: execute_def)

lemma commit_fields [simp]:
  "db (commit s) = db s" "committed (commit s) = db s" "pending (commit s) = []"
  "ready (commit s) = ready s @ pending s" "origin (commit s) = origin s"
  "notified (commit s) = notified s @ publish_on_commit s"
  "dispatched (commit s) = dispatched s"
  by (simp_all add: commit_def)

lemma rollback_fields [simp]:
  "db (rollback s) = committed s" "committed (rollback s) = committed s"
  "pending (rollback s) = []" "ready (rollback s) = ready s" "origin (rollback s) = origin s"
  "notified (rollback s) = notified s" "dispatched (rollback s) = dispatched s"
  by (simp_all add: rollback_def)

lemma dispatch_fields [simp]:
  "db (dispatch s) = db s" "committed (dispatch s) = committed s"
  "pending (dispatch s) = pending s" "ready (dispatch s) = []" "origin (dispatch s) = origin s"
  "notified (dispatch s) = notified s"
  "dispatched (dispatch s) = dispatched s @ map (\<lambda>ev. (db s, ev)) (ready s)"
  by (simp_all add: dispatch_def)

lemma record_event_open [simp]:
  "in_transaction s \<Longrightarrow> record_event ev s = (Inr (), s\<lparr>pending := pending s @ [ev]\<rparr>)"
  by (simp add: record_event_def)

lemma publish_on_commit_execute [simp]: "publish_on_commit (execute f s) = publish_on_commit s"
  by (simp add: publish_on_commit_def)

lemma events_by_name_name [simp]: "events_by_name (EVENT_NAMES t) = Some t"
  by (cases t) (simp_all add: events_by_name_def dict_of_def all_event_types_def)

lemma length_field_values: "length (field_values ev) = length (field_names (event_type_of ev))"
  by (cases ev) auto

lemma asdict_inj: "event_type_of a = event_type_of b \<Longrightarrow> asdict a = asdict b \<Longrightarrow> a = b"
  by (cases a; cases b) (auto simp: asdict_def)

lemma run_handlers_all:
  assumes "\<And>h w. h \<in> set hs \<Longrightarrow> log (snd (run h w)) = log w @ [h]"
  shows "log (run_handlers run hs w) = log w @ hs"
  using assms
proof (induction hs arbitrary: w)
  case (Cons h hs)
  obtain r w' where r: "run h w = (r, w')" by (cases "run h w")
  then have "log w' = log w @ [h]" using Cons.prems [of h w] by simp
  then show ?case using Cons r by (cases r) simp_all
qed simp

definition session_view :: "session \<Rightarrow> bool \<times> domain_event list \<times> domain_event list" where
  "session_view s = (in_transaction s, pending s, map snd (dispatched s) @ ready s)"

lemma session_tracks:
  "session_view (fold session_do steps s) = fold durable_step steps (session_view s)"
proof (induction steps arbitrary: s)
  case (Cons a steps)
  have "session_view (session_do a s) = durable_step a (session_view s)"
    by (cases a) (auto simp: session_view_def record_event_def execute_def commit_def
        rollback_def dispatch_def comp_def)
  then show ?case using Cons.IH by simp
qed simp

section \<open>The contract of a unit of work\<close>

text \<open>
  Every service operation that owns its transaction promises the same: a failure leaves
  nothing behind outside the session (no committed row, no notification, no frame), and a
  success has committed what it did and dispatched every event it recorded.  The request
  lemmas are proved once from that promise.
\<close>

locale unit_of_work =
  fixes run :: "session \<Rightarrow> (exn + 'a) \<times> session"
  assumes run_error:
      "run s = (Inl e, s') \<Longrightarrow> ready s = [] \<Longrightarrow>
         committed s' = committed s \<and> notified s' = notified s \<and>
         dispatched s' = dispatched s \<and> ready s' = []"
    and run_success:
      "run s = (Inr x, s') \<Longrightarrow> fresh s \<Longrightarrow> fresh s'"
begin

lemma request_error:
  assumes "run s = (Inl e, s')" and "fresh s"
  shows "committed (close_session s') = committed s"
    and "notified (close_session s') = notified s"
    and "dispatched (close_session s') = dispatched s"
    and "fresh (close_session s')"
  using run_error [OF assms(1)] assms(2)
  by (simp_all add: close_session_def fresh_def)

lemma request_success:
  assumes "run s = (Inr x, s')" and "fresh s"
  shows "committed (close_session s') = db s'"
    and "fresh (close_session s')"
  using run_success [OF assms] by (simp_all add: close_session_def fresh_def)

lemma request_fresh: "fresh s \<Longrightarrow> fresh (close_session (snd (run s)))"
  using request_error(4) request_success(2)
  by (cases "run s"; cases "fst (run s)") auto

text \<open>Requests served one after the other, each on the session the last one left.\<close>

lemma requests_fresh:
  "fresh s \<Longrightarrow> fresh (((\<lambda>s. close_session (snd (run s))) ^^ n) s)"
  by (induction n) (auto intro: request_fresh)

end

section \<open>Properties\<close>

text \<open>A descriptor read back by a peer replica names the event that was published: same
  class, same fields, whatever the origin, and it passes the version check.\<close>

lemma descriptor_roundtrip:
  "from_descriptor (to_descriptor orig ev) = Some (event_type_of ev, asdict ev) \<and>
   accept_version (to_descriptor orig ev) = Some (to_descriptor orig ev) \<and>
   is_own orig (to_descriptor orig ev)"
  by (cases ev)
    (simp_all add: from_descriptor_def to_descriptor_def envelope_def asdict_def
      accept_version_def is_own_def events_by_name_def dict_of_def all_event_types_def)

text \<open>C36: over any sequence of writes, recorded events, commits, rollbacks and dispatches, the
  events handed to subscribers or waiting for the next dispatch are exactly those recorded in
  a transaction that committed, in order; nothing rolled back is ever announced.\<close>

theorem events_follow_commits:
  assumes "fresh s" and "\<not> in_transaction s" and "dispatched s = []"
  shows "map snd (dispatched (fold session_do steps s)) @ ready (fold session_do steps s) =
     durable_events steps"
  using arg_cong [OF session_tracks [of steps s], of "\<lambda>v. snd (snd v)"] assms
  by (simp add: durable_events_def session_view_def fresh_def)

theorem events_follow_commits_witness:
  "map snd (dispatched (fold session_do
      [Write id, Record (InjectReleased 1 2), Rollback, Write id, Record (InjectUpdated 1 3),
       Commit, Dispatch] (open_session ''o'' empty_database))) @ [] = [InjectUpdated 1 3]"
proof -
  let ?steps = "[Write id, Record (InjectReleased 1 2), Rollback, Write id,
     Record (InjectUpdated 1 3), Commit, Dispatch]"
  let ?s = "open_session ''o'' empty_database"
  have "fresh ?s" "\<not> in_transaction ?s" "dispatched ?s = []"
    by (simp_all add: fresh_def open_session_def)
  from events_follow_commits [OF this, of ?steps]
  have "map snd (dispatched (fold session_do ?steps ?s)) @ ready (fold session_do ?steps ?s) =
      durable_events ?steps" .
  moreover have "ready (fold session_do ?steps ?s) = []" by simp
  moreover have "durable_events ?steps = [InjectUpdated 1 3]"
    by (simp add: durable_events_def)
  ultimately show ?thesis by simp
qed

end
