(* ===== verification/Scenario_Service.thy ===== *)
theory Scenario_Service
  imports Domain_Events
begin

text \<open>
  Reading the scenario behind an exercise (\<^verbatim>\<open>app/services/scenario_service.py\<close>),
  the team catalog (\<^verbatim>\<open>team_service.py\<close>) and the frozen definition of a launched
  exercise (\<^verbatim>\<open>launch_definition_for_exercise\<close>).

  A launched exercise reads its definition from its launch snapshot, every other one from the
  live scenario row.  The memo on the \<^verbatim>\<open>Scenario\<close> instance
  (\<^verbatim>\<open>_parsed_definition\<close>) is keyed on the stored text and returns the value it
  was computed from, so it is not a part of the model.
\<close>

section \<open>Parsing and storing definitions\<close>

definition parse_definition :: "scenario_definition \<Rightarrow> exn + scenario_definition" where
  "parse_definition doc =
     (case model_validate doc of Inl e \<Rightarrow> Inl (ValidationError e) | Inr d \<Rightarrow> Inr d)"

definition export_definition :: "scenario \<Rightarrow> exn + scenario_definition" where
  "export_definition sc = parse_definition (sc_definition sc)"

definition none_if_empty :: "'a list \<Rightarrow> 'a list option" where
  "none_if_empty xs = (if xs = [] then None else Some xs)"

definition create_scenario ::
  "scenario_definition \<Rightarrow> int \<Rightarrow> instant \<Rightarrow> session \<Rightarrow> (exn + scenario) \<times> session" where
  "create_scenario d created_by now s =
     (let row = \<lparr>sc_id = nextval TScenario (db s), sc_title = sd_title d,
                 sc_description = sd_description d, sc_version = ''1.0'',
                 sc_tags = none_if_empty (sd_tags d), sc_definition = d,
                 sc_created_by = created_by, sc_created_at = now, sc_updated_at = now\<rparr>;
          s1 = execute (\<lambda>t. bump TScenario t\<lparr>scenarios := scenarios t @ [row]\<rparr>) s
      in (Inr row, commit s1))"

definition update_scenario ::
  "scenario \<Rightarrow> scenario_definition \<Rightarrow> int option \<Rightarrow> instant \<Rightarrow> session \<Rightarrow>
     (exn + scenario) \<times> session" where
  "update_scenario sc0 d updated_by now s =
     (case get_scenario (db s) (sc_id sc0) of
        None \<Rightarrow> (Inl (ValueError ''scenario no longer exists''), s)
      | Some sc \<Rightarrow>
          if \<exists>ex\<in>set (exercises (db s)). ex_scenario_id ex = sc_id sc
          then create_scenario d
                 (case updated_by of Some u \<Rightarrow> if u \<noteq> 0 then u else sc_created_by sc
                  | None \<Rightarrow> sc_created_by sc) now s
          else
            let sc' = sc\<lparr>sc_title := sd_title d, sc_description := sd_description d,
                         sc_tags := none_if_empty (sd_tags d), sc_definition := d,
                         sc_updated_at := now\<rparr>;
                s1 = execute (\<lambda>t. t\<lparr>scenarios :=
                       update_where (\<lambda>r. sc_id r = sc_id sc) (\<lambda>_. sc') (scenarios t)\<rparr>) s
            in (Inr sc', commit s1))"

section \<open>The definition an exercise runs on\<close>

definition launch_definition_for_exercise ::
  "database \<Rightarrow> exercise \<Rightarrow> exn + scenario_definition option" where
  "launch_definition_for_exercise d ex =
     (case ex_launch_snapshot_digest ex of
        None \<Rightarrow> Inr None
      | Some dg \<Rightarrow>
          (case get_snapshot d dg of
             None \<Rightarrow> Inl (RuntimeError ''exercise references a missing launch snapshot'')
           | Some snap \<Rightarrow>
               (case parse_definition (lc_definition (ls_content snap)) of
                  Inl e \<Rightarrow> Inl e | Inr def1 \<Rightarrow> Inr (Some def1))))"

definition get_scenario_definition ::
  "database \<Rightarrow> int option \<Rightarrow> exn + scenario_definition option" where
  "get_scenario_definition d scenario_id =
     (case scenario_id of
        None \<Rightarrow> Inr None
      | Some i \<Rightarrow>
          if i = 0 then Inr None
          else (case get_scenario d i of
                  None \<Rightarrow> Inr None
                | Some sc \<Rightarrow> (case export_definition sc of
                                Inl e \<Rightarrow> Inl e | Inr def1 \<Rightarrow> Inr (Some def1))))"

definition definition_for_exercise ::
  "database \<Rightarrow> int \<Rightarrow> exn + scenario_definition option" where
  "definition_for_exercise d exercise_id =
     (case get_exercise d exercise_id of
        None \<Rightarrow> Inr None
      | Some ex \<Rightarrow>
          if ex_launch_snapshot_digest ex \<noteq> None
          then (case launch_definition_for_exercise d ex of
                  Inl e \<Rightarrow> Inl e
                | Inr (Some frozen) \<Rightarrow> Inr (Some frozen)
                | Inr None \<Rightarrow> get_scenario_definition d (Some (ex_scenario_id ex)))
          else get_scenario_definition d (Some (ex_scenario_id ex)))"

section \<open>Walking the branch graph\<close>

definition get_inject_node :: "scenario_definition \<Rightarrow> string \<Rightarrow> inject_node option" where
  "get_inject_node d nid = find (\<lambda>n. in_id n = nid) (sd_injects d)"

definition get_next_inject_ids :: "scenario_definition \<Rightarrow> string \<Rightarrow> string list" where
  "get_next_inject_ids d current =
     (case get_inject_node d current of
        None \<Rightarrow> []
      | Some n \<Rightarrow>
          if in_options n \<noteq> [] then []
          else (case in_next_inject_id n of None \<Rightarrow> [] | Some x \<Rightarrow> [x]))"

fun find_option :: "inject_option list \<Rightarrow> string \<Rightarrow> string option" where
  "find_option [] oid = None"
| "find_option (o1 # os) oid = (if io_id o1 = oid then io_next_inject_id o1 else find_option os oid)"

definition resolve_branch :: "scenario_definition \<Rightarrow> string \<Rightarrow> string \<Rightarrow> string option" where
  "resolve_branch d current option_id =
     (case get_inject_node d current of None \<Rightarrow> None
      | Some n \<Rightarrow> find_option (in_options n) option_id)"

definition titles_for :: "database \<Rightarrow> int set \<Rightarrow> int \<Rightarrow> string option" where
  "titles_for d ids =
     (if ids = {} then (\<lambda>_. None)
      else dict_of (map (\<lambda>sc. (sc_id sc, sc_title sc))
             (filter (\<lambda>sc. sc_id sc \<in> ids) (scenarios d))))"

section \<open>The team catalog\<close>

definition scenario_team_ids :: "scenario_definition \<Rightarrow> string set" where
  "scenario_team_ids d = set (map pt_id (sd_participant_teams d))"

definition validate_team_ids ::
  "string list option \<Rightarrow> scenario_definition \<Rightarrow> string \<Rightarrow> string + string list option" where
  "validate_team_ids team_ids d field =
     (case team_ids of
        None \<Rightarrow> Inr None
      | Some ts \<Rightarrow>
          let normalized = map strip ts
          in if \<exists>t\<in>set normalized. t = [] then Inl (field @ '' must not contain blank team ids'')
             else if repeats normalized then Inl (field @ '' must not contain duplicate team ids'')
             else if set normalized - scenario_team_ids d \<noteq> {}
             then Inl (field @ '' contains team ids not in this scenario'')
             else Inr (none_if_empty normalized))"

section \<open>Lemmas\<close>

lemma get_inject_node_Some:
  "get_inject_node d nid = Some n \<Longrightarrow> n \<in> set (sd_injects d) \<and> in_id n = nid"
  by (auto simp: get_inject_node_def find_Some_iff)

lemma find_option_mem:
  "find_option os oid = Some x \<Longrightarrow> \<exists>o1\<in>set os. io_id o1 = oid \<and> io_next_inject_id o1 = Some x"
  by (induction os) (auto split: if_splits)

lemma resolve_branch_successor:
  "resolve_branch d nid oid = Some x \<Longrightarrow>
     \<exists>n. get_inject_node d nid = Some n \<and> x \<in> set (node_successors n)"
  by (auto simp: resolve_branch_def mem_node_successors dest: find_option_mem split: option.splits)

lemma get_next_successor:
  "x \<in> set (get_next_inject_ids d nid) \<Longrightarrow>
     \<exists>n. get_inject_node d nid = Some n \<and> x \<in> set (node_successors n)"
proof (cases "get_inject_node d nid")
  case (Some n)
  assume "x \<in> set (get_next_inject_ids d nid)"
  with Some show ?thesis
    by (cases "in_next_inject_id n")
      (auto simp: get_next_inject_ids_def mem_node_successors split: if_splits)
qed (simp add: get_next_inject_ids_def)

lemma node_edge:
  assumes "valid_definition d" and "get_inject_node d nid = Some n" and "x \<in> set (node_successors n)"
  shows "(nid, x) \<in> branch_edges d"
proof -
  have n: "n \<in> set (sd_injects d)" "in_id n = nid"
    using get_inject_node_Some [OF assms(2)] by auto
  have "x \<in> in_id ` set (sd_injects d)"
    using assms n by (auto simp: valid_definition_def)
  moreover have "(nid, node_successors n) \<in> set (scenario_graph (sd_injects d))"
    using n by (auto simp: scenario_graph_def)
  ultimately show ?thesis
    using assms(3) unfolding branch_edges_def graph_edges_def
    by (auto simp: scenario_graph_def image_image)
qed

lemma parse_definition_Inr: "parse_definition doc = Inr d \<longleftrightarrow> model_validate doc = Inr d"
  by (auto simp: parse_definition_def split: sum.splits)

lemma definition_for_exercise_valid:
  "definition_for_exercise d i = Inr (Some def1) \<Longrightarrow> valid_definition def1"
  by (auto simp: definition_for_exercise_def launch_definition_for_exercise_def
      get_scenario_definition_def export_definition_def parse_definition_Inr
      split: option.splits sum.splits if_splits dest: model_validate_valid)

lemma validate_team_ids_Inr:
  "validate_team_ids ts d f = Inr r \<Longrightarrow> r \<noteq> Some [] \<and>
     (\<forall>us. r = Some us \<longrightarrow> distinct us \<and> set us \<subseteq> scenario_team_ids d \<and> [] \<notin> set us)"
  by (auto simp: validate_team_ids_def none_if_empty_def Let_def split: option.splits if_splits)

end
