(* ===== verification/Access_Control.thy ===== *)
theory Access_Control
  imports Scenario_Service
begin

text \<open>
  Who may do what (\<^verbatim>\<open>access_control.py\<close>, \<^verbatim>\<open>role_preview.py\<close>,
  \<^verbatim>\<open>dependencies.py\<close>): the exercise gates, the visibility of an inject, the
  role preview and the user behind a request's token.  The guards read the tables and change
  nothing, so they are functions of the database; audit records are not modelled.

  \<^verbatim>\<open>decode_access_token\<close> is PyJWT's: a parameter from the token to its claims, or
  \<open>None\<close> when it raises.
\<close>

section \<open>Role preview\<close>

definition VIEWABLE_ROLES :: "string list" where
  "VIEWABLE_ROLES = map role_value [Facilitator, Participant, Observer]"

definition effective_role :: "string option \<Rightarrow> string option \<Rightarrow> string option" where
  "effective_role actual view_role =
     (if actual = Some (role_value Facilitator) \<and>
         (case view_role of None \<Rightarrow> False | Some v \<Rightarrow> v \<in> set VIEWABLE_ROLES)
      then view_role else actual)"

text \<open>A database row as the \<^verbatim>\<open>User\<close> instance a request works with: nothing
  stamped on it yet.\<close>

definition plain_user :: "user \<Rightarrow> current_user" where
  "plain_user u = user.extend u
     \<lparr>actual_role = None, actual_team = None, can_switch_roles = None\<rparr>"

definition stamp :: "user_role \<Rightarrow> string option \<Rightarrow> bool \<Rightarrow> current_user \<Rightarrow> current_user" where
  "stamp r t c u = u\<lparr>actual_role := Some r, actual_team := Some t, can_switch_roles := Some c\<rparr>"

definition apply_role_preview ::
  "current_user \<Rightarrow> string option \<Rightarrow> string option \<Rightarrow> current_user" where
  "apply_role_preview user0 view_role view_team =
     (let u = stamp (u_role user0) (u_team user0) (u_role user0 = Facilitator) user0
      in if u_role u \<noteq> Facilitator then u
         else (case view_role of None \<Rightarrow> u
               | Some v \<Rightarrow>
                   (case parse_role v of Inl e \<Rightarrow> u
                    | Inr r \<Rightarrow>
                        stamp (u_role u) (u_team u) True
                          (u\<lparr>u_role := r,
                             u_team := (case view_team of
                                          Some t \<Rightarrow> if strip t \<noteq> [] then Some (strip t) else u_team u
                                        | None \<Rightarrow> u_team u)\<rparr>))))"

section \<open>The user behind a token\<close>

record claims =
  claim_sub :: "string option"
  claim_iat :: "instant option"

text \<open>\<^verbatim>\<open>claim_iat\<close> is \<open>None\<close> when the claim is missing or no number.
  \<^verbatim>\<open>datetime.fromtimestamp\<close> raises outside the years 1 to 9999.\<close>

definition fromtimestamp :: "instant \<Rightarrow> exn + instant" where
  "fromtimestamp t =
     (if -62135596800000000 \<le> t \<and> t < 253402300800000000 then Inr t
      else Inl (ValueError ''year is out of range''))"

definition get_by_email :: "database \<Rightarrow> string \<Rightarrow> user option" where
  "get_by_email d email = get_row u_email email (users d)"

definition token_revoked :: "user \<Rightarrow> instant option \<Rightarrow> exn + bool" where
  "token_revoked u iat =
     (case u_token_valid_after u of None \<Rightarrow> Inr False
      | Some cutoff \<Rightarrow>
          (case iat of None \<Rightarrow> Inr True
           | Some t \<Rightarrow> (case fromtimestamp t of Inl e \<Rightarrow> Inl e
                         | Inr issued_at \<Rightarrow> Inr (issued_at < cutoff))))"

definition resolve_user_from_token ::
  "(string \<Rightarrow> claims option) \<Rightarrow> database \<Rightarrow> string \<Rightarrow> string option \<Rightarrow> string option \<Rightarrow>
     exn + current_user option" where
  "resolve_user_from_token decode d token view_role view_team =
     (case decode token of None \<Rightarrow> Inr None
      | Some payload \<Rightarrow>
          (case claim_sub payload of None \<Rightarrow> Inr None
           | Some email \<Rightarrow>
               (case get_by_email d email of None \<Rightarrow> Inr None
                | Some u \<Rightarrow>
                    if \<not> u_is_active u then Inr None
                    else (case token_revoked u (claim_iat payload) of
                            Inl e \<Rightarrow> Inl e
                          | Inr True \<Rightarrow> Inr None
                          | Inr False \<Rightarrow>
                              Inr (Some (apply_role_preview (plain_user u) view_role view_team))))))"

definition starts_with :: "string \<Rightarrow> string \<Rightarrow> bool" where
  "starts_with p s \<longleftrightarrow> take (length p) s = p"

definition extract_token :: "string option \<Rightarrow> string option \<Rightarrow> exn + string" where
  "extract_token authorization access_token =
     (if truthy authorization \<and> starts_with ''Bearer '' (the authorization)
      then Inr (drop (length ''Bearer '') (the authorization))
      else if truthy access_token then Inr (the access_token)
      else Inl (HTTPException 401 ''Not authenticated''))"

definition SAFE_METHODS :: "string list" where
  "SAFE_METHODS = [''GET'', ''HEAD'', ''OPTIONS'']"

definition enforce_password_change :: "current_user \<Rightarrow> string \<Rightarrow> string \<Rightarrow> exn + unit" where
  "enforce_password_change u meth path =
     (if \<not> u_must_change_password u then Inr ()
      else if meth \<in> set SAFE_METHODS \<or> starts_with ''/api/auth/'' path then Inr ()
      else Inl (HTTPException 403 ''Password change required''))"

definition get_current_user ::
  "(string \<Rightarrow> claims option) \<Rightarrow> database \<Rightarrow> string \<Rightarrow> string \<Rightarrow> string \<Rightarrow>
     string option \<Rightarrow> string option \<Rightarrow> exn + current_user" where
  "get_current_user decode d meth path token view_role view_team =
     (case resolve_user_from_token decode d token view_role view_team of
        Inl e \<Rightarrow> Inl e
      | Inr None \<Rightarrow> Inl (HTTPException 401 ''Could not validate credentials'')
      | Inr (Some u) \<Rightarrow>
          (case enforce_password_change u meth path of Inl e \<Rightarrow> Inl e | Inr _ \<Rightarrow> Inr u))"

definition get_current_actual_user ::
  "(string \<Rightarrow> claims option) \<Rightarrow> database \<Rightarrow> string \<Rightarrow> string \<Rightarrow> string \<Rightarrow> exn + current_user" where
  "get_current_actual_user decode d meth path token =
     (case get_current_user decode d meth path token None None of Inl e \<Rightarrow> Inl e
      | Inr u \<Rightarrow> Inr (stamp (u_role u) (u_team u) (u_role u = Facilitator) u))"

text \<open>\<^verbatim>\<open>require_role(*roles)\<close> and \<^verbatim>\<open>require_actual_role(*roles)\<close>: the
  same test, after \<open>get_current_user\<close> or \<open>get_current_actual_user\<close>.\<close>

definition require_role :: "user_role list \<Rightarrow> current_user \<Rightarrow> exn + current_user" where
  "require_role roles u =
     (if u_role u \<notin> set roles then Inl (HTTPException 403 ''Insufficient permissions'') else Inr u)"

definition require_admin :: "current_user \<Rightarrow> exn + current_user" where
  "require_admin u = (if \<not> u_is_admin u then Inl (HTTPException 403 ''Admin only'') else Inr u)"

section \<open>Exercise gates\<close>

definition is_actual_facilitator :: "current_user \<Rightarrow> bool" where
  "is_actual_facilitator u =
     ((case actual_role u of None \<Rightarrow> u_role u | Some r \<Rightarrow> r) = Facilitator)"

definition is_admin :: "current_user \<Rightarrow> bool" where
  "is_admin u = u_is_admin u"

definition get_exercise_or_404 :: "database \<Rightarrow> int \<Rightarrow> exn + exercise" where
  "get_exercise_or_404 d i =
     (case get_exercise d i of None \<Rightarrow> Inl (HTTPException 404 ''Exercise not found'')
      | Some ex \<Rightarrow> Inr ex)"

definition exercise_member_for_user :: "database \<Rightarrow> int \<Rightarrow> int \<Rightarrow> exercise_member option" where
  "exercise_member_for_user d exercise_id user_id =
     find (\<lambda>m. em_exercise_id m = exercise_id \<and> em_user_id m = user_id) (members d)"

definition is_exercise_member :: "database \<Rightarrow> int \<Rightarrow> int \<Rightarrow> bool" where
  "is_exercise_member d exercise_id user_id =
     (exercise_member_for_user d exercise_id user_id \<noteq> None)"

definition require_exercise_access :: "database \<Rightarrow> int \<Rightarrow> current_user \<Rightarrow> exn + exercise" where
  "require_exercise_access d i u =
     (case get_exercise_or_404 d i of Inl e \<Rightarrow> Inl e
      | Inr ex \<Rightarrow>
          if is_admin u then Inr ex
          else if ex_created_by ex = u_id u then Inr ex
          else if is_exercise_member d i (u_id u) then Inr ex
          else Inl (HTTPException 403 ''Exercise access denied''))"

definition require_exercise_owner :: "database \<Rightarrow> int \<Rightarrow> current_user \<Rightarrow> exn + exercise" where
  "require_exercise_owner d i u =
     (case get_exercise_or_404 d i of Inl e \<Rightarrow> Inl e
      | Inr ex \<Rightarrow>
          if is_admin u then Inr ex
          else if ex_created_by ex = u_id u then Inr ex
          else if is_actual_facilitator u \<and> is_exercise_member d i (u_id u) then Inr ex
          else Inl (HTTPException 403 ''Exercise access denied''))"

definition require_operational_mutability :: "exercise \<Rightarrow> exn + unit" where
  "require_operational_mutability ex =
     (if ex_state ex = Completed
      then Inl (HTTPException 409 ''Completed exercises are immutable; use debrief, summary, or export workflows'') else Inr ())"

section \<open>Visibility of an inject\<close>

definition inject_matches_group :: "inject \<Rightarrow> string option \<Rightarrow> string option \<Rightarrow> bool" where
  "inject_matches_group ij group_id user_team =
     (if ij_group_id ij \<noteq> None then group_id = ij_group_id ij
      else (case ij_target_teams ij of
              Some (t # ts) \<Rightarrow>
                (case group_id of None \<Rightarrow> False | Some g \<Rightarrow> g \<in> set (t # ts)) \<or>
                (case user_team of None \<Rightarrow> False | Some g \<Rightarrow> g \<in> set (t # ts))
            | _ \<Rightarrow> True))"

definition exercise_group_for_user :: "database \<Rightarrow> int \<Rightarrow> current_user \<Rightarrow> string option" where
  "exercise_group_for_user d exercise_id u =
     (case exercise_member_for_user d exercise_id (u_id u) of
        Some m \<Rightarrow> em_group_id m
      | None \<Rightarrow> if is_actual_facilitator u \<and> u_role u = Participant then u_team u else None)"

definition inject_visible_to :: "inject \<Rightarrow> current_user \<Rightarrow> string option \<Rightarrow> bool" where
  "inject_visible_to ij u group_id =
     (if u_role u = Facilitator then True
      else if ij_state ij \<notin> {Released, Resolved} then False
      else if u_role u = Observer then True
      else inject_matches_group ij group_id None)"

definition is_inject_visible_to_user :: "database \<Rightarrow> inject \<Rightarrow> current_user \<Rightarrow> bool" where
  "is_inject_visible_to_user d ij u =
     (if u_role u = Facilitator then True
      else if ij_state ij \<notin> {Released, Resolved} then False
      else if u_role u = Observer then True
      else inject_visible_to ij u (exercise_group_for_user d (ij_exercise_id ij) u))"

definition require_inject_visible :: "database \<Rightarrow> inject \<Rightarrow> current_user \<Rightarrow> exn + unit" where
  "require_inject_visible d ij u =
     (if \<not> is_inject_visible_to_user d ij u then Inl (HTTPException 404 ''Inject not found'')
      else Inr ())"

section \<open>Lemmas\<close>

lemma plain_user_fields [simp]:
  "u_id (plain_user u) = u_id u" "u_role (plain_user u) = u_role u"
  "u_team (plain_user u) = u_team u" "u_is_admin (plain_user u) = u_is_admin u"
  "u_email (plain_user u) = u_email u" "u_is_active (plain_user u) = u_is_active u"
  "actual_role (plain_user u) = None"
  by (simp_all add: plain_user_def user.defs)

lemma stamp_fields [simp]:
  "u_id (stamp r t c u) = u_id u" "u_role (stamp r t c u) = u_role u"
  "u_team (stamp r t c u) = u_team u" "u_is_admin (stamp r t c u) = u_is_admin u"
  "u_email (stamp r t c u) = u_email u" "u_is_active (stamp r t c u) = u_is_active u"
  "u_must_change_password (stamp r t c u) = u_must_change_password u"
  "actual_role (stamp r t c u) = Some r" "actual_team (stamp r t c u) = Some t"
  "can_switch_roles (stamp r t c u) = Some c"
  by (simp_all add: stamp_def)

lemma get_exercise_or_404_Inr: "get_exercise_or_404 d i = Inr ex \<longleftrightarrow> get_exercise d i = Some ex"
  by (auto simp: get_exercise_or_404_def split: option.splits)

lemma get_exercise_id: "get_exercise d i = Some ex \<Longrightarrow> ex_id ex = i \<and> ex \<in> set (exercises d)"
  by (auto simp: get_defs dest: get_row_Some)

lemma exercise_member_for_user_Some:
  "exercise_member_for_user d e u = Some m \<Longrightarrow>
     m \<in> set (members d) \<and> em_exercise_id m = e \<and> em_user_id m = u"
  by (auto simp: exercise_member_for_user_def find_Some_iff)

lemma is_exercise_member_iff:
  "is_exercise_member d e u \<longleftrightarrow>
     (\<exists>m\<in>set (members d). em_exercise_id m = e \<and> em_user_id m = u)"
  by (auto simp: is_exercise_member_def exercise_member_for_user_def find_None_iff)

lemma require_exercise_access_Inr:
  "require_exercise_access d i u = Inr ex \<longleftrightarrow>
     get_exercise d i = Some ex \<and>
     (u_is_admin u \<or> ex_created_by ex = u_id u \<or> is_exercise_member d i (u_id u))"
  by (cases "get_exercise d i")
    (auto simp: require_exercise_access_def get_exercise_or_404_def is_admin_def)

lemma require_exercise_owner_Inr:
  "require_exercise_owner d i u = Inr ex \<longleftrightarrow>
     get_exercise d i = Some ex \<and>
     (u_is_admin u \<or> ex_created_by ex = u_id u \<or>
      is_actual_facilitator u \<and> is_exercise_member d i (u_id u))"
  by (cases "get_exercise d i")
    (auto simp: require_exercise_owner_def get_exercise_or_404_def is_admin_def)

lemma visible_to_user_iff:
  "is_inject_visible_to_user d ij u =
     inject_visible_to ij u (exercise_group_for_user d (ij_exercise_id ij) u)"
  by (auto simp: is_inject_visible_to_user_def inject_visible_to_def)

lemma require_inject_visible_Inr:
  "require_inject_visible d ij u = Inr () \<longleftrightarrow> is_inject_visible_to_user d ij u"
  by (simp add: require_inject_visible_def)

lemma inject_visible_to_iff:
  "inject_visible_to ij u g \<longleftrightarrow>
     u_role u = Facilitator \<or>
     ij_state ij \<noteq> Pending \<and> (u_role u = Observer \<or> inject_matches_group ij g None)"
  by (cases "ij_state ij"; cases "u_role u") (auto simp: inject_visible_to_def)

lemma preview_fields:
  "u_id (apply_role_preview u v t) = u_id u"
  "u_is_admin (apply_role_preview u v t) = u_is_admin u"
  "u_must_change_password (apply_role_preview u v t) = u_must_change_password u"
  "actual_role (apply_role_preview u v t) = Some (u_role u)"
  "actual_team (apply_role_preview u v t) = Some (u_team u)"
  "can_switch_roles (apply_role_preview u v t) = Some (u_role u = Facilitator)"
  by (auto simp: apply_role_preview_def Let_def split: option.splits sum.splits)

lemma preview_not_facilitator:
  "u_role u \<noteq> Facilitator \<Longrightarrow>
     u_role (apply_role_preview u v t) = u_role u \<and> u_team (apply_role_preview u v t) = u_team u"
  by (auto simp: apply_role_preview_def Let_def)

text \<open>A row of the users table for the witnesses.\<close>

definition demo_user :: "int \<Rightarrow> user_role \<Rightarrow> string option \<Rightarrow> user" where
  "demo_user i r t =
     \<lparr>u_id = i, u_email = show_int i, u_display_name = ''U'', u_hashed_password = None,
      u_role = r, u_team = t, u_is_active = True, u_is_admin = False,
      u_must_change_password = False, u_created_at = 0, u_token_valid_after = None,
      u_auth_provider = ''local'', u_subject = None, u_auth_tenant = None,
      u_role_managed_by_idp = False\<rparr>"

definition demo_exercise :: exercise where
  "demo_exercise =
     \<lparr>ex_id = 1, ex_scenario_id = 1, ex_title = ''E'', ex_state = Draft,
      ex_current_node_id = Some ''a'', ex_llm_enabled = True, ex_launch_provenance = ProvPending,
      ex_launch_snapshot_digest = None, ex_debrief_notes = None, ex_started_at = None,
      ex_ended_at = None, ex_paused_at = None, ex_accumulated_pause = 0, ex_created_by = 10,
      ex_created_at = 0\<rparr>"

definition demo_member :: "int \<Rightarrow> string option \<Rightarrow> user_role \<Rightarrow> exercise_member" where
  "demo_member u g r =
     \<lparr>em_id = u, em_exercise_id = 1, em_user_id = u, em_group_id = g, em_role_at_enrolment = r,
      em_created_during_run = None, em_joined_at = 0\<rparr>"

section \<open>Properties\<close>

text \<open>A role preview never elevates: only a real facilitator's effective role or team can
  differ from the row's, and the identity the ownership gates rely on (id, admin flag, actual
  role and team) is the row's whatever the request asks for.\<close>

lemma role_preview_never_elevates:
  "let e = apply_role_preview (plain_user u) view_role view_team
   in u_id e = u_id u \<and> u_is_admin e = u_is_admin u \<and> actual_role e = Some (u_role u) \<and>
      actual_team e = Some (u_team u) \<and>
      is_actual_facilitator e = (u_role u = Facilitator) \<and>
      (u_role u = Facilitator \<or> u_role e = u_role u \<and> u_team e = u_team u)"
  by (auto simp: Let_def preview_fields is_actual_facilitator_def preview_not_facilitator)

text \<open>The mutation gate is at most as wide as the read gate, and the read gate at most as
  wide as existence: whoever passes \<^verbatim>\<open>require_exercise_owner\<close> passes
  \<^verbatim>\<open>require_exercise_access\<close> with the same row, and a user who is neither admin,
  creator nor member passes none.\<close>

lemma exercise_gates_nest:
  "(require_exercise_owner d i u = Inr ex \<longrightarrow> require_exercise_access d i u = Inr ex) \<and>
   (require_exercise_access d i u = Inr ex \<longrightarrow>
      ex \<in> set (exercises d) \<and> ex_id ex = i \<and>
      (u_is_admin u \<or> ex_created_by ex = u_id u \<or>
       (\<exists>m\<in>set (members d). em_exercise_id m = i \<and> em_user_id m = u_id u))) \<and>
   (require_exercise_owner d i u = Inr ex \<and> \<not> u_is_admin u \<and> ex_created_by ex \<noteq> u_id u \<longrightarrow>
      is_actual_facilitator u)"
  using get_exercise_id [of d i ex]
  by (auto simp: require_exercise_access_Inr require_exercise_owner_Inr is_exercise_member_iff)

definition demo_access_db :: database where
  "demo_access_db = empty_database\<lparr>exercises := [demo_exercise],
     members := [demo_member 11 None Facilitator, demo_member 12 (Some ''red'') Participant]\<rparr>"

lemma exercise_gates_nest_witness:
  "require_exercise_owner demo_access_db 1 (plain_user (demo_user 11 Facilitator None)) =
     Inr demo_exercise \<and>
   require_exercise_access demo_access_db 1 (plain_user (demo_user 11 Facilitator None)) =
     Inr demo_exercise"
proof -
  let ?u = "plain_user (demo_user 11 Facilitator None)"
  have o1: "require_exercise_owner demo_access_db 1 ?u = Inr demo_exercise"
    by code_simp
  show ?thesis
    using o1 exercise_gates_nest [of demo_access_db 1 ?u demo_exercise] by blast
qed

text \<open>The per-row visibility check and the list endpoints' filter on an already resolved
  group agree, and a participant or observer never sees a pending inject, nor a participant
  one addressed to another group.\<close>

lemma inject_visibility:
  "is_inject_visible_to_user d ij u =
     inject_visible_to ij u (exercise_group_for_user d (ij_exercise_id ij) u) \<and>
   (is_inject_visible_to_user d ij u \<and> u_role u \<noteq> Facilitator \<longrightarrow> ij_state ij \<noteq> Pending) \<and>
   (is_inject_visible_to_user d ij u \<and> u_role u = Participant \<and> ij_group_id ij = Some g \<longrightarrow>
      exercise_group_for_user d (ij_exercise_id ij) u = Some g)"
  by (auto simp: visible_to_user_iff inject_visible_to_iff inject_matches_group_def)

definition demo_inject :: "int \<Rightarrow> string \<Rightarrow> string option \<Rightarrow> inject_state \<Rightarrow> inject" where
  "demo_inject i nid g st =
     \<lparr>ij_id = i, ij_exercise_id = 1, ij_scenario_node_id = Some nid, ij_title = nid,
      ij_content = ''c'', ij_target_teams = None, ij_group_id = g, ij_sequence_order = i,
      ij_release_offset_minutes = Some 10, ij_state = st,
      ij_released_at = (if st = Pending then None else Some 0), ij_released_by = None,
      ij_resolved_at = None, ij_resolved_by = None, ij_resolution_reason = None,
      ij_attachment_filename = None, ij_attachment_content_type = None,
      ij_attachment_path = None, ij_attachment_size = None, ij_attachment_sha256 = None,
      ij_created_during_run = None\<rparr>"

lemma inject_visibility_witness:
  "is_inject_visible_to_user demo_access_db (demo_inject 5 ''b'' (Some ''red'') Released)
     (plain_user (demo_user 12 Participant None)) \<and>
   exercise_group_for_user demo_access_db 1 (plain_user (demo_user 12 Participant None)) =
     Some ''red''"
proof -
  let ?u = "plain_user (demo_user 12 Participant None)"
  let ?i = "demo_inject 5 ''b'' (Some ''red'') Released"
  have v: "is_inject_visible_to_user demo_access_db ?i ?u" by code_simp
  have f: "u_role ?u = Participant" "ij_group_id ?i = Some ''red''" "ij_exercise_id ?i = 1"
    by code_simp+
  show ?thesis
    using v f inject_visibility [of demo_access_db ?i ?u "''red''"] by auto
qed

text \<open>A token only ever authenticates an active account: when
  \<^verbatim>\<open>resolve_user_from_token\<close> returns a user, the token decodes, its subject is the
  email of an active row with that id and admin flag, and it was not issued before that row's
  revocation cutoff.\<close>

lemma token_user_sound:
  assumes "resolve_user_from_token decode d token view_role view_team = Inr (Some u)"
  shows "\<exists>c row. decode token = Some c \<and> row \<in> set (users d) \<and> claim_sub c = Some (u_email row) \<and>
     u_is_active row \<and> u_id u = u_id row \<and> u_is_admin u = u_is_admin row \<and>
     actual_role u = Some (u_role row) \<and>
     (\<forall>cutoff. u_token_valid_after row = Some cutoff \<longrightarrow>
        (\<exists>t. claim_iat c = Some t \<and> cutoff \<le> t))"
proof -
  from assms obtain c email row where
      c: "decode token = Some c" "claim_sub c = Some email" "get_by_email d email = Some row"
        "u_is_active row" "token_revoked row (claim_iat c) = Inr False"
        "u = apply_role_preview (plain_user row) view_role view_team"
    by (auto simp: resolve_user_from_token_def split: option.splits if_splits sum.splits bool.splits)
  have "row \<in> set (users d) \<and> u_email row = email"
    using c(3) by (auto simp: get_by_email_def dest: get_row_Some)
  moreover have "\<forall>cutoff. u_token_valid_after row = Some cutoff \<longrightarrow>
        (\<exists>t. claim_iat c = Some t \<and> cutoff \<le> t)"
    using c(5) by (auto simp: token_revoked_def fromtimestamp_def split: option.splits if_splits)
  ultimately show ?thesis using c by (auto simp: preview_fields)
qed

lemma token_user_sound_witness:
  "\<exists>u. resolve_user_from_token (\<lambda>t. Some \<lparr>claim_sub = Some ''3'', claim_iat = Some 5\<rparr>)
      (empty_database\<lparr>users := [demo_user 3 Observer None]\<rparr>) ''tok'' (Some ''facilitator'') None =
      Inr (Some u) \<and> u_id u = 3 \<and> actual_role u = Some Observer"
proof -
  let ?c = "\<lparr>claim_sub = Some ''3'', claim_iat = Some 5\<rparr>"
  let ?d = "empty_database\<lparr>users := [demo_user 3 Observer None]\<rparr>"
  obtain u where u: "resolve_user_from_token (\<lambda>t. Some ?c) ?d ''tok'' (Some ''facilitator'') None =
      Inr (Some u)"
  proof -
    have "case resolve_user_from_token (\<lambda>t. Some ?c) ?d ''tok'' (Some ''facilitator'') None of
        Inr (Some u) \<Rightarrow> True | _ \<Rightarrow> False" by code_simp
    then show ?thesis using that by (auto split: sum.splits option.splits)
  qed
  have "u_id u = 3 \<and> actual_role u = Some Observer"
    using token_user_sound [OF u] by (auto simp: demo_user_def)
  then show ?thesis using u by blast
qed

end
