(* ===== verification/Progression.thy ===== *)
theory Progression
  imports Access_Control
begin

text \<open>
  Group-aware scenario progression (\<^verbatim>\<open>app/services/progression_service.py\<close>): the
  cursors of the scenario paths, the resolution rows of a released inject and the release
  gate.  None of these functions commits, so they act on the tables and their callers run
  them inside their own transaction.

  A Python set is a list without repetitions here, in the order its members were read: the
  order only decides which primary key a row gets.  The serial of a row is drawn before
  \<^verbatim>\<open>ON CONFLICT\<close> is looked at, so a conflicting insert still advances the sequence.
\<close>

section \<open>Seeding cursors and audiences\<close>

definition cursor_key :: "exercise_progress \<Rightarrow> int \<times> string option" where
  "cursor_key r = (ep_exercise_id r, ep_group_id r)"

definition resolution_key :: "inject_progress \<Rightarrow> int \<times> string option" where
  "resolution_key r = (ip_inject_id r, ip_group_id r)"

definition insert_cursor ::
  "int \<Rightarrow> string \<Rightarrow> instant \<Rightarrow> string option \<Rightarrow> database \<Rightarrow> database" where
  "insert_cursor exercise_id start now g d =
     (bump TCursor d)\<lparr>cursors := insert_ignore (\<lambda>_. True) cursor_key
        \<lparr>ep_id = nextval TCursor d, ep_exercise_id = exercise_id, ep_group_id = g,
         ep_current_node_id = Some start, ep_current_inject_id = None,
         ep_advanced_at = now, ep_advanced_by = None\<rparr> (cursors d)\<rparr>"

definition seed_progression ::
  "int \<Rightarrow> string \<Rightarrow> string list \<Rightarrow> instant \<Rightarrow> database \<Rightarrow> database" where
  "seed_progression exercise_id start_node_id group_ids now =
     fold (insert_cursor exercise_id start_node_id now) (None # map Some group_ids)"

definition participant_contexts :: "exercise_member list \<Rightarrow> string option list" where
  "participant_contexts ms =
     remdups (map em_group_id (filter (\<lambda>m. em_role_at_enrolment m = Participant) ms))"

definition inject_audience_contexts :: "inject \<Rightarrow> exercise_member list \<Rightarrow> string option list" where
  "inject_audience_contexts ij ms =
     (let contexts = participant_contexts ms
      in if ij_group_id ij \<noteq> None
         then (if ij_group_id ij \<in> set contexts then [ij_group_id ij] else [])
         else (case ij_target_teams ij of
                 Some (t # ts) \<Rightarrow> filter (\<lambda>c. c \<in> Some ` set (t # ts)) contexts
               | _ \<Rightarrow> contexts))"

definition insert_resolution :: "inject \<Rightarrow> string option \<Rightarrow> database \<Rightarrow> database" where
  "insert_resolution ij g d =
     (bump TResolution d)\<lparr>resolutions := insert_ignore (\<lambda>_. True) resolution_key
        \<lparr>ip_id = nextval TResolution d, ip_exercise_id = ij_exercise_id ij,
         ip_inject_id = ij_id ij, ip_group_id = g, ip_state = Released,
         ip_resolved_at = None, ip_resolved_by = None, ip_resolution_reason = None\<rparr>
        (resolutions d)\<rparr>"

definition members_of :: "database \<Rightarrow> int \<Rightarrow> exercise_member list" where
  "members_of d exercise_id = filter (\<lambda>m. em_exercise_id m = exercise_id) (members d)"

definition seed_inject_resolution_contexts ::
  "inject \<Rightarrow> database \<Rightarrow> string option list \<times> database" where
  "seed_inject_resolution_contexts ij d =
     (let contexts = inject_audience_contexts ij (members_of d (ij_exercise_id ij))
      in (contexts, fold (insert_resolution ij) contexts d))"

definition roster_changes_allowed :: "database \<Rightarrow> int \<Rightarrow> bool" where
  "roster_changes_allowed d exercise_id \<longleftrightarrow>
     \<not> (\<exists>ij\<in>set (injects d). ij_exercise_id ij = exercise_id \<and> ij_state ij \<noteq> Pending)"

definition lock_exercise_for_audience_snapshot :: "database \<Rightarrow> int \<Rightarrow> exn + exercise" where
  "lock_exercise_for_audience_snapshot d exercise_id =
     (case get_exercise d exercise_id of None \<Rightarrow> Inl NoResultFound | Some ex \<Rightarrow> Inr ex)"

section \<open>Resolving one context and moving its cursor\<close>

definition get_resolution :: "database \<Rightarrow> int \<Rightarrow> string option \<Rightarrow> inject_progress option" where
  "get_resolution d i g = get_row resolution_key (i, g) (resolutions d)"

definition get_cursor :: "database \<Rightarrow> int \<Rightarrow> string option \<Rightarrow> exercise_progress option" where
  "get_cursor d e g = get_row cursor_key (e, g) (cursors d)"

definition resolutions_of :: "database \<Rightarrow> int \<Rightarrow> inject_progress list" where
  "resolutions_of d i = filter (\<lambda>r. ip_inject_id r = i) (resolutions d)"

definition mark_resolution ::
  "int \<Rightarrow> string option \<Rightarrow> int \<Rightarrow> instant \<Rightarrow> database \<Rightarrow> database" where
  "mark_resolution i g actor_id now d =
     d\<lparr>resolutions := update_where (\<lambda>r. resolution_key r = (i, g))
        (\<lambda>r. r\<lparr>ip_state := Resolved, ip_resolved_at := Some now, ip_resolved_by := Some actor_id,
               ip_resolution_reason := Some ''participant_response''\<rparr>) (resolutions d)\<rparr>"

definition close_inject :: "int \<Rightarrow> int \<Rightarrow> instant \<Rightarrow> database \<Rightarrow> database" where
  "close_inject i actor_id now d =
     d\<lparr>injects := update_where (\<lambda>r. ij_id r = i)
        (\<lambda>r. r\<lparr>ij_state := Resolved, ij_resolved_at := Some now, ij_resolved_by := Some actor_id,
               ij_resolution_reason := Some ''participant_response''\<rparr>) (injects d)\<rparr>"

definition move_cursor ::
  "int \<Rightarrow> string option \<Rightarrow> int \<Rightarrow> string option \<Rightarrow> int \<Rightarrow> instant \<Rightarrow> database \<Rightarrow> database" where
  "move_cursor e g i next_node actor_id now d =
     (case get_cursor d e g of
        Some c \<Rightarrow>
          d\<lparr>cursors := update_where (\<lambda>r. cursor_key r = (e, g))
             (\<lambda>r. r\<lparr>ep_current_inject_id := Some i, ep_current_node_id := next_node,
                    ep_advanced_at := now, ep_advanced_by := Some actor_id\<rparr>) (cursors d)\<rparr>
      | None \<Rightarrow>
          (bump TCursor d)\<lparr>cursors := cursors d @
             [\<lparr>ep_id = nextval TCursor d, ep_exercise_id = e, ep_group_id = g,
               ep_current_node_id = next_node, ep_current_inject_id = Some i,
               ep_advanced_at = now, ep_advanced_by = Some actor_id\<rparr>]\<rparr>)"

definition apply_resolution ::
  "inject \<Rightarrow> string option \<Rightarrow> int \<Rightarrow> string option \<Rightarrow> instant \<Rightarrow> database \<Rightarrow> database" where
  "apply_resolution ij context1 actor_id next_node_id now d =
     (let d2 = mark_resolution (ij_id ij) context1 actor_id now d;
          rows = resolutions_of d2 (ij_id ij);
          complete = (rows \<noteq> [] \<and> (\<forall>r\<in>set rows. ip_state r = Resolved));
          d3 = (if complete then close_inject (ij_id ij) actor_id now d2 else d2)
      in if ij_scenario_node_id ij = None then d3
         else move_cursor (ij_exercise_id ij) context1 (ij_id ij) next_node_id actor_id now d3)"

definition resolve_response_progression ::
  "inject \<Rightarrow> string option \<Rightarrow> int \<Rightarrow> string option \<Rightarrow> instant \<Rightarrow> database \<Rightarrow>
     exn + (bool \<times> database)" where
  "resolve_response_progression inject0 group_id actor_id next_node_id now d =
     (case get_inject d (ij_id inject0) of
        None \<Rightarrow> Inl NoResultFound
      | Some ij \<Rightarrow>
          let context1 = py_or group_id (ij_group_id ij);
              d1 = snd (seed_inject_resolution_contexts ij d)
          in (case get_resolution d1 (ij_id ij) context1 of
                None \<Rightarrow> Inr (False, d1)
              | Some progress \<Rightarrow>
                  if ip_state progress = Resolved then Inr (False, d1)
                  else Inr (True, apply_resolution ij context1 actor_id next_node_id now d1)))"

section \<open>The release gate\<close>

definition cursors_of :: "database \<Rightarrow> int \<Rightarrow> exercise_progress list" where
  "cursors_of d exercise_id = filter (\<lambda>c. ep_exercise_id c = exercise_id) (cursors d)"

definition referenced_nodes :: "scenario_definition \<Rightarrow> string set" where
  "referenced_nodes def1 = set (concat (map node_successors (sd_injects def1)))"

definition release_is_allowed :: "database \<Rightarrow> inject \<Rightarrow> bool \<Rightarrow> exn + bool" where
  "release_is_allowed d ij scheduled =
     (if \<not> truthy (ij_scenario_node_id ij) then Inr True
      else let cs = cursors_of d (ij_exercise_id ij) in
        if cs = [] then Inr True
        else if \<exists>c\<in>set cs. ep_current_node_id c = ij_scenario_node_id ij then Inr True
        else if \<not> scheduled \<and> (\<exists>c\<in>set cs. ep_current_inject_id c \<noteq> None) then Inr False
        else (case definition_for_exercise d (ij_exercise_id ij) of
                Inl e \<Rightarrow> Inl e
              | Inr None \<Rightarrow> Inr True
              | Inr (Some def1) \<Rightarrow>
                  Inr (the (ij_scenario_node_id ij) \<notin> referenced_nodes def1)))"

section \<open>The snapshot sent to clients\<close>

record progression_view =
  pv_exercise_id :: int
  pv_cursors :: "(string option \<times> string option \<times> int option \<times> instant \<times> int option) list"
  pv_resolutions ::
    "(int \<times> string option \<times> inject_state \<times> instant option \<times> int option \<times> string option) list"

definition progression_snapshot ::
  "database \<Rightarrow> int \<Rightarrow> string option \<Rightarrow> bool \<Rightarrow> progression_view" where
  "progression_snapshot d exercise_id group_id include_all_groups =
     \<lparr>pv_exercise_id = exercise_id,
      pv_cursors = map (\<lambda>c. (ep_group_id c, ep_current_node_id c, ep_current_inject_id c,
                             ep_advanced_at c, ep_advanced_by c))
        (filter (\<lambda>c. ep_exercise_id c = exercise_id \<and>
                     (include_all_groups \<or> ep_group_id c = group_id)) (cursors d)),
      pv_resolutions = map (\<lambda>r. (ip_inject_id r, ip_group_id r, ip_state r, ip_resolved_at r,
                                 ip_resolved_by r, ip_resolution_reason r))
        (filter (\<lambda>r. ip_exercise_id r = exercise_id \<and>
                     (include_all_groups \<or> ip_group_id r = group_id)) (resolutions d))\<rparr>"

section \<open>The two unique tables meet the insert contract\<close>

interpretation cursor_table: conflict_insert "\<lambda>_. True" cursor_key
  "insert_ignore (\<lambda>_. True) cursor_key"
  by (rule insert_ignore_contract)

interpretation resolution_table: conflict_insert "\<lambda>_. True" resolution_key
  "insert_ignore (\<lambda>_. True) resolution_key"
  by (rule insert_ignore_contract)

abbreviation cursors_unique :: "database \<Rightarrow> bool" where
  "cursors_unique d \<equiv> unique_on (\<lambda>_. True) cursor_key (cursors d)"

abbreviation resolutions_unique :: "database \<Rightarrow> bool" where
  "resolutions_unique d \<equiv> unique_on (\<lambda>_. True) resolution_key (resolutions d)"


section \<open>Lemmas: seeding\<close>

lemma insert_cursor_frame [simp]:
  "users (insert_cursor e s now g d) = users d" "scenarios (insert_cursor e s now g d) = scenarios d"
  "exercises (insert_cursor e s now g d) = exercises d" "members (insert_cursor e s now g d) = members d"
  "transitions (insert_cursor e s now g d) = transitions d" "injects (insert_cursor e s now g d) = injects d"
  "resolutions (insert_cursor e s now g d) = resolutions d"
  "responses (insert_cursor e s now g d) = responses d"
  "communications (insert_cursor e s now g d) = communications d"
  "snapshots (insert_cursor e s now g d) = snapshots d" "jobs (insert_cursor e s now g d) = jobs d"
  by (simp_all add: insert_cursor_def)

lemma seed_progression_frame [simp]:
  "users (seed_progression e s gs now d) = users d"
  "scenarios (seed_progression e s gs now d) = scenarios d"
  "exercises (seed_progression e s gs now d) = exercises d"
  "members (seed_progression e s gs now d) = members d"
  "transitions (seed_progression e s gs now d) = transitions d"
  "injects (seed_progression e s gs now d) = injects d"
  "resolutions (seed_progression e s gs now d) = resolutions d"
  "responses (seed_progression e s gs now d) = responses d"
  "communications (seed_progression e s gs now d) = communications d"
  "snapshots (seed_progression e s gs now d) = snapshots d"
  "jobs (seed_progression e s gs now d) = jobs d"
  by (simp_all add: seed_progression_def fold_frame)

lemma insert_cursor_unique: "cursors_unique d \<Longrightarrow> cursors_unique (insert_cursor e s now g d)"
  by (simp add: insert_cursor_def cursor_table.ins_unique)

lemma seed_progression_unique:
  assumes "cursors_unique d"
  shows "cursors_unique (seed_progression e s gs now d)"
  unfolding seed_progression_def using assms
  by (induction "None # map Some gs" arbitrary: d gs)
    (auto intro: fold_invariant [where Q = "\<lambda>_. True"] insert_cursor_unique)

lemma insert_resolution_frame [simp]:
  "users (insert_resolution ij g d) = users d" "scenarios (insert_resolution ij g d) = scenarios d"
  "exercises (insert_resolution ij g d) = exercises d" "members (insert_resolution ij g d) = members d"
  "transitions (insert_resolution ij g d) = transitions d" "injects (insert_resolution ij g d) = injects d"
  "cursors (insert_resolution ij g d) = cursors d" "responses (insert_resolution ij g d) = responses d"
  "communications (insert_resolution ij g d) = communications d"
  "snapshots (insert_resolution ij g d) = snapshots d" "jobs (insert_resolution ij g d) = jobs d"
  "comments (insert_resolution ij g d) = comments d" "reads (insert_resolution ij g d) = reads d"
  "suggestions (insert_resolution ij g d) = suggestions d"
  "assessments (insert_resolution ij g d) = assessments d"
  by (simp_all add: insert_resolution_def)

lemma seed_contexts_frame [simp]:
  "users (snd (seed_inject_resolution_contexts ij d)) = users d"
  "scenarios (snd (seed_inject_resolution_contexts ij d)) = scenarios d"
  "exercises (snd (seed_inject_resolution_contexts ij d)) = exercises d"
  "members (snd (seed_inject_resolution_contexts ij d)) = members d"
  "transitions (snd (seed_inject_resolution_contexts ij d)) = transitions d"
  "injects (snd (seed_inject_resolution_contexts ij d)) = injects d"
  "cursors (snd (seed_inject_resolution_contexts ij d)) = cursors d"
  "responses (snd (seed_inject_resolution_contexts ij d)) = responses d"
  "communications (snd (seed_inject_resolution_contexts ij d)) = communications d"
  "snapshots (snd (seed_inject_resolution_contexts ij d)) = snapshots d"
  "jobs (snd (seed_inject_resolution_contexts ij d)) = jobs d"
  "comments (snd (seed_inject_resolution_contexts ij d)) = comments d"
  "reads (snd (seed_inject_resolution_contexts ij d)) = reads d"
  "suggestions (snd (seed_inject_resolution_contexts ij d)) = suggestions d"
  "assessments (snd (seed_inject_resolution_contexts ij d)) = assessments d"
  by (simp_all add: seed_inject_resolution_contexts_def Let_def fold_frame)

lemma fst_seed_contexts:
  "fst (seed_inject_resolution_contexts ij d) =
     inject_audience_contexts ij (members_of d (ij_exercise_id ij))"
  by (simp add: seed_inject_resolution_contexts_def Let_def)

lemma fold_resolution_unique:
  "resolutions_unique d \<Longrightarrow> resolutions_unique (fold (insert_resolution ij) gs d)"
  by (induction gs arbitrary: d) (auto simp: insert_resolution_def resolution_table.ins_unique)

lemma fold_resolution_keeps:
  "r \<in> set (resolutions d) \<Longrightarrow> r \<in> set (resolutions (fold (insert_resolution ij) gs d))"
  by (induction gs arbitrary: d) (auto simp: insert_resolution_def resolution_table.ins_keeps)

lemma fold_resolution_mem:
  "r \<in> set (resolutions (fold (insert_resolution ij) gs d)) \<Longrightarrow>
     r \<in> set (resolutions d) \<or>
     ip_inject_id r = ij_id ij \<and> ip_group_id r \<in> set gs \<and> ip_state r = Released \<and>
     ip_exercise_id r = ij_exercise_id ij"
proof (induction gs arbitrary: d)
  case (Cons g gs)
  then have "r \<in> set (resolutions (insert_resolution ij g d)) \<or>
      ip_inject_id r = ij_id ij \<and> ip_group_id r \<in> set gs \<and> ip_state r = Released \<and>
      ip_exercise_id r = ij_exercise_id ij"
    by simp
  then show ?case
    by (auto simp: insert_resolution_def dest: resolution_table.ins_mem)
qed simp

lemma fold_resolution_present:
  "g \<in> set gs \<Longrightarrow>
     \<exists>r\<in>set (resolutions (fold (insert_resolution ij) gs d)). resolution_key r = (ij_id ij, g)"
proof (induction gs arbitrary: d)
  case (Cons a gs)
  show ?case
  proof (cases "g \<in> set gs")
    case True
    then show ?thesis using Cons.IH by simp
  next
    case False
    then have "g = a" using Cons.prems by simp
    then obtain r where "r \<in> set (resolutions (insert_resolution ij a d))"
        "resolution_key r = (ij_id ij, g)"
      using resolution_table.ins_present
      by (force simp: insert_resolution_def resolution_key_def)
    then show ?thesis using fold_resolution_keeps by fastforce
  qed
qed simp

lemma fold_resolution_stable:
  "(\<And>g. g \<in> set gs \<Longrightarrow> \<exists>r\<in>set (resolutions d). resolution_key r = (ij_id ij, g)) \<Longrightarrow>
     resolutions (fold (insert_resolution ij) gs d) = resolutions d"
proof (induction gs arbitrary: d)
  case (Cons g gs)
  obtain r where r: "r \<in> set (resolutions d)" "resolution_key r = (ij_id ij, g)"
    using Cons.prems [of g] by auto
  then have same: "resolutions (insert_resolution ij g d) = resolutions d"
    using resolution_table.ins_taken [where x = r and rows = "resolutions d"]
    by (simp add: insert_resolution_def resolution_key_def)
  then have "resolutions (fold (insert_resolution ij) gs (insert_resolution ij g d)) =
      resolutions (insert_resolution ij g d)"
    using Cons.prems by (intro Cons.IH) auto
  then show ?case using same by simp
qed simp

lemma fold_resolution_get:
  "get_resolution d i g = Some r \<Longrightarrow>
     get_resolution (fold (insert_resolution ij) gs d) i g = Some r"
  by (induction gs arbitrary: d)
    (auto simp: get_resolution_def insert_resolution_def insert_ignore_def table_simps)

lemmas seed_contexts_facts =
  fold_resolution_unique fold_resolution_keeps fold_resolution_mem fold_resolution_present
  fold_resolution_stable fold_resolution_get

lemma snd_seed_contexts:
  "snd (seed_inject_resolution_contexts ij d) =
     fold (insert_resolution ij) (inject_audience_contexts ij (members_of d (ij_exercise_id ij))) d"
  by (simp add: seed_inject_resolution_contexts_def Let_def)

lemma audience_mem:
  "g \<in> set (inject_audience_contexts ij ms) \<Longrightarrow>
     \<exists>m\<in>set ms. em_group_id m = g \<and> em_role_at_enrolment m = Participant"
  by (auto simp: inject_audience_contexts_def participant_contexts_def Let_def
      split: if_splits option.splits list.splits)

lemma audience_group:
  "g \<in> set (inject_audience_contexts ij ms) \<Longrightarrow> ij_group_id ij = Some h \<Longrightarrow> g = Some h"
  by (auto simp: inject_audience_contexts_def Let_def split: if_splits)

section \<open>Lemmas: resolving\<close>

lemma mark_resolution_frame [simp]:
  "users (mark_resolution i g a now d) = users d" "scenarios (mark_resolution i g a now d) = scenarios d"
  "exercises (mark_resolution i g a now d) = exercises d"
  "members (mark_resolution i g a now d) = members d"
  "transitions (mark_resolution i g a now d) = transitions d"
  "injects (mark_resolution i g a now d) = injects d" "cursors (mark_resolution i g a now d) = cursors d"
  "responses (mark_resolution i g a now d) = responses d"
  "communications (mark_resolution i g a now d) = communications d"
  "snapshots (mark_resolution i g a now d) = snapshots d" "jobs (mark_resolution i g a now d) = jobs d"
  "sequences (mark_resolution i g a now d) = sequences d"
  by (simp_all add: mark_resolution_def)

lemma close_inject_frame [simp]:
  "users (close_inject i a now d) = users d" "scenarios (close_inject i a now d) = scenarios d"
  "exercises (close_inject i a now d) = exercises d" "members (close_inject i a now d) = members d"
  "transitions (close_inject i a now d) = transitions d" "cursors (close_inject i a now d) = cursors d"
  "resolutions (close_inject i a now d) = resolutions d"
  "responses (close_inject i a now d) = responses d"
  "communications (close_inject i a now d) = communications d"
  "snapshots (close_inject i a now d) = snapshots d" "jobs (close_inject i a now d) = jobs d"
  "sequences (close_inject i a now d) = sequences d"
  by (simp_all add: close_inject_def)

lemma move_cursor_frame [simp]:
  "users (move_cursor e g i n a now d) = users d" "scenarios (move_cursor e g i n a now d) = scenarios d"
  "exercises (move_cursor e g i n a now d) = exercises d"
  "members (move_cursor e g i n a now d) = members d"
  "transitions (move_cursor e g i n a now d) = transitions d"
  "injects (move_cursor e g i n a now d) = injects d"
  "resolutions (move_cursor e g i n a now d) = resolutions d"
  "responses (move_cursor e g i n a now d) = responses d"
  "communications (move_cursor e g i n a now d) = communications d"
  "snapshots (move_cursor e g i n a now d) = snapshots d" "jobs (move_cursor e g i n a now d) = jobs d"
  by (simp_all add: move_cursor_def split: option.splits)

lemma move_cursor_target:
  "\<exists>c. get_cursor (move_cursor e g i n a now d) e g = Some c \<and>
     ep_current_node_id c = n \<and> ep_current_inject_id c = Some i"
proof (cases "get_cursor d e g")
  case None
  then have "get_row cursor_key (e, g) (cursors d) = None" by (simp add: get_cursor_def)
  with None show ?thesis
    by (simp add: move_cursor_def get_cursor_def table_simps cursor_key_def)
next
  case (Some c)
  then have r: "get_row cursor_key (e, g) (cursors d) = Some c" by (simp add: get_cursor_def)
  then have "cursor_key c = (e, g)" by (rule get_row_Some [THEN conjunct2])
  with Some r show ?thesis
    by (simp add: move_cursor_def get_cursor_def get_row_update_where cursor_key_def)
qed

lemma move_cursor_others:
  "(e', g') \<noteq> (e, g) \<Longrightarrow>
     get_cursor (move_cursor e g i n a now d) e' g' = get_cursor d e' g'"
proof (cases "get_cursor d e g")
  case None
  assume "(e', g') \<noteq> (e, g)"
  with None show ?thesis
    by (auto simp: move_cursor_def get_cursor_def table_simps cursor_key_def split: option.splits)
next
  case (Some c)
  assume ne: "(e', g') \<noteq> (e, g)"
  have "get_row cursor_key (e', g') (update_where (\<lambda>r. cursor_key r = (e, g))
      (\<lambda>r. r\<lparr>ep_current_inject_id := Some i, ep_current_node_id := n, ep_advanced_at := now,
             ep_advanced_by := Some a\<rparr>) (cursors d)) = get_row cursor_key (e', g') (cursors d)"
    by (rule get_row_update_other) (use ne in \<open>auto simp: cursor_key_def\<close>)
  with Some show ?thesis by (simp add: move_cursor_def get_cursor_def)
qed

lemma move_cursor_unique: "cursors_unique d \<Longrightarrow> cursors_unique (move_cursor e g i n a now d)"
proof (cases "get_cursor d e g")
  case None
  assume u: "cursors_unique d"
  have "\<forall>r\<in>set (cursors d). cursor_key r \<noteq> (e, g)"
    using None by (simp add: get_cursor_def get_row_None)
  with u None show ?thesis
    by (auto simp: move_cursor_def unique_on_def cursor_key_def)
next
  case (Some c)
  assume "cursors_unique d"
  with Some show ?thesis
    by (simp add: move_cursor_def unique_on_update_where cursor_key_def)
qed

text \<open>What one resolution does, by cases on the row of its context.\<close>

definition resolve_context :: "database \<Rightarrow> inject \<Rightarrow> string option \<Rightarrow> string option" where
  "resolve_context d inject0 group_id =
     (case get_inject d (ij_id inject0) of None \<Rightarrow> None | Some ij \<Rightarrow> py_or group_id (ij_group_id ij))"

definition seeded :: "database \<Rightarrow> inject \<Rightarrow> database" where
  "seeded d inject0 =
     (case get_inject d (ij_id inject0) of None \<Rightarrow> d
      | Some ij \<Rightarrow> snd (seed_inject_resolution_contexts ij d))"

lemma seeded_frame [simp]:
  "injects (seeded d ij) = injects d" "cursors (seeded d ij) = cursors d"
  "members (seeded d ij) = members d" "exercises (seeded d ij) = exercises d"
  "jobs (seeded d ij) = jobs d" "snapshots (seeded d ij) = snapshots d"
  "scenarios (seeded d ij) = scenarios d" "transitions (seeded d ij) = transitions d"
  "communications (seeded d ij) = communications d" "responses (seeded d ij) = responses d"
  "users (seeded d ij) = users d"
  by (auto simp: seeded_def split: option.splits)

lemma get_inject_id: "get_inject d i = Some ij \<Longrightarrow> ij_id ij = i \<and> ij \<in> set (injects d)"
  by (auto simp: get_defs dest: get_row_Some)

lemma resolve_False:
  assumes "resolve_response_progression inject0 g a n now d = Inr (False, d')"
  shows "d' = seeded d inject0"
    and "case get_resolution d' (ij_id inject0) (resolve_context d inject0 g) of
           None \<Rightarrow> True | Some r \<Rightarrow> ip_state r = Resolved"
  using assms
  by (auto simp: resolve_response_progression_def seeded_def resolve_context_def Let_def
      dest: get_inject_id split: option.splits if_splits)

lemma resolve_True:
  assumes "resolve_response_progression inject0 g a n now d = Inr (True, d')"
  obtains ij r where
    "get_inject d (ij_id inject0) = Some ij" "ij_id ij = ij_id inject0"
    "get_resolution (seeded d inject0) (ij_id inject0) (resolve_context d inject0 g) = Some r"
    "ip_state r \<noteq> Resolved"
    "d' = apply_resolution ij (resolve_context d inject0 g) a n now (seeded d inject0)"
proof -
  from assms obtain ij where ij: "get_inject d (ij_id inject0) = Some ij"
    by (auto simp: resolve_response_progression_def split: option.splits)
  then have i: "ij_id ij = ij_id inject0" using get_inject_id by blast
  have s: "snd (seed_inject_resolution_contexts ij d) = seeded d inject0"
    using ij by (simp add: seeded_def)
  have c: "py_or g (ij_group_id ij) = resolve_context d inject0 g"
    using ij by (simp add: resolve_context_def)
  show thesis
    using assms ij
    by (auto simp: resolve_response_progression_def Let_def i s c
        split: option.splits if_splits intro: that [OF ij i])
qed

lemma apply_resolution_frame [simp]:
  "users (apply_resolution ij c a n now d) = users d"
  "scenarios (apply_resolution ij c a n now d) = scenarios d"
  "exercises (apply_resolution ij c a n now d) = exercises d"
  "members (apply_resolution ij c a n now d) = members d"
  "transitions (apply_resolution ij c a n now d) = transitions d"
  "responses (apply_resolution ij c a n now d) = responses d"
  "communications (apply_resolution ij c a n now d) = communications d"
  "snapshots (apply_resolution ij c a n now d) = snapshots d"
  "jobs (apply_resolution ij c a n now d) = jobs d"
  "resolutions (apply_resolution ij c a n now d) =
     resolutions (mark_resolution (ij_id ij) c a now d)"
  by (simp_all add: apply_resolution_def Let_def)

lemma apply_resolution_unique:
  "cursors_unique d \<Longrightarrow> cursors_unique (apply_resolution ij c a n now d)"
  by (simp add: apply_resolution_def Let_def move_cursor_unique)

lemma mark_resolution_get:
  assumes "get_resolution d i g = Some r"
  shows "\<exists>r'. get_resolution (mark_resolution i g a now d) i g = Some r' \<and>
     ip_state r' = Resolved \<and> ip_resolved_by r' = Some a \<and> ip_resolved_at r' = Some now"
proof -
  have "resolution_key r = (i, g)"
    using assms by (auto simp: get_resolution_def dest: get_row_Some)
  then show ?thesis
    using assms
    by (simp add: get_resolution_def mark_resolution_def get_row_update_where resolution_key_def)
qed

lemma mark_resolution_mem:
  "r \<in> set (resolutions (mark_resolution i g a now d)) \<longleftrightarrow>
     (r \<in> set (resolutions d) \<and> resolution_key r \<noteq> (i, g)) \<or>
     (\<exists>q\<in>set (resolutions d). resolution_key q = (i, g) \<and>
        r = q\<lparr>ip_state := Resolved, ip_resolved_at := Some now, ip_resolved_by := Some a,
              ip_resolution_reason := Some ''participant_response''\<rparr>)"
  by (auto simp: mark_resolution_def set_update_where image_iff)

lemma mark_resolution_keys:
  "map resolution_key (resolutions (mark_resolution i g a now d)) = map resolution_key (resolutions d)"
  by (simp add: mark_resolution_def map_update_where resolution_key_def)

lemma unique_resolution_keys: "resolutions_unique d \<longleftrightarrow> distinct (map resolution_key (resolutions d))"
  by (simp add: unique_on_def)

lemma seeded_unique: "resolutions_unique d \<Longrightarrow> resolutions_unique (seeded d ij)"
  by (auto simp: seeded_def snd_seed_contexts fold_resolution_unique split: option.splits)

lemma resolve_unique:
  assumes "resolve_response_progression inject0 g a n now d = Inr (b, d')"
    and "resolutions_unique d" and "cursors_unique d"
  shows "resolutions_unique d' \<and> cursors_unique d'"
proof (cases b)
  case False
  then have "d' = seeded d inject0" using assms(1) resolve_False(1) by metis
  then show ?thesis using assms(2,3) seeded_unique by simp
next
  case True
  then have res: "resolve_response_progression inject0 g a n now d = Inr (True, d')"
    using assms(1) by simp
  obtain ij where "d' = apply_resolution ij (resolve_context d inject0 g) a n now (seeded d inject0)"
    by (rule resolve_True [OF res])
  then show ?thesis
    using seeded_unique [OF assms(2)] assms(3) apply_resolution_unique
    by (simp only: unique_resolution_keys mark_resolution_keys apply_resolution_frame seeded_frame)
qed

lemma audience_cong:
  "ij_group_id a = ij_group_id b \<Longrightarrow> ij_target_teams a = ij_target_teams b \<Longrightarrow>
     inject_audience_contexts a ms = inject_audience_contexts b ms"
  by (simp only: inject_audience_contexts_def)

lemma get_inject_update:
  assumes "get_inject d i = Some ij" and "\<And>r. ij_id (f r) = ij_id r"
  shows "get_row ij_id i (update_where (\<lambda>r. ij_id r = i) f (injects d)) = Some (f ij)"
  using assms get_inject_id [OF assms(1)] by (simp add: get_row_update_where get_defs)

lemma apply_resolution_inject:
  assumes "get_inject d (ij_id ij) = Some ij"
  shows "get_inject (apply_resolution ij c a n now d) (ij_id ij) =
    Some (if resolutions_of (mark_resolution (ij_id ij) c a now d) (ij_id ij) \<noteq> [] \<and>
             (\<forall>r\<in>set (resolutions_of (mark_resolution (ij_id ij) c a now d) (ij_id ij)).
                ip_state r = Resolved)
          then ij\<lparr>ij_state := Resolved, ij_resolved_at := Some now, ij_resolved_by := Some a,
                  ij_resolution_reason := Some ''participant_response''\<rparr>
          else ij)"
proof -
  have keep: "get_row ij_id (ij_id ij) (injects d) = Some ij" using assms by (simp add: get_defs)
  have "get_row ij_id (ij_id ij) (injects (close_inject (ij_id ij) a now
      (mark_resolution (ij_id ij) c a now d))) =
    Some (ij\<lparr>ij_state := Resolved, ij_resolved_at := Some now, ij_resolved_by := Some a,
                  ij_resolution_reason := Some ''participant_response''\<rparr>)"
    using keep by (simp add: close_inject_def get_row_update_where)
  with keep show ?thesis by (simp add: apply_resolution_def Let_def get_inject_def)
qed

lemma apply_resolution_inject_fields:
  assumes "get_inject d (ij_id ij) = Some ij"
  shows "\<exists>ij'. get_inject (apply_resolution ij c a n now d) (ij_id ij) = Some ij' \<and>
     ij_group_id ij' = ij_group_id ij \<and> ij_target_teams ij' = ij_target_teams ij \<and>
     ij_exercise_id ij' = ij_exercise_id ij"
  unfolding apply_resolution_inject [OF assms] by auto

lemma apply_resolution_move:
  assumes "ij_scenario_node_id ij = Some nid"
  shows "\<exists>d3. cursors d3 = cursors d \<and> apply_resolution ij c a n now d =
     move_cursor (ij_exercise_id ij) c (ij_id ij) n a now d3"
  unfolding apply_resolution_def Let_def assms if_not_P [OF option.distinct(2)]
  by (rule exI, rule conjI [rotated], rule refl) simp

lemma resolutions_of_cong: "resolutions a = resolutions b \<Longrightarrow> resolutions_of a i = resolutions_of b i"
  by (simp add: resolutions_of_def)

lemma get_resolution_cong: "resolutions a = resolutions b \<Longrightarrow> get_resolution a i g = get_resolution b i g"
  by (simp add: get_resolution_def)

lemma seeded_present:
  assumes "get_inject d (ij_id inject0) = Some ij"
    and "c \<in> set (inject_audience_contexts ij (members_of d (ij_exercise_id ij)))"
  shows "(ij_id inject0, c) \<in> resolution_key ` set (resolutions (seeded d inject0))"
  using assms fold_resolution_present [OF assms(2)] get_inject_id [OF assms(1)]
  by (force simp: seeded_def snd_seed_contexts image_iff)

lemma mark_resolution_key_set:
  "resolution_key ` set (resolutions (mark_resolution i g a now d)) =
     resolution_key ` set (resolutions d)"
  using mark_resolution_keys [of i g a now d] by (metis list.set_map)

text \<open>A replay on tables whose audience is already seeded.\<close>

lemma resolve_replay:
  assumes "get_inject d i = Some ij" and "i = ij_id inject0"
    and "\<And>c. c \<in> set (inject_audience_contexts ij (members_of d (ij_exercise_id ij))) \<Longrightarrow>
           (i, c) \<in> resolution_key ` set (resolutions d)"
    and "case get_resolution d i (py_or g (ij_group_id ij)) of None \<Rightarrow> True
         | Some r \<Rightarrow> ip_state r = Resolved"
  shows "\<exists>d''. resolve_response_progression inject0 g a n now d = Inr (False, d'') \<and>
     cursors d'' = cursors d \<and> injects d'' = injects d \<and> resolutions d'' = resolutions d"
proof -
  have i: "ij_id ij = i" using assms(1) get_inject_id by blast
  have stable: "resolutions (snd (seed_inject_resolution_contexts ij d)) = resolutions d"
    unfolding snd_seed_contexts
    by (rule fold_resolution_stable) (use assms(3) i in force)
  then have "get_resolution (snd (seed_inject_resolution_contexts ij d)) i g' = get_resolution d i g'"
    for g' by (rule get_resolution_cong)
  then show ?thesis
    using assms(1,2,4) stable i
    by (auto simp: resolve_response_progression_def Let_def split: option.splits)
qed

lemma seeded_replay:
  assumes "resolve_response_progression inject0 g a n now d = Inr (b, d')"
  shows "\<exists>d''. resolve_response_progression inject0 g a2 n2 later d' = Inr (False, d'') \<and>
     cursors d'' = cursors d' \<and> injects d'' = injects d' \<and> resolutions d'' = resolutions d'"
proof -
  let ?i = "ij_id inject0"
  obtain ij where ij: "get_inject d ?i = Some ij"
    using assms by (auto simp: resolve_response_progression_def split: option.splits)
  note present = seeded_present [OF ij]
  have ctx: "resolve_context d inject0 g = py_or g (ij_group_id ij)"
    using ij by (simp add: resolve_context_def)
  show ?thesis
  proof (cases b)
    case False
    then have d': "d' = seeded d inject0"
        "case get_resolution d' ?i (resolve_context d inject0 g) of
           None \<Rightarrow> True | Some r \<Rightarrow> ip_state r = Resolved"
      using assms resolve_False [of inject0 g a n now d d'] by auto
    have "get_inject d' ?i = Some ij" "members_of d' e = members_of d e" for e
      using ij d'(1) by (simp_all add: get_inject_def members_of_def)
    then show ?thesis
      using d' present ctx by (intro resolve_replay [of d' ?i ij]) simp_all
  next
    case True
    then obtain r where r: "get_resolution (seeded d inject0) ?i (resolve_context d inject0 g) = Some r"
        and d': "d' = apply_resolution ij (resolve_context d inject0 g) a n now (seeded d inject0)"
      using assms ij resolve_True [of inject0 g a n now d d'] by (metis option.inject)
    have id: "ij_id ij = ?i" using ij get_inject_id by blast
    have "get_inject (seeded d inject0) (ij_id ij) = Some ij"
      using ij id by (simp add: get_inject_def)
    from apply_resolution_inject_fields [OF this]
    obtain ij' where ij': "get_inject d' ?i = Some ij'" "ij_group_id ij' = ij_group_id ij"
        "ij_target_teams ij' = ij_target_teams ij" "ij_exercise_id ij' = ij_exercise_id ij"
      unfolding d' id by blast
    have keys: "resolution_key ` set (resolutions d') =
        resolution_key ` set (resolutions (seeded d inject0))"
      by (simp add: d' mark_resolution_key_set)
    obtain r' where "get_resolution d' ?i (resolve_context d inject0 g) = Some r'"
        "ip_state r' = Resolved"
      using mark_resolution_get [OF r, of a now] id
        get_resolution_cong [of d' "mark_resolution ?i (resolve_context d inject0 g) a now (seeded d inject0)"]
      by (auto simp: d')
    moreover have "members_of d' e = members_of d e" for e by (simp add: d' members_of_def)
    ultimately show ?thesis
      using ij' present keys ctx audience_cong [OF ij'(2,3)]
      by (intro resolve_replay [of d' ?i ij']) simp_all
  qed
qed

lemma release_gate_scheduled:
  "release_is_allowed d ij False = Inr True \<Longrightarrow> release_is_allowed d ij True = Inr True"
  by (auto simp: release_is_allowed_def Let_def split: if_splits)

lemma referenced_iff:
  "x \<in> referenced_nodes def1 \<longleftrightarrow>
     (\<exists>n\<in>set (sd_injects def1). in_next_inject_id n = Some x \<or>
        (\<exists>o1\<in>set (in_options n). io_next_inject_id o1 = Some x))"
  by (auto simp: referenced_nodes_def mem_node_successors)

section \<open>A running exercise for the witnesses\<close>

definition demo_scenario :: scenario where
  "demo_scenario = \<lparr>sc_id = 1, sc_title = ''Demo'', sc_description = None, sc_version = ''1.0'',
     sc_tags = None, sc_definition = demo_definition, sc_created_by = 10, sc_created_at = 0,
     sc_updated_at = 0\<rparr>"

definition demo_running :: exercise where
  "demo_running = demo_exercise\<lparr>ex_state := Active, ex_started_at := Some 0\<rparr>"

definition demo_play_db :: database where
  "demo_play_db = seed_progression 1 ''a'' [''red'', ''blue''] 0
     (empty_database\<lparr>scenarios := [demo_scenario], exercises := [demo_running],
        users := [demo_user 10 Facilitator None, demo_user 12 Participant None,
                  demo_user 13 Participant None],
        members := [demo_member 12 (Some ''red'') Participant,
                    demo_member 13 (Some ''blue'') Participant],
        injects := [demo_inject 1 ''a'' None Released, demo_inject 2 ''b'' (Some ''red'') Pending,
                    demo_inject 3 ''c'' None Pending]\<rparr>)"

section \<open>Properties\<close>



text \<open>C5: a shared inject closes exactly when every context of its audience has resolved: after a
  transition every audience context has a row, the inject is resolved by the actor when all its
  rows are, and no inject changes while one of them is not.\<close>

theorem inject_closes_with_its_audience:
  assumes "resolve_response_progression inject0 g actor next_node now d = Inr (True, d')"
    and "get_inject d (ij_id inject0) = Some ij"
  shows "(\<forall>c\<in>set (inject_audience_contexts ij (members_of d (ij_exercise_id ij))).
       \<exists>r\<in>set (resolutions_of d' (ij_id ij)). ip_group_id r = c) \<and>
     (if \<forall>r\<in>set (resolutions_of d' (ij_id ij)). ip_state r = Resolved
      then \<exists>ij'. get_inject d' (ij_id ij) = Some ij' \<and> ij_state ij' = Resolved \<and>
                 ij_resolved_by ij' = Some actor \<and> ij_resolved_at ij' = Some now
      else injects d' = injects d)"
proof -
  let ?ctx = "resolve_context d inject0 g"
  obtain r where id: "ij_id ij = ij_id inject0"
      and r: "get_resolution (seeded d inject0) (ij_id ij) ?ctx = Some r"
      and d': "d' = apply_resolution ij ?ctx actor next_node now (seeded d inject0)"
    using assms by (metis resolve_True option.inject)
  let ?m = "mark_resolution (ij_id ij) ?ctx actor now (seeded d inject0)"
  have rows: "resolutions_of d' (ij_id ij) = resolutions_of ?m (ij_id ij)"
    unfolding d' by (rule resolutions_of_cong) simp
  obtain r' where "get_resolution ?m (ij_id ij) ?ctx = Some r'"
    using mark_resolution_get [OF r] by blast
  then have "r' \<in> set (resolutions ?m) \<and> resolution_key r' = (ij_id ij, ?ctx)"
    by (auto simp: get_resolution_def dest: get_row_Some)
  then have ne: "resolutions_of ?m (ij_id ij) \<noteq> []"
    by (auto simp: resolutions_of_def resolution_key_def filter_empty_conv)
  have gi: "get_inject (seeded d inject0) (ij_id ij) = Some ij"
    using assms(2) id by (simp add: get_inject_def)
  have "\<exists>r\<in>set (resolutions_of d' (ij_id ij)). ip_group_id r = c"
    if c: "c \<in> set (inject_audience_contexts ij (members_of d (ij_exercise_id ij)))" for c
  proof -
    have "(ij_id ij, c) \<in> resolution_key ` set (resolutions ?m)"
      using seeded_present [OF assms(2) c] id by (simp add: mark_resolution_key_set)
    then show ?thesis
      unfolding rows by (force simp: resolutions_of_def resolution_key_def)
  qed
  moreover have "injects d' = injects d"
    if "\<not> (\<forall>r\<in>set (resolutions_of ?m (ij_id ij)). ip_state r = Resolved)"
    using that by (auto simp: d' apply_resolution_def Let_def)
  ultimately show ?thesis
    using ne apply_resolution_inject [OF gi, of ?ctx actor next_node now, folded d']
    by (cases "\<forall>r\<in>set (resolutions_of ?m (ij_id ij)). ip_state r = Resolved")
      (auto simp: rows)
qed

theorem inject_closes_with_its_audience_witness:
  "\<exists>d'. resolve_response_progression (demo_inject 1 ''a'' None Released) (Some ''red'') 12
      (Some ''b'') 7 demo_play_db = Inr (True, d') \<and>
    (\<exists>r\<in>set (resolutions_of d' 1). ip_group_id r = Some ''blue'')"
proof -
  let ?i = "demo_inject 1 ''a'' None Released"
  have "case resolve_response_progression ?i (Some ''red'') 12 (Some ''b'') 7 demo_play_db of
      Inr (True, d') \<Rightarrow> True | _ \<Rightarrow> False" by code_simp
  then obtain d' where d':
      "resolve_response_progression ?i (Some ''red'') 12 (Some ''b'') 7 demo_play_db = Inr (True, d')"
    by (auto split: sum.splits bool.splits)
  have g: "get_inject demo_play_db (ij_id ?i) = Some ?i" by code_simp
  have c: "Some ''blue'' \<in> set (inject_audience_contexts ?i
      (members_of demo_play_db (ij_exercise_id ?i)))" by code_simp
  have "ij_id ?i = 1" by code_simp
  then show ?thesis
    using d' c inject_closes_with_its_audience [OF d' g] by metis
qed

text \<open>A transition moves exactly one cursor, the resolving context's, onto the chosen node,
  and only for an inject that is a step of the scenario: an ad-hoc inject moves none.\<close>

lemma resolution_moves_one_cursor:
  assumes "resolve_response_progression inject0 g actor next_node now d = Inr (True, d')"
    and "get_inject d (ij_id inject0) = Some ij"
  shows "if ij_scenario_node_id ij = None then cursors d' = cursors d
     else (\<exists>c. get_cursor d' (ij_exercise_id ij) (py_or g (ij_group_id ij)) = Some c \<and>
             ep_current_node_id c = next_node \<and> ep_current_inject_id c = Some (ij_id ij)) \<and>
          (\<forall>e h. (e, h) \<noteq> (ij_exercise_id ij, py_or g (ij_group_id ij)) \<longrightarrow>
             get_cursor d' e h = get_cursor d e h)"
proof -
  have ctx: "resolve_context d inject0 g = py_or g (ij_group_id ij)"
    using assms(2) by (simp add: resolve_context_def)
  have d': "d' = apply_resolution ij (py_or g (ij_group_id ij)) actor next_node now (seeded d inject0)"
    using assms ctx by (metis resolve_True option.inject)
  show ?thesis
  proof (cases "ij_scenario_node_id ij")
    case None
    then show ?thesis by (simp add: d' apply_resolution_def Let_def)
  next
    case (Some nid)
    then obtain d3 where "cursors d3 = cursors d"
        and "d' = move_cursor (ij_exercise_id ij) (py_or g (ij_group_id ij)) (ij_id ij)
               next_node actor now d3"
      using apply_resolution_move [where d = "seeded d inject0"] unfolding d' seeded_frame by blast
    moreover from this have "get_cursor d3 e h = get_cursor d e h" for e h
      by (simp add: get_cursor_def)
    ultimately show ?thesis using Some move_cursor_target move_cursor_others by simp
  qed
qed

lemma resolution_moves_one_cursor_witness:
  "\<exists>d' c. resolve_response_progression (demo_inject 1 ''a'' None Released) (Some ''red'') 12
      (Some ''b'') 7 demo_play_db = Inr (True, d') \<and>
    get_cursor d' 1 (Some ''red'') = Some c \<and> ep_current_node_id c = Some ''b'' \<and>
    get_cursor d' 1 (Some ''blue'') = get_cursor demo_play_db 1 (Some ''blue'')"
proof -
  let ?i = "demo_inject 1 ''a'' None Released"
  have "case resolve_response_progression ?i (Some ''red'') 12 (Some ''b'') 7 demo_play_db of
      Inr (True, d') \<Rightarrow> True | _ \<Rightarrow> False" by code_simp
  then obtain d' where d':
      "resolve_response_progression ?i (Some ''red'') 12 (Some ''b'') 7 demo_play_db = Inr (True, d')"
    by (auto split: sum.splits bool.splits)
  have g: "get_inject demo_play_db (ij_id ?i) = Some ?i" by code_simp
  have f: "ij_scenario_node_id ?i = Some ''a''" "ij_exercise_id ?i = 1"
      "py_or (Some ''red'') (ij_group_id ?i) = Some ''red''" by code_simp+
  note m = resolution_moves_one_cursor [OF d' g, unfolded f if_not_P [OF option.distinct(2)]]
  have "\<exists>c. get_cursor d' 1 (Some ''red'') = Some c \<and> ep_current_node_id c = Some ''b''"
    using m by blast
  moreover have "get_cursor d' 1 (Some ''blue'') = get_cursor demo_play_db 1 (Some ''blue'')"
    using m by simp
  ultimately show ?thesis using d' by blast
qed

text \<open>The release gate.  A cursor on the node always opens it; what a facilitator may release
  by hand the schedule may release too; once a cursor has advanced and none is on the node, a
  facilitator is refused; and a node some branch links to is refused to the schedule as well
  until a cursor is on it.\<close>

lemma release_gate:
  assumes "ij_scenario_node_id ij = Some nid" and "nid \<noteq> []"
    and "cursors_of d (ij_exercise_id ij) \<noteq> []"
  shows "((\<exists>c\<in>set (cursors_of d (ij_exercise_id ij)). ep_current_node_id c = Some nid) \<longrightarrow>
       release_is_allowed d ij scheduled = Inr True) \<and>
     (release_is_allowed d ij False = Inr True \<longrightarrow> release_is_allowed d ij True = Inr True) \<and>
     ((\<forall>c\<in>set (cursors_of d (ij_exercise_id ij)). ep_current_node_id c \<noteq> Some nid) \<longrightarrow>
       ((\<exists>c\<in>set (cursors_of d (ij_exercise_id ij)). ep_current_inject_id c \<noteq> None) \<longrightarrow>
          release_is_allowed d ij False = Inr False) \<and>
       (definition_for_exercise d (ij_exercise_id ij) = Inr (Some def1) \<longrightarrow>
          release_is_allowed d ij True = Inr (nid \<notin> referenced_nodes def1)))"
  using assms by (auto simp: release_is_allowed_def Let_def)

lemma release_gate_witness:
  "release_is_allowed demo_play_db (demo_inject 2 ''b'' (Some ''red'') Pending) True = Inr False"
proof -
  let ?i = "demo_inject 2 ''b'' (Some ''red'') Pending"
  have f: "ij_scenario_node_id ?i = Some ''b''" "''b'' \<noteq> []"
      "cursors_of demo_play_db (ij_exercise_id ?i) \<noteq> []" by code_simp+
  have c: "\<forall>c\<in>set (cursors_of demo_play_db (ij_exercise_id ?i)). ep_current_node_id c \<noteq> Some ''b''"
    by code_simp
  have d: "definition_for_exercise demo_play_db (ij_exercise_id ?i) = Inr (Some demo_definition)"
    by code_simp
  have "''b'' \<in> referenced_nodes demo_definition" by code_simp
  then show ?thesis using release_gate [OF f, of True demo_definition] c d by simp
qed

end
