(* ===== verification/Schedule.thy ===== *)
theory Schedule
  imports Progression "HOL-Library.Product_Lexorder"
begin

text \<open>
  The pause-aware clock and the durable schedule (\<^verbatim>\<open>schedule_service.py\<close>) with
  the two enqueueing functions of \<^verbatim>\<open>task_queue.py\<close>.

  The queue is a table: \<^verbatim>\<open>procrastinate_defer_jobs_v1\<close> inserts one waiting row on
  the caller's transaction, and its partial unique index refuses a second waiting row with
  the same queueing lock.  The clock reading \<^verbatim>\<open>task_queue.now()\<close> is the
  parameter \<open>now\<close>.  Delays and elapsed times are in microseconds.
\<close>

definition SECOND :: int where "SECOND = 1000000"

definition DUE_EPSILON :: int where "DUE_EPSILON = SECOND"

section \<open>The clock\<close>

definition effective_elapsed :: "exercise \<Rightarrow> instant \<Rightarrow> int" where
  "effective_elapsed ex now =
     (case ex_started_at ex of None \<Rightarrow> 0
      | Some st \<Rightarrow> (now - st) - ex_accumulated_pause ex)"

definition seconds_until_due :: "exercise \<Rightarrow> inject \<Rightarrow> instant \<Rightarrow> int" where
  "seconds_until_due ex ij now =
     (case ij_release_offset_minutes ij of None \<Rightarrow> 0
      | Some m \<Rightarrow> m * 60 * SECOND - effective_elapsed ex now)"

fun pause_step :: "instant \<Rightarrow> state_transition \<Rightarrow> int \<times> instant option \<Rightarrow> int \<times> instant option" where
  "pause_step released_at t (paused, start) =
     (if st_transitioned_at t < released_at then (paused, start)
      else if st_to_state t = Paused then (paused, Some (st_transitioned_at t))
      else if st_from_state t = Paused
      then (case start of Some b \<Rightarrow> (paused + (st_transitioned_at t - b), None)
            | None \<Rightarrow> (paused, None))
      else (paused, start))"

definition active_elapsed_since ::
  "exercise \<Rightarrow> instant \<Rightarrow> state_transition list \<Rightarrow> instant \<Rightarrow> int" where
  "active_elapsed_since ex released_at ts now =
     (let stop = min (case ex_ended_at ex of None \<Rightarrow> now | Some e \<Rightarrow> e) now;
          (paused, start) = fold (pause_step released_at) (sort_key st_transitioned_at ts) (0, None);
          paused' = (case start of None \<Rightarrow> paused | Some b \<Rightarrow> paused + (stop - b))
      in max 0 ((stop - released_at) - paused'))"

definition transitions_of :: "database \<Rightarrow> int \<Rightarrow> state_transition list" where
  "transitions_of d e = filter (\<lambda>t. st_exercise_id t = e) (transitions d)"

definition active_seconds_since :: "database \<Rightarrow> exercise \<Rightarrow> instant \<Rightarrow> instant \<Rightarrow> int" where
  "active_seconds_since d ex released_at now =
     active_elapsed_since ex released_at (transitions_of d (ex_id ex)) now"

section \<open>Enqueueing\<close>

definition defer_job :: "job_call \<Rightarrow> instant option \<Rightarrow> database \<Rightarrow> database" where
  "defer_job call scheduled_at d =
     d\<lparr>jobs := jobs d @ [\<lparr>jb_call = call, jb_scheduled_at = scheduled_at,
                          jb_queueing_lock = None, jb_status = Todo\<rparr>]\<rparr>"

definition defer_job_once :: "job_call \<Rightarrow> string \<Rightarrow> database \<Rightarrow> bool \<times> database" where
  "defer_job_once call lock d =
     (if \<exists>j\<in>set (jobs d). jb_status j = Todo \<and> jb_queueing_lock j = Some lock then (False, d)
      else (True, d\<lparr>jobs := jobs d @ [\<lparr>jb_call = call, jb_scheduled_at = None,
                          jb_queueing_lock = Some lock, jb_status = Todo\<rparr>]\<rparr>))"

definition defer_inject_release ::
  "exercise \<Rightarrow> inject \<Rightarrow> int option \<Rightarrow> instant \<Rightarrow> database \<Rightarrow> database" where
  "defer_inject_release ex ij delay now =
     (let wait = (case delay of None \<Rightarrow> seconds_until_due ex ij now | Some w \<Rightarrow> w)
      in defer_job (ReleaseInject (ex_id ex) (ij_id ij)) (Some (now + max 0 wait)))"

definition defer_triggered_comm ::
  "int \<Rightarrow> int \<Rightarrow> string \<Rightarrow> nat \<Rightarrow> int \<Rightarrow> instant \<Rightarrow> database \<Rightarrow> database" where
  "defer_triggered_comm exercise_id inject_id node_id index delay now =
     defer_job (DeliverComm exercise_id inject_id node_id index) (Some (now + max 0 delay))"

text \<open>\<^verbatim>\<open>_live_job_args\<close>: the jobs still waiting, by task.\<close>

definition live_release :: "database \<Rightarrow> int \<Rightarrow> int \<Rightarrow> bool" where
  "live_release d e i \<longleftrightarrow>
     (\<exists>j\<in>set (jobs d). jb_status j = Todo \<and> jb_call j = ReleaseInject e i)"

fun delivers :: "int \<Rightarrow> string \<Rightarrow> nat \<Rightarrow> job_call \<Rightarrow> bool" where
  "delivers e n k (DeliverComm e' i n' k') = (e' = e \<and> n' = n \<and> k' = k)"
| "delivers e n k _ = False"

definition live_comm :: "database \<Rightarrow> int \<Rightarrow> string \<Rightarrow> nat \<Rightarrow> bool" where
  "live_comm d e n k \<longleftrightarrow> (\<exists>j\<in>set (jobs d). jb_status j = Todo \<and> delivers e n k (jb_call j))"

definition trigger_key :: "string \<Rightarrow> nat \<Rightarrow> string" where
  "trigger_key node_id index = node_id @ '':'' @ show_nat index"

definition arm_inject_schedule :: "exercise \<Rightarrow> inject \<Rightarrow> instant \<Rightarrow> database \<Rightarrow> database" where
  "arm_inject_schedule ex ij now d =
     (if ex_state ex \<noteq> Active \<or> ex_started_at ex = None \<or> ij_state ij \<noteq> Pending \<or>
         ij_release_offset_minutes ij = None
      then d else defer_inject_release ex ij None now d)"

section \<open>Bulk scheduling: start, resume and reconciliation\<close>

definition scheduled_injects :: "database \<Rightarrow> int \<Rightarrow> inject list" where
  "scheduled_injects d e =
     filter (\<lambda>ij. ij_exercise_id ij = e \<and> ij_state ij = Pending \<and>
                  ij_release_offset_minutes ij \<noteq> None) (injects d)"

definition triggering_injects :: "database \<Rightarrow> int \<Rightarrow> inject list" where
  "triggering_injects d e =
     sort_key (\<lambda>ij. (the (ij_released_at ij), ij_id ij))
       (filter (\<lambda>ij. ij_exercise_id ij = e \<and> ij_released_at ij \<noteq> None \<and>
                     ij_scenario_node_id ij \<noteq> None) (injects d))"

definition delivered_keys :: "database \<Rightarrow> int \<Rightarrow> string set" where
  "delivered_keys d e =
     set (concat (map (\<lambda>c. case cm_trigger_key c of None \<Rightarrow> [] | Some k \<Rightarrow> [k])
       (filter (\<lambda>c. cm_exercise_id c = e) (communications d))))"

definition owe_trigger ::
  "exercise \<Rightarrow> inject \<Rightarrow> string \<Rightarrow> (string \<Rightarrow> nat \<Rightarrow> bool) \<Rightarrow> int \<Rightarrow> instant \<Rightarrow>
     nat \<times> trigger_comm \<Rightarrow> string set \<times> database \<Rightarrow> string set \<times> database" where
  "owe_trigger ex ij node_id live elapsed now p st =
     (let (index, trigger) = p; (considered, d) = st; key = trigger_key node_id index
      in if key \<in> considered then (considered, d)
         else if live node_id index then (insert key considered, d)
         else (insert key considered,
               defer_triggered_comm (ex_id ex) (ij_id ij) node_id index
                 (tc_delay_after_release_seconds trigger * SECOND - elapsed) now d))"

definition owe_inject ::
  "exercise \<Rightarrow> (string \<Rightarrow> inject_node option) \<Rightarrow> (string \<Rightarrow> nat \<Rightarrow> bool) \<Rightarrow>
     state_transition list \<Rightarrow> instant \<Rightarrow> inject \<Rightarrow> string set \<times> database \<Rightarrow>
     string set \<times> database" where
  "owe_inject ex nodes live ts now ij st =
     (case nodes (case ij_scenario_node_id ij of None \<Rightarrow> [] | Some nid \<Rightarrow> nid) of
        None \<Rightarrow> st
      | Some n \<Rightarrow>
          fold (owe_trigger ex ij (in_id n) live
                  (active_elapsed_since ex (the (ij_released_at ij)) ts now) now)
            (List.enumerate 0 (in_triggers_communications n)) st)"

definition schedule_exercise_communications ::
  "exercise \<Rightarrow> instant \<Rightarrow> database \<Rightarrow> exn + database" where
  "schedule_exercise_communications ex now d =
     (if ex_state ex \<noteq> Active then Inr d
      else (case definition_for_exercise d (ex_id ex) of
              Inl e \<Rightarrow> Inl e
            | Inr None \<Rightarrow> Inr d
            | Inr (Some def1) \<Rightarrow>
                Inr (snd (fold
                  (owe_inject ex (dict_of (map (\<lambda>n. (in_id n, n)) (sd_injects def1)))
                     (live_comm d (ex_id ex)) (transitions_of d (ex_id ex)) now)
                  (triggering_injects d (ex_id ex))
                  (delivered_keys d (ex_id ex), d)))))"

definition schedule_pending_injects :: "exercise \<Rightarrow> instant \<Rightarrow> database \<Rightarrow> database" where
  "schedule_pending_injects ex now d =
     fold (\<lambda>ij d'. if live_release d (ex_id ex) (ij_id ij) then d'
                   else defer_inject_release ex ij None now d')
       (scheduled_injects d (ex_id ex)) d"

definition schedule_exercise_injects ::
  "exercise \<Rightarrow> instant \<Rightarrow> database \<Rightarrow> exn + database" where
  "schedule_exercise_injects ex now d =
     (if ex_state ex \<noteq> Active \<or> ex_started_at ex = None then Inr d
      else schedule_exercise_communications ex now (schedule_pending_injects ex now d))"

definition schedule_release_triggered_comms ::
  "int \<Rightarrow> inject \<Rightarrow> instant \<Rightarrow> database \<Rightarrow> exn + database" where
  "schedule_release_triggered_comms exercise_id ij now d =
     (if \<not> truthy (ij_scenario_node_id ij) then Inr d
      else (case definition_for_exercise d exercise_id of
              Inl e \<Rightarrow> Inl e
            | Inr None \<Rightarrow> Inr d
            | Inr (Some def1) \<Rightarrow>
                (case get_inject_node def1 (the (ij_scenario_node_id ij)) of
                   None \<Rightarrow> Inr d
                 | Some n \<Rightarrow>
                     Inr (fold (\<lambda>(index, trigger). defer_triggered_comm exercise_id (ij_id ij)
                                  (in_id n) index (tc_delay_after_release_seconds trigger * SECOND) now)
                            (List.enumerate 0 (in_triggers_communications n)) d))))"

definition cursor_node_ids :: "database \<Rightarrow> int \<Rightarrow> string set" where
  "cursor_node_ids d e =
     set (map (\<lambda>c. the (ep_current_node_id c))
       (filter (\<lambda>c. truthy (ep_current_node_id c)) (cursors_of d e)))"

definition arm_cursor_reached_injects :: "exercise \<Rightarrow> instant \<Rightarrow> database \<Rightarrow> database" where
  "arm_cursor_reached_injects ex now d =
     (if ex_state ex \<noteq> Active \<or> ex_started_at ex = None then d
      else if cursor_node_ids d (ex_id ex) = {} then d
      else fold (\<lambda>ij. defer_inject_release ex ij None now)
             (filter (\<lambda>ij. case ij_scenario_node_id ij of None \<Rightarrow> False
                           | Some nid \<Rightarrow> nid \<in> cursor_node_ids d (ex_id ex))
                (scheduled_injects d (ex_id ex))) d)"

fun schedule_all :: "exercise list \<Rightarrow> instant \<Rightarrow> database \<Rightarrow> exn + database" where
  "schedule_all [] now d = Inr d"
| "schedule_all (ex # exs) now d =
     (case schedule_exercise_injects ex now d of Inl e \<Rightarrow> Inl e
      | Inr d' \<Rightarrow> schedule_all exs now d')"

definition reconcile_release_jobs :: "instant \<Rightarrow> session \<Rightarrow> (exn + unit) \<times> session" where
  "reconcile_release_jobs now s =
     (case schedule_all (filter (\<lambda>ex. ex_state ex = Active) (exercises (db s))) now (db s) of
        Inl e \<Rightarrow> (Inl e, rollback s)
      | Inr d' \<Rightarrow> (Inr (), commit (execute (\<lambda>_. d') s)))"

section \<open>Lemmas: what enqueueing leaves alone\<close>

text \<open>Enqueueing only appends waiting rows to the queue.\<close>

definition enqueued :: "database \<Rightarrow> database \<Rightarrow> bool" where
  "enqueued d d' \<longleftrightarrow> (\<exists>js. d' = d\<lparr>jobs := jobs d @ js\<rparr> \<and> (\<forall>j\<in>set js. jb_status j = Todo))"

lemma enqueued_refl [simp, intro]: "enqueued d d"
  unfolding enqueued_def by (intro exI [of _ "[]"]) simp

lemma enqueued_trans [trans]: "enqueued d d' \<Longrightarrow> enqueued d' d'' \<Longrightarrow> enqueued d d''"
proof -
  assume "enqueued d d'" and "enqueued d' d''"
  then obtain js ks where js: "d' = d\<lparr>jobs := jobs d @ js\<rparr>" "\<forall>j\<in>set js. jb_status j = Todo"
      and ks: "d'' = d'\<lparr>jobs := jobs d' @ ks\<rparr>" "\<forall>j\<in>set ks. jb_status j = Todo"
    by (auto simp: enqueued_def)
  then show ?thesis unfolding enqueued_def by (intro exI [of _ "js @ ks"]) auto
qed

lemma enqueued_frame:
  "enqueued d d' \<Longrightarrow> users d' = users d \<and> scenarios d' = scenarios d \<and> exercises d' = exercises d \<and>
     members d' = members d \<and> transitions d' = transitions d \<and> cursors d' = cursors d \<and>
     injects d' = injects d \<and> resolutions d' = resolutions d \<and> responses d' = responses d \<and>
     communications d' = communications d \<and> snapshots d' = snapshots d \<and>
     reads d' = reads d \<and> comments d' = comments d \<and> suggestions d' = suggestions d \<and>
     assessments d' = assessments d \<and> sequences d' = sequences d \<and> set (jobs d) \<subseteq> set (jobs d')"
  by (auto simp: enqueued_def)

lemma defer_job_enqueued [intro]: "enqueued d (defer_job c w d)"
  unfolding enqueued_def defer_job_def by (intro exI) (rule conjI, rule refl, simp)

lemma defer_inject_release_enqueued [intro]: "enqueued d (defer_inject_release ex ij w now d)"
  by (auto simp: defer_inject_release_def Let_def)

lemma defer_triggered_comm_enqueued [intro]: "enqueued d (defer_triggered_comm e i n k w now d)"
  by (auto simp: defer_triggered_comm_def)

lemma fold_enqueued: "(\<And>x d. enqueued d (f x d)) \<Longrightarrow> enqueued d (fold f xs d)"
proof (induction xs arbitrary: d)
  case (Cons x xs)
  have "enqueued d (f x d)" by (rule Cons.prems)
  also have "enqueued (f x d) (fold f xs (f x d))" using Cons.prems by (rule Cons.IH)
  finally show ?case by simp
qed simp

lemma schedule_pending_enqueued [intro]: "enqueued d (schedule_pending_injects ex now d)"
  unfolding schedule_pending_injects_def by (rule fold_enqueued) auto

lemma owe_trigger_enqueued: "enqueued (snd st) (snd (owe_trigger ex ij n live el now p st))"
  by (auto simp: owe_trigger_def Let_def split: prod.splits)

lemma owe_fold_enqueued: "enqueued (snd st) (snd (fold (owe_trigger ex ij n live el now) ps st))"
proof (induction ps arbitrary: st)
  case (Cons p ps)
  have "enqueued (snd st) (snd (owe_trigger ex ij n live el now p st))" by (rule owe_trigger_enqueued)
  also note Cons.IH
  finally show ?case by simp
qed simp

lemma owe_inject_enqueued: "enqueued (snd st) (snd (owe_inject ex nodes live ts now ij st))"
  by (auto simp: owe_inject_def owe_fold_enqueued split: option.splits)

lemma owe_injects_enqueued:
  "enqueued (snd st) (snd (fold (owe_inject ex nodes live ts now) ijs st))"
proof (induction ijs arbitrary: st)
  case (Cons ij ijs)
  have "enqueued (snd st) (snd (owe_inject ex nodes live ts now ij st))" by (rule owe_inject_enqueued)
  also note Cons.IH
  finally show ?case by simp
qed simp

lemma schedule_comms_enqueued: "schedule_exercise_communications ex now d = Inr d' \<Longrightarrow> enqueued d d'"
  using owe_injects_enqueued
  by (fastforce simp: schedule_exercise_communications_def split: if_splits sum.splits option.splits)

lemma schedule_exercise_enqueued: "schedule_exercise_injects ex now d = Inr d' \<Longrightarrow> enqueued d d'"
  using schedule_comms_enqueued schedule_pending_enqueued enqueued_trans
  by (auto simp: schedule_exercise_injects_def split: if_splits) blast

lemma schedule_release_enqueued:
  "schedule_release_triggered_comms e ij now d = Inr d' \<Longrightarrow> enqueued d d'"
  by (auto simp: schedule_release_triggered_comms_def intro!: fold_enqueued
      split: if_splits sum.splits option.splits)

lemma arm_cursor_enqueued [intro]: "enqueued d (arm_cursor_reached_injects ex now d)"
  by (auto simp: arm_cursor_reached_injects_def intro!: fold_enqueued)

lemma arm_inject_enqueued [intro]: "enqueued d (arm_inject_schedule ex ij now d)"
  by (auto simp: arm_inject_schedule_def)

lemma schedule_all_enqueued: "schedule_all exs now d = Inr d' \<Longrightarrow> enqueued d d'"
  by (induction exs arbitrary: d)
    (auto split: sum.splits dest: schedule_exercise_enqueued intro: enqueued_trans)

section \<open>Lemmas: which jobs are waiting\<close>

lemma trigger_key_split: "trigger_key m i = trigger_key n j \<longleftrightarrow> m = n \<and> i = j"
proof
  assume "trigger_key m i = trigger_key n j"
  then have "m @ CHR '':'' # show_nat i = n @ CHR '':'' # show_nat j" by (simp add: trigger_key_def)
  then have "m = n \<and> show_nat i = show_nat j"
    by (rule split_at_last_colon) (rule colon_not_in_show_nat)+
  then show "m = n \<and> i = j" by (simp add: show_nat_inj)
qed simp

lemma delivers_iff: "delivers e n k c \<longleftrightarrow> (\<exists>i. c = DeliverComm e i n k)"
  by (cases c) auto

lemma live_release_enqueued: "enqueued d d' \<Longrightarrow> live_release d e i \<Longrightarrow> live_release d' e i"
  by (auto simp: enqueued_def live_release_def)

lemma live_comm_enqueued: "enqueued d d' \<Longrightarrow> live_comm d e n k \<Longrightarrow> live_comm d' e n k"
  by (auto simp: enqueued_def live_comm_def)

lemma live_release_defer [simp]:
  "live_release (defer_inject_release ex ij w now d) e i \<longleftrightarrow>
     live_release d e i \<or> (ex_id ex = e \<and> ij_id ij = i)"
  by (auto simp: live_release_def defer_inject_release_def defer_job_def Let_def)

lemma live_comm_defer [simp]:
  "live_comm (defer_triggered_comm e i n k w now d) e' n' k' \<longleftrightarrow>
     live_comm d e' n' k' \<or> (e' = e \<and> n' = n \<and> k' = k)"
  by (auto simp: live_comm_def defer_triggered_comm_def defer_job_def delivers_iff)

definition release_jobs :: "database \<Rightarrow> int \<Rightarrow> int \<Rightarrow> job list" where
  "release_jobs d e i = filter (\<lambda>j. jb_status j = Todo \<and> jb_call j = ReleaseInject e i) (jobs d)"

lemma live_release_jobs: "live_release d e i \<longleftrightarrow> release_jobs d e i \<noteq> []"
  by (auto simp: live_release_def release_jobs_def filter_empty_conv)

lemma release_jobs_defer:
  "release_jobs (defer_inject_release ex ij None now d) e i = release_jobs d e i @
     (if ex_id ex = e \<and> ij_id ij = i
      then [\<lparr>jb_call = ReleaseInject e i, jb_scheduled_at = Some (now + max 0 (seconds_until_due ex ij now)),
             jb_queueing_lock = None, jb_status = Todo\<rparr>] else [])"
  by (auto simp: release_jobs_def defer_inject_release_def defer_job_def)

lemma release_jobs_defer_comm [simp]:
  "release_jobs (defer_triggered_comm e' j n k w now d) e i = release_jobs d e i"
  by (simp add: release_jobs_def defer_triggered_comm_def defer_job_def)

lemma release_jobs_owe_trigger:
  "release_jobs (snd (owe_trigger ex ij n live el now p st)) e i = release_jobs (snd st) e i"
  by (auto simp: owe_trigger_def Let_def split: prod.splits)

lemma release_jobs_owe_inject:
  "release_jobs (snd (owe_inject ex nodes live ts now ij st)) e i = release_jobs (snd st) e i"
  by (auto simp: owe_inject_def release_jobs_owe_trigger split: option.splits
      intro: fold_frame [where g = "\<lambda>st. release_jobs (snd st) e i"])

lemma release_jobs_comms:
  "schedule_exercise_communications ex now d = Inr d' \<Longrightarrow> release_jobs d' e i = release_jobs d e i"
  using fold_frame [where g = "\<lambda>st. release_jobs (snd st) e i"] release_jobs_owe_inject
  by (fastforce simp: schedule_exercise_communications_def split: if_splits sum.splits option.splits)

lemma release_jobs_pending_fold:
  assumes "distinct (map ij_id ijs)"
  shows "release_jobs (fold (\<lambda>ij d'. if live (ij_id ij) then d'
             else defer_inject_release ex ij None now d') ijs d) (ex_id ex) i =
     release_jobs d (ex_id ex) i @
     concat (map (\<lambda>ij. if ij_id ij = i \<and> \<not> live i
        then [\<lparr>jb_call = ReleaseInject (ex_id ex) i,
               jb_scheduled_at = Some (now + max 0 (seconds_until_due ex ij now)),
               jb_queueing_lock = None, jb_status = Todo\<rparr>] else []) ijs)"
  by (induction ijs arbitrary: d) (auto simp: release_jobs_defer)

lemma concat_map_single:
  assumes "distinct (map g xs)" and "x \<in> set xs"
  shows "concat (map (\<lambda>y. if g y = g x \<and> c then [f y] else []) xs) = (if c then [f x] else [])"
  using assms
proof (induction xs)
  case (Cons a xs)
  have none: "concat (map (\<lambda>y. if g y = k \<and> c then [f y] else []) ys) = []"
    if "k \<notin> g ` set ys" for k ys
    using that by (induction ys) auto
  show ?case
    using Cons none [of "g x" xs] by (auto simp: image_iff)
qed simp

lemma release_jobs_scheduled:
  assumes "distinct (map ij_id (injects d))" and "ij \<in> set (scheduled_injects d (ex_id ex))"
  shows "release_jobs (schedule_pending_injects ex now d) (ex_id ex) (ij_id ij) =
     (if live_release d (ex_id ex) (ij_id ij) then release_jobs d (ex_id ex) (ij_id ij)
      else [\<lparr>jb_call = ReleaseInject (ex_id ex) (ij_id ij),
             jb_scheduled_at = Some (now + max 0 (seconds_until_due ex ij now)),
             jb_queueing_lock = None, jb_status = Todo\<rparr>])"
proof -
  have dist: "distinct (map ij_id (scheduled_injects d (ex_id ex)))"
    unfolding scheduled_injects_def using assms(1) by (rule distinct_map_filter)
  show ?thesis
    unfolding schedule_pending_injects_def
      release_jobs_pending_fold [OF dist, where live = "live_release d (ex_id ex)"]
      concat_map_single [OF dist assms(2)]
    by (simp add: live_release_jobs)
qed

section \<open>Lemmas: the owed messages\<close>

text \<open>Every key looked at is delivered or waiting, and no considered key is lost.\<close>

definition owed_inv :: "database \<Rightarrow> int \<Rightarrow> string set \<times> database \<Rightarrow> bool" where
  "owed_inv d e st \<longleftrightarrow>
     (\<forall>n k. trigger_key n k \<in> fst st \<longrightarrow>
        trigger_key n k \<in> delivered_keys d e \<or> live_comm (snd st) e n k)"

lemma owe_trigger_step:
  assumes "owed_inv d (ex_id ex) st" and "enqueued d (snd st)"
  shows "owed_inv d (ex_id ex) (owe_trigger ex ij n (live_comm d (ex_id ex)) el now p st)"
    and "insert (trigger_key n (fst p)) (fst st) =
      fst (owe_trigger ex ij n (live_comm d (ex_id ex)) el now p st)"
  using assms live_comm_enqueued [OF assms(2)]
  by (auto simp: owe_trigger_def Let_def owed_inv_def trigger_key_split split: prod.splits) blast+

lemma owe_triggers_step:
  assumes "owed_inv d (ex_id ex) st" and "enqueued d (snd st)"
  shows "owed_inv d (ex_id ex) (fold (owe_trigger ex ij n (live_comm d (ex_id ex)) el now) ps st) \<and>
    fst (fold (owe_trigger ex ij n (live_comm d (ex_id ex)) el now) ps st) =
      fst st \<union> trigger_key n ` fst ` set ps"
  using assms
proof (induction ps arbitrary: st)
  case (Cons p ps)
  note step = owe_trigger_step [OF Cons.prems, where ij = ij and n = n and el = el and now = now and p = p]
  have "enqueued d (snd (owe_trigger ex ij n (live_comm d (ex_id ex)) el now p st))"
    using Cons.prems(2) owe_trigger_enqueued by (rule enqueued_trans)
  from Cons.IH [OF step(1) this] show ?case by (simp add: step(2) [symmetric])
qed simp

lemma fst_set_enumerate: "fst ` set (List.enumerate 0 xs) = {0..<length xs}"
  by (metis add_0 list.set_map map_fst_enumerate set_upt)

lemma owe_inject_step:
  assumes "owed_inv d (ex_id ex) st" and "enqueued d (snd st)"
  shows "owed_inv d (ex_id ex) (owe_inject ex nodes (live_comm d (ex_id ex)) ts now ij st)"
    and "fst st \<subseteq> fst (owe_inject ex nodes (live_comm d (ex_id ex)) ts now ij st)"
    and "ij_scenario_node_id ij = Some nid \<Longrightarrow> nodes nid = Some nd \<Longrightarrow> in_id nd = nid \<Longrightarrow>
      k < length (in_triggers_communications nd) \<Longrightarrow>
      trigger_key nid k \<in> fst (owe_inject ex nodes (live_comm d (ex_id ex)) ts now ij st)"
  using owe_triggers_step [OF assms]
  by (auto simp: owe_inject_def assms fst_set_enumerate split: option.splits)

lemma owe_injects_step:
  assumes "owed_inv d (ex_id ex) st" and "enqueued d (snd st)"
  shows "owed_inv d (ex_id ex) (fold (owe_inject ex nodes (live_comm d (ex_id ex)) ts now) ijs st) \<and> fst st \<subseteq> fst (fold (owe_inject ex nodes (live_comm d (ex_id ex)) ts now) ijs st) \<and>
    (\<forall>ij\<in>set ijs. \<forall>nid nd k. ij_scenario_node_id ij = Some nid \<longrightarrow> nodes nid = Some nd \<longrightarrow>
       in_id nd = nid \<longrightarrow> k < length (in_triggers_communications nd) \<longrightarrow>
       trigger_key nid k \<in> fst (fold (owe_inject ex nodes (live_comm d (ex_id ex)) ts now) ijs st))"
  using assms
proof (induction ijs arbitrary: st)
  case (Cons ij ijs)
  let ?st = "owe_inject ex nodes (live_comm d (ex_id ex)) ts now ij st"
  note step = owe_inject_step [OF Cons.prems, where ij = ij and nodes = nodes and ts = ts and now = now]
  have "enqueued d (snd ?st)"
    using Cons.prems(2) owe_inject_enqueued by (rule enqueued_trans)
  note ih = Cons.IH [OF step(1) this]
  show ?case
    using ih step(2,3) by (auto 0 4)
qed simp

lemma dict_of_nodes:
  assumes "distinct (map in_id ns)" and "n \<in> set ns"
  shows "dict_of (map (\<lambda>n. (in_id n, n)) ns) (in_id n) = Some n"
proof -
  have "distinct (map fst (rev (map (\<lambda>n. (in_id n, n)) ns)))"
    using assms(1) by (simp add: rev_map comp_def flip: rev_map)
  then show ?thesis using assms(2) by (auto simp: dict_of_def map_of_eq_Some_iff)
qed

lemma fold_defer_live:
  "ij \<in> set ijs \<Longrightarrow> live_release
     (fold (\<lambda>ij. defer_inject_release ex ij None now) ijs d) (ex_id ex) (ij_id ij)"
proof (induction ijs arbitrary: d)
  case (Cons a ijs)
  have "enqueued (defer_inject_release ex a None now d)
      (fold (\<lambda>ij. defer_inject_release ex ij None now) ijs (defer_inject_release ex a None now d))"
    by (rule fold_enqueued) auto
  then show ?case using Cons live_release_enqueued by (cases "ij = a") auto
qed simp

lemma arm_reaches:
  assumes "ex_state ex = Active" and "ex_started_at ex \<noteq> None"
    and "ij \<in> set (injects d)" and "ij_exercise_id ij = ex_id ex" and "ij_state ij = Pending"
    and "ij_release_offset_minutes ij \<noteq> None"
    and "ij_scenario_node_id ij = Some nid" and "nid \<noteq> []"
    and "c \<in> set (cursors_of d (ex_id ex))" and "ep_current_node_id c = Some nid"
  shows "live_release (arm_cursor_reached_injects ex now d) (ex_id ex) (ij_id ij)"
proof -
  have nid: "nid \<in> cursor_node_ids d (ex_id ex)"
    using assms by (force simp: cursor_node_ids_def)
  then have "ij \<in> set (filter (\<lambda>ij. case ij_scenario_node_id ij of None \<Rightarrow> False
      | Some nid \<Rightarrow> nid \<in> cursor_node_ids d (ex_id ex)) (scheduled_injects d (ex_id ex)))"
    (is "ij \<in> set ?ijs")
    using assms by (simp add: scheduled_injects_def)
  moreover have "arm_cursor_reached_injects ex now d =
      fold (\<lambda>ij. defer_inject_release ex ij None now) ?ijs d"
    using assms nid by (auto simp: arm_cursor_reached_injects_def)
  ultimately show ?thesis by (simp add: fold_defer_live)
qed

section \<open>Properties\<close>

text \<open>No scheduled release is lost or stacked: once a start, a resume or a reconciliation has
  scheduled an active exercise, every pending inject with an offset has a waiting release job;
  the ones it had before are kept as they were, and an inject that had none gets exactly one,
  due when its offset of running time is up, or at once when it already is.\<close>

lemma every_scheduled_inject_is_armed:
  assumes "schedule_exercise_injects ex now d = Inr d'"
    and "ex_state ex = Active" and "ex_started_at ex = Some st"
    and "distinct (map ij_id (injects d))"
    and "ij \<in> set (injects d)" and "ij_exercise_id ij = ex_id ex" and "ij_state ij = Pending"
    and "ij_release_offset_minutes ij = Some m"
  shows "live_release d' (ex_id ex) (ij_id ij) \<and>
    release_jobs d' (ex_id ex) (ij_id ij) =
      (if live_release d (ex_id ex) (ij_id ij) then release_jobs d (ex_id ex) (ij_id ij)
       else [\<lparr>jb_call = ReleaseInject (ex_id ex) (ij_id ij),
              jb_scheduled_at = Some (max now (st + ex_accumulated_pause ex + m * 60 * SECOND)),
              jb_queueing_lock = None, jb_status = Todo\<rparr>])"
proof -
  have mem: "ij \<in> set (scheduled_injects d (ex_id ex))"
    using assms by (simp add: scheduled_injects_def)
  have due: "now + max 0 (seconds_until_due ex ij now) =
      max now (st + ex_accumulated_pause ex + m * 60 * SECOND)"
    using assms by (simp add: seconds_until_due_def effective_elapsed_def max_def)
  have "schedule_exercise_communications ex now (schedule_pending_injects ex now d) = Inr d'"
    using assms by (simp add: schedule_exercise_injects_def)
  then have "release_jobs d' (ex_id ex) (ij_id ij) =
      release_jobs (schedule_pending_injects ex now d) (ex_id ex) (ij_id ij)"
    by (rule release_jobs_comms)
  then show ?thesis
    using release_jobs_scheduled [OF assms(4) mem, of now] by (simp add: due live_release_jobs)
qed

lemma every_scheduled_inject_is_armed_witness:
  "\<exists>d'. schedule_exercise_injects demo_running 5 demo_play_db = Inr d' \<and> live_release d' 1 2 \<and>
     length (release_jobs d' 1 2) = 1"
proof -
  have "is_ok (schedule_exercise_injects demo_running 5 demo_play_db)" by code_simp
  then obtain d' where d': "schedule_exercise_injects demo_running 5 demo_play_db = Inr d'"
    by (auto simp: is_ok_iff)
  let ?i = "demo_inject 2 ''b'' (Some ''red'') Pending"
  have f: "ex_state demo_running = Active" "ex_started_at demo_running = Some 0"
    "distinct (map ij_id (injects demo_play_db))" "?i \<in> set (injects demo_play_db)"
    "ij_exercise_id ?i = ex_id demo_running" "ij_state ?i = Pending"
    "ij_release_offset_minutes ?i = Some 10" by code_simp+
  have n: "\<not> live_release demo_play_db (ex_id demo_running) (ij_id ?i)"
    "ex_id demo_running = 1" "ij_id ?i = 2" by code_simp+
  show ?thesis
    using every_scheduled_inject_is_armed [OF d' f] d' unfolding n(2,3)
    by (simp add: n(1) [unfolded n(2,3)])
qed

text \<open>C7: no triggered message is forgotten: for every released inject and every trigger its
  node declares, after the durable state has been scanned the message is either delivered
  already or has a job waiting for exactly that trigger.\<close>

theorem every_owed_trigger_is_armed:
  assumes "schedule_exercise_communications ex now d = Inr d'"
    and "ex_state ex = Active" and "definition_for_exercise d (ex_id ex) = Inr (Some def1)"
    and "ij \<in> set (injects d)" and "ij_exercise_id ij = ex_id ex" and "ij_released_at ij \<noteq> None"
    and "n \<in> set (sd_injects def1)" and "ij_scenario_node_id ij = Some (in_id n)"
    and "k < length (in_triggers_communications n)"
  shows "trigger_key (in_id n) k \<in> delivered_keys d (ex_id ex) \<or> live_comm d' (ex_id ex) (in_id n) k"
proof -
  let ?nodes = "dict_of (map (\<lambda>n. (in_id n, n)) (sd_injects def1))"
  let ?st = "(delivered_keys d (ex_id ex), d)"
  let ?out = "fold (owe_inject ex ?nodes (live_comm d (ex_id ex)) (transitions_of d (ex_id ex)) now)
    (triggering_injects d (ex_id ex)) ?st"
  have "distinct (map in_id (sd_injects def1))"
    using definition_for_exercise_valid [OF assms(3)] by (simp add: valid_definition_def)
  then have node: "?nodes (in_id n) = Some n" using assms(7) by (rule dict_of_nodes)
  have mem: "ij \<in> set (triggering_injects d (ex_id ex))"
    using assms by (simp add: triggering_injects_def)
  have d': "d' = snd ?out"
    using assms(1-3) by (simp add: schedule_exercise_communications_def)
  have "owed_inv d (ex_id ex) ?st" by (simp add: owed_inv_def)
  from owe_injects_step [OF this]
  have "owed_inv d (ex_id ex) ?out \<and> trigger_key (in_id n) k \<in> fst ?out"
    using mem node assms(8,9) by auto
  then show ?thesis by (auto simp: owed_inv_def d')
qed

theorem every_owed_trigger_is_armed_witness:
  "\<exists>d'. schedule_exercise_communications demo_running 5 demo_play_db = Inr d' \<and>
     live_comm d' 1 ''a'' 0"
proof -
  have "is_ok (schedule_exercise_communications demo_running 5 demo_play_db)" by code_simp
  then obtain d' where d': "schedule_exercise_communications demo_running 5 demo_play_db = Inr d'"
    by (auto simp: is_ok_iff)
  let ?i = "demo_inject 1 ''a'' None Released"
  let ?n = "hd (sd_injects demo_definition)"
  have f: "ex_state demo_running = Active"
    "definition_for_exercise demo_play_db (ex_id demo_running) = Inr (Some demo_definition)"
    "?i \<in> set (injects demo_play_db)" "ij_exercise_id ?i = ex_id demo_running"
    "ij_released_at ?i \<noteq> None" "?n \<in> set (sd_injects demo_definition)"
    "ij_scenario_node_id ?i = Some (in_id ?n)" "0 < length (in_triggers_communications ?n)"
    by code_simp+
  have n: "trigger_key (in_id ?n) 0 \<notin> delivered_keys demo_play_db (ex_id demo_running)"
    "ex_id demo_running = 1" "in_id ?n = ''a''" by code_simp+
  from every_owed_trigger_is_armed [OF d' f] n(1)
  have "live_comm d' (ex_id demo_running) (in_id ?n) 0" by blast
  then show ?thesis using d' unfolding n(2,3) by blast
qed

text \<open>The key a delivered message carries names its trigger: two triggers have the same key
  only if they are the same index of the same node, whatever characters the node ids hold.\<close>

lemma trigger_key_names_its_trigger:
  "trigger_key m i = trigger_key n j \<longleftrightarrow> m = n \<and> i = j"
  by (rule trigger_key_split)

text \<open>Arming and the release gate see the same thing: when a cursor sits on the node of a
  pending scheduled inject of a running exercise, the gate lets it release and arming leaves a
  waiting job for it, whichever group's cursor it is.\<close>

lemma reached_inject_is_armed:
  assumes "ex_state ex = Active" and "ex_started_at ex \<noteq> None"
    and "ij \<in> set (injects d)" and "ij_exercise_id ij = ex_id ex" and "ij_state ij = Pending"
    and "ij_release_offset_minutes ij \<noteq> None"
    and "ij_scenario_node_id ij = Some nid" and "nid \<noteq> []"
    and "c \<in> set (cursors_of d (ex_id ex))" and "ep_current_node_id c = Some nid"
  shows "release_is_allowed d ij scheduled = Inr True \<and>
    live_release (arm_cursor_reached_injects ex now d) (ex_id ex) (ij_id ij)"
  using arm_reaches [OF assms] assms by (auto simp: release_is_allowed_def Let_def)

lemma reached_inject_is_armed_witness:
  "live_release (arm_cursor_reached_injects demo_running 9
     (move_cursor 1 (Some ''red'') 1 (Some ''b'') 12 8 demo_play_db)) 1 2"
proof -
  let ?d = "move_cursor 1 (Some ''red'') 1 (Some ''b'') 12 8 demo_play_db"
  let ?i = "demo_inject 2 ''b'' (Some ''red'') Pending"
  let ?c = "the (get_cursor ?d 1 (Some ''red''))"
  have f: "ex_state demo_running = Active" "ex_started_at demo_running \<noteq> None"
    "?i \<in> set (injects ?d)" "ij_exercise_id ?i = ex_id demo_running" "ij_state ?i = Pending"
    "ij_release_offset_minutes ?i \<noteq> None" "ij_scenario_node_id ?i = Some ''b''" "''b'' \<noteq> []"
    "?c \<in> set (cursors_of ?d (ex_id demo_running))" "ep_current_node_id ?c = Some ''b''"
    by code_simp+
  have n: "ex_id demo_running = 1" "ij_id ?i = 2" by code_simp+
  show ?thesis
    using reached_inject_is_armed [OF f, where now = 9] unfolding n by (rule conjunct2)
qed

end
