(* ===== verification/Inject_Service.thy ===== *)
theory Inject_Service
  imports Schedule
begin

text \<open>
  Creating, releasing, deleting and serialising injects
  (\<^verbatim>\<open>app/services/inject_service.py\<close>).

  \<open>release_inject\<close> is the compare-and-swap at the centre of an exercise: it owns its
  transaction, so it is a function on sessions.  Its \<open>inject0\<close> is the row its caller
  read earlier, which the tables may have moved past.
\<close>

section \<open>Creating and looking up\<close>

record attachment_meta =
  am_filename :: string
  am_content_type :: string
  am_path :: string
  am_size :: int
  am_sha256 :: string

definition stripped_or_none :: "string option \<Rightarrow> string option" where
  "stripped_or_none g =
     (case g of None \<Rightarrow> None | Some s \<Rightarrow> if strip s \<noteq> [] then Some (strip s) else None)"

definition create_inject_row ::
  "int \<Rightarrow> string \<Rightarrow> string \<Rightarrow> string option \<Rightarrow> string list option \<Rightarrow> string option \<Rightarrow>
     int \<Rightarrow> int option \<Rightarrow> attachment_meta option \<Rightarrow> bool \<Rightarrow> database \<Rightarrow> inject \<times> database" where
  "create_inject_row exercise_id title content node_id target_teams group_id sequence_order
       release_offset attachment during_run d =
     (let g = stripped_or_none group_id;
          targets = (case g of
                       Some gid \<Rightarrow> (case target_teams of
                                      Some (t # ts) \<Rightarrow> target_teams | _ \<Rightarrow> Some [gid])
                     | None \<Rightarrow> target_teams);
          row = \<lparr>ij_id = nextval TInject d, ij_exercise_id = exercise_id,
                 ij_scenario_node_id = node_id, ij_title = title, ij_content = content,
                 ij_target_teams = (case targets of Some [] \<Rightarrow> None | _ \<Rightarrow> targets),
                 ij_group_id = g, ij_sequence_order = sequence_order,
                 ij_release_offset_minutes = release_offset, ij_state = Pending,
                 ij_released_at = None, ij_released_by = None, ij_resolved_at = None,
                 ij_resolved_by = None, ij_resolution_reason = None,
                 ij_attachment_filename = map_option am_filename attachment,
                 ij_attachment_content_type = map_option am_content_type attachment,
                 ij_attachment_path = map_option am_path attachment,
                 ij_attachment_size = map_option am_size attachment,
                 ij_attachment_sha256 = map_option am_sha256 attachment,
                 ij_created_during_run = Some during_run\<rparr>
      in (row, (bump TInject d)\<lparr>injects := injects d @ [row]\<rparr>))"

definition create_inject ::
  "int \<Rightarrow> string \<Rightarrow> string \<Rightarrow> string option \<Rightarrow> string list option \<Rightarrow> string option \<Rightarrow>
     int \<Rightarrow> int option \<Rightarrow> attachment_meta option \<Rightarrow> bool \<Rightarrow> bool \<Rightarrow> session \<Rightarrow>
     (exn + inject) \<times> session" where
  "create_inject exercise_id title content node_id target_teams group_id sequence_order
       release_offset attachment during_run do_commit s =
     (let (row, d) = create_inject_row exercise_id title content node_id target_teams group_id
                       sequence_order release_offset attachment during_run (db s);
          s1 = execute (\<lambda>_. d) s
      in (Inr row, if do_commit then commit s1 else s1))"

definition get_inject_or_404 :: "database \<Rightarrow> int \<Rightarrow> int \<Rightarrow> exn + inject" where
  "get_inject_or_404 d exercise_id inject_id =
     (case get_inject d inject_id of
        None \<Rightarrow> Inl (HTTPException 404 ''Inject not found'')
      | Some ij \<Rightarrow> if ij_exercise_id ij \<noteq> exercise_id
                   then Inl (HTTPException 404 ''Inject not found'') else Inr ij)"

section \<open>Seeding from the scenario\<close>

definition seed_node :: "int \<Rightarrow> nat \<times> inject_node \<Rightarrow> database \<Rightarrow> database" where
  "seed_node exercise_id p d =
     (let (i, n) = p;
          order = (if in_sequence_order n \<noteq> 0 then in_sequence_order n else int i)
      in if in_target_teams n \<noteq> []
         then fold (\<lambda>g d. snd (create_inject_row exercise_id (in_title n) (in_content n)
                      (Some (in_id n)) (Some [g]) (Some g) order (in_release_at_minutes n)
                      None False d)) (in_target_teams n) d
         else snd (create_inject_row exercise_id (in_title n) (in_content n)
                      (Some (in_id n)) None None order (in_release_at_minutes n) None False d))"

definition seed_injects_from_scenario :: "int \<Rightarrow> scenario \<Rightarrow> database \<Rightarrow> exn + database" where
  "seed_injects_from_scenario exercise_id sc d =
     (case export_definition sc of Inl e \<Rightarrow> Inl e
      | Inr def1 \<Rightarrow> Inr (fold (seed_node exercise_id) (List.enumerate 0 (sd_injects def1)) d))"

section \<open>Deleting a pending inject\<close>

text \<open>The foreign keys of the tables that refer to an inject: responses (with their
  assessments and suggestions), comments and resolution rows go with it, cursors and
  communications keep a NULL.\<close>

definition delete_injects :: "(inject \<Rightarrow> bool) \<Rightarrow> database \<Rightarrow> database" where
  "delete_injects p d =
     (let gone = ij_id ` set (filter p (injects d));
          dead = rs_id ` set (filter (\<lambda>r. rs_inject_id r \<in> gone) (responses d))
      in d\<lparr>injects := filter (\<lambda>ij. \<not> p ij) (injects d),
           responses := filter (\<lambda>r. rs_inject_id r \<notin> gone) (responses d),
           assessments := filter (\<lambda>a. ra_response_id a \<notin> dead) (assessments d),
           suggestions := filter (\<lambda>g. sj_triggered_by_response_id g \<notin> dead) (suggestions d),
           comments := filter (\<lambda>c. ic_inject_id c \<notin> gone) (comments d),
           resolutions := filter (\<lambda>r. ip_inject_id r \<notin> gone) (resolutions d),
           cursors := update_where (\<lambda>c. ep_current_inject_id c \<in> Some ` gone)
                        (\<lambda>c. c\<lparr>ep_current_inject_id := None\<rparr>) (cursors d),
           communications := update_where (\<lambda>c. cm_triggered_by_inject_id c \<in> Some ` gone)
                        (\<lambda>c. c\<lparr>cm_triggered_by_inject_id := None\<rparr>) (communications d)\<rparr>)"

definition delete_pending_inject :: "inject \<Rightarrow> session \<Rightarrow> (exn + unit) \<times> session" where
  "delete_pending_inject inject0 s =
     (let p = (\<lambda>ij. ij_id ij = ij_id inject0 \<and> ij_state ij = Pending)
      in if \<not> (\<exists>ij\<in>set (injects (db s)). p ij)
         then (Inl (HTTPException 409 ''Released injects cannot be deleted; resolve them or let them stand''), s)
         else (Inr (), commit (execute (delete_injects p) s)))"

section \<open>Releasing\<close>

definition mark_released :: "int \<Rightarrow> int option \<Rightarrow> instant \<Rightarrow> database \<Rightarrow> database" where
  "mark_released i released_by now d =
     d\<lparr>injects := update_where (\<lambda>r. ij_id r = i \<and> ij_state r = Pending)
        (\<lambda>r. r\<lparr>ij_state := Released, ij_released_at := Some now, ij_released_by := released_by\<rparr>)
        (injects d)\<rparr>"

definition release_inject ::
  "inject \<Rightarrow> int option \<Rightarrow> bool \<Rightarrow> instant \<Rightarrow> session \<Rightarrow> (exn + inject) \<times> session" where
  "release_inject inject0 released_by scheduled now s =
     (case lock_exercise_for_audience_snapshot (db s) (ij_exercise_id inject0) of
        Inl e \<Rightarrow> (Inl e, s)
      | Inr ex \<Rightarrow>
          if ex_state ex \<noteq> Active
          then (Inl (HTTPException 409 ''Only active exercises can release injects''), s)
          else (case release_is_allowed (db s) inject0 scheduled of
            Inl e \<Rightarrow> (Inl e, s)
          | Inr False \<Rightarrow>
              (Inl (HTTPException 409 ''Inject is not the current branch for its group''), s)
          | Inr True \<Rightarrow>
              let contexts = fst (seed_inject_resolution_contexts inject0 (db s));
                  s1 = execute (\<lambda>d. snd (seed_inject_resolution_contexts inject0 d)) s
              in if contexts = []
                 then (Inl (HTTPException 409
                         ''Inject cannot be released without an eligible participant audience''),
                       rollback s1)
                 else if \<not> (\<exists>r\<in>set (injects (db s1)). ij_id r = ij_id inject0 \<and> ij_state r = Pending)
                 then (Inl (HTTPException 409
                         ''Inject is no longer pending and cannot be released''), rollback s1)
                 else
                   let s2 = execute (mark_released (ij_id inject0) released_by now) s1;
                       s3 = snd (record_event (InjectReleased (ij_exercise_id inject0) (ij_id inject0)) s2)
                   in (case schedule_release_triggered_comms (ij_exercise_id inject0) inject0 now (db s3) of
                         Inl e \<Rightarrow> (Inl e, s3)
                       | Inr d4 \<Rightarrow>
                           let s4 = commit (execute (\<lambda>_. d4) s3)
                           in (case get_inject (db s4) (ij_id inject0) of
                                 None \<Rightarrow> (Inl NoResultFound, s4)
                               | Some ij \<Rightarrow> (Inr ij, dispatch s4)))))"

section \<open>The payload sent to clients\<close>

record attachment_public =
  ap_filename :: string
  ap_content_type :: string
  ap_size :: "int option"
  ap_url :: string

text \<open>An option entry: id, label and, when the key is present, its next inject.\<close>

type_synonym option_entry = "string \<times> string \<times> string option option"

record inject_public =
  iq_id :: int
  iq_exercise_id :: int
  iq_scenario_node_id :: "string option"
  iq_title :: string
  iq_content :: string
  iq_target_teams :: "string list option"
  iq_group_id :: "string option"
  iq_sequence_order :: int
  iq_state :: inject_state
  iq_released_at :: "string option"
  iq_released_by :: "int option"
  iq_resolved_at :: "string option"
  iq_resolved_by :: "int option"
  iq_resolution_reason :: "string option"
  iq_release_offset_minutes :: "int option"
  iq_attachment :: "attachment_public option"
  iq_options :: "option_entry list"
  iq_next_inject_id :: "string option option"
  iq_free_text_response :: bool

definition inject_target_groups :: "inject \<Rightarrow> string list option" where
  "inject_target_groups ij =
     (if truthy (ij_group_id ij) then Some [the (ij_group_id ij)] else ij_target_teams ij)"

definition inject_attachment_payload :: "inject \<Rightarrow> attachment_public option" where
  "inject_attachment_payload ij =
     (if \<not> truthy (ij_attachment_path ij) \<or> \<not> truthy (ij_attachment_filename ij) then None
      else Some \<lparr>ap_filename = the (ij_attachment_filename ij),
                 ap_content_type = (if truthy (ij_attachment_content_type ij)
                                    then the (ij_attachment_content_type ij)
                                    else ''application/octet-stream''),
                 ap_size = ij_attachment_size ij,
                 ap_url = ''/api/exercises/'' @ show_int (ij_exercise_id ij) @ ''/injects/'' @
                          show_int (ij_id ij) @ ''/attachment''\<rparr>)"

definition inject_node_of ::
  "database \<Rightarrow> inject \<Rightarrow> scenario_definition option \<Rightarrow> exn + inject_node option" where
  "inject_node_of d ij definition0 =
     (if \<not> truthy (ij_scenario_node_id ij) then Inr None
      else (case (case definition0 of None \<Rightarrow> definition_for_exercise d (ij_exercise_id ij)
                  | Some def1 \<Rightarrow> Inr (Some def1)) of
              Inl e \<Rightarrow> Inl e
            | Inr None \<Rightarrow> Inr None
            | Inr (Some def1) \<Rightarrow> Inr (get_inject_node def1 (the (ij_scenario_node_id ij)))))"

definition inject_options ::
  "database \<Rightarrow> inject \<Rightarrow> bool \<Rightarrow> scenario_definition option \<Rightarrow> exn + option_entry list" where
  "inject_options d ij include_progression definition0 =
     (case inject_node_of d ij definition0 of
        Inl e \<Rightarrow> Inl e
      | Inr None \<Rightarrow> Inr []
      | Inr (Some n) \<Rightarrow>
          Inr (map (\<lambda>o1. (io_id o1, io_label o1,
                          if include_progression then Some (io_next_inject_id o1) else None))
                 (in_options n)))"

definition inject_payload ::
  "database \<Rightarrow> inject \<Rightarrow> bool \<Rightarrow> scenario_definition option \<Rightarrow> exn + inject_public" where
  "inject_payload d ij include_progression definition0 =
     and_then (inject_node_of d ij definition0) (\<lambda>node.
     and_then (inject_options d ij include_progression definition0) (\<lambda>opts.
       Inr \<lparr>iq_id = ij_id ij, iq_exercise_id = ij_exercise_id ij,
            iq_scenario_node_id = ij_scenario_node_id ij, iq_title = ij_title ij,
            iq_content = ij_content ij, iq_target_teams = ij_target_teams ij,
            iq_group_id = ij_group_id ij, iq_sequence_order = ij_sequence_order ij,
            iq_state = ij_state ij, iq_released_at = map_option isoformat (ij_released_at ij),
            iq_released_by = ij_released_by ij,
            iq_resolved_at = map_option isoformat (ij_resolved_at ij),
            iq_resolved_by = ij_resolved_by ij, iq_resolution_reason = ij_resolution_reason ij,
            iq_release_offset_minutes = ij_release_offset_minutes ij,
            iq_attachment = inject_attachment_payload ij, iq_options = opts,
            iq_next_inject_id =
              (if include_progression
               then Some (case node of None \<Rightarrow> None | Some n \<Rightarrow> in_next_inject_id n)
               else None),
            iq_free_text_response =
              (case node of None \<Rightarrow> True | Some n \<Rightarrow> in_free_text_response n)\<rparr>))"

definition attachment_paths_for_exercise :: "database \<Rightarrow> int \<Rightarrow> string list" where
  "attachment_paths_for_exercise d e =
     concat (map (\<lambda>ij. case ij_attachment_path ij of None \<Rightarrow> [] | Some p \<Rightarrow> [p])
       (filter (\<lambda>ij. ij_exercise_id ij = e) (injects d)))"

section \<open>Lemmas: releasing\<close>

lemma mark_released_frame [simp]:
  "users (mark_released i b now d) = users d" "scenarios (mark_released i b now d) = scenarios d"
  "exercises (mark_released i b now d) = exercises d" "members (mark_released i b now d) = members d"
  "transitions (mark_released i b now d) = transitions d" "cursors (mark_released i b now d) = cursors d"
  "resolutions (mark_released i b now d) = resolutions d"
  "responses (mark_released i b now d) = responses d"
  "communications (mark_released i b now d) = communications d"
  "snapshots (mark_released i b now d) = snapshots d" "jobs (mark_released i b now d) = jobs d"
  by (simp_all add: mark_released_def)

lemma map_id_mark_released: "map ij_id (injects (mark_released i b now d)) = map ij_id (injects d)"
  by (simp add: mark_released_def map_update_where)

lemma released_row_present:
  assumes "\<exists>r\<in>set (injects d). ij_id r = i \<and> ij_state r = Pending"
    and "enqueued (mark_released i b now d) d4"
  shows "get_inject d4 i \<noteq> None"
proof -
  have "map ij_id (injects d4) = map ij_id (injects d)"
    using enqueued_frame [OF assms(2)] map_id_mark_released by metis
  moreover have "i \<in> set (map ij_id (injects d))" using assms(1) by auto
  ultimately have "i \<in> set (map ij_id (injects d4))" by simp
  then show ?thesis by (auto simp: get_defs get_row_None)
qed

text \<open>The accepting path, as one intermediate description.\<close>

definition release_accepts :: "inject \<Rightarrow> bool \<Rightarrow> database \<Rightarrow> bool" where
  "release_accepts inject0 scheduled d \<longleftrightarrow>
     (\<exists>ex. get_exercise d (ij_exercise_id inject0) = Some ex \<and> ex_state ex = Active) \<and>
     release_is_allowed d inject0 scheduled = Inr True \<and>
     inject_audience_contexts inject0 (members_of d (ij_exercise_id inject0)) \<noteq> [] \<and>
     (\<exists>r\<in>set (injects d). ij_id r = ij_id inject0 \<and> ij_state r = Pending)"

definition released_db :: "inject \<Rightarrow> int option \<Rightarrow> instant \<Rightarrow> database \<Rightarrow> database" where
  "released_db inject0 b now d =
     mark_released (ij_id inject0) b now (snd (seed_inject_resolution_contexts inject0 d))"

lemma released_db_frame [simp]:
  "exercises (released_db ij b now d) = exercises d" "members (released_db ij b now d) = members d"
  "cursors (released_db ij b now d) = cursors d" "transitions (released_db ij b now d) = transitions d"
  "communications (released_db ij b now d) = communications d" "jobs (released_db ij b now d) = jobs d"
  "snapshots (released_db ij b now d) = snapshots d" "scenarios (released_db ij b now d) = scenarios d"
  "users (released_db ij b now d) = users d" "responses (released_db ij b now d) = responses d"
  "resolutions (released_db ij b now d) = resolutions (snd (seed_inject_resolution_contexts ij d))"
  "injects (released_db ij b now d) = update_where (\<lambda>r. ij_id r = ij_id ij \<and> ij_state r = Pending)
     (\<lambda>r. r\<lparr>ij_state := Released, ij_released_at := Some now, ij_released_by := b\<rparr>) (injects d)"
  by (simp_all add: released_db_def) (simp add: mark_released_def)

text \<open>A failed release leaves the committed tables and everything published as they were.\<close>

definition unpublished :: "session \<Rightarrow> session \<Rightarrow> bool" where
  "unpublished s s' \<longleftrightarrow> committed s' = committed s \<and> notified s' = notified s \<and>
     dispatched s' = dispatched s \<and> ready s' = ready s"

lemma unpublished_refl [simp]: "unpublished s s"
  by (simp add: unpublished_def)

lemma unpublished_rollback [simp]:
  "unpublished s (rollback t) \<longleftrightarrow> unpublished s t"
  by (simp add: unpublished_def)

lemma unpublished_execute [simp]:
  "unpublished s (execute f t) \<longleftrightarrow> unpublished s t"
  by (simp add: unpublished_def)

lemma unpublished_pending [simp]:
  "unpublished s (t\<lparr>pending := ps\<rparr>) \<longleftrightarrow> unpublished s t"
  by (simp add: unpublished_def)

lemma in_transaction_execute_pending [simp]:
  "in_transaction ((execute f s)\<lparr>pending := ps\<rparr>)"
  by simp

lemma release_rejects:
  assumes "\<not> release_accepts inject0 scheduled (db s)"
  shows "\<exists>e s'. release_inject inject0 b scheduled now s = (Inl e, s') \<and> unpublished s s' \<and>
    (get_exercise (db s) (ij_exercise_id inject0) \<noteq> None \<longrightarrow>
     is_ok (release_is_allowed (db s) inject0 scheduled) \<longrightarrow> (\<exists>t. e = HTTPException 409 t))"
proof (cases "get_exercise (db s) (ij_exercise_id inject0)")
  case None
  then show ?thesis by (simp add: release_inject_def lock_exercise_for_audience_snapshot_def)
next
  case ex: (Some ex)
  have lock: "lock_exercise_for_audience_snapshot (db s) (ij_exercise_id inject0) = Inr ex"
    using ex by (simp add: lock_exercise_for_audience_snapshot_def)
  show ?thesis
  proof (cases "ex_state ex = Active")
    case False
    then show ?thesis by (simp add: release_inject_def lock)
  next
    case act: True
    show ?thesis
    proof (cases "release_is_allowed (db s) inject0 scheduled")
      case (Inl e)
      then show ?thesis by (simp add: release_inject_def lock act)
    next
      case gate: (Inr ok)
      show ?thesis
      proof (cases ok)
        case False
        then show ?thesis by (simp add: release_inject_def lock act gate)
      next
        case True
        then show ?thesis
          using assms ex act gate
          by (auto simp: release_inject_def lock release_accepts_def Let_def fst_seed_contexts)
      qed
    qed
  qed
qed

lemma release_accepting:
  assumes "release_accepts inject0 scheduled (db s)"
  shows "release_inject inject0 b scheduled now s =
    (case schedule_release_triggered_comms (ij_exercise_id inject0) inject0 now
            (released_db inject0 b now (db s)) of
       Inl e \<Rightarrow> (Inl e, (execute (\<lambda>_. released_db inject0 b now (db s)) s)
                  \<lparr>pending := pending s @ [InjectReleased (ij_exercise_id inject0) (ij_id inject0)]\<rparr>)
     | Inr d4 \<Rightarrow> (Inr (the (get_inject d4 (ij_id inject0))),
         dispatch (commit ((execute (\<lambda>_. d4) s)
           \<lparr>pending := pending s @ [InjectReleased (ij_exercise_id inject0) (ij_id inject0)]\<rparr>))))"
proof -
  obtain ex where ex: "get_exercise (db s) (ij_exercise_id inject0) = Some ex" "ex_state ex = Active"
    using assms by (auto simp: release_accepts_def)
  have lock: "lock_exercise_for_audience_snapshot (db s) (ij_exercise_id inject0) = Inr ex"
    using ex by (simp add: lock_exercise_for_audience_snapshot_def)
  have gate: "release_is_allowed (db s) inject0 scheduled = Inr True"
    and ctx: "inject_audience_contexts inject0 (members_of (db s) (ij_exercise_id inject0)) \<noteq> []"
    and pend: "\<exists>r\<in>set (injects (db s)). ij_id r = ij_id inject0 \<and> ij_state r = Pending"
    using assms by (auto simp: release_accepts_def)
  have row: "get_inject d4 (ij_id inject0) \<noteq> None"
    if "schedule_release_triggered_comms (ij_exercise_id inject0) inject0 now
          (released_db inject0 b now (db s)) = Inr d4" for d4
    using released_row_present [where d = "snd (seed_inject_resolution_contexts inject0 (db s))"]
      schedule_release_enqueued [OF that] pend
    unfolding released_db_def by simp
  have sess: "(execute (\<lambda>_. d4) ((execute (mark_released (ij_id inject0) b now)
        (execute (\<lambda>d. snd (seed_inject_resolution_contexts inject0 d)) s))\<lparr>pending := ps\<rparr>)) =
      (execute (\<lambda>_. d4) s)\<lparr>pending := ps\<rparr>" for d4 ps
    by (simp add: execute_def)
  have sess': "(execute (mark_released (ij_id inject0) b now)
        (execute (\<lambda>d. snd (seed_inject_resolution_contexts inject0 d)) s))\<lparr>pending := ps\<rparr> =
      (execute (\<lambda>_. released_db inject0 b now (db s)) s)\<lparr>pending := ps\<rparr>" for ps
    by (simp add: execute_def released_db_def)
  show ?thesis
    using pend ctx row
    by (auto simp: release_inject_def lock ex(2) gate Let_def fst_seed_contexts sess sess'
        released_db_def [symmetric] split: sum.splits option.splits)
      (cases s, simp add: execute_def)
qed

lemma release_inject_Inr:
  assumes "release_inject inject0 b scheduled now s = (Inr ij, s')"
  obtains d4 where "release_accepts inject0 scheduled (db s)"
    "enqueued (released_db inject0 b now (db s)) d4"
    "schedule_release_triggered_comms (ij_exercise_id inject0) inject0 now
       (released_db inject0 b now (db s)) = Inr d4"
    "get_inject d4 (ij_id inject0) = Some ij"
    "s' = dispatch (commit ((execute (\<lambda>_. d4) s)
       \<lparr>pending := pending s @ [InjectReleased (ij_exercise_id inject0) (ij_id inject0)]\<rparr>))"
proof -
  have acc: "release_accepts inject0 scheduled (db s)"
    using release_rejects [of inject0 scheduled s b now] assms by auto
  show thesis
  proof (cases "schedule_release_triggered_comms (ij_exercise_id inject0) inject0 now
       (released_db inject0 b now (db s))")
    case (Inl e)
    then show thesis using assms by (simp add: release_accepting [OF acc])
  next
    case (Inr d4)
    have "get_inject d4 (ij_id inject0) \<noteq> None"
      using released_row_present [where d = "snd (seed_inject_resolution_contexts inject0 (db s))"]
        schedule_release_enqueued [OF Inr] acc
      unfolding released_db_def release_accepts_def by simp
    then show thesis
      using that [OF acc schedule_release_enqueued [OF Inr] Inr] assms Inr
      by (auto simp: release_accepting [OF acc])
  qed
qed

lemma release_inject_Inl:
  assumes "release_inject inject0 b scheduled now s = (Inl e, s')"
  shows "unpublished s s'"
proof (cases "release_accepts inject0 scheduled (db s)")
  case True
  then show ?thesis using assms by (auto simp: release_accepting split: sum.splits)
next
  case False
  then show ?thesis using release_rejects [OF False, of b now] assms by auto
qed

interpretation release: unit_of_work "release_inject inject0 b scheduled now"
proof
  fix s e s' assume "release_inject inject0 b scheduled now s = (Inl e, s')" "ready s = []"
  then show "committed s' = committed s \<and> notified s' = notified s \<and>
      dispatched s' = dispatched s \<and> ready s' = []"
    using release_inject_Inl by (simp add: unpublished_def)
next
  fix s x s' assume "release_inject inject0 b scheduled now s = (Inr x, s')" "fresh s"
  then show "fresh s'"
    by (elim release_inject_Inr) (simp add: fresh_def)
qed

section \<open>Lemmas: effects of a release\<close>

lemma get_inject_unique:
  "distinct (map ij_id (injects d)) \<Longrightarrow> r \<in> set (injects d) \<Longrightarrow> get_inject d (ij_id r) = Some r"
  by (simp add: get_defs get_row_unique)

lemma get_inject_after_release:
  assumes "distinct (map ij_id (injects d))" and "r \<in> set (injects d)" and "ij_state r = Pending"
    and "ij_id r = ij_id inject0" and "injects d4 = injects (released_db inject0 b now d)"
  shows "get_inject d4 (ij_id inject0) =
    Some (r\<lparr>ij_state := Released, ij_released_at := Some now, ij_released_by := b\<rparr>)"
  using get_inject_unique [OF assms(1,2)] assms(3-5)
  by (simp add: get_inject_def get_row_update_where)

lemma released_no_longer_pending:
  assumes "injects d4 = injects (released_db inject0 b now d)" and "x \<in> set (injects d4)"
    and "ij_id x = ij_id inject0"
  shows "ij_state x \<noteq> Pending"
  using assms by (auto simp: set_update_where split: if_splits)

lemma release_comms_jobs:
  assumes "schedule_release_triggered_comms e ij now d = Inr d'"
    and "ij_scenario_node_id ij = Some nid" and "nid \<noteq> []"
    and "definition_for_exercise d e = Inr (Some def1)" and "get_inject_node def1 nid = Some n"
    and "k < length (in_triggers_communications n)"
  shows "live_comm d' e nid k"
proof -
  have nid: "in_id n = nid" using assms(5) get_inject_node_Some by blast
  have d': "d' = fold (\<lambda>(index, trigger). defer_triggered_comm e (ij_id ij) (in_id n) index
      (tc_delay_after_release_seconds trigger * SECOND) now)
      (List.enumerate 0 (in_triggers_communications n)) d"
    using assms(1-5) by (simp add: schedule_release_triggered_comms_def)
  have "live_comm (fold (\<lambda>(index, trigger). defer_triggered_comm e (ij_id ij) nid index
      (tc_delay_after_release_seconds trigger * SECOND) now) ps d0) e nid k"
    if "k \<in> fst ` set ps" for ps d0
    using that
  proof (induction ps arbitrary: d0)
    case (Cons p ps)
    obtain i t where p: "p = (i, t)" by (cases p)
    let ?d = "defer_triggered_comm e (ij_id ij) nid i (tc_delay_after_release_seconds t * SECOND) now d0"
    have "enqueued ?d (fold (\<lambda>(index, trigger). defer_triggered_comm e (ij_id ij) nid index
      (tc_delay_after_release_seconds trigger * SECOND) now) ps ?d)"
      by (rule fold_enqueued) auto
    then show ?case
      using Cons p live_comm_enqueued by (cases "k \<in> fst ` set ps") auto
  qed simp
  from this [of "List.enumerate 0 (in_triggers_communications n)" d]
  show ?thesis using assms(6) unfolding d' nid by (simp add: fst_set_enumerate)
qed

lemma definition_for_exercise_cong:
  assumes "exercises a = exercises b" and "snapshots a = snapshots b" and "scenarios a = scenarios b"
  shows "definition_for_exercise a e = definition_for_exercise b e"
proof -
  have reads: "get_snapshot a = get_snapshot b" "get_scenario a = get_scenario b"
      "get_exercise a = get_exercise b"
    using assms by (simp_all add: fun_eq_iff get_defs)
  have same: "launch_definition_for_exercise a ex = launch_definition_for_exercise b ex"
      "get_scenario_definition a i = get_scenario_definition b i" for ex i
    unfolding launch_definition_for_exercise_def get_scenario_definition_def reads by (rule refl)+
  show ?thesis unfolding definition_for_exercise_def reads same by (rule refl)
qed

section \<open>Lemmas: seeding\<close>

lemma create_inject_row_fields:
  "ij_exercise_id (fst (create_inject_row e t c nid ts g so off att dr d)) = e"
  "ij_scenario_node_id (fst (create_inject_row e t c nid ts g so off att dr d)) = nid"
  "ij_group_id (fst (create_inject_row e t c nid ts g so off att dr d)) = stripped_or_none g"
  "ij_state (fst (create_inject_row e t c nid ts g so off att dr d)) = Pending"
  "ij_release_offset_minutes (fst (create_inject_row e t c nid ts g so off att dr d)) = off"
  "ij_id (fst (create_inject_row e t c nid ts g so off att dr d)) = nextval TInject d"
  "ij_created_during_run (fst (create_inject_row e t c nid ts g so off att dr d)) = Some dr"
  "injects (snd (create_inject_row e t c nid ts g so off att dr d)) =
     injects d @ [fst (create_inject_row e t c nid ts g so off att dr d)]"
  by (simp_all add: create_inject_row_def Let_def)

text \<open>The (node, group) pairs a definition is laid out into, with their offsets.\<close>

definition node_slots :: "inject_node \<Rightarrow> (string \<times> string option \<times> int option) list" where
  "node_slots n =
     (if in_target_teams n \<noteq> []
      then map (\<lambda>t. (in_id n, Some t, in_release_at_minutes n)) (in_target_teams n)
      else [(in_id n, None, in_release_at_minutes n)])"

definition inject_slot :: "inject \<Rightarrow> string option \<times> string option \<times> int option" where
  "inject_slot ij = (ij_scenario_node_id ij, ij_group_id ij, ij_release_offset_minutes ij)"

definition seeded_rows :: "int \<Rightarrow> (string \<times> string option \<times> int option) list \<Rightarrow> database \<Rightarrow> database \<Rightarrow> bool"
  where
  "seeded_rows e slots d d' \<longleftrightarrow>
     (\<exists>new. injects d' = injects d @ new \<and>
        map inject_slot new = map (\<lambda>(n, g, off). (Some n, g, off)) slots \<and>
        (\<forall>ij\<in>set new. ij_exercise_id ij = e \<and> ij_state ij = Pending \<and>
           ij_created_during_run ij = Some False))"

lemma seeded_rows_Nil: "injects d' = injects d \<Longrightarrow> seeded_rows e [] d d'"
  by (simp add: seeded_rows_def)

lemma seeded_rows_append:
  assumes "seeded_rows e xs d d'" and "seeded_rows e ys d' d''"
  shows "seeded_rows e (xs @ ys) d d''"
proof -
  obtain a b where "injects d' = injects d @ a" "injects d'' = injects d' @ b"
      "map inject_slot a = map (\<lambda>(n, g, off). (Some n, g, off)) xs"
      "map inject_slot b = map (\<lambda>(n, g, off). (Some n, g, off)) ys"
      "\<forall>ij\<in>set a. ij_exercise_id ij = e \<and> ij_state ij = Pending \<and>
           ij_created_during_run ij = Some False"
      "\<forall>ij\<in>set b. ij_exercise_id ij = e \<and> ij_state ij = Pending \<and>
           ij_created_during_run ij = Some False"
    using assms unfolding seeded_rows_def by blast
  then show ?thesis unfolding seeded_rows_def by (intro exI [of _ "a @ b"]) auto
qed

lemma seeded_rows_one:
  assumes "stripped_or_none g = g'"
  shows "seeded_rows e [(nid, g', off)] d
    (snd (create_inject_row e t c (Some nid) ts g so off att False d))"
  unfolding seeded_rows_def
  by (intro exI [of _ "[fst (create_inject_row e t c (Some nid) ts g so off att False d)]"])
    (simp add: create_inject_row_fields inject_slot_def assms)

lemma seeded_rows_teams:
  assumes "\<forall>t\<in>set ts. strip t = t \<and> t \<noteq> []"
  shows "seeded_rows e (map (\<lambda>t. (nid, Some t, off)) ts) d
    (fold (\<lambda>g d. snd (create_inject_row e ti c (Some nid) (Some [g]) (Some g) so off None False d)) ts d)"
  using assms
proof (induction ts arbitrary: d)
  case (Cons t ts)
  have "seeded_rows e [(nid, Some t, off)] d
      (snd (create_inject_row e ti c (Some nid) (Some [t]) (Some t) so off None False d))"
    by (rule seeded_rows_one) (use Cons.prems in \<open>simp add: stripped_or_none_def\<close>)
  from seeded_rows_append [OF this Cons.IH] Cons.prems show ?case by simp
qed (simp add: seeded_rows_Nil)

lemma seed_node_rows:
  assumes "\<forall>t\<in>set (in_target_teams n). strip t = t \<and> t \<noteq> []"
  shows "seeded_rows e (node_slots n) d (seed_node e (i, n) d)"
  using seeded_rows_teams [OF assms] seeded_rows_one [of None None]
  by (simp add: seed_node_def node_slots_def Let_def stripped_or_none_def)

lemma seed_nodes_rows:
  assumes "\<And>p. p \<in> set ps \<Longrightarrow> \<forall>t\<in>set (in_target_teams (snd p)). strip t = t \<and> t \<noteq> []"
  shows "seeded_rows e (concat (map (\<lambda>p. node_slots (snd p)) ps)) d (fold (seed_node e) ps d)"
  using assms
proof (induction ps arbitrary: d)
  case (Cons p ps)
  have "seeded_rows e (node_slots (snd p)) d (seed_node e p d)"
    using seed_node_rows [of "snd p" e d "fst p"] Cons.prems [of p] by simp
  moreover have "seeded_rows e (concat (map (\<lambda>p. node_slots (snd p)) ps)) (seed_node e p d)
      (fold (seed_node e) ps (seed_node e p d))"
    by (rule Cons.IH) (rule Cons.prems, simp)
  ultimately show ?case by (simp add: seeded_rows_append)
qed (simp add: seeded_rows_Nil)

lemma distinct_slots:
  assumes "distinct (map in_id ns)" and "\<forall>n\<in>set ns. distinct (in_target_teams n)"
  shows "distinct (map (\<lambda>(n, g, off). (n, g)) (concat (map node_slots ns)))"
  using assms
proof (induction ns)
  case (Cons n ns)
  have "distinct (map (\<lambda>(n, g, off). (n, g)) (node_slots n))"
    using Cons.prems by (simp add: node_slots_def distinct_map inj_on_def comp_def)
  moreover have "fst x = in_id m" if "x \<in> set (node_slots m)" for x m
    using that by (auto simp: node_slots_def split: if_splits)
  ultimately show ?case using Cons by (fastforce simp: image_iff)
qed simp

section \<open>Properties\<close>

text \<open>C1: a release happens only from an open position and completely: when
  \<^verbatim>\<open>release_inject\<close> returns, the exercise was active, the branch gate open, the
  inject pending and its audience not empty; the committed row is released now by that actor,
  every audience context has a resolution row, every trigger of its node has a waiting job, and
  exactly the release is announced, on the committed tables.\<close>

theorem release_is_complete:
  assumes "release_inject inject0 released_by scheduled now s = (Inr ij, s')"
    and "fresh s" and "distinct (map ij_id (injects (db s)))"
  shows "release_accepts inject0 scheduled (db s) \<and>
    get_inject (committed s') (ij_id inject0) = Some ij \<and> ij_state ij = Released \<and>
    ij_released_at ij = Some now \<and> ij_released_by ij = released_by \<and>
    (\<forall>c\<in>set (inject_audience_contexts inject0 (members_of (db s) (ij_exercise_id inject0))).
       \<exists>r\<in>set (resolutions_of (committed s') (ij_id inject0)). ip_group_id r = c) \<and>
    (\<forall>nid def1 n k. ij_scenario_node_id inject0 = Some nid \<longrightarrow> nid \<noteq> [] \<longrightarrow>
       definition_for_exercise (db s) (ij_exercise_id inject0) = Inr (Some def1) \<longrightarrow>
       get_inject_node def1 nid = Some n \<longrightarrow> k < length (in_triggers_communications n) \<longrightarrow>
       live_comm (committed s') (ij_exercise_id inject0) nid k) \<and>
    dispatched s' = dispatched s @
      [(committed s', InjectReleased (ij_exercise_id inject0) (ij_id inject0))]"
proof -
  obtain d4 where acc: "release_accepts inject0 scheduled (db s)"
    and enq: "enqueued (released_db inject0 released_by now (db s)) d4"
    and sched: "schedule_release_triggered_comms (ij_exercise_id inject0) inject0 now
       (released_db inject0 released_by now (db s)) = Inr d4"
    and row: "get_inject d4 (ij_id inject0) = Some ij"
    and s': "s' = dispatch (commit ((execute (\<lambda>_. d4) s)
       \<lparr>pending := pending s @ [InjectReleased (ij_exercise_id inject0) (ij_id inject0)]\<rparr>))"
    using assms(1) by (rule release_inject_Inr)
  obtain r where r: "r \<in> set (injects (db s))" "ij_id r = ij_id inject0" "ij_state r = Pending"
    using acc by (auto simp: release_accepts_def)
  have ij: "ij = r\<lparr>ij_state := Released, ij_released_at := Some now, ij_released_by := released_by\<rparr>"
    using get_inject_after_release [OF assms(3) r(1,3,2)] enqueued_frame [OF enq] row by simp
  have audience: "\<exists>q\<in>set (resolutions_of d4 (ij_id inject0)). ip_group_id q = c"
    if "c \<in> set (inject_audience_contexts inject0 (members_of (db s) (ij_exercise_id inject0)))" for c
    using fold_resolution_present [OF that, of inject0 "db s"] enqueued_frame [OF enq]
    by (auto simp: resolutions_of_def resolution_key_def snd_seed_contexts)
  have "definition_for_exercise (released_db inject0 released_by now (db s)) e =
      definition_for_exercise (db s) e" for e
    by (rule definition_for_exercise_cong) simp_all
  then have triggers: "live_comm d4 (ij_exercise_id inject0) nid k"
    if "ij_scenario_node_id inject0 = Some nid" "nid \<noteq> []"
      "definition_for_exercise (db s) (ij_exercise_id inject0) = Inr (Some def1)"
      "get_inject_node def1 nid = Some n" "k < length (in_triggers_communications n)" for nid def1 n k
    using release_comms_jobs [OF sched that(1,2)] that by simp
  show ?thesis
    using acc row audience triggers assms(2)
    unfolding s' by (simp add: ij fresh_def)
qed

definition demo_session :: "database \<Rightarrow> session" where
  "demo_session d = open_session ''web-1'' d"

lemma demo_session_fields [simp]:
  "db (demo_session d) = d" "committed (demo_session d) = d" "fresh (demo_session d)"
  "dispatched (demo_session d) = []" "\<not> in_transaction (demo_session d)"
  "notified (demo_session d) = []" "pending (demo_session d) = []" "ready (demo_session d) = []"
  by (simp_all add: demo_session_def open_session_def fresh_def)

definition demo_pending_db :: database where
  "demo_pending_db = demo_play_db\<lparr>injects := [demo_inject 1 ''a'' None Pending]\<rparr>"

theorem release_is_complete_witness:
  "\<exists>ij s'. release_inject (demo_inject 1 ''a'' None Pending) (Some 10) False 5
      (demo_session demo_pending_db) = (Inr ij, s') \<and>
     ij_state ij = Released \<and> live_comm (committed s') 1 ''a'' 0"
proof -
  let ?i = "demo_inject 1 ''a'' None Pending"
  let ?r = "release_inject ?i (Some 10) False 5 (demo_session demo_pending_db)"
  have "is_ok (fst ?r)" by code_simp
  then obtain ij s' where run: "?r = (Inr ij, s')" by (cases ?r) (auto simp: is_ok_iff)
  have dist: "distinct (map ij_id (injects (db (demo_session demo_pending_db))))" by code_simp
  let ?n = "hd (sd_injects demo_definition)"
  have f: "ij_scenario_node_id ?i = Some ''a''" "''a'' \<noteq> []"
    "definition_for_exercise (db (demo_session demo_pending_db)) (ij_exercise_id ?i) =
       Inr (Some demo_definition)"
    "get_inject_node demo_definition ''a'' = Some ?n" "0 < length (in_triggers_communications ?n)"
    by code_simp+
  have e: "ij_exercise_id ?i = 1" by code_simp
  note all = release_is_complete [OF run demo_session_fields(3) dist]
  from all have rel: "ij_state ij = Released" by blast
  from all f have "live_comm (committed s') (ij_exercise_id ?i) ''a'' 0" by blast
  then show ?thesis using run rel unfolding e by blast
qed

text \<open>An inject is released once: after a successful release, any further attempt on the same
  inject, by hand or by schedule, from whatever row its caller still holds, is refused and
  publishes nothing.\<close>

lemma release_happens_once:
  assumes "release_inject inject0 b scheduled now s = (Inr ij, s')"
    and "ij_id inject1 = ij_id inject0"
  shows "\<exists>e s''. release_inject inject1 b1 scheduled1 later s' = (Inl e, s'') \<and>
    committed s'' = committed s' \<and> notified s'' = notified s' \<and> dispatched s'' = dispatched s'"
proof -
  obtain d4 where "enqueued (released_db inject0 b now (db s)) d4"
    and s': "s' = dispatch (commit ((execute (\<lambda>_. d4) s)
       \<lparr>pending := pending s @ [InjectReleased (ij_exercise_id inject0) (ij_id inject0)]\<rparr>))"
    using assms(1) by (rule release_inject_Inr)
  then have "injects (db s') = injects (released_db inject0 b now (db s))"
    by (simp add: enqueued_frame)
  then have "\<not> release_accepts inject1 scheduled1 (db s')"
    using released_no_longer_pending assms(2) by (metis release_accepts_def)
  then show ?thesis using release_rejects by (fastforce simp: unpublished_def)
qed

lemma release_happens_once_witness:
  "\<exists>ij s' e s''. release_inject (demo_inject 1 ''a'' None Pending) (Some 10) False 5
      (demo_session demo_pending_db) = (Inr ij, s') \<and>
     release_inject (demo_inject 1 ''a'' None Pending) None True 6 s' = (Inl e, s'') \<and>
     dispatched s'' = dispatched s'"
proof -
  let ?r = "release_inject (demo_inject 1 ''a'' None Pending) (Some 10) False 5
    (demo_session demo_pending_db)"
  have "is_ok (fst ?r)" by code_simp
  then obtain ij s' where run: "?r = (Inr ij, s')" by (cases ?r) (auto simp: is_ok_iff)
  from release_happens_once [OF run refl] show ?thesis using run by blast
qed

text \<open>The scenario is laid out exactly: seeding appends one pending draft inject per node
  and target team, or one shared inject for a node without teams, in document order and with
  the node's offset, and no two of them share node and group.\<close>

lemma seeding_lays_out_the_scenario:
  assumes "seed_injects_from_scenario exercise_id sc d = Inr d'"
    and "export_definition sc = Inr def1"
  shows "seeded_rows exercise_id (concat (map node_slots (sd_injects def1))) d d' \<and>
    distinct (map (\<lambda>(n, g, off). (n, g)) (concat (map node_slots (sd_injects def1))))"
proof -
  have v: "model_validate (sc_definition sc) = Inr def1"
    using assms(2) by (simp add: export_definition_def parse_definition_Inr)
  have nodes: "validate_node n = Inr n" if "n \<in> set (sd_injects def1)" for n
    using model_validate_parts(3) [OF v] that
    by (auto simp: map_checked_Inr_iff list_all2_conv_all_nth in_set_conv_nth)
  have "seeded_rows exercise_id (concat (map (\<lambda>p. node_slots (snd p))
      (List.enumerate 0 (sd_injects def1)))) d
      (fold (seed_node exercise_id) (List.enumerate 0 (sd_injects def1)) d)"
  proof (rule seed_nodes_rows)
    fix p assume "p \<in> set (List.enumerate 0 (sd_injects def1))"
    then have "snd p \<in> snd ` set (List.enumerate 0 (sd_injects def1))" by (rule imageI)
    then have "snd p \<in> set (sd_injects def1)" by (metis list.set_map map_snd_enumerate)
    then show "\<forall>t\<in>set (in_target_teams (snd p)). strip t = t \<and> t \<noteq> []"
      using validate_node_teams nodes by blast
  qed
  moreover have "map (\<lambda>p. node_slots (snd p)) (List.enumerate 0 (sd_injects def1)) =
      map node_slots (sd_injects def1)"
    by (simp add: comp_def flip: map_map [of node_slots snd, unfolded comp_def])
  moreover have "distinct (map in_id (sd_injects def1))"
      "\<forall>n\<in>set (sd_injects def1). distinct (in_target_teams n)"
    using model_validate_valid [OF v] by (auto simp: valid_definition_def)
  ultimately show ?thesis
    using assms distinct_slots by (simp add: seed_injects_from_scenario_def)
qed

lemma seeding_lays_out_the_scenario_witness:
  "\<exists>d'. seed_injects_from_scenario 1 demo_scenario empty_database = Inr d' \<and>
     seeded_rows 1 [(''a'', None, Some 10), (''b'', Some ''red'', Some 10), (''c'', None, Some 10)]
       empty_database d'"
proof -
  have "is_ok (seed_injects_from_scenario 1 demo_scenario empty_database)" by code_simp
  then obtain d' where d': "seed_injects_from_scenario 1 demo_scenario empty_database = Inr d'"
    by (auto simp: is_ok_iff)
  have ex: "export_definition demo_scenario = Inr demo_definition" by code_simp
  have "concat (map node_slots (sd_injects demo_definition)) =
      [(''a'', None, Some 10), (''b'', Some ''red'', Some 10), (''c'', None, Some 10)]"
    by code_simp
  then show ?thesis using seeding_lays_out_the_scenario [OF d' ex] d' by auto
qed

text \<open>Only a pending inject is ever deleted: the delete succeeds exactly when the row is still
  pending at that moment, and otherwise nothing changes; released and resolved injects, and the
  responses, comments and resolution rows of every other inject, all survive it.\<close>

lemma delete_spares_evidence:
  assumes "delete_pending_inject inject0 s = (r, s')"
  shows "(is_ok r = (\<exists>ij\<in>set (injects (db s)). ij_id ij = ij_id inject0 \<and> ij_state ij = Pending)) \<and>
    (\<not> is_ok r \<longrightarrow> s' = s) \<and>
    (\<forall>ij\<in>set (injects (db s)). ij_state ij \<noteq> Pending \<longrightarrow> ij \<in> set (injects (db s'))) \<and>
    (\<forall>x\<in>set (responses (db s)). rs_inject_id x \<noteq> ij_id inject0 \<longrightarrow> x \<in> set (responses (db s'))) \<and>
    (\<forall>x\<in>set (comments (db s)). ic_inject_id x \<noteq> ij_id inject0 \<longrightarrow> x \<in> set (comments (db s'))) \<and>
    (\<forall>x\<in>set (resolutions (db s)). ip_inject_id x \<noteq> ij_id inject0 \<longrightarrow> x \<in> set (resolutions (db s')))"
  using assms
  by (auto simp: delete_pending_inject_def delete_injects_def Let_def split: if_splits)

lemma delete_spares_evidence_witness:
  "demo_inject 1 ''a'' None Released \<in> set (injects (db (snd (delete_pending_inject
     (demo_inject 2 ''b'' (Some ''red'') Pending) (demo_session demo_play_db)))))"
proof -
  let ?r = "delete_pending_inject (demo_inject 2 ''b'' (Some ''red'') Pending) (demo_session demo_play_db)"
  have m: "demo_inject 1 ''a'' None Released \<in> set (injects (db (demo_session demo_play_db)))"
    "ij_state (demo_inject 1 ''a'' None Released) \<noteq> Pending"
    by code_simp+
  have "?r = (fst ?r, snd ?r)" by simp
  from delete_spares_evidence [OF this] m show ?thesis by blast
qed

text \<open>The branch topology is redacted by default: a payload built without
  \<^verbatim>\<open>include_progression\<close> has no next-inject key, on the node or on any of its
  options, and differs in nothing else from the facilitator's payload.\<close>

lemma payload_redacts_topology:
  assumes "inject_payload d ij False definition0 = Inr p"
    and "inject_payload d ij True definition0 = Inr q"
  shows "iq_next_inject_id p = None \<and> (\<forall>(i, l, nx)\<in>set (iq_options p). nx = None) \<and>
    map (\<lambda>(i, l, nx). (i, l)) (iq_options p) = map (\<lambda>(i, l, nx). (i, l)) (iq_options q) \<and>
    p\<lparr>iq_options := [], iq_next_inject_id := None\<rparr> = q\<lparr>iq_options := [], iq_next_inject_id := None\<rparr>"
  using assms
  by (auto simp: inject_payload_def inject_options_def split: option.splits)

lemma payload_redacts_topology_witness:
  "\<exists>p q. inject_payload demo_play_db (demo_inject 1 ''a'' None Released) False None = Inr p \<and>
     inject_payload demo_play_db (demo_inject 1 ''a'' None Released) True None = Inr q \<and>
     iq_next_inject_id p = None"
proof -
  have "is_ok (inject_payload demo_play_db (demo_inject 1 ''a'' None Released) False None)"
    "is_ok (inject_payload demo_play_db (demo_inject 1 ''a'' None Released) True None)"
    by code_simp+
  then show ?thesis using payload_redacts_topology by (force simp: is_ok_iff)
qed

end
