(* ===== verification/Launch_Snapshot.thy ===== *)
theory Launch_Snapshot
  imports Inject_Service "HOL-Library.Char_ord" "HOL-Library.List_Lexorder"
begin

text \<open>
  Freezing an exercise's configuration at launch
  (\<^verbatim>\<open>app/services/launch_snapshot_service.py\<close>): the canonical JSON of the
  content, its digest, and the content-addressed snapshot row.

  SHA-256 is the parameter \<open>sha256\<close>, from bytes to a hex digest, and reading an
  attachment from disk the parameter \<open>read_file\<close>, from a path to the digest and size
  of the file, or \<open>None\<close> for an \<^verbatim>\<open>OSError\<close>.  Nothing is assumed of either:
  a digest collision is a branch of the code.
\<close>

definition SNAPSHOT_SCHEMA_VERSION :: string where "SNAPSHOT_SCHEMA_VERSION = ''1.0''"

section \<open>Canonical JSON\<close>

datatype json_doc = JNull | JBool bool | JNum int | JText string
  | JArr "json_doc list" | JObj "(string \<times> json_doc) list"

definition join :: "string \<Rightarrow> string list \<Rightarrow> string" where
  "join sep xs = (case xs of [] \<Rightarrow> [] | y # ys \<Rightarrow> y @ concat (map (\<lambda>s. sep @ s) ys))"

text \<open>\<^verbatim>\<open>ensure_ascii=False\<close> and UTF-8: a code point from 128 to 255 is two bytes.\<close>

definition utf8_char :: "char \<Rightarrow> string" where
  "utf8_char c =
     (case short_escape c of
        Some e \<Rightarrow> [CHR 0x5C, e]
      | None \<Rightarrow>
          if below_space c then unicode_escape c
          else if (of_char c :: nat) < 128 then [c]
          else [char_of (192 + (of_char c :: nat) div 64), char_of (128 + (of_char c :: nat) mod 64)])"

definition utf8_string :: "string \<Rightarrow> string" where
  "utf8_string s = CHR 0x22 # concat (map utf8_char s) @ [CHR 0x22]"

primrec canonical_bytes :: "json_doc \<Rightarrow> string" where
  "canonical_bytes JNull = ''null''"
| "canonical_bytes (JBool b) = (if b then ''true'' else ''false'')"
| "canonical_bytes (JNum i) = show_int i"
| "canonical_bytes (JText s) = utf8_string s"
| "canonical_bytes (JArr xs) = ''['' @ join '','' (map canonical_bytes xs) @ '']''"
| "canonical_bytes (JObj kvs) =
     ''{'' @ join '','' (map (\<lambda>(k, v). utf8_string k @ '':'' @ v)
       (sort_key fst (map (map_prod (\<lambda>k. k) canonical_bytes) kvs))) @ ''}''"

definition jopt :: "('a \<Rightarrow> json_doc) \<Rightarrow> 'a option \<Rightarrow> json_doc" where
  "jopt f x = (case x of None \<Rightarrow> JNull | Some y \<Rightarrow> f y)"

definition jtexts :: "string list \<Rightarrow> json_doc" where
  "jtexts xs = JArr (map JText xs)"

definition trigger_json :: "trigger_comm \<Rightarrow> json_doc" where
  "trigger_json t = JObj
     [(''external_entity'', JText (tc_external_entity t)), (''direction'', JText (tc_direction t)),
      (''subject'', JText (tc_subject t)), (''body'', JText (tc_body t)),
      (''delay_after_release_seconds'', JNum (tc_delay_after_release_seconds t))]"

definition option_json :: "inject_option \<Rightarrow> json_doc" where
  "option_json o1 = JObj
     [(''id'', JText (io_id o1)), (''label'', JText (io_label o1)),
      (''next_inject_id'', jopt JText (io_next_inject_id o1))]"

definition node_json :: "inject_node \<Rightarrow> json_doc" where
  "node_json n = JObj
     [(''id'', JText (in_id n)), (''title'', JText (in_title n)), (''content'', JText (in_content n)),
      (''target_teams'', jtexts (in_target_teams n)), (''sequence_order'', JNum (in_sequence_order n)),
      (''next_inject_id'', jopt JText (in_next_inject_id n)),
      (''options'', JArr (map option_json (in_options n))),
      (''free_text_response'', JBool (in_free_text_response n)),
      (''triggers_communications'', JArr (map trigger_json (in_triggers_communications n))),
      (''expected_actions'', jtexts (in_expected_actions n)),
      (''release_at_minutes'', jopt JNum (in_release_at_minutes n))]"

definition definition_json :: "scenario_definition \<Rightarrow> json_doc" where
  "definition_json d = JObj
     [(''schema_version'', JText (sd_schema_version d)), (''title'', JText (sd_title d)),
      (''description'', jopt JText (sd_description d)), (''tags'', jtexts (sd_tags d)),
      (''metadata'', JObj [(''author'', jopt JText (sm_author (sd_metadata d))),
         (''estimated_duration_minutes'', jopt JNum (sm_estimated_duration_minutes (sd_metadata d)))]),
      (''participant_teams'', JArr (map (\<lambda>t. JObj [(''id'', JText (pt_id t)), (''label'', JText (pt_label t))])
         (sd_participant_teams d))),
      (''injects'', JArr (map node_json (sd_injects d))),
      (''start_inject_id'', JText (sd_start_inject_id d)),
      (''debrief_notes'', jopt JText (sd_debrief_notes d))]"

definition launch_inject_json :: "launch_inject \<Rightarrow> json_doc" where
  "launch_inject_json i = JObj
     [(''scenario_node_id'', jopt JText (li_scenario_node_id i)), (''title'', JText (li_title i)),
      (''content'', JText (li_content i)), (''target_teams'', jtexts (li_target_teams i)),
      (''group_id'', jopt JText (li_group_id i)), (''sequence_order'', JNum (li_sequence_order i)),
      (''release_offset_minutes'', jopt JNum (li_release_offset_minutes i)),
      (''attachment'', jopt (\<lambda>(fn, ct, sz, dg). JObj [(''filename'', jopt JText fn),
         (''content_type'', jopt JText ct), (''size'', JNum sz), (''sha256'', JText dg)])
         (li_attachment i))]"

definition member_json :: "int \<times> string option \<times> string \<Rightarrow> json_doc" where
  "member_json m = (case m of (u, g, r) \<Rightarrow>
     JObj [(''user_id'', JNum u), (''group_id'', jopt JText g), (''role'', JText r)])"

definition launch_communication_json :: "launch_communication \<Rightarrow> json_doc" where
  "launch_communication_json c = JObj
     [(''direction'', JText (lm_direction c)), (''sender_id'', jopt JNum (lm_sender_id c)),
      (''sender_team'', jopt JText (lm_sender_team c)),
      (''external_entity'', jopt JText (lm_external_entity c)), (''subject'', JText (lm_subject c)),
      (''body'', JText (lm_body c)), (''visible_to_teams'', jtexts (lm_visible_to_teams c)),
      (''sent_at'', JText (isoformat (lm_sent_at c)))]"

definition content_json :: "launch_content \<Rightarrow> json_doc" where
  "content_json c = JObj
     [(''schema_version'', JText (lc_schema_version c)),
      (''scenario'', JObj [(''version'', JText (lc_scenario_version c)),
         (''definition'', definition_json (lc_definition c))]),
      (''exercise'', JObj [(''title'', JText (lc_title c)), (''llm_enabled'', JBool (lc_llm_enabled c))]),
      (''injects'', JArr (map launch_inject_json (lc_injects c))),
      (''members'', JArr (map member_json (lc_members c))),
      (''prepared_communications'', JArr (map launch_communication_json (lc_communications c)))]"

definition snapshot_digest :: "(string \<Rightarrow> string) \<Rightarrow> launch_content \<Rightarrow> string" where
  "snapshot_digest sha256 c = sha256 (canonical_bytes (content_json c))"

definition canonical_scenario_definition :: "scenario_definition \<Rightarrow> scenario_definition" where
  "canonical_scenario_definition d =
     d\<lparr>sd_injects := map (\<lambda>n. n\<lparr>in_target_teams := sort (in_target_teams n)\<rparr>) (sd_injects d)\<rparr>"

section \<open>The configuration lock\<close>

definition lock_configuration_owner :: "exercise \<Rightarrow> database \<Rightarrow> exn + scenario \<times> exercise" where
  "lock_configuration_owner ex0 d =
     (case get_scenario d (ex_scenario_id ex0) of
        None \<Rightarrow> Inl (HTTPException 409 ''Exercise scenario no longer exists'')
      | Some sc \<Rightarrow>
          (case get_exercise d (ex_id ex0) of
             None \<Rightarrow> Inl (HTTPException 404 ''Exercise not found'')
           | Some locked \<Rightarrow>
               if ex_scenario_id locked \<noteq> sc_id sc
               then Inl (HTTPException 409
                      ''Exercise scenario changed while configuration was being locked'')
               else Inr (sc, locked)))"

definition require_inject_configuration_mutable :: "exercise \<Rightarrow> inject \<Rightarrow> exn + unit" where
  "require_inject_configuration_mutable ex ij =
     (if ex_launch_provenance ex = ProvExact \<and> ij_created_during_run ij \<noteq> Some True
      then Inl (HTTPException 409 ''Launch-configured injects are frozen after launch'')
      else Inr ())"

section \<open>Building the content\<close>

type_synonym file_reader = "string \<Rightarrow> (string \<times> int) option"

definition attachment_snapshot ::
  "file_reader \<Rightarrow> inject \<Rightarrow> exn + (string option \<times> string option \<times> int \<times> string) option" where
  "attachment_snapshot read_file ij =
     (case ij_attachment_path ij of None \<Rightarrow> Inr None
      | Some p \<Rightarrow>
          (case read_file p of
             None \<Rightarrow> Inl (HTTPException 409 ''attachment is unavailable; launch was not started'')
           | Some (dg, size1) \<Rightarrow>
               if ij_attachment_size ij \<noteq> None \<and> ij_attachment_size ij \<noteq> Some size1
               then Inl (HTTPException 409 ''attachment size changed; launch was not started'')
               else Inr (Some (ij_attachment_filename ij, ij_attachment_content_type ij, size1, dg))))"

text \<open>The digest that \<^verbatim>\<open>_attachment_snapshot\<close> leaves on the row.\<close>

definition stamp_attachment :: "file_reader \<Rightarrow> inject \<Rightarrow> inject" where
  "stamp_attachment read_file ij =
     (case ij_attachment_path ij of None \<Rightarrow> ij
      | Some p \<Rightarrow> (case read_file p of None \<Rightarrow> ij
                    | Some (dg, size1) \<Rightarrow> ij\<lparr>ij_attachment_sha256 := Some dg\<rparr>))"

definition launch_inject_of :: "file_reader \<Rightarrow> inject \<Rightarrow> exn + launch_inject" where
  "launch_inject_of read_file ij =
     (if ij_created_during_run ij \<noteq> Some False
      then Inl (HTTPException 409 ''Inject has uncertain draft provenance; launch was not started'')
      else (case attachment_snapshot read_file ij of Inl e \<Rightarrow> Inl e
            | Inr att \<Rightarrow>
                Inr \<lparr>li_scenario_node_id = ij_scenario_node_id ij, li_title = ij_title ij,
                     li_content = ij_content ij,
                     li_target_teams = sort (case ij_target_teams ij of None \<Rightarrow> [] | Some ts \<Rightarrow> ts),
                     li_group_id = ij_group_id ij, li_sequence_order = ij_sequence_order ij,
                     li_release_offset_minutes = ij_release_offset_minutes ij,
                     li_attachment = att\<rparr>))"

definition or_empty :: "string option \<Rightarrow> string" where
  "or_empty s = (case s of None \<Rightarrow> [] | Some x \<Rightarrow> x)"

definition launch_communication_of :: "communication \<Rightarrow> launch_communication" where
  "launch_communication_of c =
     \<lparr>lm_direction = direction_value (cm_direction c), lm_sender_id = cm_sender_id c,
      lm_sender_team = cm_sender_team c, lm_external_entity = cm_external_entity c,
      lm_subject = cm_subject c, lm_body = cm_body c,
      lm_visible_to_teams = sort (case cm_visible_to_teams c of None \<Rightarrow> [] | Some ts \<Rightarrow> ts),
      lm_sent_at = cm_sent_at c\<rparr>"

text \<open>The sort keys of the three lists.\<close>

definition launch_inject_key :: "launch_inject \<Rightarrow> int \<times> string \<times> string \<times> string" where
  "launch_inject_key i = (li_sequence_order i, or_empty (li_scenario_node_id i),
     or_empty (li_group_id i), canonical_bytes (launch_inject_json i))"

definition member_key :: "int \<times> string option \<times> string \<Rightarrow> int \<times> string" where
  "member_key m = (fst m, canonical_bytes (member_json m))"

definition launch_communication_key :: "launch_communication \<Rightarrow> string \<times> string" where
  "launch_communication_key c =
     (isoformat (lm_sent_at c), canonical_bytes (launch_communication_json c))"

definition build_launch_content ::
  "file_reader \<Rightarrow> scenario \<Rightarrow> exercise \<Rightarrow> inject list \<Rightarrow> exercise_member list \<Rightarrow>
     communication list \<Rightarrow> exn + launch_content" where
  "build_launch_content read_file sc ex ijs ms cs =
     (if \<exists>m\<in>set ms. em_created_during_run m \<noteq> Some False
      then Inl (HTTPException 409 ''Member has uncertain draft provenance; launch was not started'')
      else if \<exists>c\<in>set cs. cm_created_during_run c \<noteq> Some False
      then Inl (HTTPException 409
             ''Communication has uncertain draft provenance; launch was not started'')
      else
        and_then (map_checked (launch_inject_of read_file) ijs) (\<lambda>inject_content.
        and_then (export_definition sc) (\<lambda>def1.
          Inr \<lparr>lc_schema_version = SNAPSHOT_SCHEMA_VERSION, lc_scenario_version = sc_version sc,
               lc_definition = canonical_scenario_definition def1,
               lc_title = ex_title ex, lc_llm_enabled = ex_llm_enabled ex,
               lc_injects = sort_key launch_inject_key inject_content,
               lc_members = sort_key member_key
                 (map (\<lambda>m. (em_user_id m, em_group_id m, role_value (em_role_at_enrolment m))) ms),
               lc_communications = sort_key launch_communication_key (map launch_communication_of cs)\<rparr>)))"

section \<open>Freezing\<close>

definition rows_of_exercise :: "('r \<Rightarrow> int) \<Rightarrow> ('r \<Rightarrow> int) \<Rightarrow> int \<Rightarrow> 'r list \<Rightarrow> 'r list" where
  "rows_of_exercise idf exf e rows = sort_key idf (filter (\<lambda>r. exf r = e) rows)"

definition insert_snapshot :: "launch_snapshot \<Rightarrow> database \<Rightarrow> database" where
  "insert_snapshot snap d = d\<lparr>snapshots := insert_ignore (\<lambda>_. True) ls_digest snap (snapshots d)\<rparr>"

definition freeze_launch_configuration ::
  "(string \<Rightarrow> string) \<Rightarrow> file_reader \<Rightarrow> exercise \<Rightarrow> instant \<Rightarrow> database \<Rightarrow>
     exn + exercise \<times> database" where
  "freeze_launch_configuration sha256 read_file ex0 now d =
     and_then (lock_configuration_owner ex0 d) (\<lambda>(sc, locked).
       if ex_state locked \<noteq> Draft
       then Inl (HTTPException 409 ''Only a draft exercise can create a launch snapshot'')
       else if ex_launch_snapshot_digest locked \<noteq> None
       then Inl (HTTPException 409 ''Draft already references a launch snapshot'')
       else and_then (build_launch_content read_file sc locked
              (rows_of_exercise ij_id ij_exercise_id (ex_id locked) (injects d))
              (rows_of_exercise em_id em_exercise_id (ex_id locked) (members d))
              (rows_of_exercise cm_id cm_exercise_id (ex_id locked) (communications d))) (\<lambda>content.
         let digest1 = snapshot_digest sha256 content;
             d1 = d\<lparr>injects := update_where (\<lambda>ij. ij_exercise_id ij = ex_id locked)
                     (stamp_attachment read_file) (injects d)\<rparr>;
             d2 = insert_snapshot \<lparr>ls_digest = digest1, ls_schema_version = SNAPSHOT_SCHEMA_VERSION,
                                   ls_content = content, ls_created_at = now\<rparr> d1
         in if (case get_snapshot d2 digest1 of None \<Rightarrow> False | Some x \<Rightarrow> ls_content x \<noteq> content)
            then Inl (RuntimeError ''launch snapshot digest collision'')
            else
              let locked' = locked\<lparr>ex_launch_snapshot_digest := Some digest1,
                                   ex_launch_provenance := ProvExact\<rparr>
              in Inr (locked', d2\<lparr>exercises := update_where (\<lambda>r. ex_id r = ex_id locked)
                        (\<lambda>r. r\<lparr>ex_launch_snapshot_digest := Some digest1,
                               ex_launch_provenance := ProvExact\<rparr>) (exercises d2)\<rparr>)))"

interpretation snapshot_table: conflict_insert "\<lambda>_. True" ls_digest
  "insert_ignore (\<lambda>_. True) ls_digest"
  by (rule insert_ignore_contract)

section \<open>Lemmas: the canonical definition is a validated one\<close>

lemma normalize_target_teams_Inr_iff:
  "normalize_target_teams ts = Inr ts \<longleftrightarrow> distinct ts \<and> (\<forall>t\<in>set ts. strip t = t \<and> t \<noteq> [])"
proof -
  have "map_checked (\<lambda>v. normalized_id v ''target team id'') ts = Inr ts \<longleftrightarrow>
      (\<forall>t\<in>set ts. strip t = t \<and> t \<noteq> [])"
    by (auto simp: map_checked_Inr_iff list_all2_conv_all_nth in_set_conv_nth normalized_id_Inr)
      (metis nth_mem)
  then show ?thesis
    by (auto simp: normalize_target_teams_def split: sum.splits if_splits)
qed

lemma validate_node_fixed_iff:
  "validate_node n = Inr n \<longleftrightarrow>
     normalized_id (in_id n) ''inject id'' = Inr (in_id n) \<and>
     normalize_target_teams (in_target_teams n) = Inr (in_target_teams n) \<and>
     normalize_next_inject_id ''inject next_inject_id'' (in_next_inject_id n) =
       Inr (in_next_inject_id n) \<and>
     map_checked validate_option (in_options n) = Inr (in_options n) \<and>
     map_checked validate_trigger (in_triggers_communications n) =
       Inr (in_triggers_communications n) \<and>
     validate_release_at_minutes (in_release_at_minutes n) = Inr (in_release_at_minutes n)"
  (is "?L \<longleftrightarrow> ?R")
proof
  assume ?L
  then obtain nid teams nx opts trigs rel where
      v: "normalized_id (in_id n) ''inject id'' = Inr nid"
        "normalize_target_teams (in_target_teams n) = Inr teams"
        "normalize_next_inject_id ''inject next_inject_id'' (in_next_inject_id n) = Inr nx"
        "map_checked validate_option (in_options n) = Inr opts"
        "map_checked validate_trigger (in_triggers_communications n) = Inr trigs"
        "validate_release_at_minutes (in_release_at_minutes n) = Inr rel"
    and n: "n = n\<lparr>in_id := nid, in_target_teams := teams, in_next_inject_id := nx,
              in_options := opts, in_triggers_communications := trigs,
              in_release_at_minutes := rel\<rparr>"
    by (auto simp: validate_node_def)
  have "in_id n = nid" "in_target_teams n = teams" "in_next_inject_id n = nx"
      "in_options n = opts" "in_triggers_communications n = trigs" "in_release_at_minutes n = rel"
    by (subst n, simp)+
  with v show ?R by blast
next
  assume ?R
  then show ?L by (simp add: validate_node_def)
qed

lemma validate_node_sorted:
  "validate_node n = Inr n \<Longrightarrow>
     validate_node (n\<lparr>in_target_teams := sort (in_target_teams n)\<rparr>) =
       Inr (n\<lparr>in_target_teams := sort (in_target_teams n)\<rparr>)"
  by (simp add: validate_node_fixed_iff normalize_target_teams_Inr_iff)

lemma canonical_fields [simp]:
  "sd_participant_teams (canonical_scenario_definition d) = sd_participant_teams d"
  "sd_start_inject_id (canonical_scenario_definition d) = sd_start_inject_id d"
  "map in_id (sd_injects (canonical_scenario_definition d)) = map in_id (sd_injects d)"
  "scenario_graph (sd_injects (canonical_scenario_definition d)) = scenario_graph (sd_injects d)"
  "length (sd_injects (canonical_scenario_definition d)) = length (sd_injects d)"
  by (simp_all add: canonical_scenario_definition_def scenario_graph_def node_successors_def comp_def)

lemma canonical_validates:
  assumes "model_validate d0 = Inr d"
  shows "model_validate (canonical_scenario_definition d) = Inr (canonical_scenario_definition d)"
proof -
  let ?c = "canonical_scenario_definition d"
  note p = model_validate_parts [OF assms]
  have ids: "in_id ` set (sd_injects ?c) = in_id ` set (sd_injects d)"
    using canonical_fields(3) [of d] by (metis list.set_map)
  have succ: "node_successors (n\<lparr>in_target_teams := ts\<rparr>) = node_successors n" for n ts
    by (simp add: node_successors_def)
  have st: "validate_structure ?c = Inr ?c"
    using p(1) ids
    by (simp add: validate_structure_Inr branch_edges_def)
      (auto simp: canonical_scenario_definition_def succ)
  have "\<forall>n\<in>set (sd_injects d). validate_node n = Inr n"
    using p(3) by (auto simp: map_checked_Inr_iff list_all2_conv_all_nth in_set_conv_nth)
  then have "\<forall>n\<in>set (sd_injects ?c). validate_node n = Inr n"
    by (auto simp: canonical_scenario_definition_def validate_node_sorted)
  then have nodes: "map_checked validate_node (sd_injects ?c) = Inr (sd_injects ?c)"
    by (intro map_checked_id) blast
  have same: "?c\<lparr>sd_participant_teams := sd_participant_teams d,
      sd_start_inject_id := sd_start_inject_id d\<rparr> = ?c"
    by (simp add: canonical_scenario_definition_def)
  show ?thesis
    using st nodes p(2,4) by (simp add: model_validate_def same)
qed

section \<open>Lemmas: what freezing does\<close>

lemma lock_configuration_owner_Inr:
  "lock_configuration_owner ex0 d = Inr (sc, ex) \<longleftrightarrow>
     get_scenario d (ex_scenario_id ex0) = Some sc \<and> get_exercise d (ex_id ex0) = Some ex \<and>
     ex_scenario_id ex = sc_id sc"
  by (auto simp: lock_configuration_owner_def split: option.splits)

lemma build_launch_content_definition:
  assumes "build_launch_content read_file sc ex ijs ms cs = Inr content"
  shows "\<exists>def1. export_definition sc = Inr def1 \<and>
     lc_definition content = canonical_scenario_definition def1"
  using assms by (auto simp: build_launch_content_def split: if_splits)

lemma insert_snapshot_get:
  "\<exists>x. get_snapshot (insert_snapshot snap d) (ls_digest snap) = Some x"
proof -
  have "\<exists>x\<in>set (snapshots (insert_snapshot snap d)). ls_digest x = ls_digest snap"
    using snapshot_table.ins_present [of snap "snapshots d"] by (simp add: insert_snapshot_def)
  then have "get_row ls_digest (ls_digest snap) (snapshots (insert_snapshot snap d)) \<noteq> None"
    by (simp add: get_row_None)
  then show ?thesis by (simp add: get_defs)
qed

lemma insert_snapshot_frame [simp]:
  "exercises (insert_snapshot snap d) = exercises d" "injects (insert_snapshot snap d) = injects d"
  "members (insert_snapshot snap d) = members d" "transitions (insert_snapshot snap d) = transitions d"
  "scenarios (insert_snapshot snap d) = scenarios d" "cursors (insert_snapshot snap d) = cursors d"
  "resolutions (insert_snapshot snap d) = resolutions d" "jobs (insert_snapshot snap d) = jobs d"
  "communications (insert_snapshot snap d) = communications d"
  "users (insert_snapshot snap d) = users d" "responses (insert_snapshot snap d) = responses d"
  "sequences (insert_snapshot snap d) = sequences d"
  by (simp_all add: insert_snapshot_def)

text \<open>A successful freeze, in one step.\<close>

lemma freeze_Inr:
  assumes "freeze_launch_configuration sha256 read_file ex0 now d = Inr (ex', d')"
  obtains sc ex content snap where
    "get_scenario d (ex_scenario_id ex) = Some sc" "get_exercise d (ex_id ex0) = Some ex"
    "ex_state ex = Draft" "ex_launch_snapshot_digest ex = None"
    "build_launch_content read_file sc ex
       (rows_of_exercise ij_id ij_exercise_id (ex_id ex) (injects d))
       (rows_of_exercise em_id em_exercise_id (ex_id ex) (members d))
       (rows_of_exercise cm_id cm_exercise_id (ex_id ex) (communications d)) = Inr content"
    "ex' = ex\<lparr>ex_launch_snapshot_digest := Some (snapshot_digest sha256 content),
             ex_launch_provenance := ProvExact\<rparr>"
    "ls_digest snap = snapshot_digest sha256 content"
    "d' = (insert_snapshot snap (d\<lparr>injects := update_where (\<lambda>ij. ij_exercise_id ij = ex_id ex)
             (stamp_attachment read_file) (injects d)\<rparr>))
           \<lparr>exercises := update_where (\<lambda>r. ex_id r = ex_id ex)
              (\<lambda>r. r\<lparr>ex_launch_snapshot_digest := Some (snapshot_digest sha256 content),
                     ex_launch_provenance := ProvExact\<rparr>) (exercises d)\<rparr>"
    "\<exists>x. get_snapshot d' (snapshot_digest sha256 content) = Some x \<and> ls_content x = content"
proof -
  from assms obtain sc ex where lock: "lock_configuration_owner ex0 d = Inr (sc, ex)"
    by (auto simp: freeze_launch_configuration_def)
  note l = lock [unfolded lock_configuration_owner_Inr]
  have "sc_id sc = ex_scenario_id ex0"
    using l by (auto simp: get_defs dest: get_row_Some)
  then have sc: "get_scenario d (ex_scenario_id ex) = Some sc"
    using l by simp
  from assms lock have draft: "ex_state ex = Draft" "ex_launch_snapshot_digest ex = None"
    by (auto simp: freeze_launch_configuration_def split: if_splits)
  from assms lock draft obtain content where
    content: "build_launch_content read_file sc ex
       (rows_of_exercise ij_id ij_exercise_id (ex_id ex) (injects d))
       (rows_of_exercise em_id em_exercise_id (ex_id ex) (members d))
       (rows_of_exercise cm_id cm_exercise_id (ex_id ex) (communications d)) = Inr content"
    by (auto simp: freeze_launch_configuration_def)
  let ?dg = "snapshot_digest sha256 content"
  let ?snap = "\<lparr>ls_digest = ?dg, ls_schema_version = SNAPSHOT_SCHEMA_VERSION,
     ls_content = content, ls_created_at = now\<rparr>"
  let ?d2 = "insert_snapshot ?snap (d\<lparr>injects := update_where (\<lambda>ij. ij_exercise_id ij = ex_id ex)
             (stamp_attachment read_file) (injects d)\<rparr>)"
  obtain x where x: "get_snapshot ?d2 ?dg = Some x" using insert_snapshot_get [of ?snap] by auto
  have res: "ls_content x = content \<and>
      ex' = ex\<lparr>ex_launch_snapshot_digest := Some ?dg, ex_launch_provenance := ProvExact\<rparr> \<and>
      d' = ?d2\<lparr>exercises := update_where (\<lambda>r. ex_id r = ex_id ex)
              (\<lambda>r. r\<lparr>ex_launch_snapshot_digest := Some ?dg,
                     ex_launch_provenance := ProvExact\<rparr>) (exercises d)\<rparr>"
    using assms lock draft content x
    by (auto simp: freeze_launch_configuration_def Let_def split: if_splits)
  have get: "get_snapshot d' ?dg = Some x" using x res by (simp add: get_snapshot_def)
  show thesis
    by (rule that [of ex sc content ?snap]) (use sc l draft content res get in auto)
qed

lemma freeze_definition:
  assumes "freeze_launch_configuration sha256 read_file ex0 now d = Inr (ex', d')"
    and "exercises d2 = exercises d'" and "snapshots d2 = snapshots d' @ later_rows"
  shows "\<exists>sc def1. get_scenario d (ex_scenario_id ex') = Some sc \<and> export_definition sc = Inr def1 \<and>
    definition_for_exercise d2 (ex_id ex') = Inr (Some (canonical_scenario_definition def1))"
proof -
  obtain sc ex content snap x where
      sc: "get_scenario d (ex_scenario_id ex) = Some sc"
    and ex: "get_exercise d (ex_id ex0) = Some ex"
    and content: "build_launch_content read_file sc ex
       (rows_of_exercise ij_id ij_exercise_id (ex_id ex) (injects d))
       (rows_of_exercise em_id em_exercise_id (ex_id ex) (members d))
       (rows_of_exercise cm_id cm_exercise_id (ex_id ex) (communications d)) = Inr content"
    and ex': "ex' = ex\<lparr>ex_launch_snapshot_digest := Some (snapshot_digest sha256 content),
             ex_launch_provenance := ProvExact\<rparr>"
    and d': "exercises d' = update_where (\<lambda>r. ex_id r = ex_id ex)
              (\<lambda>r. r\<lparr>ex_launch_snapshot_digest := Some (snapshot_digest sha256 content),
                     ex_launch_provenance := ProvExact\<rparr>) (exercises d)"
    and snap: "get_snapshot d' (snapshot_digest sha256 content) = Some x" "ls_content x = content"
    by (rule freeze_Inr [OF assms(1)]) auto
  obtain def1 where def1: "export_definition sc = Inr def1"
      "lc_definition content = canonical_scenario_definition def1"
    using build_launch_content_definition [OF content] by blast
  have row: "get_exercise d2 (ex_id ex) = Some ex'"
    using ex get_exercise_id [OF ex] ex'
    by (simp add: get_defs assms(2) d' get_row_update_where)
  have "get_snapshot d2 (snapshot_digest sha256 content) = Some x"
    using snap(1) by (simp add: get_defs assms(3) get_row_append)
  moreover have "parse_definition (canonical_scenario_definition def1) =
      Inr (canonical_scenario_definition def1)"
    using canonical_validates def1(1) by (simp add: export_definition_def parse_definition_Inr)
  ultimately have "definition_for_exercise d2 (ex_id ex) =
      Inr (Some (canonical_scenario_definition def1))"
    using row ex' snap(2) def1(2)
    by (simp add: definition_for_exercise_def launch_definition_for_exercise_def)
  then show ?thesis using sc def1 ex' by auto
qed

section \<open>Properties\<close>

text \<open>C8: a launch freezes what the exercise runs on: after a successful freeze the exercise, until
  then a draft without a snapshot, reads the validated definition its scenario had at that moment
  (target teams sorted), and keeps reading it through any later edit of the scenarios and any
  further snapshot.\<close>

theorem launch_freezes_the_definition:
  assumes "freeze_launch_configuration sha256 read_file ex0 now d = Inr (ex', d')"
  shows "ex_launch_provenance ex' = ProvExact \<and> ex_launch_snapshot_digest ex' \<noteq> None \<and>
    (\<exists>ex. get_exercise d (ex_id ex') = Some ex \<and> ex_state ex = Draft \<and>
          ex_launch_snapshot_digest ex = None) \<and>
    get_exercise d' (ex_id ex') = Some ex' \<and>
    (\<exists>sc def1. get_scenario d (ex_scenario_id ex') = Some sc \<and> export_definition sc = Inr def1 \<and>
       (\<forall>edited later_rows. definition_for_exercise
          (d'\<lparr>scenarios := edited, snapshots := snapshots d' @ later_rows\<rparr>) (ex_id ex') =
          Inr (Some (canonical_scenario_definition def1))))"
proof -
  obtain sc ex content where
      ex: "get_exercise d (ex_id ex0) = Some ex" "ex_state ex = Draft"
        "ex_launch_snapshot_digest ex = None"
    and ex': "ex' = ex\<lparr>ex_launch_snapshot_digest := Some (snapshot_digest sha256 content),
             ex_launch_provenance := ProvExact\<rparr>"
    and d': "exercises d' = update_where (\<lambda>r. ex_id r = ex_id ex)
              (\<lambda>r. r\<lparr>ex_launch_snapshot_digest := Some (snapshot_digest sha256 content),
                     ex_launch_provenance := ProvExact\<rparr>) (exercises d)"
    by (rule freeze_Inr [OF assms]) auto
  have id: "ex_id ex = ex_id ex0" using ex(1) get_exercise_id by blast
  have row: "get_exercise d' (ex_id ex') = Some ex'"
    using ex(1) id ex' by (simp add: get_defs d' get_row_update_where)
  obtain sc def1 where
      d1: "get_scenario d (ex_scenario_id ex') = Some sc" "export_definition sc = Inr def1"
    using freeze_definition [OF assms, of d' "[]"] by auto
  have "definition_for_exercise (d'\<lparr>scenarios := edited, snapshots := snapshots d' @ later_rows\<rparr>)
      (ex_id ex') = Inr (Some (canonical_scenario_definition def1))" for edited later_rows
    using freeze_definition [OF assms, of "d'\<lparr>scenarios := edited, snapshots := snapshots d' @ later_rows\<rparr>" later_rows]
      d1 by auto
  then show ?thesis using row ex ex' id d1 by auto
qed

definition demo_draft_db :: database where
  "demo_draft_db = seed_progression 1 ''a'' [''red'', ''blue''] 0
     (empty_database\<lparr>scenarios := [demo_scenario], exercises := [demo_exercise],
        members := [(demo_member 12 (Some ''red'') Participant)\<lparr>em_created_during_run := Some False\<rparr>],
        injects := [(demo_inject 1 ''a'' None Pending)\<lparr>ij_created_during_run := Some False\<rparr>]\<rparr>)"

theorem launch_freezes_the_definition_witness:
  "\<exists>ex' d'. freeze_launch_configuration (\<lambda>b. ''d'') (\<lambda>p. None) demo_exercise 5 demo_draft_db =
      Inr (ex', d') \<and>
    ex_launch_provenance ex' = ProvExact \<and>
    definition_for_exercise (d'\<lparr>scenarios := []\<rparr>) (ex_id ex') = Inr (Some demo_definition)"
proof -
  let ?r = "freeze_launch_configuration (\<lambda>b. ''d'') (\<lambda>p. None) demo_exercise 5 demo_draft_db"
  have "is_ok ?r" by code_simp
  then obtain ex' d' where run: "?r = Inr (ex', d')" by (auto simp: is_ok_iff)
  have sc: "ex_scenario_id ex' = 1"
  proof -
    have "case ?r of Inr (e, x) \<Rightarrow> ex_scenario_id e = 1 | _ \<Rightarrow> False" by code_simp
    then show ?thesis using run by simp
  qed
  have g: "get_scenario demo_draft_db 1 = Some demo_scenario" by code_simp
  have x: "export_definition demo_scenario = Inr demo_definition" by code_simp
  have c: "canonical_scenario_definition demo_definition = demo_definition" by code_simp
  note t = launch_freezes_the_definition [OF run]
  then obtain sc def1 where d1: "get_scenario demo_draft_db (ex_scenario_id ex') = Some sc"
      "export_definition sc = Inr def1"
      "\<forall>edited later_rows. definition_for_exercise
          (d'\<lparr>scenarios := edited, snapshots := snapshots d' @ later_rows\<rparr>) (ex_id ex') =
          Inr (Some (canonical_scenario_definition def1))"
    by blast
  have "def1 = demo_definition" using d1(1,2) sc g x by simp
  moreover have "d'\<lparr>scenarios := [], snapshots := snapshots d' @ []\<rparr> = d'\<lparr>scenarios := []\<rparr>" by simp
  ultimately have "definition_for_exercise (d'\<lparr>scenarios := []\<rparr>) (ex_id ex') =
      Inr (Some demo_definition)"
    using d1(3) c by metis
  then show ?thesis using run t by blast
qed

end
