(* ===== verification/Exercise_Service.thy ===== *)
theory Exercise_Service
  imports Launch_Snapshot
begin

text \<open>
  The exercise lifecycle, its history and its roster
  (\<^verbatim>\<open>app/services/exercise_service.py\<close>).

  \<open>ex0\<close> is the caller's copy of the row: the compare-and-swap of a transition tests
  only the state it remembers.  A concurrent enrolment that commits between the membership
  check and the insert is not modelled: in one session the check decides.
\<close>

section \<open>Creation\<close>

definition create_exercise ::
  "int \<Rightarrow> string \<Rightarrow> int \<Rightarrow> bool \<Rightarrow> instant \<Rightarrow> session \<Rightarrow> (exn + exercise) \<times> session" where
  "create_exercise scenario_id title created_by llm_enabled now s =
     (case get_scenario (db s) scenario_id of
        None \<Rightarrow> (Inl (HTTPException 404 ''Scenario not found''), s)
      | Some sc \<Rightarrow>
          (case export_definition sc of
             Inl e \<Rightarrow> (Inl e, s)
           | Inr def1 \<Rightarrow>
               let ex = \<lparr>ex_id = nextval TExercise (db s), ex_scenario_id = scenario_id,
                         ex_title = title, ex_state = Draft,
                         ex_current_node_id = Some (sd_start_inject_id def1),
                         ex_llm_enabled = llm_enabled, ex_launch_provenance = ProvPending,
                         ex_launch_snapshot_digest = None, ex_debrief_notes = None,
                         ex_started_at = None, ex_ended_at = None, ex_paused_at = None,
                         ex_accumulated_pause = 0, ex_created_by = created_by,
                         ex_created_at = now\<rparr>;
                   s1 = execute (\<lambda>d. (bump TExercise d)\<lparr>exercises := exercises d @ [ex]\<rparr>) s
               in (case seed_injects_from_scenario (ex_id ex) sc (db s1) of
                     Inl e \<Rightarrow> (Inl e, rollback s1)
                   | Inr d2 \<Rightarrow>
                       let s2 = execute (\<lambda>_. seed_progression (ex_id ex) (sd_start_inject_id def1)
                                   (map pt_id (sd_participant_teams def1)) now d2) s1
                       in (Inr ex, commit s2))))"

section \<open>Lifecycle transitions\<close>

definition transition_values :: "exercise \<Rightarrow> exercise_state \<Rightarrow> instant \<Rightarrow> exercise \<Rightarrow> exercise" where
  "transition_values ex new_state now r =
     (let r1 = r\<lparr>ex_state := new_state\<rparr>;
          r2 = (if new_state = Active \<and> ex_started_at ex = None
                then r1\<lparr>ex_started_at := Some now\<rparr> else r1);
          r3 = (if new_state = Paused then r2\<lparr>ex_paused_at := Some now\<rparr> else r2);
          r4 = (case ex_paused_at ex of
                  Some p \<Rightarrow> if new_state = Active
                            then r3\<lparr>ex_accumulated_pause := ex_accumulated_pause ex + (now - p),
                                    ex_paused_at := None\<rparr>
                            else r3
                | None \<Rightarrow> r3)
      in if new_state = Completed then r4\<lparr>ex_ended_at := Some now\<rparr> else r4)"

definition launch_or_keep ::
  "(string \<Rightarrow> string) \<Rightarrow> file_reader \<Rightarrow> exercise \<Rightarrow> exercise_state \<Rightarrow> instant \<Rightarrow> session \<Rightarrow>
     (exn + exercise) \<times> session" where
  "launch_or_keep sha256 read_file ex0 new_state now s =
     (if ex_state ex0 = Draft \<and> new_state = Active
      then (case freeze_launch_configuration sha256 read_file ex0 now (db s) of
              Inl e \<Rightarrow> (Inl e, rollback s)
            | Inr (ex, d) \<Rightarrow> (Inr ex, execute (\<lambda>_. d) s))
      else (Inr ex0, s))"

definition swap_state ::
  "exercise \<Rightarrow> exercise_state \<Rightarrow> int option \<Rightarrow> instant \<Rightarrow> session \<Rightarrow>
     (exn + exercise \<times> state_transition \<times> string) \<times> session" where
  "swap_state ex new_state actor_id now s =
     (if new_state \<notin> VALID_TRANSITIONS (ex_state ex)
      then (Inl (HTTPException 409 ''Cannot transition''), s)
      else if \<not> (\<exists>r\<in>set (exercises (db s)). ex_id r = ex_id ex \<and> ex_state r = ex_state ex)
      then (Inl (if get_exercise (db s) (ex_id ex) = None
                 then HTTPException 404 ''Exercise not found''
                 else HTTPException 409 ''Exercise state changed while this request was in flight''),
            rollback s)
      else
        let t = \<lparr>st_id = nextval TTransition (db s), st_exercise_id = ex_id ex,
                 st_from_state = ex_state ex, st_to_state = new_state,
                 st_actor_id = Some (case actor_id of Some a \<Rightarrow> a | None \<Rightarrow> ex_created_by ex),
                 st_transitioned_at = now\<rparr>;
            action = the (transition_action (ex_state ex) new_state);
            s1 = execute (\<lambda>d. d\<lparr>exercises := update_where
                   (\<lambda>r. ex_id r = ex_id ex \<and> ex_state r = ex_state ex)
                   (transition_values ex new_state now) (exercises d)\<rparr>) s;
            s2 = execute (\<lambda>d. (bump TTransition d)\<lparr>transitions := transitions d @ [t]\<rparr>) s1
        in (case record_event (ExerciseStateChanged (ex_id ex) (st_id t) action) s2 of
              (Inl e, s3) \<Rightarrow> (Inl e, rollback s3)
            | (Inr u, s3) \<Rightarrow>
                let s4 = commit s3
                in (Inr (the (get_exercise (db s4) (ex_id ex)), t, action), dispatch s4)))"

definition transition_state_with_history ::
  "(string \<Rightarrow> string) \<Rightarrow> file_reader \<Rightarrow> exercise \<Rightarrow> exercise_state \<Rightarrow> int option \<Rightarrow> instant \<Rightarrow>
     session \<Rightarrow> (exn + exercise \<times> state_transition \<times> string) \<times> session" where
  "transition_state_with_history sha256 read_file ex0 new_state actor_id now s =
     (case launch_or_keep sha256 read_file ex0 new_state now s of
        (Inl e, s1) \<Rightarrow> (Inl e, s1)
      | (Inr ex, s1) \<Rightarrow> swap_state ex new_state actor_id now s1)"

section \<open>Teams of an exercise\<close>

definition scenario_group_ids :: "database \<Rightarrow> exercise \<Rightarrow> exn + string set" where
  "scenario_group_ids d ex =
     (case definition_for_exercise d (ex_id ex) of
        Inl e \<Rightarrow> Inl e
      | Inr None \<Rightarrow> Inr {}
      | Inr (Some def1) \<Rightarrow> Inr (scenario_team_ids def1))"

definition validate_group_id ::
  "database \<Rightarrow> exercise \<Rightarrow> string option \<Rightarrow> exn + string option" where
  "validate_group_id d ex group_id =
     (case group_id of None \<Rightarrow> Inr None
      | Some g \<Rightarrow>
          if strip g = [] then Inr None
          else and_then (scenario_group_ids d ex) (\<lambda>ids.
                 if strip g \<notin> ids
                 then Inl (HTTPException 422 ''group_id is not defined in this scenario'')
                 else Inr (Some (strip g))))"

definition validate_exercise_team_ids ::
  "database \<Rightarrow> exercise \<Rightarrow> string list option \<Rightarrow> string \<Rightarrow> exn + string list option" where
  "validate_exercise_team_ids d ex team_ids field =
     (case team_ids of None \<Rightarrow> Inr None
      | Some ts \<Rightarrow>
          and_then (definition_for_exercise d (ex_id ex)) (\<lambda>definition.
            case definition of
              None \<Rightarrow> Inl (HTTPException 422 ''exercise scenario was not found'')
            | Some def1 \<Rightarrow>
                (case validate_team_ids (Some ts) def1 field of
                   Inl msg \<Rightarrow> Inl (HTTPException 422 msg) | Inr r \<Rightarrow> Inr r)))"

definition default_group_for_user :: "database \<Rightarrow> exercise \<Rightarrow> user \<Rightarrow> exn + string option" where
  "default_group_for_user d ex u =
     (if \<not> truthy (u_team u) then Inr None
      else and_then (scenario_group_ids d ex) (\<lambda>ids.
             Inr (if the (u_team u) \<in> ids then u_team u else None)))"

section \<open>Roster\<close>

text \<open>The three roster operations open with the same guards.\<close>

definition roster_guard :: "database \<Rightarrow> exercise \<Rightarrow> exn + exercise" where
  "roster_guard d ex0 =
     and_then (lock_configuration_owner ex0 d) (\<lambda>(sc, ex).
     and_then (require_operational_mutability ex) (\<lambda>_.
       if \<not> roster_changes_allowed d (ex_id ex)
       then Inl (HTTPException 409 ''Roster changes are locked after the first inject is released'')
       else Inr ex))"

definition enrol_member ::
  "exercise \<Rightarrow> int \<Rightarrow> string option \<Rightarrow> bool \<Rightarrow> instant \<Rightarrow> session \<Rightarrow>
     (exn + exercise_member) \<times> session" where
  "enrol_member ex0 user_id group_id do_commit now s =
     (case roster_guard (db s) ex0 of Inl e \<Rightarrow> (Inl e, s)
      | Inr ex \<Rightarrow>
        (case get_user (db s) user_id of
           None \<Rightarrow> (Inl (HTTPException 404 ''User not found''), s)
         | Some u \<Rightarrow>
           (case validate_group_id (db s) ex group_id of Inl e \<Rightarrow> (Inl e, s)
            | Inr g \<Rightarrow>
              (case exercise_member_for_user (db s) (ex_id ex) user_id of
                 Some m \<Rightarrow> (Inr m, s)
               | None \<Rightarrow>
                 (case (if g \<noteq> None then Inr g else default_group_for_user (db s) ex u) of
                    Inl e \<Rightarrow> (Inl e, s)
                  | Inr resolved \<Rightarrow>
                      let m = \<lparr>em_id = nextval TMember (db s), em_exercise_id = ex_id ex,
                               em_user_id = user_id, em_group_id = resolved,
                               em_role_at_enrolment = u_role u,
                               em_created_during_run = Some (ex_state ex \<noteq> Draft),
                               em_joined_at = now\<rparr>;
                          s1 = execute (\<lambda>d. (bump TMember d)\<lparr>members := members d @ [m]\<rparr>) s
                      in (Inr m, if do_commit then commit s1 else s1))))))"

definition update_member_group ::
  "exercise \<Rightarrow> int \<Rightarrow> string option \<Rightarrow> session \<Rightarrow> (exn + exercise_member) \<times> session" where
  "update_member_group ex0 user_id group_id s =
     (case roster_guard (db s) ex0 of Inl e \<Rightarrow> (Inl e, s)
      | Inr ex \<Rightarrow>
        (case exercise_member_for_user (db s) (ex_id ex) user_id of
           None \<Rightarrow> (Inl (HTTPException 404 ''Member not found in exercise''), s)
         | Some m \<Rightarrow>
           (case validate_group_id (db s) ex group_id of Inl e \<Rightarrow> (Inl e, s)
            | Inr g \<Rightarrow>
                (Inr (m\<lparr>em_group_id := g\<rparr>), commit (execute (\<lambda>d. d\<lparr>members := update_where
                   (\<lambda>r. em_id r = em_id m) (\<lambda>r. r\<lparr>em_group_id := g\<rparr>) (members d)\<rparr>) s)))))"

definition remove_member :: "exercise \<Rightarrow> int \<Rightarrow> session \<Rightarrow> (exn + unit) \<times> session" where
  "remove_member ex0 user_id s =
     (case roster_guard (db s) ex0 of Inl e \<Rightarrow> (Inl e, s)
      | Inr ex \<Rightarrow>
        (case exercise_member_for_user (db s) (ex_id ex) user_id of
           None \<Rightarrow> (Inl (HTTPException 404 ''Member not found in exercise''), s)
         | Some m \<Rightarrow>
             (Inr (), commit (execute (\<lambda>d. d\<lparr>members :=
                filter (\<lambda>r. em_id r \<noteq> em_id m) (members d)\<rparr>) s))))"

definition list_members :: "database \<Rightarrow> int \<Rightarrow> exercise_member list" where
  "list_members d exercise_id = members_of d exercise_id"

section \<open>Lemmas: one transition\<close>

lemma freeze_state:
  assumes "freeze_launch_configuration sha256 read_file ex0 now d = Inr (ex', d')"
  shows "\<exists>ex. get_exercise d (ex_id ex0) = Some ex \<and> ex_state ex = Draft \<and>
      ex_launch_snapshot_digest ex = None \<and>
      (\<exists>dg. ex' = ex\<lparr>ex_launch_snapshot_digest := Some dg, ex_launch_provenance := ProvExact\<rparr> \<and>
        exercises d' = update_where (\<lambda>r. ex_id r = ex_id ex)
          (\<lambda>r. r\<lparr>ex_launch_snapshot_digest := Some dg, ex_launch_provenance := ProvExact\<rparr>)
          (exercises d))"
    and "transitions d' = transitions d" and "sequences d' = sequences d"
  by (rule freeze_Inr [OF assms], fastforce)+

lemma swap_state_Inr:
  assumes "swap_state ex new_state actor_id now s = (Inr (ex', t, action), s')"
  shows "new_state \<in> VALID_TRANSITIONS (ex_state ex)"
    and "\<exists>r\<in>set (exercises (db s)). ex_id r = ex_id ex \<and> ex_state r = ex_state ex"
    and "transition_action (ex_state ex) new_state = Some action"
    and "t = \<lparr>st_id = nextval TTransition (db s), st_exercise_id = ex_id ex,
              st_from_state = ex_state ex, st_to_state = new_state,
              st_actor_id = Some (case actor_id of Some a \<Rightarrow> a | None \<Rightarrow> ex_created_by ex),
              st_transitioned_at = now\<rparr>"
    and "exercises (db s') = update_where (\<lambda>r. ex_id r = ex_id ex \<and> ex_state r = ex_state ex)
           (transition_values ex new_state now) (exercises (db s))"
    and "transitions (db s') = transitions (db s) @ [t]"
    and "committed s' = db s'" and "pending s' = []" and "ready s' = []"
    and "dispatched s' = dispatched s @ map (\<lambda>ev. (db s', ev))
           (ready s @ pending s @ [ExerciseStateChanged (ex_id ex) (st_id t) action])"
    and "ex' = the (get_exercise (db s') (ex_id ex))"
  using assms transition_action_defined [of "ex_state ex" new_state]
  by (auto simp: swap_state_def Let_def get_exercise_def split: if_splits)

lemma swap_state_Inl:
  assumes "swap_state ex new_state actor_id now s = (Inl e, s')"
  shows "unpublished s s'"
  using assms by (auto simp: swap_state_def Let_def split: if_splits)

lemma launch_or_keep_Inl:
  "launch_or_keep sha256 read_file ex0 new_state now s = (Inl e, s') \<Longrightarrow> unpublished s s'"
  by (auto simp: launch_or_keep_def split: if_splits sum.splits)

lemma launch_or_keep_Inr:
  "launch_or_keep sha256 read_file ex0 new_state now s = (Inr ex, s') \<Longrightarrow>
     unpublished s s' \<and> pending s' = pending s \<and>
     ((ex = ex0 \<and> s' = s \<and> \<not> (ex_state ex0 = Draft \<and> new_state = Active)) \<or>
      (ex_state ex0 = Draft \<and> new_state = Active \<and>
       freeze_launch_configuration sha256 read_file ex0 now (db s) = Inr (ex, db s')))"
  by (auto simp: launch_or_keep_def split: if_splits sum.splits)

lemma transition_Inl:
  assumes "transition_state_with_history sha256 read_file ex0 new_state actor_id now s = (Inl e, s')"
  shows "unpublished s s'"
proof -
  obtain r s1 where l: "launch_or_keep sha256 read_file ex0 new_state now s = (r, s1)"
    by (cases "launch_or_keep sha256 read_file ex0 new_state now s")
  show ?thesis
  proof (cases r)
    case (Inl e1)
    then show ?thesis
      using l assms launch_or_keep_Inl by (fastforce simp: transition_state_with_history_def)
  next
    case (Inr ex)
    then have "swap_state ex new_state actor_id now s1 = (Inl e, s')"
      using l assms by (simp add: transition_state_with_history_def)
    then have "unpublished s1 s'" by (rule swap_state_Inl)
    moreover have "unpublished s s1" using l Inr launch_or_keep_Inr by blast
    ultimately show ?thesis by (simp add: unpublished_def)
  qed
qed

lemma transition_Inr:
  assumes "transition_state_with_history sha256 read_file ex0 new_state actor_id now s =
    (Inr (ex', t, action), s')"
  obtains ex s1 where "launch_or_keep sha256 read_file ex0 new_state now s = (Inr ex, s1)"
    "swap_state ex new_state actor_id now s1 = (Inr (ex', t, action), s')"
  using assms by (auto simp: transition_state_with_history_def split: prod.splits sum.splits)

interpretation transition: unit_of_work
  "transition_state_with_history sha256 read_file ex0 new_state actor_id now"
proof
  fix s e s'
  assume "transition_state_with_history sha256 read_file ex0 new_state actor_id now s = (Inl e, s')"
    "ready s = []"
  then show "committed s' = committed s \<and> notified s' = notified s \<and>
      dispatched s' = dispatched s \<and> ready s' = []"
    using transition_Inl by (simp add: unpublished_def)
next
  fix s x s'
  assume run: "transition_state_with_history sha256 read_file ex0 new_state actor_id now s = (Inr x, s')"
  obtain ex' t action where x: "x = (ex', t, action)" by (cases x)
  show "fresh s'"
    by (rule transition_Inr [OF run [unfolded x]])
      (use swap_state_Inr(7,8,9) in \<open>simp add: fresh_def\<close>)
qed

section \<open>The history of an exercise\<close>

text \<open>The recorded transitions lead from draft to a state, each of them legal.\<close>

fun chain :: "exercise_state \<Rightarrow> state_transition list \<Rightarrow> exercise_state \<Rightarrow> bool" where
  "chain a [] b \<longleftrightarrow> a = b"
| "chain a (t # ts) b \<longleftrightarrow>
     st_from_state t = a \<and> st_to_state t \<in> VALID_TRANSITIONS a \<and> chain (st_to_state t) ts b"

text \<open>What a row and its history tell of each other: the row's state is where the history ends,
  and the row's pause bookkeeping is what scanning the history from the start yields.\<close>

definition history_inv :: "exercise \<Rightarrow> state_transition list \<Rightarrow> bool" where
  "history_inv ex ts \<longleftrightarrow>
     chain Draft ts (ex_state ex) \<and> sorted (map st_transitioned_at ts) \<and>
     (case ex_state ex of
        Draft \<Rightarrow> ex_started_at ex = None \<and> ex_ended_at ex = None \<and> ex_paused_at ex = None \<and>
          ex_accumulated_pause ex = 0 \<and> ex_launch_snapshot_digest ex = None \<and>
          ex_launch_provenance ex = ProvPending
      | Completed \<Rightarrow> ex_started_at ex \<noteq> None \<and> ex_ended_at ex \<noteq> None \<and>
          ex_launch_snapshot_digest ex \<noteq> None \<and> ex_launch_provenance ex = ProvExact
      | _ \<Rightarrow> ex_ended_at ex = None \<and> (ex_paused_at ex = None \<longleftrightarrow> ex_state ex = Active) \<and>
          ex_launch_snapshot_digest ex \<noteq> None \<and> ex_launch_provenance ex = ProvExact \<and>
          (case ex_started_at ex of None \<Rightarrow> False
           | Some st \<Rightarrow> (\<forall>t\<in>set ts. st \<le> st_transitioned_at t) \<and> ts \<noteq> [] \<and>
               fold (pause_step st) ts (0, None) = (ex_accumulated_pause ex, ex_paused_at ex)))"

definition lifecycle_inv :: "database \<Rightarrow> instant \<Rightarrow> bool" where
  "lifecycle_inv d now \<longleftrightarrow>
     distinct (map ex_id (exercises d)) \<and>
     (\<forall>ex\<in>set (exercises d). ex_id ex < sequences d TExercise \<and>
        history_inv ex (transitions_of d (ex_id ex))) \<and>
     (\<forall>t\<in>set (transitions d). st_exercise_id t < sequences d TExercise \<and>
        st_transitioned_at t \<le> now)"

text \<open>The sessions an instance goes through: exercises are created and transitioned by
  requests that read the row they act on, and anything else leaves exercises and history
  alone.  The clock does not run backwards.\<close>

inductive lifecycle ::
  "(string \<Rightarrow> string) \<Rightarrow> file_reader \<Rightarrow> instant \<Rightarrow> session \<Rightarrow> bool" for sha256 read_file where
  start: "exercises d = [] \<Longrightarrow> transitions d = [] \<Longrightarrow>
    lifecycle sha256 read_file t (open_session name d)"
| create: "lifecycle sha256 read_file t s \<Longrightarrow> t \<le> now \<Longrightarrow>
    lifecycle sha256 read_file now
      (close_session (snd (create_exercise scenario_id title created_by llm now s)))"
| change: "lifecycle sha256 read_file t s \<Longrightarrow> t \<le> now \<Longrightarrow> get_exercise (db s) e = Some ex \<Longrightarrow>
    lifecycle sha256 read_file now
      (close_session (snd (transition_state_with_history sha256 read_file ex new_state actor_id now s)))"
| other: "lifecycle sha256 read_file t s \<Longrightarrow> t \<le> now \<Longrightarrow> fresh s' \<Longrightarrow>
    exercises (db s') = exercises (db s) \<Longrightarrow> transitions (db s') = transitions (db s) \<Longrightarrow>
    sequences (db s') TExercise = sequences (db s) TExercise \<Longrightarrow>
    lifecycle sha256 read_file now s'"

section \<open>Lemmas: one step of the history\<close>

lemma chain_snoc:
  "chain a (ts @ [t]) b \<longleftrightarrow>
     chain a ts (st_from_state t) \<and> st_to_state t \<in> VALID_TRANSITIONS (st_from_state t) \<and>
     b = st_to_state t"
  by (induction ts arbitrary: a) auto

lemma not_to_Draft: "Draft \<notin> VALID_TRANSITIONS a"
  by (cases a) auto

lemma chain_Draft: "chain a ts Draft \<Longrightarrow> ts = [] \<and> a = Draft"
proof (induction ts arbitrary: a)
  case (Cons t ts)
  then have "st_to_state t = Draft" "st_to_state t \<in> VALID_TRANSITIONS a" by auto
  then show ?case using not_to_Draft by metis
qed simp

lemma valid_transition_cases:
  assumes "b \<in> VALID_TRANSITIONS a"
  obtains "a = Draft" "b = Active" | "a = Active" "b = Paused" | "a = Paused" "b = Active"
    | "a = Active" "b = Completed" | "a = Paused" "b = Completed"
  using assms by (cases a) auto

lemma pause_step_now:
  "st \<le> st_transitioned_at t \<Longrightarrow> pause_step st t (p, b) =
     (if st_to_state t = Paused then (p, Some (st_transitioned_at t))
      else if st_from_state t = Paused
      then (case b of Some x \<Rightarrow> (p + (st_transitioned_at t - x), None) | None \<Rightarrow> (p, None))
      else (p, b))"
  by simp

lemma fold_pause_snoc:
  assumes "fold (pause_step st) ts (0, None) = (p, b)" and "st \<le> st_transitioned_at t"
  shows "fold (pause_step st) (ts @ [t]) (0, None) =
     (if st_to_state t = Paused then (p, Some (st_transitioned_at t))
      else if st_from_state t = Paused
      then (case b of Some x \<Rightarrow> (p + (st_transitioned_at t - x), None) | None \<Rightarrow> (p, None))
      else (p, b))"
  using assms by (simp add: pause_step_now)

lemma history_inv_step:
  assumes inv: "history_inv ex ts" and legal: "new_state \<in> VALID_TRANSITIONS (ex_state ex)"
    and late: "\<forall>t\<in>set ts. st_transitioned_at t \<le> now"
    and t: "st_from_state t = ex_state ex" "st_to_state t = new_state" "st_transitioned_at t = now"
    and launch: "ex_state ex \<noteq> Draft \<Longrightarrow> ex1 = ex"
      "ex_state ex = Draft \<Longrightarrow>
         ex1 = ex\<lparr>ex_launch_snapshot_digest := Some dg, ex_launch_provenance := ProvExact\<rparr>"
  shows "history_inv (transition_values ex1 new_state now ex1) (ts @ [t])"
proof -
  have ch: "chain Draft (ts @ [t]) new_state" "sorted (map st_transitioned_at (ts @ [t]))"
    using inv legal late t by (auto simp: history_inv_def chain_snoc sorted_append)
  show ?thesis
    using legal
  proof (cases rule: valid_transition_cases)
    case 1
    then have "ts = []" using inv chain_Draft by (auto simp: history_inv_def)
    with 1 show ?thesis
      using inv t ch launch by (simp add: history_inv_def transition_values_def)
  next
    case 2
    then obtain st where "ex_started_at ex = Some st"
        "fold (pause_step st) ts (0, None) = (ex_accumulated_pause ex, ex_paused_at ex)"
        "\<forall>t\<in>set ts. st \<le> st_transitioned_at t" "ts \<noteq> []"
      using inv by (auto simp: history_inv_def split: option.splits)
    moreover from this have "st \<le> now" using late by (meson hd_in_set order_trans)
    ultimately show ?thesis
      using 2 inv t ch launch fold_pause_snoc [of st ts _ _ t]
      by (simp add: history_inv_def transition_values_def split: option.splits)
  next
    case 3
    then obtain st p where "ex_started_at ex = Some st" "ex_paused_at ex = Some p"
        "fold (pause_step st) ts (0, None) = (ex_accumulated_pause ex, Some p)"
        "\<forall>t\<in>set ts. st \<le> st_transitioned_at t" "ts \<noteq> []"
      using inv by (auto simp: history_inv_def split: option.splits)
    moreover from this have "st \<le> now" using late by (meson hd_in_set order_trans)
    ultimately show ?thesis
      using 3 inv t ch launch fold_pause_snoc [of st ts _ _ t]
      by (simp add: history_inv_def transition_values_def)
  next
    case 4
    then show ?thesis
      using inv ch launch
      by (auto simp: history_inv_def transition_values_def split: option.splits)
  next
    case 5
    then show ?thesis
      using inv ch launch
      by (auto simp: history_inv_def transition_values_def split: option.splits)
  qed
qed

lemma transition_values_id [simp]: "ex_id (transition_values a b now r) = ex_id r"
  by (simp add: transition_values_def Let_def split: option.splits)

section \<open>Lemmas: the lifecycle keeps its invariant\<close>

lemma history_inv_get:
  "lifecycle_inv d now \<Longrightarrow> get_exercise d e = Some ex \<Longrightarrow> history_inv ex (transitions_of d e)"
  using get_exercise_id by (fastforce simp: lifecycle_inv_def)

lemma lifecycle_inv_later: "lifecycle_inv d t \<Longrightarrow> t \<le> now \<Longrightarrow> lifecycle_inv d now"
  by (fastforce simp: lifecycle_inv_def)

lemma lifecycle_inv_cong:
  "exercises d' = exercises d \<Longrightarrow> transitions d' = transitions d \<Longrightarrow>
     sequences d' TExercise = sequences d TExercise \<Longrightarrow> lifecycle_inv d now \<Longrightarrow> lifecycle_inv d' now"
  by (simp add: lifecycle_inv_def transitions_of_def)

lemma seed_node_frame:
  "exercises (seed_node e p d) = exercises d \<and> transitions (seed_node e p d) = transitions d \<and>
   sequences (seed_node e p d) TExercise = sequences d TExercise"
proof -
  have row: "exercises (snd (create_inject_row a b c n ts g so off att dr d)) = exercises d"
    "transitions (snd (create_inject_row a b c n ts g so off att dr d)) = transitions d"
    "sequences (snd (create_inject_row a b c n ts g so off att dr d)) TExercise =
       sequences d TExercise" for a b c n ts g so off att dr d
    by (simp_all add: create_inject_row_def Let_def)
  show ?thesis
    by (auto simp: seed_node_def Let_def row fold_frame [where g = exercises]
        fold_frame [where g = transitions] fold_frame [where g = "\<lambda>d. sequences d TExercise"]
        split: prod.splits)
qed

lemma seed_injects_frame:
  "seed_injects_from_scenario e sc d = Inr d' \<Longrightarrow>
     exercises d' = exercises d \<and> transitions d' = transitions d \<and>
     sequences d' TExercise = sequences d TExercise"
  using fold_frame [where f = "seed_node e" and g = exercises]
    fold_frame [where f = "seed_node e" and g = transitions]
    fold_frame [where f = "seed_node e" and g = "\<lambda>d. sequences d TExercise"] seed_node_frame
  by (auto simp only: seed_injects_from_scenario_def sum.inject sum.simps split: sum.splits)

lemma seed_progression_sequences [simp]:
  "sequences (seed_progression e st gs now d) TExercise = sequences d TExercise"
  unfolding seed_progression_def
  by (rule fold_frame [where g = "\<lambda>d. sequences d TExercise"]) (simp add: insert_cursor_def)

lemma create_exercise_Inr:
  assumes "create_exercise scenario_id title created_by llm now s = (Inr ex, s')"
  shows "exercises (db s') = exercises (db s) @ [ex] \<and> transitions (db s') = transitions (db s) \<and>
    ex_id ex = sequences (db s) TExercise \<and>
    sequences (db s') TExercise = sequences (db s) TExercise + 1 \<and>
    ex_state ex = Draft \<and> ex_started_at ex = None \<and> ex_ended_at ex = None \<and>
    ex_paused_at ex = None \<and> ex_accumulated_pause ex = 0 \<and>
    ex_launch_snapshot_digest ex = None \<and> ex_launch_provenance ex = ProvPending \<and>
    committed s' = db s' \<and> pending s' = [] \<and> ready s' = ready s @ pending s"
  using assms
  by (auto simp: create_exercise_def Let_def nextval_def split: option.splits sum.splits
      dest!: seed_injects_frame)

lemma create_exercise_Inl:
  "create_exercise scenario_id title created_by llm now s = (Inl e, s') \<Longrightarrow> unpublished s s'"
  by (auto simp: create_exercise_def Let_def split: option.splits sum.splits)

interpretation creation: unit_of_work "create_exercise scenario_id title created_by llm now"
proof
  fix s e s'
  assume "create_exercise scenario_id title created_by llm now s = (Inl e, s')" "ready s = []"
  then show "committed s' = committed s \<and> notified s' = notified s \<and>
      dispatched s' = dispatched s \<and> ready s' = []"
    using create_exercise_Inl by (simp add: unpublished_def)
next
  fix s x s'
  assume "create_exercise scenario_id title created_by llm now s = (Inr x, s')" "fresh s"
  then show "fresh s'" using create_exercise_Inr by (simp add: fresh_def)
qed

lemma history_inv_new:
  "ex_state ex = Draft \<Longrightarrow> ex_started_at ex = None \<Longrightarrow> ex_ended_at ex = None \<Longrightarrow>
     ex_paused_at ex = None \<Longrightarrow> ex_accumulated_pause ex = 0 \<Longrightarrow>
     ex_launch_snapshot_digest ex = None \<Longrightarrow> ex_launch_provenance ex = ProvPending \<Longrightarrow>
     history_inv ex []"
  by (simp add: history_inv_def)

lemma lifecycle_inv_create:
  assumes "lifecycle_inv (db s) now"
    and "create_exercise scenario_id title created_by llm now s = (Inr ex, s')"
  shows "lifecycle_inv (db s') now"
proof -
  note c = create_exercise_Inr [OF assms(2)]
  have none: "transitions_of (db s') (ex_id ex) = []"
    using assms(1) c by (fastforce simp: transitions_of_def filter_empty_conv lifecycle_inv_def)
  have "ex_id ex \<notin> ex_id ` set (exercises (db s))"
    using assms(1) c by (auto simp: lifecycle_inv_def)
  then show ?thesis
    using assms(1) c none history_inv_new [of ex]
    by (fastforce simp: lifecycle_inv_def transitions_of_def)
qed

lemma lifecycle_inv_change:
  assumes inv: "lifecycle_inv (db s) now" and row: "get_exercise (db s) e = Some ex"
    and run: "transition_state_with_history sha256 read_file ex new_state actor_id now s =
      (Inr (ex', t, action), s')"
  shows "lifecycle_inv (db s') now"
proof -
  obtain ex1 s1 where l: "launch_or_keep sha256 read_file ex new_state now s = (Inr ex1, s1)"
    and sw: "swap_state ex1 new_state actor_id now s1 = (Inr (ex', t, action), s')"
    using run by (rule transition_Inr)
  note w = swap_state_Inr [OF sw]
  have e: "ex_id ex = e" "ex \<in> set (exercises (db s))" using get_exercise_id [OF row] by auto
  have dist: "distinct (map ex_id (exercises (db s)))" using inv by (simp add: lifecycle_inv_def)
  have uniq: "r = ex" if "r \<in> set (exercises (db s))" "ex_id r = e" for r
    using that e dist inj_onD [of ex_id "set (exercises (db s))" r ex] by (simp add: distinct_map)
  obtain dg where launch: "ex_state ex \<noteq> Draft \<Longrightarrow> ex1 = ex"
      "ex_state ex = Draft \<Longrightarrow>
         ex1 = ex\<lparr>ex_launch_snapshot_digest := Some dg, ex_launch_provenance := ProvExact\<rparr>"
    and rows1: "exercises (db s1) = map (\<lambda>r. if ex_id r = e then ex1 else r) (exercises (db s))"
    and frame1: "transitions (db s1) = transitions (db s)"
      "sequences (db s1) = sequences (db s)"
  proof (cases "ex_state ex = Draft \<and> new_state = Active")
    case True
    then have fr: "freeze_launch_configuration sha256 read_file ex now (db s) = Inr (ex1, db s1)"
      using launch_or_keep_Inr [OF l] by auto
    obtain dg where dg: "ex1 = ex\<lparr>ex_launch_snapshot_digest := Some dg, ex_launch_provenance := ProvExact\<rparr>"
        "exercises (db s1) = update_where (\<lambda>r. ex_id r = ex_id ex)
          (\<lambda>r. r\<lparr>ex_launch_snapshot_digest := Some dg, ex_launch_provenance := ProvExact\<rparr>)
          (exercises (db s))"
      using freeze_state(1) [OF fr] row e by auto
    have "exercises (db s1) = map (\<lambda>r. if ex_id r = e then ex1 else r) (exercises (db s))"
      unfolding dg(2) update_where_def
    proof (rule map_cong [OF refl])
      fix r assume r: "r \<in> set (exercises (db s))"
      show "(if ex_id r = ex_id ex
          then r\<lparr>ex_launch_snapshot_digest := Some dg, ex_launch_provenance := ProvExact\<rparr> else r) =
        (if ex_id r = e then ex1 else r)"
        using uniq [OF r] by (cases "ex_id r = e") (simp_all add: dg(1) e(1))
    qed
    then show thesis
      using that [of dg] dg True freeze_state(2,3) [OF fr] by auto
  next
    case False
    then have "ex1 = ex" "s1 = s" using launch_or_keep_Inr [OF l] by auto
    moreover have "ex_state ex \<noteq> Draft"
      using False w(1) calculation by auto
    moreover have "map (\<lambda>r. if ex_id r = e then ex else r) (exercises (db s)) = exercises (db s)"
      using uniq by (intro map_idI) auto
    ultimately show thesis using that by auto
  qed
  have same: "ex_id ex1 = e" "ex_state ex1 = ex_state ex"
    by (cases "ex_state ex = Draft", simp_all add: launch e)+
  have t: "t = \<lparr>st_id = nextval TTransition (db s1), st_exercise_id = e,
      st_from_state = ex_state ex, st_to_state = new_state,
      st_actor_id = Some (case actor_id of Some a \<Rightarrow> a | None \<Rightarrow> ex_created_by ex1),
      st_transitioned_at = now\<rparr>"
    using w(4) same by simp
  have rows: "exercises (db s') =
      map (\<lambda>r. if ex_id r = e then transition_values ex1 new_state now ex1 else r) (exercises (db s))"
    using w(5) same by (auto simp: rows1 update_where_def)
  have hist: "transitions_of (db s') x = transitions_of (db s) x @ (if x = e then [t] else [])" for x
    using w(6) frame1 t by (simp add: transitions_of_def)
  have old: "history_inv ex (transitions_of (db s) e)" using history_inv_get [OF inv row] .
  have late: "\<forall>t\<in>set (transitions_of (db s) e). st_transitioned_at t \<le> now"
    using inv by (simp add: lifecycle_inv_def transitions_of_def)
  have step: "history_inv (transition_values ex1 new_state now ex1) (transitions_of (db s) e @ [t])"
    by (rule history_inv_step [OF old _ late _ _ _ launch]) (use w(1) same t in auto)
  have seq: "sequences (db s') TExercise = sequences (db s) TExercise"
    using sw frame1 by (auto simp: swap_state_def Let_def split: if_splits)
  have ids: "map ex_id (exercises (db s')) = map ex_id (exercises (db s))"
    using same by (simp add: rows)
  show ?thesis
    unfolding lifecycle_inv_def ids seq
  proof (intro conjI)
    show "\<forall>x\<in>set (exercises (db s')). ex_id x < sequences (db s) TExercise \<and>
        history_inv x (transitions_of (db s') (ex_id x))"
      using inv step same e by (auto simp: rows hist lifecycle_inv_def)
    show "\<forall>x\<in>set (transitions (db s')). st_exercise_id x < sequences (db s) TExercise \<and>
        st_transitioned_at x \<le> now"
      using inv e w(6) frame1 t by (auto simp: lifecycle_inv_def)
  qed (rule dist)
qed

lemma lifecycle_sound:
  assumes "lifecycle sha256 read_file now s"
  shows "fresh s \<and> lifecycle_inv (db s) now"
  using assms
proof (induction rule: lifecycle.induct)
  case (start d t name)
  then show ?case by (simp add: open_session_def fresh_def lifecycle_inv_def)
next
  case (create t s now scenario_id title created_by llm)
  let ?run = "create_exercise scenario_id title created_by llm now s"
  have fr: "fresh (close_session (snd ?run))" using create.IH creation.request_fresh by blast
  have inv: "lifecycle_inv (db s) now" using create lifecycle_inv_later by blast
  have "lifecycle_inv (db (close_session (snd ?run))) now"
  proof (cases "fst ?run")
    case (Inl e)
    then have "?run = (Inl e, snd ?run)" by (metis prod.collapse)
    then have "committed (close_session (snd ?run)) = committed s"
      using creation.request_error(1) create.IH by blast
    then show ?thesis using fr inv create.IH by (simp add: fresh_def)
  next
    case (Inr ex)
    then have "?run = (Inr ex, snd ?run)" by (metis prod.collapse)
    then have "committed (close_session (snd ?run)) = db (snd ?run)"
        "lifecycle_inv (db (snd ?run)) now"
      using creation.request_success(1) create.IH lifecycle_inv_create [OF inv] by blast+
    then show ?thesis using fr by (simp add: fresh_def)
  qed
  with fr show ?case by blast
next
  case (change t s now e ex new_state actor_id)
  let ?run = "transition_state_with_history sha256 read_file ex new_state actor_id now s"
  have fr: "fresh (close_session (snd ?run))" using change.IH transition.request_fresh by blast
  have inv: "lifecycle_inv (db s) now" using change lifecycle_inv_later by blast
  have "lifecycle_inv (db (close_session (snd ?run))) now"
  proof (cases "fst ?run")
    case (Inl err)
    then have "?run = (Inl err, snd ?run)" by (metis prod.collapse)
    then have "committed (close_session (snd ?run)) = committed s"
      using transition.request_error(1) change.IH by blast
    then show ?thesis using fr inv change.IH by (simp add: fresh_def)
  next
    case (Inr x)
    obtain ex' t' action where "x = (ex', t', action)" by (cases x)
    with Inr have run: "?run = (Inr (ex', t', action), snd ?run)" by (metis prod.collapse)
    then have "committed (close_session (snd ?run)) = db (snd ?run)"
      using transition.request_success(1) change.IH by blast
    moreover have "lifecycle_inv (db (snd ?run)) now"
      using lifecycle_inv_change [OF inv change.hyps(3)] run by blast
    ultimately show ?thesis using fr by (simp add: fresh_def)
  qed
  with fr show ?case by blast
next
  case (other t s now s')
  then show ?case using lifecycle_inv_cong lifecycle_inv_later by blast
qed

section \<open>Lemmas: the two clocks\<close>

lemma paused_time_bounds:
  assumes "sorted (map st_transitioned_at ts)" and "\<forall>t\<in>set ts. st \<le> st_transitioned_at t"
    and "st \<le> T" and "\<forall>t\<in>set ts. st_transitioned_at t \<le> T"
    and "fold (pause_step st) ts (0, None) = (p, b)"
  shows "p + (case b of None \<Rightarrow> 0 | Some x \<Rightarrow> T - x) \<le> T - st \<and> (\<forall>x. b = Some x \<longrightarrow> x \<le> T)"
  using assms
proof (induction ts arbitrary: T p b rule: rev_induct)
  case (snoc t ts)
  obtain q c where qc: "fold (pause_step st) ts (0, None) = (q, c)" by fastforce
  let ?u = "st_transitioned_at t"
  have u: "st \<le> ?u" "?u \<le> T" "\<forall>x\<in>set ts. st_transitioned_at x \<le> ?u"
    using snoc.prems by (auto simp: sorted_append)
  have ih: "q + (case c of None \<Rightarrow> 0 | Some x \<Rightarrow> ?u - x) \<le> ?u - st \<and> (\<forall>x. c = Some x \<longrightarrow> x \<le> ?u)"
    by (rule snoc.IH) (use snoc.prems u qc in \<open>auto simp: sorted_append\<close>)
  show ?case
    using fold_pause_snoc [OF qc u(1)] snoc.prems(5) ih u by (cases c) (auto split: if_splits)
qed simp

lemma active_clock:
  assumes "history_inv ex ts" and "ex_state ex = Active" and "ex_started_at ex = Some st"
    and "\<forall>t\<in>set ts. st_transitioned_at t \<le> now"
  shows "active_elapsed_since ex st ts now = effective_elapsed ex now"
proof -
  have h: "ex_ended_at ex = None" "ex_paused_at ex = None" "sorted (map st_transitioned_at ts)"
      "\<forall>t\<in>set ts. st \<le> st_transitioned_at t" "ts \<noteq> []"
      "fold (pause_step st) ts (0, None) = (ex_accumulated_pause ex, None)"
    using assms(1-3) by (auto simp: history_inv_def)
  have le: "st \<le> now" using h(4,5) assms(4) by (meson hd_in_set order_trans)
  have "ex_accumulated_pause ex \<le> now - st"
    using paused_time_bounds [OF h(3,4) le assms(4) h(6)] by simp
  then show ?thesis
    using h assms(3) by (simp add: active_elapsed_since_def effective_elapsed_def sort_key_id_if_sorted)
qed

section \<open>Properties\<close>

text \<open>A transition that succeeds was legal and is complete: it leads from the state the row
  had to an allowed successor, the committed row is in the new state, exactly one history row
  naming both states and the time was appended, and exactly the matching event is announced on
  the committed tables.\<close>

lemma transition_is_complete:
  assumes "transition_state_with_history sha256 read_file ex0 new_state actor_id now s =
      (Inr (ex', t, action), s')"
    and "fresh s" and "get_exercise (db s) (ex_id ex0) = Some ex0"
  shows "new_state \<in> VALID_TRANSITIONS (ex_state ex0) \<and>
    get_exercise (committed s') (ex_id ex0) = Some ex' \<and> ex_state ex' = new_state \<and>
    transitions (committed s') = transitions (db s) @ [t] \<and>
    st_exercise_id t = ex_id ex0 \<and> st_from_state t = ex_state ex0 \<and> st_to_state t = new_state \<and>
    st_transitioned_at t = now \<and> transition_action (ex_state ex0) new_state = Some action \<and>
    dispatched s' = dispatched s @ [(committed s', ExerciseStateChanged (ex_id ex0) (st_id t) action)]"
proof -
  obtain ex s1 where l: "launch_or_keep sha256 read_file ex0 new_state now s = (Inr ex, s1)"
    and sw: "swap_state ex new_state actor_id now s1 = (Inr (ex', t, action), s')"
    using assms(1) by (rule transition_Inr)
  note w = swap_state_Inr [OF sw]
  have pre: "ex_id ex = ex_id ex0 \<and> ex_state ex = ex_state ex0 \<and>
      transitions (db s1) = transitions (db s) \<and> get_exercise (db s1) (ex_id ex0) = Some ex \<and>
      pending s1 = [] \<and> ready s1 = [] \<and> dispatched s1 = dispatched s"
  proof (cases "ex_state ex0 = Draft \<and> new_state = Active")
    case True
    then have fr: "freeze_launch_configuration sha256 read_file ex0 now (db s) = Inr (ex, db s1)"
      using launch_or_keep_Inr [OF l] by auto
    obtain dg where dg: "ex = ex0\<lparr>ex_launch_snapshot_digest := Some dg, ex_launch_provenance := ProvExact\<rparr>"
        "exercises (db s1) = update_where (\<lambda>r. ex_id r = ex_id ex0)
          (\<lambda>r. r\<lparr>ex_launch_snapshot_digest := Some dg, ex_launch_provenance := ProvExact\<rparr>)
          (exercises (db s))"
      using freeze_state(1) [OF fr] assms(3) by auto
    have "get_row ex_id (ex_id ex0) (exercises (db s)) = Some ex0"
      using assms(3) by (simp add: get_defs)
    then have "get_exercise (db s1) (ex_id ex0) = Some ex"
      unfolding get_exercise_def dg by (simp add: get_row_update_where)
    then show ?thesis
      using dg(1) freeze_state(2) [OF fr] launch_or_keep_Inr [OF l] assms(2)
      by (simp add: fresh_def unpublished_def)
  next
    case False
    then have "ex = ex0" "s1 = s" using launch_or_keep_Inr [OF l] by auto
    then show ?thesis using assms(2,3) by (simp add: fresh_def)
  qed
  have row: "get_row ex_id (ex_id ex0) (exercises (db s1)) = Some ex"
    using pre by (simp add: get_defs)
  have after: "get_exercise (db s') (ex_id ex0) = Some (transition_values ex new_state now ex)"
    unfolding get_exercise_def w(5) using row pre by (simp add: get_row_update_where)
  moreover have "ex_state (transition_values ex new_state now ex) = new_state"
    by (simp add: transition_values_def Let_def split: option.splits)
  ultimately show ?thesis
    using w pre by (simp add: comp_def)
qed

lemma transition_is_complete_witness:
  "\<exists>ex' t s'. transition_state_with_history (\<lambda>b. ''d'') (\<lambda>p. None) demo_exercise Active (Some 10) 5
      (demo_session demo_draft_db) = (Inr (ex', t, ''exercise.start''), s') \<and>
     ex_state ex' = Active \<and> length (dispatched s') = 1"
proof -
  let ?run = "transition_state_with_history (\<lambda>b. ''d'') (\<lambda>p. None) demo_exercise Active (Some 10) 5
      (demo_session demo_draft_db)"
  have "is_ok (fst ?run)" by code_simp
  then obtain x where x: "fst ?run = Inr x" by (auto simp: is_ok_iff)
  obtain ex' t action where "x = (ex', t, action)" by (cases x)
  with x have run: "?run = (Inr (ex', t, action), snd ?run)" by (metis prod.collapse)
  have row: "get_exercise (db (demo_session demo_draft_db)) (ex_id demo_exercise) = Some demo_exercise"
    by code_simp
  have d: "ex_state demo_exercise = Draft" by code_simp
  note all = transition_is_complete [OF run demo_session_fields(3) row]
  then have "action = ''exercise.start''" using d by simp
  then show ?thesis using run all by (intro exI conjI) auto
qed


text \<open>One exercise, created, started at 10, paused at 20 and resumed at 50.\<close>

definition demo_run :: "(exercise_state \<times> instant) list \<Rightarrow> session" where
  "demo_run steps = fold (\<lambda>(st, now) s. case get_exercise (db s) 1 of None \<Rightarrow> s
       | Some ex \<Rightarrow> close_session (snd (transition_state_with_history (\<lambda>b. ''d'') (\<lambda>p. None) ex st
           (Some 10) now s)))
     steps (close_session (snd (create_exercise 1 ''E'' 10 True 0
       (open_session ''web-1'' (empty_database\<lparr>scenarios := [demo_scenario]\<rparr>)))))"

lemma demo_run_lifecycle:
  "lifecycle (\<lambda>b. ''d'') (\<lambda>p. None) 50 (demo_run [(Active, 10), (Paused, 20), (Active, 50)])"
proof -
  let ?L = "lifecycle (\<lambda>b. ''d'') (\<lambda>p. None)"
  let ?step = "\<lambda>(st, now) s. case get_exercise (db s) 1 of None \<Rightarrow> s
       | Some ex \<Rightarrow> close_session (snd (transition_state_with_history (\<lambda>b. ''d'') (\<lambda>p. None) ex st
           (Some 10) now s))"
  have step: "?L now (?step (st, now) s)" if "?L t s" "t \<le> now" for t now st s
  proof (cases "get_exercise (db s) 1")
    case None
    then show ?thesis using that lifecycle_sound by (auto intro: lifecycle.other)
  next
    case (Some ex)
    then show ?thesis using that by (auto intro: lifecycle.change)
  qed
  let ?s0 = "close_session (snd (create_exercise 1 ''E'' 10 True 0
       (open_session ''web-1'' (empty_database\<lparr>scenarios := [demo_scenario]\<rparr>))))"
  have "?L 0 ?s0"
    by (rule lifecycle.create [OF lifecycle.start [where t = 0]]) (simp_all add: empty_database_def)
  then have "?L 10 (?step (Active, 10) ?s0)" by (rule step) simp
  then have "?L 20 (?step (Paused, 20) (?step (Active, 10) ?s0))" by (rule step) simp
  then have "?L 50 (?step (Active, 50) (?step (Paused, 20) (?step (Active, 10) ?s0)))"
    by (rule step) simp
  then show ?thesis by (simp add: demo_run_def)
qed

lemma demo_run_row:
  "map_option (\<lambda>ex. (ex_state ex, ex_started_at ex, effective_elapsed ex 100))
     (get_exercise (db (demo_run [(Active, 10), (Paused, 20), (Active, 50)])) 1) =
   Some (Active, Some 10, 60)"
  by code_simp


text \<open>C4: the two clocks agree: in every reachable session the running time the inject schedule
  reads off the accumulator of an active exercise is the one the triggered messages compute
  from the transition history since its start.\<close>

theorem clocks_agree:
  assumes "lifecycle sha256 read_file t s" and "t \<le> now" and "get_exercise (db s) e = Some ex"
    and "ex_state ex = Active" and "ex_started_at ex = Some st"
  shows "active_elapsed_since ex st (transitions_of (db s) e) now = effective_elapsed ex now"
proof -
  have inv: "lifecycle_inv (db s) now"
    using lifecycle_sound [OF assms(1)] lifecycle_inv_later assms(2) by blast
  show ?thesis
    by (rule active_clock [OF history_inv_get [OF inv assms(3)] assms(4,5)])
      (use inv in \<open>auto simp: lifecycle_inv_def transitions_of_def\<close>)
qed

theorem clocks_agree_witness:
  "\<exists>ex. get_exercise (db (demo_run [(Active, 10), (Paused, 20), (Active, 50)])) 1 = Some ex \<and>
     active_elapsed_since ex 10
       (transitions_of (db (demo_run [(Active, 10), (Paused, 20), (Active, 50)])) 1) 100 = 60"
proof -
  let ?s = "demo_run [(Active, 10), (Paused, 20), (Active, 50)]"
  obtain ex where ex: "get_exercise (db ?s) 1 = Some ex" "ex_state ex = Active"
      "ex_started_at ex = Some 10" "effective_elapsed ex 100 = 60"
    using demo_run_row by auto
  have "(50 :: int) \<le> 100" by simp
  from clocks_agree [OF demo_run_lifecycle this ex(1-3)] show ?thesis using ex(1,4) by auto
qed

section \<open>What the compare-and-swap does not protect\<close>

text \<open>The swap compares states, not versions.  A request that read the row during the first pause
  (of 10) and acts during a second one (of 100) passes it, and the accumulator it computes from
  its stale row counts the running time in between as paused: 110 instead of 25.\<close>

definition demo_paused :: "instant \<Rightarrow> int \<Rightarrow> exercise" where
  "demo_paused p acc = demo_running\<lparr>ex_state := Paused, ex_paused_at := Some p,
     ex_accumulated_pause := acc\<rparr>"

lemma stale_resume_overwrites_clock:
  "map_option ex_accumulated_pause (get_exercise (committed (snd
     (transition_state_with_history (\<lambda>b. ''d'') (\<lambda>p. None) (demo_paused 10 0) Active (Some 10) 120
        (demo_session (empty_database\<lparr>exercises := [demo_paused 100 5]\<rparr>))))) 1) = Some 110 \<and>
   map_option ex_accumulated_pause (get_exercise (committed (snd
     (transition_state_with_history (\<lambda>b. ''d'') (\<lambda>p. None) (demo_paused 100 5) Active (Some 10) 120
        (demo_session (empty_database\<lparr>exercises := [demo_paused 100 5]\<rparr>))))) 1) = Some 25"
  by code_simp

end
