(* ===== verification/Response_Service.thy ===== *)
theory Response_Service
  imports Inject_Service
begin

text \<open>
  Participant responses (\<^verbatim>\<open>app/services/response_service.py\<close>): the validation of an
  answer against its scenario node, the branch it selects, the transaction that stores it and
  moves the group's cursor, and the suggestions shown to the facilitator.

  \<open>insert_response\<close> is the flush of the new row: the unique constraint on exercise,
  inject and user, and the foreign keys, are what \<^verbatim>\<open>IntegrityError\<close> reports there.
  \<^verbatim>\<open>session.get\<close> reads the tables as the session sees them.
\<close>

section \<open>Validating an answer\<close>

definition response_validation_error ::
  "inject_node option \<Rightarrow> string \<Rightarrow> string option \<Rightarrow> string option" where
  "response_validation_error node content1 selected_option =
     (let option_ids = (case node of Some n \<Rightarrow> io_id ` set (in_options n) | None \<Rightarrow> {});
          content_error =
            (if (node = None \<or> option_ids = {} \<or> in_free_text_response (the node)) \<and> strip content1 = []
             then Some ''content is required for this inject'' else None)
      in if option_ids \<noteq> {}
         then if \<not> truthy selected_option then Some ''selected_option is required for this inject''
              else if the selected_option \<notin> option_ids
              then Some ''selected_option is not valid for this inject''
              else content_error
         else if selected_option \<noteq> None then Some ''selected_option is not valid for this inject''
         else content_error)"

section \<open>The branch an answer selects\<close>

definition response_next_inject_ids ::
  "scenario_definition \<Rightarrow> string \<Rightarrow> string option \<Rightarrow> string list" where
  "response_next_inject_ids def1 nid selected_option =
     (case get_inject_node def1 nid of
        None \<Rightarrow> []
      | Some n \<Rightarrow>
          if in_options n \<noteq> []
          then if \<not> truthy selected_option then []
               else (let next_id = resolve_branch def1 nid (the selected_option)
                     in if truthy next_id then [the next_id] else [])
          else if selected_option \<noteq> None then []
          else get_next_inject_ids def1 nid)"

definition compute_next_inject_ids ::
  "database \<Rightarrow> int \<Rightarrow> int \<Rightarrow> string option \<Rightarrow> exn + string list" where
  "compute_next_inject_ids d exercise_id inject_id selected_option =
     (case definition_for_exercise d exercise_id of
        Inl e \<Rightarrow> Inl e
      | Inr None \<Rightarrow> Inr []
      | Inr (Some def1) \<Rightarrow>
          (case get_inject d inject_id of
             None \<Rightarrow> Inr []
           | Some ij \<Rightarrow>
               if \<not> truthy (ij_scenario_node_id ij) then Inr []
               else Inr (response_next_inject_ids def1 (the (ij_scenario_node_id ij)) selected_option)))"

section \<open>Suggestions for the facilitator\<close>

record next_inject =
  nx_id :: int
  nx_scenario_node_id :: "string option"
  nx_title :: string
  nx_group_id :: "string option"

definition next_inject_payload :: "inject \<Rightarrow> next_inject" where
  "next_inject_payload ij =
     \<lparr>nx_id = ij_id ij, nx_scenario_node_id = ij_scenario_node_id ij, nx_title = ij_title ij,
      nx_group_id = ij_group_id ij\<rparr>"

text \<open>\<^verbatim>\<open>{node_id: i for i, node_id in enumerate(ids)}\<close> and the sort key read from it.\<close>

definition ordered_ids :: "string list \<Rightarrow> string \<Rightarrow> int option" where
  "ordered_ids ids = dict_of (map (\<lambda>(i, nid). (nid, int i)) (List.enumerate 0 ids))"

definition next_position :: "string list \<Rightarrow> inject \<Rightarrow> int" where
  "next_position ids ij =
     (case ordered_ids ids (case ij_scenario_node_id ij of None \<Rightarrow> [] | Some nid \<Rightarrow> nid) of
        None \<Rightarrow> 9999 | Some i \<Rightarrow> i)"

definition next_match :: "string list \<Rightarrow> string option \<Rightarrow> inject \<Rightarrow> bool" where
  "next_match ids group_id ij \<longleftrightarrow>
     (case ij_scenario_node_id ij of None \<Rightarrow> False | Some nid \<Rightarrow> ordered_ids ids nid \<noteq> None) \<and>
     inject_matches_group ij group_id None"

definition select_next_injects :: "inject list \<Rightarrow> string list \<Rightarrow> string option \<Rightarrow> next_inject list" where
  "select_next_injects candidates ids group_id =
     (if ids = [] then []
      else map next_inject_payload
             (sort_key (next_position ids) (filter (next_match ids group_id) candidates)))"

definition pending_next_injects ::
  "database \<Rightarrow> int \<Rightarrow> string list \<Rightarrow> string option \<Rightarrow> next_inject list" where
  "pending_next_injects d exercise_id ids group_id =
     (if ids = [] then []
      else select_next_injects
             (filter (\<lambda>ij. ij_exercise_id ij = exercise_id \<and> ij_state ij = Pending) (injects d))
             ids group_id)"

definition suggestions_for ::
  "scenario_definition option \<Rightarrow> inject list \<Rightarrow> response \<Rightarrow> int \<times> next_inject list" where
  "suggestions_for definition0 rows r =
     (rs_id r,
      case definition0 of
        None \<Rightarrow> []
      | Some def1 \<Rightarrow>
          (case dict_of (map (\<lambda>ij. (ij_id ij, ij)) rows) (rs_inject_id r) of
             None \<Rightarrow> []
           | Some ij \<Rightarrow>
               if \<not> truthy (ij_scenario_node_id ij) then []
               else select_next_injects (filter (\<lambda>ij. ij_state ij = Pending) rows)
                      (response_next_inject_ids def1 (the (ij_scenario_node_id ij))
                         (rs_selected_option r)) (rs_group_id r)))"

definition response_next_inject_suggestions_bulk ::
  "database \<Rightarrow> int \<Rightarrow> response list \<Rightarrow> exn + (int \<Rightarrow> next_inject list option)" where
  "response_next_inject_suggestions_bulk d exercise_id rs =
     (if rs = [] then Inr (\<lambda>_. None)
      else (case definition_for_exercise d exercise_id of
              Inl e \<Rightarrow> Inl e
            | Inr definition0 \<Rightarrow>
                Inr (dict_of (map (suggestions_for definition0
                       (filter (\<lambda>ij. ij_exercise_id ij = exercise_id) (injects d))) rs))))"

section \<open>Storing a response\<close>

definition response_key :: "response \<Rightarrow> int \<times> int \<times> int" where
  "response_key r = (rs_exercise_id r, rs_inject_id r, rs_user_id r)"

definition insert_response :: "response \<Rightarrow> database \<Rightarrow> exn + database" where
  "insert_response r d =
     (if (\<exists>x\<in>set (responses d). response_key x = response_key r) \<or>
         get_inject d (rs_inject_id r) = None \<or> get_exercise d (rs_exercise_id r) = None \<or>
         get_user d (rs_user_id r) = None
      then Inl IntegrityError
      else Inr ((bump TResponse d)\<lparr>responses := responses d @ [r]\<rparr>))"

definition new_response ::
  "int \<Rightarrow> int \<Rightarrow> int \<Rightarrow> string \<Rightarrow> string option \<Rightarrow> string option \<Rightarrow> instant \<Rightarrow> database \<Rightarrow>
     response" where
  "new_response inject_id exercise_id user_id content1 selected_option group_id now d =
     \<lparr>rs_id = nextval TResponse d, rs_inject_id = inject_id, rs_exercise_id = exercise_id,
      rs_user_id = user_id, rs_group_id = group_id, rs_content = content1,
      rs_selected_option = selected_option, rs_submitted_at = now, rs_assessment_id = None\<rparr>"

definition only_one :: "string list \<Rightarrow> string option" where
  "only_one ids = (case ids of [n] \<Rightarrow> Some n | _ \<Rightarrow> None)"

text \<open>The statements between the flush and the recorded event, on the tables.\<close>

definition advance_response ::
  "response \<Rightarrow> instant \<Rightarrow> database \<Rightarrow> exn + string list \<times> database" where
  "advance_response r now d =
     (case compute_next_inject_ids d (rs_exercise_id r) (rs_inject_id r) (rs_selected_option r) of
        Inl e \<Rightarrow> Inl e
      | Inr next_ids \<Rightarrow>
          (case get_inject d (rs_inject_id r) of
             None \<Rightarrow> Inl AssertionError
           | Some ij \<Rightarrow>
               (case resolve_response_progression ij (rs_group_id r) (rs_user_id r)
                       (only_one next_ids) now d of
                  Inl e \<Rightarrow> Inl e
                | Inr (resolved, d') \<Rightarrow> Inr (next_ids, d'))))"

definition arm_exercise :: "int \<Rightarrow> instant \<Rightarrow> database \<Rightarrow> database" where
  "arm_exercise exercise_id now d =
     (case get_exercise d exercise_id of None \<Rightarrow> d
      | Some ex \<Rightarrow> arm_cursor_reached_injects ex now d)"

definition submit_response ::
  "int \<Rightarrow> int \<Rightarrow> int \<Rightarrow> string \<Rightarrow> string option \<Rightarrow> string option \<Rightarrow> instant \<Rightarrow> session \<Rightarrow>
     (exn + response \<times> next_inject list) \<times> session" where
  "submit_response inject_id exercise_id user_id content1 selected_option group_id now s =
     (let r = new_response inject_id exercise_id user_id content1 selected_option group_id now (db s)
      in case insert_response r (db s) of
           Inl e \<Rightarrow> (Inl (HTTPException 409 ''Response already submitted for this inject''), rollback s)
         | Inr d1 \<Rightarrow>
             let s1 = execute (\<lambda>_. d1) s
             in (case advance_response r now d1 of
                   Inl e \<Rightarrow> (Inl e, s1)
                 | Inr (next_ids, d2) \<Rightarrow>
                     let s2 = snd (record_event (ResponseSubmitted exercise_id (rs_id r))
                                     (execute (\<lambda>_. d2) s1));
                         s3 = dispatch (commit (execute (arm_exercise exercise_id now) s2))
                     in (Inr (r, pending_next_injects (db s3) exercise_id next_ids group_id), s3)))"

section \<open>The payload\<close>

record response_public =
  rq_id :: int
  rq_inject_id :: int
  rq_exercise_id :: int
  rq_user_id :: int
  rq_group_id :: "string option"
  rq_content :: string
  rq_selected_option :: "string option"
  rq_submitted_at :: string
  rq_assessment_id :: "int option"
  rq_next_injects :: "next_inject list option"
  rq_next_inject_ids :: "string option list option"
  rq_progression :: "progression_view option"

definition response_payload ::
  "response \<Rightarrow> next_inject list option \<Rightarrow> progression_view option \<Rightarrow> response_public" where
  "response_payload r nexts progression =
     \<lparr>rq_id = rs_id r, rq_inject_id = rs_inject_id r, rq_exercise_id = rs_exercise_id r,
      rq_user_id = rs_user_id r, rq_group_id = rs_group_id r, rq_content = rs_content r,
      rq_selected_option = rs_selected_option r, rq_submitted_at = isoformat (rs_submitted_at r),
      rq_assessment_id = rs_assessment_id r, rq_next_injects = nexts,
      rq_next_inject_ids = map_option (map nx_scenario_node_id) nexts,
      rq_progression = progression\<rparr>"

section \<open>Lemmas: branches and suggestions\<close>

lemma response_next_at_most_one: "length (response_next_inject_ids def1 nid sel) \<le> 1"
  by (auto simp: response_next_inject_ids_def get_next_inject_ids_def Let_def split: option.splits)

lemma response_next_successor:
  "x \<in> set (response_next_inject_ids def1 nid sel) \<Longrightarrow>
     \<exists>n. get_inject_node def1 nid = Some n \<and> x \<in> set (node_successors n)"
proof (cases "resolve_branch def1 nid (the sel)")
  case (Some y)
  assume "x \<in> set (response_next_inject_ids def1 nid sel)"
  then show ?thesis
    using resolve_branch_successor [OF Some] get_next_successor [of x def1 nid] Some
    by (auto simp: response_next_inject_ids_def Let_def split: option.splits if_splits)
next
  case None
  assume "x \<in> set (response_next_inject_ids def1 nid sel)"
  then show ?thesis
    using get_next_successor [of x def1 nid] None
    by (auto simp: response_next_inject_ids_def Let_def split: option.splits if_splits)
qed

lemma compute_next_at_most_one:
  "compute_next_inject_ids d e i sel = Inr ids \<Longrightarrow> length ids \<le> 1"
  using response_next_at_most_one
  by (auto simp: compute_next_inject_ids_def split: sum.splits option.splits if_splits)

lemma only_one_total: "length ids \<le> 1 \<Longrightarrow> only_one ids = (case ids of [] \<Rightarrow> None | x # xs \<Rightarrow> Some x)"
  by (cases ids) (auto simp: only_one_def)

lemma find_option_unique:
  "distinct (map io_id os) \<Longrightarrow> o1 \<in> set os \<Longrightarrow> find_option os (io_id o1) = io_next_inject_id o1"
  by (induction os) auto

lemma validation_passes:
  "response_validation_error node c sel = None \<longleftrightarrow>
     (if \<exists>n. node = Some n \<and> in_options n \<noteq> []
      then (\<exists>o1\<in>set (in_options (the node)). sel = Some (io_id o1) \<and> io_id o1 \<noteq> []) \<and>
           (in_free_text_response (the node) \<longrightarrow> strip c \<noteq> [])
      else sel = None \<and> strip c \<noteq> [])"
proof (cases node)
  case None
  then show ?thesis by (auto simp: response_validation_error_def)
next
  case (Some n)
  then show ?thesis
    by (cases sel) (auto simp: response_validation_error_def Let_def image_iff)
qed

lemma dict_of_mem:
  assumes "distinct (map fst ps)" and "(k, v) \<in> set ps"
  shows "dict_of ps k = Some v"
proof -
  have "distinct (map fst (rev ps))" using assms(1) by (simp add: rev_map [symmetric])
  then show ?thesis using assms(2) by (simp add: dict_of_def map_of_eq_Some_iff)
qed

lemma dict_of_rows:
  assumes "distinct (map idf rows)"
  shows "dict_of (map (\<lambda>r. (idf r, f r)) rows) k = map_option f (get_row idf k rows)"
proof (cases "get_row idf k rows")
  case None
  then have "k \<notin> fst ` set (map (\<lambda>r. (idf r, f r)) rows)" by (auto simp: get_row_None)
  then show ?thesis using None dict_of_None [of "map (\<lambda>r. (idf r, f r)) rows" k] by simp
next
  case (Some r)
  then have "r \<in> set rows" "idf r = k" using get_row_Some by fast+
  moreover have "distinct (map fst (map (\<lambda>r. (idf r, f r)) rows))"
    using assms by (simp add: comp_def)
  ultimately show ?thesis using Some by (intro dict_of_mem [THEN trans]) auto
qed

lemma get_row_filter:
  assumes "distinct (map idf rows)" and "get_row idf k rows = Some r" and "p r"
  shows "get_row idf k (filter p rows) = Some r"
proof -
  have "r \<in> set rows" "idf r = k" using get_row_Some [OF assms(2)] by auto
  then show ?thesis
    using get_row_unique [of idf "filter p rows" r] assms(1,3) distinct_map_filter by auto
qed

lemma get_row_filter_hit:
  assumes "distinct (map idf rows)" and "\<And>r. get_row idf k rows = Some r \<Longrightarrow> p r"
  shows "get_row idf k (filter p rows) = get_row idf k rows"
proof (cases "get_row idf k rows")
  case None
  then have "get_row idf k (filter p rows) = None" by (simp add: get_row_None)
  then show ?thesis using None by simp
next
  case (Some r)
  then show ?thesis using get_row_filter [OF assms(1) Some] assms(2) by simp
qed

lemma dict_of_map_Some:
  assumes "distinct (map f xs)" and "x \<in> set xs" and "\<And>y. fst (g y) = f y"
  shows "dict_of (map g xs) (f x) = Some (snd (g x))"
proof -
  have "distinct (map fst (map g xs))" using assms(1) by (simp add: comp_def assms(3))
  moreover have "(f x, snd (g x)) = g x" using assms(3) by (simp add: prod_eq_iff)
  ultimately show ?thesis using assms(2) by (metis dict_of_mem image_eqI list.set_map)
qed

section \<open>Lemmas: submitting\<close>

lemma resolve_frame:
  assumes "resolve_response_progression inject0 g a n now d = Inr (b, d')"
  shows "responses d' = responses d \<and> exercises d' = exercises d \<and> users d' = users d \<and>
    members d' = members d \<and> jobs d' = jobs d \<and> snapshots d' = snapshots d \<and>
    scenarios d' = scenarios d \<and> communications d' = communications d \<and>
    transitions d' = transitions d"
proof (cases b)
  case False
  then have "d' = seeded d inject0" using assms resolve_False(1) by metis
  then show ?thesis by simp
next
  case True
  then have res: "resolve_response_progression inject0 g a n now d = Inr (True, d')"
    using assms by simp
  obtain ij where "d' = apply_resolution ij (resolve_context d inject0 g) a n now (seeded d inject0)"
    by (rule resolve_True [OF res])
  then show ?thesis by simp
qed

lemma arm_exercise_enqueued [intro]: "enqueued d (arm_exercise e now d)"
  by (auto simp: arm_exercise_def split: option.splits)

lemma insert_response_Inr:
  "insert_response r d = Inr d1 \<longleftrightarrow>
     (\<forall>x\<in>set (responses d). response_key x \<noteq> response_key r) \<and>
     get_inject d (rs_inject_id r) \<noteq> None \<and> get_exercise d (rs_exercise_id r) \<noteq> None \<and>
     get_user d (rs_user_id r) \<noteq> None \<and>
     (bump TResponse d)\<lparr>responses := responses d @ [r]\<rparr> = d1"
  unfolding insert_response_def by (simp split: if_splits)

lemma advance_response_Inr:
  "advance_response r now d = Inr (ids, d') \<longleftrightarrow>
     compute_next_inject_ids d (rs_exercise_id r) (rs_inject_id r) (rs_selected_option r) = Inr ids \<and>
     (\<exists>ij b. get_inject d (rs_inject_id r) = Some ij \<and>
        resolve_response_progression ij (rs_group_id r) (rs_user_id r) (only_one ids) now d =
          Inr (b, d'))"
  by (auto simp: advance_response_def split: sum.splits option.splits)

lemma new_response_fields [simp]:
  "rs_inject_id (new_response i e u c sel g now d) = i"
  "rs_exercise_id (new_response i e u c sel g now d) = e"
  "rs_user_id (new_response i e u c sel g now d) = u"
  "rs_group_id (new_response i e u c sel g now d) = g"
  "rs_selected_option (new_response i e u c sel g now d) = sel"
  "rs_content (new_response i e u c sel g now d) = c"
  "rs_id (new_response i e u c sel g now d) = nextval TResponse d"
  "response_key (new_response i e u c sel g now d) = (e, i, u)"
  by (simp_all add: new_response_def response_key_def)

lemma submit_response_Inl:
  "submit_response i e u c sel g now s = (Inl x, s') \<Longrightarrow> unpublished s s'"
  by (auto simp: submit_response_def Let_def split: sum.splits)

lemma submit_response_Inr:
  assumes "submit_response i e u c sel g now s = (Inr (r, nexts), s')"
  obtains ids b ij d1 d2 where
    "r = new_response i e u c sel g now (db s)"
    "insert_response r (db s) = Inr d1"
    "compute_next_inject_ids d1 e i sel = Inr ids" "get_inject d1 i = Some ij"
    "resolve_response_progression ij g u (only_one ids) now d1 = Inr (b, d2)"
    "s' = dispatch (commit ((execute (\<lambda>_. arm_exercise e now d2) s)
       \<lparr>pending := pending s @ [ResponseSubmitted e (rs_id r)]\<rparr>))"
    "nexts = pending_next_injects (arm_exercise e now d2) e ids g"
proof -
  have sess: "execute (arm_exercise e now) ((execute (\<lambda>_. d2) (execute (\<lambda>_. d1) s))\<lparr>pending := ps\<rparr>) =
      (execute (\<lambda>_. arm_exercise e now d2) s)\<lparr>pending := ps\<rparr>" for d1 d2 ps
    by (cases s) (simp add: execute_def)
  show thesis
  proof (cases "insert_response (new_response i e u c sel g now (db s)) (db s)")
    case (Inl x)
    then show thesis using assms by (simp add: submit_response_def)
  next
    case ins: (Inr d1)
    let ?r = "new_response i e u c sel g now (db s)"
    show thesis
    proof (cases "advance_response ?r now d1")
      case (Inl x)
      then show thesis using assms ins by (simp add: submit_response_def)
    next
      case (Inr p)
      obtain ids d2 where p: "p = (ids, d2)" by (cases p)
      then obtain ij b where adv: "compute_next_inject_ids d1 e i sel = Inr ids"
          "get_inject d1 i = Some ij"
          "resolve_response_progression ij g u (only_one ids) now d1 = Inr (b, d2)"
        using Inr by (auto simp: advance_response_Inr)
      have "submit_response i e u c sel g now s =
          (Inr (?r, pending_next_injects (arm_exercise e now d2) e ids g),
           dispatch (commit ((execute (\<lambda>_. arm_exercise e now d2) s)
            \<lparr>pending := pending s @ [ResponseSubmitted e (rs_id ?r)]\<rparr>)))"
        using ins Inr p by (simp add: submit_response_def Let_def sess)
      with assms have r: "r = ?r"
        and n: "nexts = pending_next_injects (arm_exercise e now d2) e ids g"
        and s': "s' = dispatch (commit ((execute (\<lambda>_. arm_exercise e now d2) s)
            \<lparr>pending := pending s @ [ResponseSubmitted e (rs_id ?r)]\<rparr>))"
        by (auto simp del: new_response_fields)
      show thesis
        by (rule that [OF r ins [folded r] adv s' [folded r] n])
    qed
  qed
qed

interpretation submission: unit_of_work "submit_response i e u c sel g now"
proof
  fix s x s' assume "submit_response i e u c sel g now s = (Inl x, s')" "ready s = []"
  then show "committed s' = committed s \<and> notified s' = notified s \<and>
      dispatched s' = dispatched s \<and> ready s' = []"
    using submit_response_Inl by (simp add: unpublished_def)
next
  fix s x s' assume run: "submit_response i e u c sel g now s = (Inr x, s')" and "fresh s"
  obtain r nexts where "x = (r, nexts)" by (cases x)
  with run have "submit_response i e u c sel g now s = (Inr (r, nexts), s')" by simp
  then show "fresh s'" by (rule submit_response_Inr) (simp add: fresh_def)
qed

lemma apply_resolution_injects:
  "injects (apply_resolution ij c a n now d) = injects d \<or>
   injects (apply_resolution ij c a n now d) = update_where (\<lambda>r. ij_id r = ij_id ij)
     (\<lambda>r. r\<lparr>ij_state := Resolved, ij_resolved_at := Some now, ij_resolved_by := Some a,
            ij_resolution_reason := Some ''participant_response''\<rparr>) (injects d)"
proof -
  let ?d2 = "mark_resolution (ij_id ij) c a now d"
  have "injects (close_inject (ij_id ij) a now ?d2) = update_where (\<lambda>r. ij_id r = ij_id ij)
     (\<lambda>r. r\<lparr>ij_state := Resolved, ij_resolved_at := Some now, ij_resolved_by := Some a,
            ij_resolution_reason := Some ''participant_response''\<rparr>) (injects d)"
    by (simp add: close_inject_def)
  then show ?thesis by (simp add: apply_resolution_def Let_def)
qed

lemma apply_resolution_keeps:
  assumes "x \<in> set (injects d)" and "ij_id x \<noteq> ij_id ij"
  shows "x \<in> set (injects (apply_resolution ij c a n now d))"
  using apply_resolution_injects [of ij c a n now d] assms
  by (elim disjE) (force simp: set_update_where)+

lemma fold_resolution_cong:
  "resolutions a = resolutions b \<Longrightarrow> sequences a TResolution = sequences b TResolution \<Longrightarrow>
     resolutions (fold (insert_resolution ij) gs a) = resolutions (fold (insert_resolution ij) gs b)"
proof (induction gs arbitrary: a b)
  case (Cons g gs)
  have "resolutions (insert_resolution ij g a) = resolutions (insert_resolution ij g b)"
    "sequences (insert_resolution ij g a) TResolution = sequences (insert_resolution ij g b) TResolution"
    using Cons.prems by (simp_all add: insert_resolution_def nextval_def)
  from Cons.IH [OF this] show ?case by (simp only: fold.simps comp_apply)
qed simp

lemma truthy_Some [simp]: "s \<noteq> [] \<Longrightarrow> truthy (Some s)"
  by simp

lemma model_validate_ids:
  assumes "model_validate doc = Inr def1" and "n \<in> set (sd_injects def1)"
  shows "in_id n \<noteq> []"
proof -
  have "list_all2 (\<lambda>x y. validate_node x = Inr y) (sd_injects def1) (sd_injects def1)"
    using model_validate_parts(3) [OF assms(1)] by (simp add: map_checked_Inr_iff)
  then have v: "validate_node n = Inr n" using assms(2)
    by (simp add: list_all2_same)
  show ?thesis
  proof
    assume "in_id n = []"
    then have "normalized_id (in_id n) ''inject id'' = Inl (''inject id'' @ '' must not be blank'') \<or>
        (\<exists>e. normalized_id (in_id n) ''inject id'' = Inl e)"
      by (simp add: normalized_id_def strip_def)
    with v show False by (auto simp: validate_node_def)
  qed
qed

section \<open>Properties\<close>

text \<open>Validation and branching agree.  An answer passes validation exactly when it names one
  of the node's options (or none, on a node without options) and carries prose where prose is
  required; and an answer that passes selects exactly the successor its option declares, or the
  node's own, an existing node of the scenario in either case.\<close>

lemma validated_answer_selects_its_branch:
  assumes "model_validate doc = Inr def1" and "get_inject_node def1 nid = Some n"
  shows "(response_validation_error (Some n) c sel = None \<longleftrightarrow>
      (if in_options n = [] then sel = None \<and> strip c \<noteq> []
       else (\<exists>o1\<in>set (in_options n). sel = Some (io_id o1) \<and> io_id o1 \<noteq> []) \<and>
            (in_free_text_response n \<longrightarrow> strip c \<noteq> []))) \<and>
    (response_validation_error (Some n) c sel = None \<longrightarrow>
      (in_options n = [] \<longrightarrow> response_next_inject_ids def1 nid sel =
         (case in_next_inject_id n of None \<Rightarrow> [] | Some x \<Rightarrow> [x])) \<and>
      (\<forall>o1\<in>set (in_options n). sel = Some (io_id o1) \<longrightarrow>
         response_next_inject_ids def1 nid sel =
         (case io_next_inject_id o1 of None \<Rightarrow> [] | Some x \<Rightarrow> [x])) \<and>
      set (response_next_inject_ids def1 nid sel) \<subseteq> in_id ` set (sd_injects def1))"
proof -
  have valid: "valid_definition def1" using assms(1) by (rule model_validate_valid)
  have n: "n \<in> set (sd_injects def1)" using get_inject_node_Some [OF assms(2)] by simp
  have dist: "distinct (map io_id (in_options n))" using valid n by (simp add: valid_definition_def)
  have succ: "set (node_successors n) \<subseteq> in_id ` set (sd_injects def1)"
    using valid n by (auto simp: valid_definition_def)
  have named: "x \<noteq> []" if "x \<in> set (node_successors n)" for x
  proof -
    from that succ have "x \<in> in_id ` set (sd_injects def1)" by (rule subsetD [rotated])
    then show ?thesis using model_validate_ids [OF assms(1)] by auto
  qed
  have branch: "response_next_inject_ids def1 nid (Some (io_id o1)) =
      (case io_next_inject_id o1 of None \<Rightarrow> [] | Some x \<Rightarrow> [x])"
    if "o1 \<in> set (in_options n)" "io_id o1 \<noteq> []" for o1
  proof -
    have "resolve_branch def1 nid (io_id o1) = io_next_inject_id o1"
      using that dist assms(2) by (simp add: resolve_branch_def find_option_unique)
    moreover have "x \<noteq> []" if "io_next_inject_id o1 = Some x" for x
      using named that \<open>o1 \<in> set (in_options n)\<close> by (auto simp: mem_node_successors)
    ultimately show ?thesis
      using that assms(2)
      by (auto simp: response_next_inject_ids_def Let_def split: option.splits)
  qed
  have sub: "set (response_next_inject_ids def1 nid sel) \<subseteq> in_id ` set (sd_injects def1)"
    using response_next_successor succ assms(2) by fastforce
  have flat: "in_options n = [] \<Longrightarrow> response_next_inject_ids def1 nid None =
      (case in_next_inject_id n of None \<Rightarrow> [] | Some x \<Rightarrow> [x])"
    using assms(2) by (simp add: response_next_inject_ids_def get_next_inject_ids_def)
  show ?thesis
    using branch flat sub by (auto simp: validation_passes)
qed

lemma validated_answer_selects_its_branch_witness:
  "response_validation_error (Some (hd (sd_injects demo_definition))) ''ok'' (Some ''x'') = None \<and>
   set (response_next_inject_ids demo_definition ''a'' (Some ''x''))
     \<subseteq> in_id ` set (sd_injects demo_definition)"
proof -
  have v: "model_validate demo_definition = Inr demo_definition"
    "get_inject_node demo_definition ''a'' = Some (hd (sd_injects demo_definition))" by code_simp+
  have ok: "response_validation_error (Some (hd (sd_injects demo_definition))) ''ok'' (Some ''x'') = None"
    by code_simp
  show ?thesis using validated_answer_selects_its_branch [OF v, of "''ok''" "Some ''x''"] ok by simp
qed

text \<open>C9: one response per participant and inject.  A second submission is refused with 409; a
  refused or failed submission leaves the committed tables, the notifications and the frames as
  they were; an accepted one commits exactly one new row, keeps the unique constraint and
  dispatches its event, on the committed tables.\<close>

theorem one_response_per_participant:
  assumes "submit_response i e u c sel g now s = (result, s')" and "fresh s"
    and "unique_on (\<lambda>_. True) response_key (responses (db s))"
  shows "unique_on (\<lambda>_. True) response_key (responses (committed s')) \<and>
    ((\<exists>x\<in>set (responses (db s)). response_key x = (e, i, u)) \<longrightarrow>
       result = Inl (HTTPException 409 ''Response already submitted for this inject'')) \<and>
    (case result of
       Inl x \<Rightarrow> committed s' = committed s \<and> notified s' = notified s \<and> dispatched s' = dispatched s
     | Inr (r, nexts) \<Rightarrow>
         responses (committed s') = responses (committed s) @ [r] \<and> response_key r = (e, i, u) \<and>
         rs_content r = c \<and> rs_selected_option r = sel \<and> rs_group_id r = g \<and>
         db s' = committed s' \<and>
         dispatched s' = dispatched s @ [(committed s', ResponseSubmitted e (rs_id r))])"
proof -
  have f: "db s = committed s" "pending s = []" "ready s = []" using assms(2) by (simp_all add: fresh_def)
  have dup: "(\<exists>x\<in>set (responses (db s)). response_key x = (e, i, u)) \<longrightarrow>
      result = Inl (HTTPException 409 ''Response already submitted for this inject'')"
  proof
    assume "\<exists>x\<in>set (responses (db s)). response_key x = (e, i, u)"
    then have "insert_response (new_response i e u c sel g now (db s)) (db s) = Inl IntegrityError"
      by (simp add: insert_response_def)
    then show "result = Inl (HTTPException 409 ''Response already submitted for this inject'')"
      using assms(1) by (simp add: submit_response_def)
  qed
  show ?thesis
  proof (cases result)
    case (Inl x)
    then have "unpublished s s'" using assms(1) submit_response_Inl by blast
    then show ?thesis using Inl dup assms(3) f by (simp add: unpublished_def)
  next
    case (Inr p)
    obtain r nexts where p: "p = (r, nexts)" by (cases p)
    from assms(1) have run: "submit_response i e u c sel g now s = (Inr (r, nexts), s')"
      using Inr p by simp
    show ?thesis
    proof (rule submit_response_Inr [OF run])
      fix ids b ij d1 d2
      assume r: "r = new_response i e u c sel g now (db s)"
        and ins: "insert_response r (db s) = Inr d1"
        and res: "resolve_response_progression ij g u (only_one ids) now d1 = Inr (b, d2)"
        and s': "s' = dispatch (commit ((execute (\<lambda>_. arm_exercise e now d2) s)
          \<lparr>pending := pending s @ [ResponseSubmitted e (rs_id r)]\<rparr>))"
      have "responses (arm_exercise e now d2) = responses d2"
        using enqueued_frame [OF arm_exercise_enqueued] by blast
      also have "\<dots> = responses d1" using resolve_frame [OF res] by blast
      also have "\<dots> = responses (db s) @ [r]" using ins by (auto simp: insert_response_Inr)
      finally have rows: "responses (committed s') = responses (db s) @ [r]" by (simp add: s')
      have key: "response_key r = (e, i, u)" by (simp add: r)
      have free: "\<forall>x\<in>set (responses (db s)). response_key x \<noteq> response_key r"
        using ins by (simp add: insert_response_Inr)
      have "unique_on (\<lambda>_. True) response_key (responses (committed s'))"
        using assms(3) free unfolding rows by (auto simp: unique_on_def)
      then show ?thesis
        using rows key free dup Inr p f r by (auto simp: s' new_response_def)
    qed
  qed
qed

theorem one_response_per_participant_witness:
  "\<exists>r nexts s'. submit_response 1 1 12 ''go'' (Some ''x'') (Some ''red'') 7
       (demo_session demo_play_db) = (Inr (r, nexts), s') \<and>
     responses (committed s') = [r] \<and> response_key r = (1, 1, 12)"
proof -
  let ?run = "submit_response 1 1 12 ''go'' (Some ''x'') (Some ''red'') 7 (demo_session demo_play_db)"
  have "is_ok (fst ?run)" by code_simp
  then obtain r nexts where "fst ?run = Inr (r, nexts)" by (cases "fst ?run") auto
  then have run: "?run = (Inr (r, nexts), snd ?run)" by (metis prod.collapse)
  have u: "unique_on (\<lambda>_. True) response_key (responses (db (demo_session demo_play_db)))"
    and none: "responses demo_play_db = []" by code_simp+
  show ?thesis
    using one_response_per_participant [OF run _ u] run none by auto
qed

text \<open>The bulk read of the facilitator's dashboard is the per-response lookup, row by row:
  for every response of the list the suggestions are those the single-response path computes
  from its inject's node, its option and its group.\<close>

lemma bulk_suggestions_are_the_single_ones:
  assumes "response_next_inject_suggestions_bulk d e rs = Inr m"
    and "distinct (map rs_id rs)" and "distinct (map ij_id (injects d))"
    and "r \<in> set rs" and "get_inject d (rs_inject_id r) = Some ij" and "ij_exercise_id ij = e"
  shows "\<exists>ids. compute_next_inject_ids d e (rs_inject_id r) (rs_selected_option r) = Inr ids \<and>
    m (rs_id r) = Some (pending_next_injects d e ids (rs_group_id r))"
proof -
  let ?rows = "filter (\<lambda>ij. ij_exercise_id ij = e) (injects d)"
  obtain df where df: "definition_for_exercise d e = Inr df"
      and m: "m = dict_of (map (suggestions_for df ?rows) rs)"
    using assms(1,4)
    by (auto simp: response_next_inject_suggestions_bulk_def split: sum.splits if_splits)
  have mr: "m (rs_id r) = Some (snd (suggestions_for df ?rows r))"
    unfolding m by (rule dict_of_map_Some [OF assms(2,4)]) (simp add: suggestions_for_def)
  have "distinct (map ij_id ?rows)" using assms(3) by (rule distinct_map_filter)
  then have row: "dict_of (map (\<lambda>ij. (ij_id ij, ij)) ?rows) (rs_inject_id r) = Some ij"
    using get_row_filter [OF assms(3)] assms(5,6) by (simp add: dict_of_rows get_defs option.map_ident)
  have pend: "filter (\<lambda>ij. ij_state ij = Pending) ?rows =
      filter (\<lambda>ij. ij_exercise_id ij = e \<and> ij_state ij = Pending) (injects d)"
    by (simp add: conj_commute)
  show ?thesis
    using df assms(5) row mr unfolding pend
    by (cases df)
      (auto simp: compute_next_inject_ids_def suggestions_for_def pending_next_injects_def
        select_next_injects_def pend)
qed

lemma bulk_suggestions_are_the_single_ones_witness:
  "\<exists>m. response_next_inject_suggestions_bulk demo_play_db 1
        [new_response 1 1 12 ''go'' (Some ''x'') (Some ''red'') 7 demo_play_db] = Inr m \<and>
     m 1 = Some (pending_next_injects demo_play_db 1 [''b''] (Some ''red''))"
proof -
  let ?r = "new_response 1 1 12 ''go'' (Some ''x'') (Some ''red'') 7 demo_play_db"
  have "is_ok (response_next_inject_suggestions_bulk demo_play_db 1 [?r])" by code_simp
  then obtain m where m: "response_next_inject_suggestions_bulk demo_play_db 1 [?r] = Inr m"
    by (auto simp: is_ok_iff)
  have f: "distinct (map rs_id [?r])" "distinct (map ij_id (injects demo_play_db))"
    "get_inject demo_play_db (rs_inject_id ?r) = Some (demo_inject 1 ''a'' None Released)"
    "ij_exercise_id (demo_inject 1 ''a'' None Released) = 1"
    "compute_next_inject_ids demo_play_db 1 (rs_inject_id ?r) (rs_selected_option ?r) = Inr [''b'']"
    "rs_id ?r = 1" "rs_group_id ?r = Some ''red''" by code_simp+
  show ?thesis
    using bulk_suggestions_are_the_single_ones [OF m f(1,2) _ f(3,4)] m f(5-7) by simp
qed



end
