(* ===== verification/Requests.thy ===== *)
theory Requests
  imports Exercise_Service Response_Service
begin

text \<open>
  How a route handler is put together: the guards a FastAPI dependency or the handler's first
  lines raise from, then an operation on the session, then a payload read from the tables.
  A guard that raises leaves the session as it was, so a guarded unit of work is one again.
\<close>

definition guarded ::
  "exn + 'a \<Rightarrow> ('a \<Rightarrow> session \<Rightarrow> (exn + 'b) \<times> session) \<Rightarrow> session \<Rightarrow> (exn + 'b) \<times> session" where
  "guarded g run s = (case g of Inl e \<Rightarrow> (Inl e, s) | Inr x \<Rightarrow> run x s)"

text \<open>The answer computed after the operation: it may raise, but what the operation committed
  stays.\<close>

definition answered ::
  "(exn + 'a) \<times> session \<Rightarrow> ('a \<Rightarrow> database \<Rightarrow> exn + 'b) \<Rightarrow> (exn + 'b) \<times> session" where
  "answered out payload =
     (case out of (Inl e, s) \<Rightarrow> (Inl e, s) | (Inr x, s) \<Rightarrow> (payload x (db s), s))"

lemma guarded_Inl [simp]: "guarded (Inl e) run s = (Inl e, s)"
  by (simp add: guarded_def)

lemma guarded_Inr [simp]: "guarded (Inr x) run s = run x s"
  by (simp add: guarded_def)

lemma answered_Inl [simp]: "answered (Inl e, s) payload = (Inl e, s)"
  by (simp add: answered_def)

lemma answered_Inr [simp]: "answered (Inr x, s) payload = (payload x (db s), s)"
  by (simp add: answered_def)

lemma snd_answered [simp]: "snd (answered out payload) = snd out"
  by (cases out; cases "fst out") (auto simp: answered_def)

lemma guarded_Inr_iff:
  "guarded g run s = (Inr y, s') \<longleftrightarrow> (\<exists>x. g = Inr x \<and> run x s = (Inr y, s'))"
  by (cases g) simp_all

lemma answered_Inr_iff:
  "answered out payload = (Inr y, s') \<longleftrightarrow> (\<exists>x. out = (Inr x, s') \<and> payload x (db s') = Inr y)"
  by (cases out; cases "fst out") (auto simp: answered_def)

lemma unit_of_work_guarded:
  assumes "\<And>x. unit_of_work (run x)"
  shows "unit_of_work (\<lambda>s. guarded (g (db s)) run s)"
proof
  fix s e s' assume *: "guarded (g (db s)) run s = (Inl e, s')" "ready s = []"
  show "committed s' = committed s \<and> notified s' = notified s \<and>
      dispatched s' = dispatched s \<and> ready s' = []"
  proof (cases "g (db s)")
    case (Inl e')
    with * show ?thesis by simp
  next
    case (Inr x)
    with * show ?thesis using unit_of_work.run_error [OF assms] by fastforce
  qed
next
  fix s x s' assume *: "guarded (g (db s)) run s = (Inr x, s')" "fresh s"
  then show "fresh s'"
    using unit_of_work.run_success [OF assms] by (auto simp: guarded_Inr_iff)
qed

text \<open>An operation that only reads.\<close>

definition reading :: "(database \<Rightarrow> exn + 'a) \<Rightarrow> session \<Rightarrow> (exn + 'a) \<times> session" where
  "reading f s = (f (db s), s)"

lemma unit_of_work_reading: "unit_of_work (reading f)"
  by unfold_locales (auto simp: reading_def)

end
