(* ===== verification/Communication_Service.thy ===== *)
theory Communication_Service
  imports Requests
begin

text \<open>
  Simulated messages (\<^verbatim>\<open>app/services/communication_service.py\<close>) and their routes
  (\<^verbatim>\<open>app/routers/communications.py\<close>): sending, triggered delivery, the inbox with its
  visibility rules and the read receipts.

  Rows sent in the same instant keep their insertion order in the inbox (SQL leaves it open).
  The foreign keys of a new message are the rows its caller has just read.
\<close>

section \<open>Sending\<close>

definition insert_communication :: "communication \<Rightarrow> database \<Rightarrow> database" where
  "insert_communication c d = (bump TCommunication d)\<lparr>communications := communications d @ [c]\<rparr>"

definition create_communication ::
  "int \<Rightarrow> comm_direction \<Rightarrow> string \<Rightarrow> string \<Rightarrow> int option \<Rightarrow> string option \<Rightarrow> string option \<Rightarrow>
     int option \<Rightarrow> string list option \<Rightarrow> bool \<Rightarrow> instant \<Rightarrow> session \<Rightarrow>
     (exn + communication) \<times> session" where
  "create_communication exercise_id direction subject body sender_id sender_team external_entity
       triggered_by visible_to_teams during_run now s =
     (let c = \<lparr>cm_id = nextval TCommunication (db s), cm_exercise_id = exercise_id,
               cm_sender_id = sender_id, cm_sender_team = sender_team, cm_direction = direction,
               cm_external_entity = external_entity, cm_subject = subject, cm_body = body,
               cm_triggered_by_inject_id = triggered_by, cm_trigger_key = None,
               cm_visible_to_teams = (case visible_to_teams of Some [] \<Rightarrow> None | _ \<Rightarrow> visible_to_teams),
               cm_created_during_run = Some during_run, cm_sent_at = now\<rparr>;
          s1 = execute (insert_communication c) s;
          s2 = snd (record_event (CommunicationCreated exercise_id (cm_id c)) s1)
      in (Inr c, dispatch (commit s2)))"

section \<open>Triggered delivery\<close>

definition comm_constrained :: "communication \<Rightarrow> bool" where
  "comm_constrained c \<longleftrightarrow> cm_trigger_key c \<noteq> None"

definition comm_key :: "communication \<Rightarrow> int \<times> string option" where
  "comm_key c = (cm_exercise_id c, cm_trigger_key c)"

definition triggered_row ::
  "int \<Rightarrow> int \<Rightarrow> comm_direction \<Rightarrow> string \<Rightarrow> string \<Rightarrow> string \<Rightarrow> string \<Rightarrow> instant \<Rightarrow> database \<Rightarrow>
     communication" where
  "triggered_row exercise_id inject_id dir entity subject body key now d =
     \<lparr>cm_id = nextval TCommunication d, cm_exercise_id = exercise_id, cm_sender_id = None,
      cm_sender_team = None, cm_direction = dir, cm_external_entity = Some entity,
      cm_subject = subject, cm_body = body, cm_triggered_by_inject_id = Some inject_id,
      cm_trigger_key = Some key, cm_visible_to_teams = None, cm_created_during_run = Some True,
      cm_sent_at = now\<rparr>"

text \<open>\<^verbatim>\<open>INSERT ... ON CONFLICT DO NOTHING RETURNING id\<close>: the id only when a row
  was inserted.\<close>

definition insert_triggered :: "communication \<Rightarrow> database \<Rightarrow> int option \<times> database" where
  "insert_triggered c d =
     (let taken = (\<exists>x\<in>set (communications d). comm_constrained x \<and> comm_key x = comm_key c)
      in (if taken then None else Some (cm_id c),
          (bump TCommunication d)\<lparr>communications :=
             insert_ignore comm_constrained comm_key c (communications d)\<rparr>))"

definition deliver_triggered_communication ::
  "int \<Rightarrow> int \<Rightarrow> string \<Rightarrow> string \<Rightarrow> string \<Rightarrow> string \<Rightarrow> string \<Rightarrow> instant \<Rightarrow> session \<Rightarrow>
     (exn + communication option) \<times> session" where
  "deliver_triggered_communication exercise_id inject_id direction entity subject body key now s =
     (case parse_direction direction of
        Inl e \<Rightarrow> (Inl e, s)
      | Inr dir \<Rightarrow>
          let c = triggered_row exercise_id inject_id dir entity subject body key now (db s);
              comm_id = fst (insert_triggered c (db s));
              s1 = execute (\<lambda>d. snd (insert_triggered c d)) s;
              s2 = (case comm_id of None \<Rightarrow> s1
                    | Some i \<Rightarrow> snd (record_event (CommunicationCreated exercise_id i) s1));
              s3 = dispatch (commit s2)
          in (case comm_id of
                None \<Rightarrow> (Inr None, s3)
              | Some i \<Rightarrow>
                  (case get_communication (db s3) i of
                     None \<Rightarrow> (Inl (RuntimeError ''Triggered communication was not persisted''), s3)
                   | Some c' \<Rightarrow> (Inr (Some c'), s3))))"

section \<open>Read receipts\<close>

definition receipt_key :: "communication_read \<Rightarrow> int \<times> int" where
  "receipt_key r = (cr_communication_id r, cr_user_id r)"

definition get_receipt :: "database \<Rightarrow> int \<Rightarrow> int \<Rightarrow> communication_read option" where
  "get_receipt d c u = get_row receipt_key (c, u) (reads d)"

definition insert_receipt :: "int \<Rightarrow> int \<Rightarrow> instant \<Rightarrow> database \<Rightarrow> database" where
  "insert_receipt c u now d =
     d\<lparr>reads := insert_ignore (\<lambda>_. True) receipt_key
        \<lparr>cr_communication_id = c, cr_user_id = u, cr_read_at = now\<rparr> (reads d)\<rparr>"

definition mark_read :: "int \<Rightarrow> int \<Rightarrow> instant \<Rightarrow> session \<Rightarrow> (exn + communication_read) \<times> session" where
  "mark_read c u now s =
     (let s1 = commit (execute (insert_receipt c u now) s)
      in (case get_receipt (db s1) c u of
            None \<Rightarrow> (Inl (RuntimeError ''Communication read receipt was not persisted''), s1)
          | Some r \<Rightarrow> (Inr r, s1)))"

definition communication_read_at :: "database \<Rightarrow> int \<Rightarrow> int \<Rightarrow> instant option" where
  "communication_read_at d c u = map_option cr_read_at (get_receipt d c u)"

definition communication_read_times :: "database \<Rightarrow> int list \<Rightarrow> int \<Rightarrow> int \<Rightarrow> instant option" where
  "communication_read_times d ids u =
     (if ids = [] then (\<lambda>_. None)
      else dict_of (map (\<lambda>r. (cr_communication_id r, cr_read_at r))
             (filter (\<lambda>r. cr_user_id r = u \<and> cr_communication_id r \<in> set ids) (reads d))))"

section \<open>The sender's team\<close>

definition member_place :: "exercise_member \<Rightarrow> int \<times> int" where
  "member_place m = (em_exercise_id m, em_user_id m)"

definition sender_team_for_comm :: "database option \<Rightarrow> communication \<Rightarrow> string option" where
  "sender_team_for_comm session c =
     (if truthy (cm_sender_team c) then cm_sender_team c
      else (case (session, cm_sender_id c) of
              (Some d, Some sid) \<Rightarrow>
                (case exercise_member_for_user d (cm_exercise_id c) sid of
                   Some m \<Rightarrow> em_group_id m
                 | None \<Rightarrow> (case get_user d sid of None \<Rightarrow> None | Some u \<Rightarrow> u_team u))
            | _ \<Rightarrow> None))"

definition resolved_senders :: "communication list \<Rightarrow> (int \<times> string option) list" where
  "resolved_senders comms =
     map (\<lambda>c. (cm_id c, if truthy (cm_sender_team c) then cm_sender_team c else None))
       (filter (\<lambda>c. truthy (cm_sender_team c) \<or> cm_sender_id c = None) comms)"

definition unresolved_senders :: "communication list \<Rightarrow> communication list" where
  "unresolved_senders comms =
     filter (\<lambda>c. \<not> truthy (cm_sender_team c) \<and> cm_sender_id c \<noteq> None) comms"

definition sender_groups :: "database \<Rightarrow> communication list \<Rightarrow> int \<times> int \<Rightarrow> string option option" where
  "sender_groups d cs =
     dict_of (map (\<lambda>m. (member_place m, em_group_id m))
       (filter (\<lambda>m. em_exercise_id m \<in> cm_exercise_id ` set cs \<and>
                    Some (em_user_id m) \<in> cm_sender_id ` set cs) (members d)))"

definition sender_teams_for_comms ::
  "database \<Rightarrow> communication list \<Rightarrow> int \<Rightarrow> string option option" where
  "sender_teams_for_comms d comms =
     (let cs = unresolved_senders comms;
          group_ids = sender_groups d cs;
          fallback = filter (\<lambda>c. group_ids (cm_exercise_id c, the (cm_sender_id c)) = None) cs;
          user_teams = dict_of (map (\<lambda>u. (u_id u, u_team u))
            (filter (\<lambda>u. Some (u_id u) \<in> cm_sender_id ` set fallback) (users d)));
          later = map (\<lambda>c. (cm_id c,
                    case group_ids (cm_exercise_id c, the (cm_sender_id c)) of
                      Some g \<Rightarrow> g
                    | None \<Rightarrow> (case user_teams (the (cm_sender_id c)) of None \<Rightarrow> None | Some t \<Rightarrow> t))) cs
      in dict_of (resolved_senders comms @ later))"

section \<open>The inbox\<close>

definition in_team :: "string list option \<Rightarrow> string option \<Rightarrow> bool" where
  "in_team teams team =
     (case teams of None \<Rightarrow> False | Some ts \<Rightarrow> (case team of None \<Rightarrow> False | Some t \<Rightarrow> t \<in> set ts))"

definition listed ::
  "(int \<Rightarrow> string option option) \<Rightarrow> int option \<Rightarrow> string option \<Rightarrow> communication \<Rightarrow> bool" where
  "listed sender_teams user_id user_team c =
     (let teams = cm_visible_to_teams c
      in if cm_direction c = Outbound
         then (let sender_team = (case sender_teams (cm_id c) of None \<Rightarrow> None | Some t \<Rightarrow> t)
               in cm_sender_id c = user_id \<and> (sender_team = None \<or> sender_team = user_team)) \<or>
              in_team teams user_team
         else teams = None \<or> in_team teams user_team)"

definition comms_of :: "database \<Rightarrow> int \<Rightarrow> communication list" where
  "comms_of d exercise_id =
     sort_key (\<lambda>c. - cm_sent_at c) (filter (\<lambda>c. cm_exercise_id c = exercise_id) (communications d))"

definition list_communications ::
  "database \<Rightarrow> int \<Rightarrow> int option \<Rightarrow> string option \<Rightarrow> bool \<Rightarrow> communication list" where
  "list_communications d exercise_id user_id user_team participant_view =
     (let comms = comms_of d exercise_id
      in if \<not> participant_view \<and> user_team = None then comms
         else filter (listed (sender_teams_for_comms d comms) user_id user_team) comms)"

definition unread_count :: "database \<Rightarrow> int \<Rightarrow> int \<Rightarrow> string option \<Rightarrow> bool \<Rightarrow> nat" where
  "unread_count d exercise_id user_id user_team participant_view =
     (let ids = map cm_id (list_communications d exercise_id (Some user_id) user_team participant_view);
          read_times = communication_read_times d ids user_id
      in length (filter (\<lambda>i. read_times i = None) ids))"

section \<open>The payload\<close>

record communication_public =
  cq_id :: int
  cq_exercise_id :: int
  cq_sender_id :: "int option"
  cq_sender_team :: "string option"
  cq_direction :: comm_direction
  cq_external_entity :: "string option"
  cq_subject :: string
  cq_body :: string
  cq_triggered_by_inject_id :: "int option"
  cq_visible_to_teams :: "string list option"
  cq_sent_at :: string
  cq_is_read :: bool
  cq_read_at :: "string option"

definition all_team_ids_for_exercise :: "database \<Rightarrow> int \<Rightarrow> exn + string list" where
  "all_team_ids_for_exercise d exercise_id =
     and_then (definition_for_exercise d exercise_id) (\<lambda>definition.
       Inr (case definition of None \<Rightarrow> [] | Some def1 \<Rightarrow> map pt_id (sd_participant_teams def1)))"

definition visible_to_teams_for_payload ::
  "database option \<Rightarrow> communication \<Rightarrow> exn + string list option" where
  "visible_to_teams_for_payload session c =
     (case cm_visible_to_teams c of
        Some (t # ts) \<Rightarrow> Inr (Some (t # ts))
      | _ \<Rightarrow> (case session of
               Some d \<Rightarrow>
                 if cm_direction c = Inbound
                 then and_then (all_team_ids_for_exercise d (cm_exercise_id c)) (\<lambda>ids.
                        Inr (none_if_empty ids))
                 else Inr None
             | None \<Rightarrow> Inr None))"

definition comm_payload ::
  "database option \<Rightarrow> communication \<Rightarrow> instant option \<Rightarrow> (int \<Rightarrow> string option option) option \<Rightarrow>
     exn + communication_public" where
  "comm_payload session c read_at sender_teams =
     (let sender_team = (case sender_teams of
                           None \<Rightarrow> sender_team_for_comm session c
                         | Some m \<Rightarrow> (case m (cm_id c) of None \<Rightarrow> sender_team_for_comm session c | Some t \<Rightarrow> t))
      in and_then (visible_to_teams_for_payload session c) (\<lambda>teams.
           Inr \<lparr>cq_id = cm_id c, cq_exercise_id = cm_exercise_id c, cq_sender_id = cm_sender_id c,
                cq_sender_team = sender_team, cq_direction = cm_direction c,
                cq_external_entity = cm_external_entity c, cq_subject = cm_subject c,
                cq_body = cm_body c, cq_triggered_by_inject_id = cm_triggered_by_inject_id c,
                cq_visible_to_teams = teams, cq_sent_at = isoformat (cm_sent_at c),
                cq_is_read = (read_at \<noteq> None), cq_read_at = map_option isoformat read_at\<rparr>))"

section \<open>Routes\<close>

definition get_comm_or_404 :: "database \<Rightarrow> int \<Rightarrow> int \<Rightarrow> exn + communication" where
  "get_comm_or_404 d exercise_id comm_id =
     (case get_communication d comm_id of
        None \<Rightarrow> Inl (HTTPException 404 ''Communication not found'')
      | Some c \<Rightarrow> if cm_exercise_id c \<noteq> exercise_id
                  then Inl (HTTPException 404 ''Communication not found'') else Inr c)"

text \<open>\<^verbatim>\<open>group_id in comm.visible_to_teams\<close>: no team list holds \<^verbatim>\<open>None\<close>.\<close>

definition comm_visible_to_user :: "database \<Rightarrow> communication \<Rightarrow> current_user \<Rightarrow> bool" where
  "comm_visible_to_user d c u =
     (let group_id = exercise_group_for_user d (cm_exercise_id c) u;
          teamless = (case cm_visible_to_teams c of Some (t # ts) \<Rightarrow> False | _ \<Rightarrow> True)
      in if u_role u \<in> {Facilitator, Observer} then True
         else if cm_direction c = Outbound
         then (if cm_sender_id c = Some (u_id u) \<and>
                  (sender_team_for_comm (Some d) c = None \<or> sender_team_for_comm (Some d) c = group_id) then True
               else if teamless then False
               else in_team (cm_visible_to_teams c) group_id)
         else if teamless then True
         else in_team (cm_visible_to_teams c) group_id)"

definition viewer_team :: "database \<Rightarrow> int \<Rightarrow> current_user \<Rightarrow> string option" where
  "viewer_team d exercise_id u =
     (if u_role u \<noteq> Participant then None else exercise_group_for_user d exercise_id u)"

definition inbox :: "database \<Rightarrow> int \<Rightarrow> current_user \<Rightarrow> communication list" where
  "inbox d exercise_id u =
     list_communications d exercise_id (Some (u_id u)) (viewer_team d exercise_id u)
       (u_role u = Participant)"

definition list_comms :: "int \<Rightarrow> current_user \<Rightarrow> database \<Rightarrow> exn + communication_public list" where
  "list_comms exercise_id u d =
     and_then (require_exercise_access d exercise_id u) (\<lambda>ex.
       let comms = inbox d exercise_id u;
           read_times = communication_read_times d (map cm_id comms) (u_id u);
           sender_teams = sender_teams_for_comms d comms
       in map_checked (\<lambda>c. comm_payload (Some d) c (read_times (cm_id c)) (Some sender_teams)) comms)"

record send_comm_request =
  sr_direction :: comm_direction
  sr_subject :: string
  sr_body :: string
  sr_external_entity :: "string option"
  sr_visible_to_teams :: "string list option"

definition send_comm_guard ::
  "int \<Rightarrow> send_comm_request \<Rightarrow> current_user \<Rightarrow> database \<Rightarrow> exn + string option \<times> string list option" where
  "send_comm_guard exercise_id body u d =
     and_then (require_exercise_access d exercise_id u) (\<lambda>ex.
     and_then (require_operational_mutability ex) (\<lambda>_.
       if u_role u \<noteq> Participant
       then Inl (HTTPException 403 ''Only participants can send outbound communications'')
       else if ex_state ex \<noteq> Active
       then Inl (HTTPException 409 ''Communications can only be sent while the exercise is active'')
       else if sr_direction body \<noteq> Outbound
       then Inl (HTTPException 400 ''Participants can only send outbound communications'')
       else and_then (validate_exercise_team_ids d ex (sr_visible_to_teams body) ''visible_to_teams'')
              (\<lambda>teams. Inr (exercise_group_for_user d exercise_id u, teams))))"

definition send_comm ::
  "int \<Rightarrow> send_comm_request \<Rightarrow> current_user \<Rightarrow> instant \<Rightarrow> session \<Rightarrow>
     (exn + communication_public) \<times> session" where
  "send_comm exercise_id body u now s =
     answered
       (guarded (send_comm_guard exercise_id body u (db s)) (\<lambda>(sender_team, teams).
          create_communication exercise_id (sr_direction body) (sr_subject body) (sr_body body)
            (Some (u_id u)) sender_team
            (case teams of Some (t # ts) \<Rightarrow> None | _ \<Rightarrow> sr_external_entity body)
            None teams True now) s)
       (\<lambda>c d. comm_payload (Some d) c None None)"

record inject_comm_request =
  nr_external_entity :: string
  nr_subject :: string
  nr_body :: string
  nr_visible_to_teams :: "string list option"

definition inject_comm_guard ::
  "int \<Rightarrow> inject_comm_request \<Rightarrow> current_user \<Rightarrow> database \<Rightarrow> exn + exercise \<times> string list option" where
  "inject_comm_guard exercise_id body u d =
     and_then (require_role [Facilitator] u) (\<lambda>_.
     and_then (require_exercise_access d exercise_id u) (\<lambda>ex0.
     and_then (require_operational_mutability ex0) (\<lambda>_.
     and_then (lock_configuration_owner ex0 d) (\<lambda>(sc, ex).
     and_then (require_operational_mutability ex) (\<lambda>_.
     and_then (validate_exercise_team_ids d ex (nr_visible_to_teams body) ''visible_to_teams'') (\<lambda>teams.
       case teams of
         Some (t # ts) \<Rightarrow> Inr (ex, teams)
       | _ \<Rightarrow> and_then (all_team_ids_for_exercise d exercise_id) (\<lambda>ids.
                Inr (ex, none_if_empty ids))))))))"

definition inject_comm ::
  "int \<Rightarrow> inject_comm_request \<Rightarrow> current_user \<Rightarrow> instant \<Rightarrow> session \<Rightarrow>
     (exn + communication_public) \<times> session" where
  "inject_comm exercise_id body u now s =
     answered
       (guarded (inject_comm_guard exercise_id body u (db s)) (\<lambda>(ex, teams).
          create_communication exercise_id Inbound (nr_subject body) (nr_body body) None None
            (Some (nr_external_entity body)) None teams (ex_state ex \<noteq> Draft) now) s)
       (\<lambda>c d. comm_payload (Some d) c None None)"

definition get_unread_count :: "int \<Rightarrow> current_user \<Rightarrow> database \<Rightarrow> exn + nat" where
  "get_unread_count exercise_id u d =
     and_then (require_exercise_access d exercise_id u) (\<lambda>_.
       Inr (unread_count d exercise_id (u_id u) (viewer_team d exercise_id u)
              (u_role u = Participant)))"

definition visible_comm :: "int \<Rightarrow> int \<Rightarrow> current_user \<Rightarrow> database \<Rightarrow> exn + communication" where
  "visible_comm exercise_id comm_id u d =
     and_then (require_exercise_access d exercise_id u) (\<lambda>_.
     and_then (get_comm_or_404 d exercise_id comm_id) (\<lambda>c.
       if \<not> comm_visible_to_user d c u then Inl (HTTPException 404 ''Communication not found'')
       else Inr c))"

definition get_comm :: "int \<Rightarrow> int \<Rightarrow> current_user \<Rightarrow> database \<Rightarrow> exn + communication_public" where
  "get_comm exercise_id comm_id u d =
     and_then (visible_comm exercise_id comm_id u d) (\<lambda>c.
       comm_payload (Some d) c (communication_read_at d comm_id (u_id u)) None)"

definition put_comm_read ::
  "int \<Rightarrow> int \<Rightarrow> current_user \<Rightarrow> instant \<Rightarrow> session \<Rightarrow> (exn + communication_public) \<times> session" where
  "put_comm_read exercise_id comm_id u now s =
     guarded (visible_comm exercise_id comm_id u (db s)) (\<lambda>c s.
       answered (mark_read comm_id (u_id u) now s)
         (\<lambda>r d. comm_payload (Some d) c (Some (cr_read_at r)) None)) s"

section \<open>Contracts\<close>

interpretation comm_table: conflict_insert comm_constrained comm_key
  "insert_ignore comm_constrained comm_key"
  by (rule insert_ignore_contract)

interpretation receipt_table: conflict_insert "\<lambda>_. True" receipt_key
  "insert_ignore (\<lambda>_. True) receipt_key"
  by (rule insert_ignore_contract)

lemma create_communication_sound:
  "create_communication e dir sub body sid st ent trig vis run now s = (out, s') \<Longrightarrow>
     \<exists>c. out = Inr c \<and> (fresh s \<longrightarrow> fresh s' \<and> committed s' = db s' \<and>
       communications (db s') = communications (db s) @ [c] \<and>
       dispatched s' = dispatched s @ [(db s', CommunicationCreated e (cm_id c))]) \<and>
     cm_exercise_id c = e \<and> cm_direction c = dir \<and> cm_sender_id c = sid \<and> cm_sender_team c = st \<and>
     cm_external_entity c = ent \<and> cm_subject c = sub \<and> cm_body c = body \<and>
     cm_visible_to_teams c = (case vis of Some [] \<Rightarrow> None | _ \<Rightarrow> vis)"
  by (auto simp: create_communication_def Let_def fresh_def insert_communication_def)

interpretation sending: unit_of_work
  "create_communication e dir sub body sid st ent trig vis run now"
proof
  fix s x s'
  assume "create_communication e dir sub body sid st ent trig vis run now s = (Inl x, s')"
  then show "committed s' = committed s \<and> notified s' = notified s \<and>
      dispatched s' = dispatched s \<and> ready s' = []"
    using create_communication_sound by blast
next
  fix s x s'
  assume "create_communication e dir sub body sid st ent trig vis run now s = (Inr x, s')" "fresh s"
  then show "fresh s'" using create_communication_sound by blast
qed

lemma get_communication_present:
  "c \<in> set (communications d) \<Longrightarrow> get_communication d (cm_id c) \<noteq> None"
  by (auto simp: get_defs get_row_None)

lemma deliver_cases:
  assumes "parse_direction dir = Inr dv"
    and c: "c = triggered_row e i dv ent sub body key now (db s)"
  obtains (taken) x where "x \<in> set (communications (db s))" "comm_key x = (e, Some key)"
      "deliver_triggered_communication e i dir ent sub body key now s =
         (Inr None, dispatch (commit (execute (bump TCommunication) s)))"
    | (free) c' where "\<And>x. x \<in> set (communications (db s)) \<Longrightarrow> comm_key x \<noteq> (e, Some key)"
      "get_communication (snd (insert_triggered c (db s))) (cm_id c) = Some c'"
      "communications (snd (insert_triggered c (db s))) = communications (db s) @ [c]"
      "deliver_triggered_communication e i dir ent sub body key now s =
         (Inr (Some c'), dispatch (commit ((execute (\<lambda>_. snd (insert_triggered c (db s))) s)
            \<lparr>pending := pending s @ [CommunicationCreated e (cm_id c)]\<rparr>)))"
proof -
  have k: "comm_key c = (e, Some key)" "comm_constrained c"
    by (simp_all add: c comm_key_def comm_constrained_def triggered_row_def)
  have con: "comm_constrained x" if "comm_key x = (e, Some key)" for x
    using that by (simp add: comm_key_def comm_constrained_def)
  show thesis
  proof (cases "\<exists>x\<in>set (communications (db s)). comm_key x = (e, Some key)")
    case True
    then obtain x where x: "x \<in> set (communications (db s))" "comm_key x = (e, Some key)" by blast
    have rows: "insert_ignore comm_constrained comm_key c (communications (db s)) =
        communications (db s)"
      using comm_table.ins_taken [OF k(2) x(1)] con [OF x(2)] x(2) k(1) by simp
    have "\<exists>x\<in>set (communications (db s)). comm_constrained x \<and> comm_key x = comm_key c"
      using x con k(1) by auto
    then have ins: "insert_triggered c (db s) = (None, bump TCommunication (db s))"
      using rows by (cases "db s") (simp add: insert_triggered_def Let_def bump_def)
    show thesis
      by (rule taken [OF x]) (simp add: deliver_triggered_communication_def assms(1)
          ins [unfolded c] Let_def execute_def)
  next
    case False
    then have rows: "insert_ignore comm_constrained comm_key c (communications (db s)) =
        communications (db s) @ [c]"
      by (intro comm_table.ins_free) (auto simp: k(1))
    have ins: "fst (insert_triggered c (db s)) = Some (cm_id c)"
        "communications (snd (insert_triggered c (db s))) = communications (db s) @ [c]"
      using False by (auto simp: insert_triggered_def Let_def k(1) rows)
    then have "get_communication (snd (insert_triggered c (db s))) (cm_id c) \<noteq> None"
      using get_communication_present by fastforce
    then obtain c' where c': "get_communication (snd (insert_triggered c (db s))) (cm_id c) = Some c'"
      by blast
    have "deliver_triggered_communication e i dir ent sub body key now s =
         (Inr (Some c'), dispatch (commit ((execute (\<lambda>_. snd (insert_triggered c (db s))) s)
            \<lparr>pending := pending s @ [CommunicationCreated e (cm_id c)]\<rparr>)))"
      using c' ins(1) unfolding c
      by (simp add: deliver_triggered_communication_def assms(1) Let_def execute_def)
    then show thesis using free [OF _ c' ins(2)] False by blast
  qed
qed

lemma deliver_Inl:
  "parse_direction dir = Inl x \<Longrightarrow>
     deliver_triggered_communication e i dir ent sub body key now s = (Inl x, s)"
  by (simp add: deliver_triggered_communication_def)

interpretation delivery: unit_of_work "deliver_triggered_communication e i dir ent sub body key now"
proof
  fix s x s'
  assume run: "deliver_triggered_communication e i dir ent sub body key now s = (Inl x, s')"
    and "ready s = []"
  then show "committed s' = committed s \<and> notified s' = notified s \<and>
      dispatched s' = dispatched s \<and> ready s' = []"
  proof (cases "parse_direction dir")
    case (Inl e')
    then show ?thesis using run \<open>ready s = []\<close> by (simp add: deliver_Inl)
  next
    case (Inr dv)
    show ?thesis
      by (rule deliver_cases [OF Inr refl, where s = s and e = e and i = i and ent = ent and
          sub = sub and body = body and key = key and now = now]) (use run in simp_all)
  qed
next
  fix s x s'
  assume run: "deliver_triggered_communication e i dir ent sub body key now s = (Inr x, s')"
    and f: "fresh s"
  show "fresh s'"
  proof (cases "parse_direction dir")
    case (Inl e')
    then show ?thesis using run by (simp add: deliver_Inl)
  next
    case (Inr dv)
    show ?thesis
      by (rule deliver_cases [OF Inr refl, where s = s and e = e and i = i and ent = ent and
          sub = sub and body = body and key = key and now = now]) (use run f in \<open>auto simp: fresh_def\<close>)
  qed
qed

section \<open>Lemmas: the sender's team\<close>

abbreviation members_unique :: "database \<Rightarrow> bool" where
  "members_unique d \<equiv> distinct (map member_place (members d))"

lemma exercise_member_row: "exercise_member_for_user d e u = get_row member_place (e, u) (members d)"
  by (simp add: exercise_member_for_user_def get_row_def member_place_def)

lemma sender_groups_lookup:
  assumes "members_unique d" and "c \<in> set cs" and "cm_sender_id c = Some sid"
  shows "sender_groups d cs (cm_exercise_id c, sid) =
    map_option em_group_id (exercise_member_for_user d (cm_exercise_id c) sid)"
proof -
  let ?p = "\<lambda>m. em_exercise_id m \<in> cm_exercise_id ` set cs \<and> Some (em_user_id m) \<in> cm_sender_id ` set cs"
  have "?p m" if "get_row member_place (cm_exercise_id c, sid) (members d) = Some m" for m
    using get_row_Some [OF that] assms(2,3) by (force simp: member_place_def)
  then have "get_row member_place (cm_exercise_id c, sid) (filter ?p (members d)) =
      get_row member_place (cm_exercise_id c, sid) (members d)"
    by (rule get_row_filter_hit [OF assms(1)])
  then show ?thesis
    unfolding sender_groups_def exercise_member_row
    by (subst dict_of_rows) (simp_all add: distinct_map_filter assms(1))
qed

lemma distinct_map_split:
  "distinct (map f xs) \<Longrightarrow> distinct (map f (filter p xs) @ map f (filter (\<lambda>x. \<not> p x) xs))"
  by (induction xs) auto

lemma sender_teams_batch:
  assumes "distinct (map cm_id comms)" and "members_unique d" and "distinct (map u_id (users d))"
    and "c \<in> set comms"
  shows "sender_teams_for_comms d comms (cm_id c) = Some (sender_team_for_comm (Some d) c)"
proof -
  let ?cs = "unresolved_senders comms" and ?g = "sender_groups d (unresolved_senders comms)"
  let ?fb = "filter (\<lambda>c. ?g (cm_exercise_id c, the (cm_sender_id c)) = None) ?cs"
  let ?ut = "dict_of (map (\<lambda>u. (u_id u, u_team u))
    (filter (\<lambda>u. Some (u_id u) \<in> cm_sender_id ` set ?fb) (users d)))"
  let ?v = "\<lambda>c. case ?g (cm_exercise_id c, the (cm_sender_id c)) of Some g \<Rightarrow> g
    | None \<Rightarrow> (case ?ut (the (cm_sender_id c)) of None \<Rightarrow> None | Some t \<Rightarrow> t)"
  let ?ps = "resolved_senders comms @ map (\<lambda>c. (cm_id c, ?v c)) ?cs"
  have keys: "map fst ?ps = map cm_id (filter (\<lambda>c. truthy (cm_sender_team c) \<or> cm_sender_id c = None) comms) @
      map cm_id (filter (\<lambda>c. \<not> (truthy (cm_sender_team c) \<or> cm_sender_id c = None)) comms)"
    by (simp add: resolved_senders_def unresolved_senders_def comp_def)
  have dist: "distinct (map fst ?ps)"
    unfolding keys by (rule distinct_map_split [OF assms(1)])
  have "(cm_id c, sender_team_for_comm (Some d) c) \<in> set ?ps"
  proof (cases "truthy (cm_sender_team c) \<or> cm_sender_id c = None")
    case True
    then show ?thesis
      using assms(4) by (auto simp: resolved_senders_def sender_team_for_comm_def)
  next
    case False
    then obtain sid where sid: "cm_sender_id c = Some sid" by auto
    have c: "c \<in> set ?cs" using False assms(4) by (simp add: unresolved_senders_def)
    note g = sender_groups_lookup [OF assms(2) c sid]
    have "?v c = sender_team_for_comm (Some d) c"
    proof (cases "exercise_member_for_user d (cm_exercise_id c) sid")
      case None
      then have "c \<in> set ?fb" using c g sid by simp
      then have "Some sid \<in> cm_sender_id ` set ?fb" using sid by force
      then have "get_row u_id sid (filter (\<lambda>u. Some (u_id u) \<in> cm_sender_id ` set ?fb) (users d)) =
          get_row u_id sid (users d)"
        using get_row_Some [of u_id sid "users d"] by (intro get_row_filter_hit assms(3)) auto
      then have "?ut sid = map_option u_team (get_user d sid)"
        by (subst dict_of_rows) (simp_all add: distinct_map_filter assms(3) get_user_def)
      then show ?thesis using None False g sid by (simp add: sender_team_for_comm_def split: option.splits)
    next
      case (Some m)
      then show ?thesis using False g sid by (simp add: sender_team_for_comm_def)
    qed
    then show ?thesis using c by auto
  qed
  then show ?thesis
    unfolding sender_teams_for_comms_def Let_def by (rule dict_of_mem [OF dist])
qed

section \<open>Lemmas: the inbox\<close>

lemma comms_of_facts:
  "set (comms_of d e) = {c \<in> set (communications d). cm_exercise_id c = e}"
  by (auto simp: comms_of_def)

lemma distinct_comms_of:
  assumes "distinct (map cm_id (communications d))"
  shows "distinct (map cm_id (comms_of d e))"
proof -
  have "inj_on cm_id (set (communications d))" and "distinct (communications d)"
    using assms by (simp_all add: distinct_map)
  then show ?thesis
    unfolding distinct_map comms_of_facts by (auto simp: comms_of_def intro: inj_on_subset)
qed

lemma inbox_mem:
  assumes "distinct (map cm_id (communications d))" and "members_unique d"
    and "distinct (map u_id (users d))" and "c \<in> set (communications d)"
    and "cm_visible_to_teams c \<noteq> Some []"
  shows "c \<in> set (inbox d e u) \<longleftrightarrow> cm_exercise_id c = e \<and> comm_visible_to_user d c u"
proof (cases "u_role u = Participant")
  case False
  then have "u_role u \<in> {Facilitator, Observer}" by (cases "u_role u") auto
  then show ?thesis
    using False assms(4)
    by (auto simp: inbox_def list_communications_def viewer_team_def comms_of_facts
        comm_visible_to_user_def Let_def)
next
  case True
  let ?g = "exercise_group_for_user d e u"
  have "listed (sender_teams_for_comms d (comms_of d e)) (Some (u_id u)) ?g c =
      comm_visible_to_user d c u" if "cm_exercise_id c = e"
  proof -
    have "c \<in> set (comms_of d e)" using assms(4) that by (simp add: comms_of_facts)
    then have "sender_teams_for_comms d (comms_of d e) (cm_id c) = Some (sender_team_for_comm (Some d) c)"
      using assms distinct_comms_of by (intro sender_teams_batch)
    moreover have "u_role u \<notin> {Facilitator, Observer}" using True by simp
    ultimately show ?thesis
      using that assms(5)
      by (cases "cm_visible_to_teams c"; cases "cm_direction c")
        (auto simp: listed_def comm_visible_to_user_def Let_def in_team_def split: list.splits)
  qed
  then show ?thesis
    using True assms(4)
    by (auto simp: inbox_def list_communications_def viewer_team_def comms_of_facts Let_def)
qed

lemma comm_payload_read:
  "comm_payload session c r st = Inr p \<Longrightarrow> cq_is_read p \<longleftrightarrow> r \<noteq> None"
  by (auto simp: comm_payload_def Let_def)

lemma comm_payload_id: "comm_payload session c r st = Inr p \<Longrightarrow> cq_id p = cm_id c"
  by (auto simp: comm_payload_def Let_def)

lemma length_filter_all2:
  "list_all2 (\<lambda>x y. P x = Q y) xs ys \<Longrightarrow> length (filter P xs) = length (filter Q ys)"
  by (induction rule: list_all2_induct) auto

section \<open>A message store for the witnesses\<close>

definition demo_comm :: "int \<Rightarrow> comm_direction \<Rightarrow> int option \<Rightarrow> string list option \<Rightarrow> communication" where
  "demo_comm i dir sender teams =
     \<lparr>cm_id = i, cm_exercise_id = 1, cm_sender_id = sender, cm_sender_team = None,
      cm_direction = dir, cm_external_entity = None, cm_subject = ''s'', cm_body = ''b'',
      cm_triggered_by_inject_id = None, cm_trigger_key = None, cm_visible_to_teams = teams,
      cm_created_during_run = Some True, cm_sent_at = i\<rparr>"

definition demo_comm_db :: database where
  "demo_comm_db = demo_play_db\<lparr>communications :=
     [demo_comm 1 Inbound None None, demo_comm 2 Outbound (Some 13) None,
      demo_comm 3 Outbound (Some 13) (Some [''red''])],
     reads := [\<lparr>cr_communication_id = 1, cr_user_id = 12, cr_read_at = 4\<rparr>]\<rparr>"

definition demo_participant :: current_user where
  "demo_participant = plain_user (demo_user 12 Participant None)"

section \<open>Properties\<close>

text \<open>The inbox lists exactly what its reader may open: a stored message of the exercise is
  listed for a user if and only if fetching it by its id passes the visibility check, although
  the list resolves sender teams in bulk and the single read row by row.\<close>

lemma inbox_lists_what_opens:
  assumes "distinct (map cm_id (communications d))" and "distinct (map member_place (members d))"
    and "distinct (map u_id (users d))"
    and "\<forall>c\<in>set (communications d). cm_visible_to_teams c \<noteq> Some []"
    and "require_exercise_access d e u = Inr ex"
  shows "set (inbox d e u) =
    {c. c \<in> set (communications d) \<and> visible_comm e (cm_id c) u d = Inr c}"
proof -
  have row: "get_communication d (cm_id c) = Some c" if "c \<in> set (communications d)" for c
    using that assms(1) by (simp add: get_communication_def get_row_unique)
  have "visible_comm e (cm_id c) u d = Inr c \<longleftrightarrow> cm_exercise_id c = e \<and> comm_visible_to_user d c u"
    if "c \<in> set (communications d)" for c
    using assms(5) row [OF that] by (simp add: visible_comm_def get_comm_or_404_def)
  moreover have "set (inbox d e u) \<subseteq> set (communications d)"
    by (auto simp: inbox_def list_communications_def Let_def comms_of_facts)
  ultimately show ?thesis
    using inbox_mem [OF assms(1-3)] assms(4) by blast
qed

lemma inbox_lists_what_opens_witness:
  "map cm_id (inbox demo_comm_db 1 demo_participant) = [3, 1] \<and>
   visible_comm 1 3 demo_participant demo_comm_db = Inr (demo_comm 3 Outbound (Some 13) (Some [''red'']))"
proof -
  have h: "distinct (map cm_id (communications demo_comm_db))"
    "distinct (map member_place (members demo_comm_db))" "distinct (map u_id (users demo_comm_db))"
    "\<forall>c\<in>set (communications demo_comm_db). cm_visible_to_teams c \<noteq> Some []"
    "require_exercise_access demo_comm_db 1 demo_participant = Inr demo_running" by code_simp+
  have l: "map cm_id (inbox demo_comm_db 1 demo_participant) = [3, 1]"
    "demo_comm 3 Outbound (Some 13) (Some [''red'']) \<in> set (inbox demo_comm_db 1 demo_participant)"
    "cm_id (demo_comm 3 Outbound (Some 13) (Some [''red''])) = 3" by code_simp+
  show ?thesis using inbox_lists_what_opens [OF h] l by auto
qed

text \<open>The unread badge counts the inbox: it is the number of messages of the list the same
  reader gets whose payload is not marked as read.\<close>

lemma unread_badge_counts_the_inbox:
  assumes "list_comms e u d = Inr ps" and "get_unread_count e u d = Inr n"
  shows "n = length (filter (\<lambda>p. \<not> cq_is_read p) ps)"
proof -
  let ?comms = "inbox d e u"
  let ?rt = "communication_read_times d (map cm_id ?comms) (u_id u)"
  have n: "n = length (filter (\<lambda>c. ?rt (cm_id c) = None) ?comms)"
    using assms(2) by (auto simp: get_unread_count_def unread_count_def inbox_def Let_def filter_map comp_def)
  have "list_all2 (\<lambda>c p. comm_payload (Some d) c (?rt (cm_id c)) (Some (sender_teams_for_comms d ?comms)) = Inr p)
      ?comms ps"
    using assms(1) by (auto simp: list_comms_def Let_def map_checked_Inr_iff)
  then have "list_all2 (\<lambda>c p. (?rt (cm_id c) = None) = (\<not> cq_is_read p)) ?comms ps"
    by (rule list_all2_mono) (use comm_payload_read in blast)
  then have "length (filter (\<lambda>c. ?rt (cm_id c) = None) ?comms) =
      length (filter (\<lambda>p. \<not> cq_is_read p) ps)"
    by (rule length_filter_all2)
  then show ?thesis using n by simp
qed

lemma unread_badge_counts_the_inbox_witness:
  "\<exists>ps. list_comms 1 demo_participant demo_comm_db = Inr ps \<and>
     length (filter (\<lambda>p. \<not> cq_is_read p) ps) = 1"
proof -
  have "is_ok (list_comms 1 demo_participant demo_comm_db)" by code_simp
  then obtain ps where ps: "list_comms 1 demo_participant demo_comm_db = Inr ps"
    by (auto simp: is_ok_iff)
  have "get_unread_count 1 demo_participant demo_comm_db = Inr 1" by code_simp
  from unread_badge_counts_the_inbox [OF ps this] ps show ?thesis by simp
qed

text \<open>The first read counts: marking a message read again, at any later time, answers with the
  first receipt and changes no row.\<close>

lemma first_read_counts:
  assumes "mark_read c u now s = (Inr r, s')"
  shows "cr_communication_id r = c \<and> cr_user_id r = u \<and>
    communication_read_at (committed s') c u = Some (cr_read_at r) \<and>
    (case communication_read_at (db s) c u of None \<Rightarrow> cr_read_at r = now | Some t \<Rightarrow> cr_read_at r = t) \<and>
    (\<exists>s''. mark_read c u later s' = (Inr r, s'') \<and> reads (committed s'') = reads (committed s'))"
proof -
  let ?r = "\<lambda>t. \<lparr>cr_communication_id = c, cr_user_id = u, cr_read_at = t\<rparr>"
  have s': "s' = commit (execute (insert_receipt c u now) s)"
    and r: "get_receipt (insert_receipt c u now (db s)) c u = Some r"
    using assms by (auto simp: mark_read_def Let_def split: option.splits)
  have key: "receipt_key r = (c, u)"
    and mem: "r \<in> set (reads (insert_receipt c u now (db s)))"
    using r by (auto simp: get_receipt_def dest: get_row_Some)
  have again: "reads (insert_receipt c u later d) = reads d"
    if "get_receipt d c u = Some r" for d
    using that get_row_Some [of receipt_key "(c, u)" "reads d" r]
      receipt_table.ins_taken [where r = "?r later" and x = r and rows = "reads d"]
    by (auto simp: insert_receipt_def get_receipt_def receipt_key_def)
  have ids: "cr_communication_id r = c" "cr_user_id r = u"
    using key by (simp_all add: receipt_key_def)
  have time: "case communication_read_at (db s) c u of None \<Rightarrow> cr_read_at r = now
      | Some t \<Rightarrow> cr_read_at r = t"
  proof (cases "get_receipt (db s) c u")
    case None
    then have "\<forall>x\<in>set (reads (db s)). receipt_key x \<noteq> (c, u)"
      by (simp add: get_receipt_def get_row_None)
    then have "insert_receipt c u now (db s) = (db s)\<lparr>reads := reads (db s) @ [?r now]\<rparr>"
      by (simp add: insert_receipt_def insert_ignore_def receipt_key_def)
    then show ?thesis
      using r None by (auto simp: get_receipt_def table_simps communication_read_at_def receipt_key_def)
  next
    case (Some x)
    then have "x \<in> set (reads (db s))" "receipt_key x = (c, u)"
      by (auto simp: get_receipt_def dest: get_row_Some)
    then have "reads (insert_receipt c u now (db s)) = reads (db s)"
      using receipt_table.ins_taken [where r = "?r now" and x = x and rows = "reads (db s)"]
      by (simp add: insert_receipt_def receipt_key_def)
    then show ?thesis using r Some by (simp add: get_receipt_def communication_read_at_def)
  qed
  have db': "get_receipt (db s') c u = Some r" using r by (simp add: s')
  have "get_receipt (insert_receipt c u later (db s')) c u = Some r"
    using db' again [OF db'] by (simp add: get_receipt_def)
  then have "mark_read c u later s' = (Inr r, commit (execute (insert_receipt c u later) s'))"
    by (simp add: mark_read_def Let_def)
  moreover have "committed s' = db s'" by (simp add: s')
  ultimately show ?thesis
    using ids time db' again [OF db'] by (simp add: communication_read_at_def)
qed

lemma first_read_counts_witness:
  "\<exists>r s' s''. mark_read 2 12 8 (demo_session demo_comm_db) = (Inr r, s') \<and> cr_read_at r = 8 \<and>
     mark_read 2 12 99 s' = (Inr r, s'')"
proof -
  let ?run = "mark_read 2 12 8 (demo_session demo_comm_db)"
  have "is_ok (fst ?run)" by code_simp
  then obtain r where "fst ?run = Inr r" by (auto simp: is_ok_iff)
  then have run: "?run = (Inr r, snd ?run)" by (metis prod.collapse)
  have "communication_read_at demo_comm_db 2 12 = None" by code_simp
  then show ?thesis
    using first_read_counts [OF run, of 99] run by auto
qed

text \<open>A trigger is delivered once.  Delivering one either inserts its message, committed with
  the event that announces it, or finds it delivered and announces nothing; after it every
  repetition, whatever its content and time, answers \<open>None\<close>, adds no row and no event.\<close>

lemma trigger_delivered_once:
  assumes "deliver_triggered_communication e i dir ent sub body key now s = (Inr out, s')"
    and "fresh s"
  shows "(\<exists>c\<in>set (communications (committed s')). cm_exercise_id c = e \<and> cm_trigger_key c = Some key) \<and>
    (case out of
       None \<Rightarrow> communications (committed s') = communications (committed s) \<and>
               dispatched s' = dispatched s
     | Some c \<Rightarrow> (\<exists>row. communications (committed s') = communications (committed s) @ [row] \<and>
                 comm_key row = (e, Some key) \<and> cm_body row = body \<and> cm_subject row = sub \<and>
                 dispatched s' = dispatched s @ [(committed s', CommunicationCreated e (cm_id row))])) \<and>
    (\<forall>dv. parse_direction dir2 = Inr dv \<longrightarrow>
      (\<exists>s''. deliver_triggered_communication e j dir2 ent2 sub2 body2 key later s' = (Inr None, s'') \<and>
        communications (committed s'') = communications (committed s') \<and>
        dispatched s'' = dispatched s'))"
proof -
  obtain dv where dv: "parse_direction dir = Inr dv"
    using assms(1) deliver_Inl by (cases "parse_direction dir") auto
  let ?c = "triggered_row e i dv ent sub body key now (db s)"
  have f: "db s = committed s" "pending s = []" "ready s = []"
    using assms(2) by (simp_all add: fresh_def)
  have f': "fresh s'" using delivery.run_success assms by blast
  have again: "\<exists>s''. deliver_triggered_communication e j dir2 ent2 sub2 body2 key later s' = (Inr None, s'') \<and>
      communications (committed s'') = communications (committed s') \<and> dispatched s'' = dispatched s'"
    if "parse_direction dir2 = Inr w" and "\<exists>x\<in>set (communications (db s')). comm_key x = (e, Some key)"
    for w
    by (rule deliver_cases [OF that(1) refl, where s = s' and e = e and i = j and ent = ent2 and
          sub = sub2 and body = body2 and key = key and now = later])
      (use that(2) f' in \<open>auto simp: fresh_def\<close>)
  show ?thesis
  proof (rule deliver_cases [OF dv refl, where s = s and e = e and i = i and ent = ent and
        sub = sub and body = body and key = key and now = now])
    fix x assume x: "x \<in> set (communications (db s))" "comm_key x = (e, Some key)"
      and run: "deliver_triggered_communication e i dir ent sub body key now s =
         (Inr None, dispatch (commit (execute (bump TCommunication) s)))"
    then show ?thesis using assms(1) f again by (auto simp: comm_key_def)
  next
    fix c' assume rows: "communications (snd (insert_triggered ?c (db s))) = communications (db s) @ [?c]"
      and run: "deliver_triggered_communication e i dir ent sub body key now s =
         (Inr (Some c'), dispatch (commit ((execute (\<lambda>_. snd (insert_triggered ?c (db s))) s)
            \<lparr>pending := pending s @ [CommunicationCreated e (cm_id ?c)]\<rparr>)))"
    have k: "comm_key ?c = (e, Some key)" "cm_body ?c = body" "cm_subject ?c = sub"
      by (simp_all add: comm_key_def triggered_row_def)
    have s': "out = Some c'" "s' = dispatch (commit ((execute (\<lambda>_. snd (insert_triggered ?c (db s))) s)
            \<lparr>pending := pending s @ [CommunicationCreated e (cm_id ?c)]\<rparr>))"
      using assms(1) run by auto
    have c: "communications (committed s') = communications (committed s) @ [?c]"
      using rows f by (simp add: s'(2))
    have ev: "dispatched s' = dispatched s @ [(committed s', CommunicationCreated e (cm_id ?c))]"
      using f by (simp add: s'(2))
    have "\<exists>x\<in>set (communications (db s')). comm_key x = (e, Some key)"
      using c k(1) f' by (simp add: fresh_def)
    then show ?thesis using again c ev k by (auto simp: s'(1) comm_key_def)
  qed
qed

lemma trigger_delivered_once_witness:
  "\<exists>c s' s''. deliver_triggered_communication 1 1 ''inbound'' ''ICO'' ''s'' ''b'' ''a:0'' 7
        (demo_session demo_comm_db) = (Inr (Some c), s') \<and>
     deliver_triggered_communication 1 1 ''inbound'' ''ICO'' ''s'' ''b'' ''a:0'' 8 s' = (Inr None, s'')"
proof -
  let ?run = "deliver_triggered_communication 1 1 ''inbound'' ''ICO'' ''s'' ''b'' ''a:0'' 7
    (demo_session demo_comm_db)"
  have "case fst ?run of Inr (Some c) \<Rightarrow> True | _ \<Rightarrow> False" by code_simp
  then obtain c where "fst ?run = Inr (Some c)" by (auto split: sum.splits option.splits)
  then have run: "?run = (Inr (Some c), snd ?run)" by (metis prod.collapse)
  have p: "parse_direction ''inbound'' = Inr Inbound" by code_simp
  show ?thesis
    using trigger_delivered_once [OF run, where ?dir2.0 = "''inbound''" and j = 1 and ?ent2.0 = "''ICO''"
        and ?sub2.0 = "''s''" and ?body2.0 = "''b''" and later = 8] run p by auto
qed

end
