(* ===== verification/Task_Queue.thy ===== *)
theory Task_Queue
  imports Communication_Service
begin

text \<open>
  The timed tasks of the durable queue (\<^verbatim>\<open>app/services/task_queue.py\<close>): releasing a
  scheduled inject and delivering a triggered message.  Each runs in a session of its own and
  re-reads every precondition; a job may be a duplicate, stale or early.

  The queue itself (fetching, retrying, marking a job done) is procrastinate's.  The two
  provider tasks are the parameter \<open>llm\<close>.
\<close>

section \<open>The tasks\<close>

definition release_scheduled_inject ::
  "int \<Rightarrow> int \<Rightarrow> instant \<Rightarrow> session \<Rightarrow> (exn + unit) \<times> session" where
  "release_scheduled_inject exercise_id inject_id now s =
     (case (get_inject (db s) inject_id, get_exercise (db s) exercise_id) of
        (Some ij, Some ex) \<Rightarrow>
          if ij_state ij \<noteq> Pending \<or> ex_state ex \<noteq> Active \<or> ij_release_offset_minutes ij = None
          then (Inr (), s)
          else if seconds_until_due ex ij now > DUE_EPSILON
          then (Inr (), commit (execute (defer_inject_release ex ij None now) s))
          else (case release_is_allowed (db s) ij True of
                  Inl e \<Rightarrow> (Inl e, s)
                | Inr False \<Rightarrow> (Inr (), s)
                | Inr True \<Rightarrow>
                    (case release_inject ij None True now s of
                       (Inl e, s') \<Rightarrow> (Inl e, s') | (Inr _, s') \<Rightarrow> (Inr (), s')))
      | _ \<Rightarrow> (Inr (), s))"

definition trigger_of ::
  "database \<Rightarrow> int \<Rightarrow> string \<Rightarrow> nat \<Rightarrow> exn + trigger_comm option" where
  "trigger_of d exercise_id node_id index =
     and_then (definition_for_exercise d exercise_id) (\<lambda>definition.
       Inr (case definition of None \<Rightarrow> None
            | Some def1 \<Rightarrow>
                (case get_inject_node def1 node_id of None \<Rightarrow> None
                 | Some n \<Rightarrow>
                     if length (in_triggers_communications n) \<le> index then None
                     else Some (in_triggers_communications n ! index))))"

definition deliver_triggered_comm ::
  "int \<Rightarrow> int \<Rightarrow> string \<Rightarrow> nat \<Rightarrow> instant \<Rightarrow> session \<Rightarrow> (exn + unit) \<times> session" where
  "deliver_triggered_comm exercise_id inject_id node_id index now s =
     (case (get_exercise (db s) exercise_id, get_inject (db s) inject_id) of
        (Some ex, Some ij) \<Rightarrow>
          if ex_state ex \<noteq> Active then (Inr (), s)
          else (case ij_released_at ij of
            None \<Rightarrow> (Inr (), s)
          | Some released_at \<Rightarrow>
              (case trigger_of (db s) exercise_id node_id index of
                 Inl e \<Rightarrow> (Inl e, s)
               | Inr None \<Rightarrow> (Inr (), s)
               | Inr (Some t) \<Rightarrow>
                   let remaining = tc_delay_after_release_seconds t * SECOND -
                                   active_seconds_since (db s) ex released_at now
                   in if remaining > DUE_EPSILON
                      then (Inr (), commit (execute (defer_triggered_comm exercise_id inject_id
                              node_id index remaining now) s))
                      else (case deliver_triggered_communication exercise_id inject_id
                                   (tc_direction t) (tc_external_entity t) (tc_subject t)
                                   (tc_body t) (trigger_key node_id index) now s of
                              (Inl e, s') \<Rightarrow> (Inl e, s') | (Inr _, s') \<Rightarrow> (Inr (), s'))))
      | _ \<Rightarrow> (Inr (), s))"

fun perform ::
  "(job_call \<Rightarrow> instant \<Rightarrow> session \<Rightarrow> (exn + unit) \<times> session) \<Rightarrow> job_call \<Rightarrow> instant \<Rightarrow> session \<Rightarrow>
     (exn + unit) \<times> session" where
  "perform llm (ReleaseInject e i) now s = release_scheduled_inject e i now s"
| "perform llm (DeliverComm e i n k) now s = deliver_triggered_comm e i n k now s"
| "perform llm c now s = llm c now s"

fun is_timed :: "job_call \<Rightarrow> bool" where
  "is_timed (ReleaseInject e i) = True"
| "is_timed (DeliverComm e i n k) = True"
| "is_timed _ = False"

text \<open>A worker takes one job after the other, each in a session of its own.\<close>

definition work ::
  "(job_call \<Rightarrow> instant \<Rightarrow> session \<Rightarrow> (exn + unit) \<times> session) \<Rightarrow> (job_call \<times> instant) list \<Rightarrow>
     session \<Rightarrow> session" where
  "work llm = fold (\<lambda>(c, now) s. close_session (snd (perform llm c now s)))"

section \<open>Contracts\<close>

lemma release_task_cases:
  obtains (idle) "release_scheduled_inject e i now s = (Inr (), s)"
    | (failed) x where "release_scheduled_inject e i now s = (Inl x, s)"
    | (early) ex ij where "get_inject (db s) i = Some ij" "get_exercise (db s) e = Some ex"
        "ij_state ij = Pending" "ex_state ex = Active" "ij_release_offset_minutes ij \<noteq> None"
        "DUE_EPSILON < seconds_until_due ex ij now"
        "release_scheduled_inject e i now s =
           (Inr (), commit (execute (defer_inject_release ex ij None now) s))"
    | (refused) ij x s' where "release_inject ij None True now s = (Inl x, s')"
        "release_scheduled_inject e i now s = (Inl x, s')"
    | (released) ij row s' where "get_inject (db s) i = Some ij"
        "release_inject ij None True now s = (Inr row, s')"
        "release_scheduled_inject e i now s = (Inr (), s')"
proof (cases "get_inject (db s) i")
  case None
  then show thesis using idle by (simp add: release_scheduled_inject_def split: option.splits)
next
  case ij: (Some ij)
  show thesis
  proof (cases "get_exercise (db s) e")
    case None
    then show thesis using idle ij by (simp add: release_scheduled_inject_def)
  next
    case ex: (Some ex)
    note d = release_scheduled_inject_def [of e i now s] and ids = ij ex
    consider (off) "ij_state ij \<noteq> Pending \<or> ex_state ex \<noteq> Active \<or> ij_release_offset_minutes ij = None"
      | (soon) "ij_state ij = Pending" "ex_state ex = Active" "ij_release_offset_minutes ij \<noteq> None"
          "DUE_EPSILON < seconds_until_due ex ij now"
      | (due) "ij_state ij = Pending" "ex_state ex = Active" "ij_release_offset_minutes ij \<noteq> None"
          "\<not> DUE_EPSILON < seconds_until_due ex ij now" by blast
    then show thesis
    proof cases
      case off
      then show thesis using idle ids by (auto simp: d)
    next
      case soon
      then have "release_scheduled_inject e i now s =
          (Inr (), commit (execute (defer_inject_release ex ij None now) s))"
        using ids by (auto simp: d)
      then show thesis by (rule early [OF ids soon])
    next
      case due
      show thesis
      proof (cases "release_is_allowed (db s) ij True")
        case (Inl x)
        then have "release_scheduled_inject e i now s = (Inl x, s)" using due ids by (auto simp: d)
        then show thesis by (rule failed)
      next
        case (Inr ok)
        show thesis
        proof (cases ok)
          case False
          then have "release_scheduled_inject e i now s = (Inr (), s)" using due ids Inr by (auto simp: d)
          then show thesis by (rule idle)
        next
          case True
          obtain out s' where run: "release_inject ij None True now s = (out, s')" by fastforce
          then have eq: "release_scheduled_inject e i now s =
              (case out of Inl x \<Rightarrow> (Inl x, s') | Inr row \<Rightarrow> (Inr (), s'))"
            using due ids Inr True by (auto simp: d split: sum.splits)
          then show thesis
            using refused released [OF ij] run by (cases out) simp_all
        qed
      qed
    qed
  qed
qed

lemma deliver_task_cases:
  obtains (idle) "deliver_triggered_comm e i n k now s = (Inr (), s)"
    | (failed) x where "deliver_triggered_comm e i n k now s = (Inl x, s)"
    | (early) ex ij t rem where "get_exercise (db s) e = Some ex" "get_inject (db s) i = Some ij"
        "trigger_of (db s) e n k = Inr (Some t)" "DUE_EPSILON < rem"
        "deliver_triggered_comm e i n k now s =
           (Inr (), commit (execute (defer_triggered_comm e i n k rem now) s))"
    | (refused) t x s' where "trigger_of (db s) e n k = Inr (Some t)"
        "deliver_triggered_communication e i (tc_direction t) (tc_external_entity t) (tc_subject t)
           (tc_body t) (trigger_key n k) now s = (Inl x, s')"
        "deliver_triggered_comm e i n k now s = (Inl x, s')"
    | (delivered) t out s' where "trigger_of (db s) e n k = Inr (Some t)"
        "deliver_triggered_communication e i (tc_direction t) (tc_external_entity t) (tc_subject t)
           (tc_body t) (trigger_key n k) now s = (Inr out, s')"
        "deliver_triggered_comm e i n k now s = (Inr (), s')"
proof (cases "get_exercise (db s) e")
  case None
  then show thesis using idle by (simp add: deliver_triggered_comm_def)
next
  case ex: (Some ex)
  show thesis
  proof (cases "get_inject (db s) i")
    case None
    then show thesis using idle ex by (simp add: deliver_triggered_comm_def)
  next
    case ij: (Some ij)
    note d = deliver_triggered_comm_def [of e i n k now s] and ids = ij ex
    show thesis
    proof (cases "ex_state ex = Active \<and> ij_released_at ij \<noteq> None")
      case False
      then show thesis using idle ids by (auto simp: d split: option.splits)
    next
      case True
      then obtain at where act: "ex_state ex = Active" "ij_released_at ij = Some at" by blast
      show thesis
      proof (cases "trigger_of (db s) e n k")
        case (Inl x)
        then show thesis using failed ids act by (simp add: d)
      next
        case (Inr ot)
        show thesis
        proof (cases ot)
          case None
          then show thesis using idle ids act Inr by (simp add: d)
        next
          case (Some t)
          let ?rem = "tc_delay_after_release_seconds t * SECOND - active_seconds_since (db s) ex at now"
          show thesis
          proof (cases "DUE_EPSILON < ?rem")
            case True
            then have "deliver_triggered_comm e i n k now s =
                (Inr (), commit (execute (defer_triggered_comm e i n k ?rem now) s))"
              using ids act Inr Some by (simp add: d Let_def)
            then show thesis using early [OF ex ij _ True] Inr Some by simp
          next
            case False
            obtain out s' where run: "deliver_triggered_communication e i (tc_direction t)
                (tc_external_entity t) (tc_subject t) (tc_body t) (trigger_key n k) now s = (out, s')"
              by fastforce
            then have "deliver_triggered_comm e i n k now s =
                (case out of Inl x \<Rightarrow> (Inl x, s') | Inr y \<Rightarrow> (Inr (), s'))"
              using ids act Inr Some False by (auto simp: d Let_def split: sum.splits)
            then show thesis
              using refused [of t _ s'] delivered [of t _ s'] run
                \<open>trigger_of (db s) e n k = Inr ot\<close> Some by (cases out) auto
          qed
        qed
      qed
    qed
  qed
qed

interpretation release_task: unit_of_work "release_scheduled_inject e i now"
proof
  fix s x s' assume run: "release_scheduled_inject e i now s = (Inl x, s')" and r: "ready s = []"
  show "committed s' = committed s \<and> notified s' = notified s \<and>
      dispatched s' = dispatched s \<and> ready s' = []"
  proof (cases e i now s rule: release_task_cases)
    case (refused ij y s2)
    then show ?thesis using release.run_error [OF refused(1) r] run by simp
  qed (use run r in simp_all)
next
  fix s x s' assume run: "release_scheduled_inject e i now s = (Inr x, s')" and f: "fresh s"
  show "fresh s'"
  proof (cases e i now s rule: release_task_cases)
    case (released ij row s2)
    then show ?thesis using release.run_success [OF released(2) f] run by simp
  qed (use run f in \<open>auto simp: fresh_def\<close>)
qed

interpretation deliver_task: unit_of_work "deliver_triggered_comm e i n k now"
proof
  fix s x s' assume run: "deliver_triggered_comm e i n k now s = (Inl x, s')" and r: "ready s = []"
  show "committed s' = committed s \<and> notified s' = notified s \<and>
      dispatched s' = dispatched s \<and> ready s' = []"
  proof (cases e i n k now s rule: deliver_task_cases)
    case (refused t y s2)
    then show ?thesis using delivery.run_error [OF refused(2) r] run by simp
  qed (use run r in simp_all)
next
  fix s x s' assume run: "deliver_triggered_comm e i n k now s = (Inr x, s')" and f: "fresh s"
  show "fresh s'"
  proof (cases e i n k now s rule: deliver_task_cases)
    case (delivered t out s2)
    then show ?thesis using delivery.run_success [OF delivered(2) f] run by simp
  qed (use run f in \<open>auto simp: fresh_def\<close>)
qed

section \<open>Lemmas: what the worker can change\<close>

text \<open>The effect of a timed task on the committed tables: injects only move forward, messages are
  only added and stay unique per trigger, and nobody's roster, answers or cursors change.\<close>

definition forward :: "database \<Rightarrow> database \<Rightarrow> bool" where
  "forward d d' \<longleftrightarrow>
     list_all2 (\<lambda>a b. ij_id a = ij_id b \<and> ij_state a \<le> ij_state b) (injects d) (injects d') \<and>
     set (communications d) \<subseteq> set (communications d') \<and>
     (unique_on comm_constrained comm_key (communications d) \<longrightarrow>
      unique_on comm_constrained comm_key (communications d')) \<and>
     set (jobs d) \<subseteq> set (jobs d') \<and>
     exercises d' = exercises d \<and> members d' = members d \<and> cursors d' = cursors d \<and>
     responses d' = responses d \<and> transitions d' = transitions d"

lemma forward_refl [simp]: "forward d d"
  by (simp add: forward_def list_all2_same)

lemma forward_trans: "forward a b \<Longrightarrow> forward b c \<Longrightarrow> forward a c"
proof -
  assume ab: "forward a b" and bc: "forward b c"
  let ?R = "\<lambda>x y. ij_id x = ij_id y \<and> ij_state x \<le> ij_state y"
  have step: "\<And>x y z. ?R x y \<Longrightarrow> ?R y z \<Longrightarrow> ?R x z" by auto
  have "list_all2 ?R (injects a) (injects b)" "list_all2 ?R (injects b) (injects c)"
    using ab bc unfolding forward_def by blast+
  then have "list_all2 ?R (injects a) (injects c)" by (rule list_all2_trans [rotated]) (use step in blast)
  then show ?thesis using ab bc unfolding forward_def by (simp, blast)
qed

lemma enqueued_forward: "enqueued d d' \<Longrightarrow> forward d d'"
  using enqueued_frame [of d d'] by (auto simp: forward_def list_all2_same)

lemma released_forward: "forward d (released_db ij b now d)"
  by (auto simp: forward_def update_where_def list_all2_map2 list_all2_same less_eq_inject_state_def)

lemma release_forward:
  assumes "release_inject ij b sch now s = (out, s')" and "fresh s"
  shows "forward (committed s) (committed s')"
proof (cases out)
  case (Inl x)
  then show ?thesis
    using release.run_error [of ij b sch now s x s'] assms by (simp add: fresh_def)
next
  case (Inr row)
  with assms(1) have run: "release_inject ij b sch now s = (Inr row, s')" by simp
  show ?thesis
  proof (rule release_inject_Inr [OF run])
    fix d4 assume enq: "enqueued (released_db ij b now (db s)) d4"
      and s': "s' = dispatch (commit ((execute (\<lambda>_. d4) s)
        \<lparr>pending := pending s @ [InjectReleased (ij_exercise_id ij) (ij_id ij)]\<rparr>))"
    have "forward (db s) d4"
      using released_forward enqueued_forward [OF enq] by (rule forward_trans)
    then show ?thesis using assms(2) by (simp add: s' fresh_def)
  qed
qed

lemma triggered_forward:
  "forward d (snd (insert_triggered c d))"
  by (auto simp: forward_def insert_triggered_def Let_def list_all2_same
      intro: comm_table.ins_keeps comm_table.ins_unique)

lemma bump_forward: "forward d (bump t d)"
  by (simp add: forward_def list_all2_same)

lemma delivery_forward:
  assumes "deliver_triggered_communication e i dir ent sub body key now s = (out, s')" and "fresh s"
  shows "forward (committed s) (committed s')"
proof (cases "parse_direction dir")
  case (Inl x)
  then show ?thesis using assms by (simp add: deliver_Inl)
next
  case (Inr dv)
  show ?thesis
    by (rule deliver_cases [OF Inr refl, where s = s and e = e and i = i and ent = ent and
          sub = sub and body = body and key = key and now = now])
      (use assms triggered_forward bump_forward in \<open>auto simp: fresh_def\<close>)
qed

lemma release_task_forward:
  assumes "fresh s"
  shows "forward (committed s) (committed (snd (release_scheduled_inject e i now s)))"
proof (cases e i now s rule: release_task_cases)
  case (early ex ij)
  have "forward (db s) (defer_inject_release ex ij None now (db s))"
    by (rule enqueued_forward) auto
  then show ?thesis using early assms by (simp add: fresh_def)
next
  case (refused ij x s')
  then show ?thesis using release_forward assms by fastforce
next
  case (released ij row s')
  then show ?thesis using release_forward assms by fastforce
qed simp_all

lemma deliver_task_forward:
  assumes "fresh s"
  shows "forward (committed s) (committed (snd (deliver_triggered_comm e i n k now s)))"
proof (cases e i n k now s rule: deliver_task_cases)
  case (early ex ij t rem)
  have "forward (db s) (defer_triggered_comm e i n k rem now (db s))"
    by (rule enqueued_forward) auto
  then show ?thesis using early assms by (simp add: fresh_def)
next
  case (refused t x s')
  then show ?thesis using delivery_forward assms by fastforce
next
  case (delivered t out s')
  then show ?thesis using delivery_forward assms by fastforce
qed simp_all

lemma perform_forward:
  assumes "is_timed c" and "fresh s"
  shows "forward (committed s) (committed (close_session (snd (perform llm c now s)))) \<and>
    fresh (close_session (snd (perform llm c now s)))"
proof -
  have close: "committed (close_session t) = committed t" for t by (simp add: close_session_def)
  show ?thesis
    using assms
    by (cases c) (auto simp: close release_task_forward deliver_task_forward
        intro: release_task.request_fresh deliver_task.request_fresh)
qed

lemma work_forward:
  assumes "\<forall>(c, now)\<in>set js. is_timed c" and "fresh s"
  shows "forward (committed s) (committed (work llm js s)) \<and> fresh (work llm js s)"
  using assms
proof (induction js arbitrary: s)
  case (Cons j js)
  obtain c now where j: "j = (c, now)" by (cases j)
  let ?s = "close_session (snd (perform llm c now s))"
  have "forward (committed s) (committed ?s)" "fresh ?s"
    using perform_forward [of c s llm now] Cons.prems j by auto
  moreover have "forward (committed ?s) (committed (work llm js ?s)) \<and> fresh (work llm js ?s)"
    using Cons.IH [of ?s] Cons.prems(1) \<open>fresh ?s\<close> by simp
  ultimately show ?case using forward_trans by (auto simp: work_def j)
qed (simp add: work_def)

lemma definition_for_exercise_validated:
  "definition_for_exercise d e = Inr (Some def1) \<Longrightarrow> \<exists>doc. model_validate doc = Inr def1"
  by (auto simp: definition_for_exercise_def launch_definition_for_exercise_def
      get_scenario_definition_def export_definition_def parse_definition_Inr
      split: option.splits sum.splits if_splits)

lemma trigger_direction:
  assumes "definition_for_exercise d e = Inr (Some def1)" and "nd \<in> set (sd_injects def1)"
    and "t \<in> set (in_triggers_communications nd)"
  shows "\<exists>dv. parse_direction (tc_direction t) = Inr dv"
proof -
  obtain doc where "model_validate doc = Inr def1"
    using definition_for_exercise_validated [OF assms(1)] by blast
  then have "list_all2 (\<lambda>x y. validate_node x = Inr y) (sd_injects def1) (sd_injects def1)"
    using model_validate_parts(3) by (simp add: map_checked_Inr_iff)
  then have "validate_node nd = Inr nd" using assms(2) by (simp add: list_all2_same)
  then obtain ts where ts: "map_checked validate_trigger (in_triggers_communications nd) = Inr ts"
    by (auto simp: validate_node_def)
  have "is_ok (validate_trigger t)"
    using ts assms(3) by (auto simp: map_checked_Inr_iff list_all2_conv_all_nth in_set_conv_nth)
  then show ?thesis
    by (auto simp: is_ok_iff validate_trigger_def validate_direction_def parse_direction_def
        split: sum.splits if_splits)
qed

section \<open>Properties\<close>

text \<open>C12: duplicate, stale and early jobs are harmless: whatever timed jobs a worker takes, in any
  order, any number of times and at any times, no inject disappears or moves backward, every
  trigger still has at most one message, no message or job is lost, and rosters, answers,
  cursors and the lifecycle are untouched.\<close>

theorem jobs_only_move_forward:
  assumes "\<forall>(c, now)\<in>set js. is_timed c" and "fresh s"
    and "unique_on comm_constrained comm_key (communications (committed s))"
  shows "map ij_id (injects (committed (work llm js s))) = map ij_id (injects (committed s)) \<and>
    (\<forall>k < length (injects (committed s)).
       ij_state (injects (committed s) ! k) \<le> ij_state (injects (committed (work llm js s)) ! k)) \<and>
    unique_on comm_constrained comm_key (communications (committed (work llm js s))) \<and>
    set (communications (committed s)) \<subseteq> set (communications (committed (work llm js s))) \<and>
    set (jobs (committed s)) \<subseteq> set (jobs (committed (work llm js s))) \<and>
    exercises (committed (work llm js s)) = exercises (committed s) \<and>
    members (committed (work llm js s)) = members (committed s) \<and>
    cursors (committed (work llm js s)) = cursors (committed s) \<and>
    responses (committed (work llm js s)) = responses (committed s)"
proof -
  have fw: "forward (committed s) (committed (work llm js s))"
    using work_forward assms by blast
  then have "list_all2 (\<lambda>a b. ij_id a = ij_id b \<and> ij_state a \<le> ij_state b)
      (injects (committed s)) (injects (committed (work llm js s)))" by (simp add: forward_def)
  then have "map ij_id (injects (committed (work llm js s))) = map ij_id (injects (committed s))"
    and "\<forall>k < length (injects (committed s)).
       ij_state (injects (committed s) ! k) \<le> ij_state (injects (committed (work llm js s)) ! k)"
    by (auto simp: list_all2_conv_all_nth intro: nth_equalityI)
  then show ?thesis using fw assms(3) by (simp add: forward_def)
qed

theorem jobs_only_move_forward_witness:
  "\<exists>s. s = work (\<lambda>_ _ s. (Inr (), s)) [(ReleaseInject 1 1, 600000000), (ReleaseInject 1 1, 700000000),
          (DeliverComm 1 1 ''a'' 0, 900000000)] (demo_session demo_pending_db) \<and>
     map ij_id (injects (committed s)) = [1] \<and> unique_on comm_constrained comm_key (communications (committed s))"
proof -
  let ?js = "[(ReleaseInject 1 1, 600000000), (ReleaseInject 1 1, 700000000),
    (DeliverComm 1 1 ''a'' 0, 900000000 :: instant)]"
  have js: "\<forall>(c, now)\<in>set ?js. is_timed c" by simp
  have u: "unique_on comm_constrained comm_key (communications (committed (demo_session demo_pending_db)))"
    by code_simp
  have i: "map ij_id (injects (committed (demo_session demo_pending_db))) = [1]" by code_simp
  note all = jobs_only_move_forward [OF js demo_session_fields(3) u, of "\<lambda>_ _ s. (Inr (), s)"]
  show ?thesis
    by (intro exI conjI, rule refl)
      (rule all [THEN conjunct1, unfolded i], rule all [THEN conjunct2, THEN conjunct2, THEN conjunct1])
qed

text \<open>An early job comes back on time.  A release job that a pause has made early changes
  nothing but the queue: one more job for the same inject, due exactly when its offset of running
  time will be up; taken at that time, it is no longer early.\<close>

lemma early_job_comes_back_on_time:
  assumes "get_inject (db s) i = Some ij" and "get_exercise (db s) e = Some ex"
    and "ij_state ij = Pending" and "ex_state ex = Active" and "ex_started_at ex = Some st"
    and "ij_release_offset_minutes ij = Some m" and "DUE_EPSILON < seconds_until_due ex ij now"
  shows "\<exists>s' due. release_scheduled_inject e i now s = (Inr (), s') \<and>
    due = st + ex_accumulated_pause ex + m * 60 * SECOND \<and> now < due \<and>
    committed s' = (db s)\<lparr>jobs := jobs (db s) @ [\<lparr>jb_call = ReleaseInject e i,
        jb_scheduled_at = Some due, jb_queueing_lock = None, jb_status = Todo\<rparr>]\<rparr> \<and>
    seconds_until_due ex ij due = 0"
proof -
  have ids: "ex_id ex = e" "ij_id ij = i"
    using get_exercise_id [OF assms(2)] get_inject_id [OF assms(1)] by simp_all
  have wait: "seconds_until_due ex ij t = st + ex_accumulated_pause ex + m * 60 * SECOND - t" for t
    using assms(4-6) by (simp add: seconds_until_due_def effective_elapsed_def)
  then have pos: "0 < seconds_until_due ex ij now"
    using assms(7) by (simp add: DUE_EPSILON_def SECOND_def)
  have run: "release_scheduled_inject e i now s =
      (Inr (), commit (execute (defer_inject_release ex ij None now) s))"
    using assms by (simp add: release_scheduled_inject_def)
  have "defer_inject_release ex ij None now (db s) = (db s)\<lparr>jobs := jobs (db s) @
      [\<lparr>jb_call = ReleaseInject e i,
        jb_scheduled_at = Some (st + ex_accumulated_pause ex + m * 60 * SECOND),
        jb_queueing_lock = None, jb_status = Todo\<rparr>]\<rparr>"
    using pos by (simp add: defer_inject_release_def defer_job_def ids wait Let_def)
  with run have "release_scheduled_inject e i now s =
      (Inr (), commit (execute (defer_inject_release ex ij None now) s)) \<and>
    now < st + ex_accumulated_pause ex + m * 60 * SECOND \<and>
    committed (commit (execute (defer_inject_release ex ij None now) s)) =
      (db s)\<lparr>jobs := jobs (db s) @ [\<lparr>jb_call = ReleaseInject e i,
        jb_scheduled_at = Some (st + ex_accumulated_pause ex + m * 60 * SECOND),
        jb_queueing_lock = None, jb_status = Todo\<rparr>]\<rparr>"
    using pos by (simp add: wait)
  then show ?thesis using wait [of "st + ex_accumulated_pause ex + m * 60 * SECOND"] by auto
qed

lemma early_job_comes_back_on_time_witness:
  "\<exists>s'. release_scheduled_inject 1 2 5 (demo_session demo_play_db) = (Inr (), s') \<and>
     length (jobs (committed s')) = 1"
proof -
  let ?i = "demo_inject 2 ''b'' (Some ''red'') Pending"
  have h: "get_inject (db (demo_session demo_play_db)) 2 = Some ?i"
    "get_exercise (db (demo_session demo_play_db)) 1 = Some demo_running"
    "ij_state ?i = Pending" "ex_state demo_running = Active" "ex_started_at demo_running = Some 0"
    "ij_release_offset_minutes ?i = Some 10" "DUE_EPSILON < seconds_until_due demo_running ?i 5"
    "jobs demo_play_db = []"
    by code_simp+
  show ?thesis using early_job_comes_back_on_time [OF h(1-7)] h(8) by auto
qed

text \<open>C14: a due job releases its inject, once.  When the job of a pending scheduled inject of a
  running exercise is due, the gate lets it pass and the inject has an audience, the committed
  tables have it released at that time by no one, the release is announced, and any repetition
  of the job does nothing.\<close>

theorem due_release_runs_once:
  assumes "fresh s" and "distinct (map ij_id (injects (db s)))"
    and "get_inject (db s) i = Some ij" and "ij_exercise_id ij = e"
    and "get_exercise (db s) e = Some ex"
    and "ij_state ij = Pending" and "ex_state ex = Active" and "ij_release_offset_minutes ij \<noteq> None"
    and "\<not> DUE_EPSILON < seconds_until_due ex ij now"
    and "release_is_allowed (db s) ij True = Inr True"
    and "inject_audience_contexts ij (members_of (db s) e) \<noteq> []"
    and "is_ok (definition_for_exercise (db s) e)"
  shows "\<exists>s' row. release_scheduled_inject e i now s = (Inr (), s') \<and>
    get_inject (committed s') i = Some row \<and> ij_state row = Released \<and>
    ij_released_at row = Some now \<and> ij_released_by row = None \<and>
    dispatched s' = dispatched s @ [(committed s', InjectReleased e i)] \<and>
    release_scheduled_inject e i later s' = (Inr (), s')"
proof -
  have id: "ij_id ij = i" and mem: "ij \<in> set (injects (db s))"
    using get_inject_id [OF assms(3)] by simp_all
  have acc: "release_accepts ij True (db s)"
    using assms mem by (auto simp: release_accepts_def)
  let ?d = "released_db ij None now (db s)"
  have "definition_for_exercise ?d e = definition_for_exercise (db s) e"
    by (rule definition_for_exercise_cong) simp_all
  then have "\<exists>d4. schedule_release_triggered_comms e ij now ?d = Inr d4"
    using assms(12) by (auto simp: schedule_release_triggered_comms_def is_ok_iff split: option.splits)
  then obtain d4 where d4: "schedule_release_triggered_comms e ij now ?d = Inr d4" by blast
  let ?row = "ij\<lparr>ij_state := Released, ij_released_at := Some now, ij_released_by := None\<rparr>"
  have frame: "injects d4 = injects ?d" "exercises d4 = exercises (db s)"
    using enqueued_frame [OF schedule_release_enqueued [OF d4]] by simp_all
  have row: "get_inject d4 i = Some ?row"
    using get_inject_after_release [OF assms(2) mem assms(6) refl frame(1)] by (simp add: id)
  let ?s' = "dispatch (commit ((execute (\<lambda>_. d4) s)\<lparr>pending := pending s @ [InjectReleased e i]\<rparr>))"
  have rel: "release_inject ij None True now s = (Inr ?row, ?s')"
    using release_accepting [OF acc, of None now] d4 row assms(4) id by simp
  have run: "release_scheduled_inject e i now s = (Inr (), ?s')"
    using assms rel by (auto simp: release_scheduled_inject_def)
  have again: "release_scheduled_inject e i later ?s' = (Inr (), ?s')"
    using row assms(5) frame(2) by (simp add: release_scheduled_inject_def get_exercise_def)
  show ?thesis
    by (rule exI [of _ ?s'], rule exI [of _ ?row])
      (use run again row assms(1) in \<open>simp add: fresh_def\<close>)
qed

theorem due_release_runs_once_witness:
  "\<exists>s'. release_scheduled_inject 1 1 600000000 (demo_session demo_pending_db) = (Inr (), s') \<and>
     release_scheduled_inject 1 1 700000000 s' = (Inr (), s')"
proof -
  let ?i = "demo_inject 1 ''a'' None Pending"
  have h: "distinct (map ij_id (injects (db (demo_session demo_pending_db))))"
    "get_inject (db (demo_session demo_pending_db)) 1 = Some ?i" "ij_exercise_id ?i = 1"
    "get_exercise (db (demo_session demo_pending_db)) 1 = Some demo_running"
    "ij_state ?i = Pending" "ex_state demo_running = Active" "ij_release_offset_minutes ?i \<noteq> None"
    "\<not> DUE_EPSILON < seconds_until_due demo_running ?i 600000000"
    "release_is_allowed (db (demo_session demo_pending_db)) ?i True = Inr True"
    "inject_audience_contexts ?i (members_of (db (demo_session demo_pending_db)) 1) \<noteq> []"
    "is_ok (definition_for_exercise (db (demo_session demo_pending_db)) 1)"
    by code_simp+
  show ?thesis using due_release_runs_once [OF demo_session_fields(3) h] by blast
qed

text \<open>A due trigger is delivered.  When the job of a trigger of a released inject runs in an
  active exercise and the delay has passed in running time, the committed tables have its
  message; if it was not delivered before, it carries the text of the exercise's definition and
  is announced.\<close>

lemma due_trigger_is_delivered:
  assumes "fresh s" and "get_exercise (db s) e = Some ex" and "ex_state ex = Active"
    and "get_inject (db s) i = Some ij" and "ij_released_at ij = Some at"
    and "definition_for_exercise (db s) e = Inr (Some def1)"
    and "get_inject_node def1 n = Some nd" and "k < length (in_triggers_communications nd)"
    and "t = in_triggers_communications nd ! k"
    and "tc_delay_after_release_seconds t * SECOND - active_seconds_since (db s) ex at now \<le> DUE_EPSILON"
  shows "\<exists>s'. deliver_triggered_comm e i n k now s = (Inr (), s') \<and>
    (\<exists>c\<in>set (communications (committed s')).
       cm_exercise_id c = e \<and> cm_trigger_key c = Some (trigger_key n k)) \<and>
    ((\<forall>c\<in>set (communications (db s)). comm_key c \<noteq> (e, Some (trigger_key n k))) \<longrightarrow>
      (\<exists>c. communications (committed s') = communications (db s) @ [c] \<and>
         cm_subject c = tc_subject t \<and> cm_body c = tc_body t \<and>
         cm_external_entity c = Some (tc_external_entity t) \<and>
         cm_triggered_by_inject_id c = Some i \<and> cm_sent_at c = now \<and>
         dispatched s' = dispatched s @ [(committed s', CommunicationCreated e (cm_id c))]))"
proof -
  have t: "trigger_of (db s) e n k = Inr (Some t)"
    using assms(6-9) by (simp add: trigger_of_def)
  have "nd \<in> set (sd_injects def1)" using get_inject_node_Some [OF assms(7)] by simp
  then obtain dv where dv: "parse_direction (tc_direction t) = Inr dv"
    using trigger_direction [OF assms(6)] assms(8,9) by (metis nth_mem)
  obtain out s' where run: "deliver_triggered_communication e i (tc_direction t)
      (tc_external_entity t) (tc_subject t) (tc_body t) (trigger_key n k) now s = (out, s')"
    by fastforce
  have task: "deliver_triggered_comm e i n k now s =
      (case out of Inl x \<Rightarrow> (Inl x, s') | Inr y \<Rightarrow> (Inr (), s'))"
    using assms(2-5,10) t run by (simp add: deliver_triggered_comm_def Let_def split: sum.splits)
  let ?c = "triggered_row e i dv (tc_external_entity t) (tc_subject t) (tc_body t)
    (trigger_key n k) now (db s)"
  have c: "comm_key ?c = (e, Some (trigger_key n k))" "cm_subject ?c = tc_subject t"
    "cm_body ?c = tc_body t" "cm_external_entity ?c = Some (tc_external_entity t)"
    "cm_triggered_by_inject_id ?c = Some i" "cm_sent_at ?c = now"
    by (simp_all add: triggered_row_def comm_key_def)
  show ?thesis
  proof (rule deliver_cases [OF dv refl, where s = s and e = e and i = i and
        ent = "tc_external_entity t" and sub = "tc_subject t" and body = "tc_body t" and
        key = "trigger_key n k" and now = now])
    fix x assume "x \<in> set (communications (db s))" "comm_key x = (e, Some (trigger_key n k))"
      "deliver_triggered_communication e i (tc_direction t) (tc_external_entity t) (tc_subject t)
         (tc_body t) (trigger_key n k) now s =
         (Inr None, dispatch (commit (execute (bump TCommunication) s)))"
    then show ?thesis using run task by (auto simp: comm_key_def)
  next
    fix c' assume "communications (snd (insert_triggered ?c (db s))) = communications (db s) @ [?c]"
      "deliver_triggered_communication e i (tc_direction t) (tc_external_entity t) (tc_subject t)
         (tc_body t) (trigger_key n k) now s =
         (Inr (Some c'), dispatch (commit ((execute (\<lambda>_. snd (insert_triggered ?c (db s))) s)
            \<lparr>pending := pending s @ [CommunicationCreated e (cm_id ?c)]\<rparr>)))"
    then show ?thesis
      using run task c assms(1) by (auto simp: comm_key_def fresh_def)
  qed
qed

lemma due_trigger_is_delivered_witness:
  "\<exists>s'. deliver_triggered_comm 1 1 ''a'' 0 900000000 (demo_session demo_play_db) = (Inr (), s') \<and>
     (\<exists>c\<in>set (communications (committed s')). cm_trigger_key c = Some ''a:0'')"
proof -
  let ?i = "demo_inject 1 ''a'' None Released" and ?n = "hd (sd_injects demo_definition)"
  let ?t = "in_triggers_communications ?n ! 0"
  have h: "get_exercise (db (demo_session demo_play_db)) 1 = Some demo_running"
    "ex_state demo_running = Active" "get_inject (db (demo_session demo_play_db)) 1 = Some ?i"
    "ij_released_at ?i = Some (the (ij_released_at ?i))"
    "definition_for_exercise (db (demo_session demo_play_db)) 1 = Inr (Some demo_definition)"
    "get_inject_node demo_definition ''a'' = Some ?n" "0 < length (in_triggers_communications ?n)"
    by code_simp+
  have w: "tc_delay_after_release_seconds ?t * SECOND -
      active_seconds_since (db (demo_session demo_play_db)) demo_running (the (ij_released_at ?i)) 900000000
      \<le> DUE_EPSILON" by code_simp
  have k: "trigger_key ''a'' 0 = ''a:0''" by code_simp
  show ?thesis
    using due_trigger_is_delivered [OF demo_session_fields(3) h refl w] unfolding k by blast
qed

end
