(* ===== verification/Comment_Service.thy ===== *)
theory Comment_Service
  imports Requests
begin

text \<open>
  Comments on injects (\<^verbatim>\<open>app/services/inject_comment_service.py\<close>) and their routes
  (\<^verbatim>\<open>app/routers/inject_comments.py\<close>): the team thread a comment belongs to, who sees
  it, and the two serialisers, one row at a time and in bulk.
\<close>

section \<open>The thread of a comment\<close>

definition comment_group_for_user :: "database \<Rightarrow> inject \<Rightarrow> current_user \<Rightarrow> string option" where
  "comment_group_for_user d ij u =
     (if truthy (ij_group_id ij) then ij_group_id ij
      else exercise_group_for_user d (ij_exercise_id ij) u)"

section \<open>Payloads\<close>

record comment_public =
  oq_id :: int
  oq_inject_id :: int
  oq_exercise_id :: int
  oq_user_id :: int
  oq_author_name :: string
  oq_group_id :: "string option"
  oq_content :: string
  oq_created_at :: string

definition user_number :: "int \<Rightarrow> string" where
  "user_number i = ''User #'' @ show_int i"

definition raw_comment_payload :: "inject_comment \<Rightarrow> string \<Rightarrow> comment_public" where
  "raw_comment_payload c author_name =
     \<lparr>oq_id = ic_id c, oq_inject_id = ic_inject_id c, oq_exercise_id = ic_exercise_id c,
      oq_user_id = ic_user_id c, oq_author_name = author_name, oq_group_id = ic_group_id c,
      oq_content = ic_content c, oq_created_at = isoformat (ic_created_at c)\<rparr>"

definition comment_payload :: "database \<Rightarrow> inject_comment \<Rightarrow> comment_public" where
  "comment_payload d c =
     raw_comment_payload c (case get_user d (ic_user_id c) of
        Some u \<Rightarrow> u_display_name u | None \<Rightarrow> user_number (ic_user_id c))"

definition comment_payloads :: "database \<Rightarrow> inject_comment list \<Rightarrow> comment_public list" where
  "comment_payloads d cs =
     (let names = dict_of (map (\<lambda>u. (u_id u, u_display_name u))
            (filter (\<lambda>u. u_id u \<in> ic_user_id ` set cs) (users d)))
      in map (\<lambda>c. raw_comment_payload c
                (if truthy (names (ic_user_id c)) then the (names (ic_user_id c))
                 else user_number (ic_user_id c))) cs)"

section \<open>Creating\<close>

definition new_comment ::
  "int \<Rightarrow> int \<Rightarrow> int \<Rightarrow> string option \<Rightarrow> string \<Rightarrow> instant \<Rightarrow> database \<Rightarrow> inject_comment" where
  "new_comment inject_id exercise_id user_id group_id content1 now d =
     \<lparr>ic_id = nextval TComment d, ic_inject_id = inject_id, ic_exercise_id = exercise_id,
      ic_user_id = user_id, ic_group_id = group_id, ic_content = content1, ic_created_at = now\<rparr>"

definition insert_comment :: "inject_comment \<Rightarrow> database \<Rightarrow> database" where
  "insert_comment c d = (bump TComment d)\<lparr>comments := comments d @ [c]\<rparr>"

definition create_inject_comment ::
  "int \<Rightarrow> int \<Rightarrow> int \<Rightarrow> string option \<Rightarrow> string \<Rightarrow> instant \<Rightarrow> session \<Rightarrow>
     (exn + inject_comment \<times> comment_public) \<times> session" where
  "create_inject_comment inject_id exercise_id user_id group_id content1 now s =
     (let c = new_comment inject_id exercise_id user_id group_id content1 now (db s);
          s1 = execute (insert_comment c) s;
          payload = comment_payload (db s1) c;
          s2 = snd (record_event (InjectCommentCreated exercise_id (ic_id c)) s1)
      in (Inr (c, payload), dispatch (commit s2)))"

section \<open>Routes\<close>

definition can_see_comment ::
  "inject_comment \<Rightarrow> current_user \<Rightarrow> (int \<Rightarrow> inject option) \<Rightarrow> string option \<Rightarrow> bool" where
  "can_see_comment c u rows group_id =
     (case rows (ic_inject_id c) of
        None \<Rightarrow> False
      | Some ij \<Rightarrow>
          if \<not> inject_visible_to ij u group_id then False
          else if u_role u \<in> {Facilitator, Observer} then True
          else ic_group_id c = group_id)"

definition injects_by_id :: "database \<Rightarrow> int \<Rightarrow> int \<Rightarrow> inject option" where
  "injects_by_id d exercise_id =
     dict_of (map (\<lambda>ij. (ij_id ij, ij)) (filter (\<lambda>ij. ij_exercise_id ij = exercise_id) (injects d)))"

definition list_inject_comments :: "int \<Rightarrow> current_user \<Rightarrow> database \<Rightarrow> exn + comment_public list" where
  "list_inject_comments exercise_id u d =
     and_then (require_exercise_access d exercise_id u) (\<lambda>ex.
       let cs = sort_key ic_created_at (filter (\<lambda>c. ic_exercise_id c = exercise_id) (comments d));
           group_id = exercise_group_for_user d exercise_id u
       in Inr (comment_payloads d
            (filter (\<lambda>c. can_see_comment c u (injects_by_id d exercise_id) group_id) cs)))"

definition create_comment_guard ::
  "int \<Rightarrow> int \<Rightarrow> string \<Rightarrow> current_user \<Rightarrow> database \<Rightarrow> exn + inject \<times> string" where
  "create_comment_guard exercise_id inject_id body u d =
     and_then (require_exercise_access d exercise_id u) (\<lambda>ex.
     and_then (require_operational_mutability ex) (\<lambda>_.
       if u_role u \<noteq> Participant
       then Inl (HTTPException 403 ''Only participants can comment on injects'')
       else if ex_state ex \<noteq> Active
       then Inl (HTTPException 409 ''Comments can only be added while the exercise is active'')
       else let content1 = strip body
            in if content1 = [] then Inl (HTTPException 422 ''content is required'')
               else and_then (get_inject_or_404 d exercise_id inject_id) (\<lambda>ij.
                    and_then (require_inject_visible d ij u) (\<lambda>_.
                      if ij_state ij \<notin> {Released, Resolved}
                      then Inl (HTTPException 409 ''Comments can only be added to released injects'')
                      else Inr (ij, content1)))))"

definition create_comment ::
  "int \<Rightarrow> int \<Rightarrow> string \<Rightarrow> current_user \<Rightarrow> instant \<Rightarrow> session \<Rightarrow> (exn + comment_public) \<times> session" where
  "create_comment exercise_id inject_id body u now s =
     answered
       (guarded (create_comment_guard exercise_id inject_id body u (db s)) (\<lambda>(ij, content1) s.
          create_inject_comment (ij_id ij) exercise_id (u_id u) (comment_group_for_user (db s) ij u)
            content1 now s) s)
       (\<lambda>(c, payload) d. Inr payload)"

section \<open>Contracts and lemmas\<close>

lemma create_inject_comment_sound:
  assumes "create_inject_comment i e u g c now s = (out, s')"
  shows "\<exists>row. out = Inr (row, comment_payload (insert_comment row (db s)) row) \<and>
     row = new_comment i e u g c now (db s) \<and>
     s' = dispatch (commit ((execute (insert_comment row) s)
            \<lparr>pending := pending s @ [InjectCommentCreated e (ic_id row)]\<rparr>))"
  using assms by (auto simp: create_inject_comment_def Let_def)

interpretation commenting: unit_of_work "create_inject_comment i e u g c now"
proof
  fix s x s' assume "create_inject_comment i e u g c now s = (Inl x, s')"
  then show "committed s' = committed s \<and> notified s' = notified s \<and>
      dispatched s' = dispatched s \<and> ready s' = []"
    using create_inject_comment_sound by blast
next
  fix s x s' assume "create_inject_comment i e u g c now s = (Inr x, s')" "fresh s"
  then show "fresh s'"
    using create_inject_comment_sound [of i e u g c now s "Inr x" s'] by (auto simp: fresh_def)
qed

lemma insert_comment_frame [simp]:
  "users (insert_comment c d) = users d" "injects (insert_comment c d) = injects d"
  "members (insert_comment c d) = members d" "exercises (insert_comment c d) = exercises d"
  "comments (insert_comment c d) = comments d @ [c]"
  by (simp_all add: insert_comment_def)

lemma injects_by_id_lookup:
  assumes "distinct (map ij_id (injects d))"
  shows "injects_by_id d e i = (case get_inject d i of
     Some ij \<Rightarrow> if ij_exercise_id ij = e then Some ij else None | None \<Rightarrow> None)"
proof -
  let ?rows = "filter (\<lambda>ij. ij_exercise_id ij = e) (injects d)"
  have "injects_by_id d e i = get_row ij_id i ?rows"
    unfolding injects_by_id_def
    by (subst dict_of_rows) (simp_all add: distinct_map_filter assms option.map_ident)
  also have "\<dots> = (case get_inject d i of
     Some ij \<Rightarrow> if ij_exercise_id ij = e then Some ij else None | None \<Rightarrow> None)"
  proof (cases "get_inject d i")
    case None
    then have "get_row ij_id i ?rows = None" by (simp add: get_inject_def get_row_None)
    then show ?thesis using None by simp
  next
    case (Some ij)
    show ?thesis
    proof (cases "ij_exercise_id ij = e")
      case True
      then show ?thesis
        using Some get_row_filter [OF assms Some [unfolded get_inject_def], of "\<lambda>ij. ij_exercise_id ij = e"]
        by simp
    next
      case False
      have "\<forall>r\<in>set ?rows. ij_id r \<noteq> i"
        using False Some get_row_unique [OF assms] by (auto simp: get_inject_def)
      then have "get_row ij_id i ?rows = None" by (simp add: get_row_None)
      then show ?thesis using False Some by simp
    qed
  qed
  finally show ?thesis .
qed

lemma comment_payloads_rows:
  assumes "distinct (map u_id (users d))"
    and "\<forall>c\<in>set cs. \<forall>u. get_user d (ic_user_id c) = Some u \<longrightarrow> u_display_name u \<noteq> []"
  shows "comment_payloads d cs = map (comment_payload d) cs"
proof -
  have "dict_of (map (\<lambda>u. (u_id u, u_display_name u))
      (filter (\<lambda>u. u_id u \<in> ic_user_id ` set cs) (users d))) (ic_user_id c) =
    map_option u_display_name (get_user d (ic_user_id c))" if "c \<in> set cs" for c
  proof -
    have "get_row u_id (ic_user_id c) (filter (\<lambda>u. u_id u \<in> ic_user_id ` set cs) (users d)) =
        get_row u_id (ic_user_id c) (users d)"
      using that by (intro get_row_filter_hit [OF assms(1)]) (auto dest: get_row_Some)
    then show ?thesis
      by (subst dict_of_rows) (simp_all add: distinct_map_filter assms(1) get_user_def)
  qed
  then show ?thesis
    using assms(2)
    by (auto simp: comment_payloads_def Let_def comment_payload_def split: option.splits)
qed

end
