(* ===== verification/Provider_Rows.thy ===== *)
theory Provider_Rows
  imports Requests
begin

text \<open>
  The rows the provider tasks write (assessments, suggested injects, the executive summary) as
  clients see them: the models of \<^verbatim>\<open>app/schemas/api.py\<close> and the payload functions
  of \<^verbatim>\<open>app/services/llm_service.py\<close>, shared by the routes and the frames.
\<close>

section \<open>Schemas\<close>

record assessment_public =
  aq_id :: int
  aq_response_id :: int
  aq_llm_model :: string
  aq_assessment_text :: string
  aq_decision_quality :: "string option"
  aq_recommended_branch_option_id :: "string option"
  aq_assessed_at :: string

record suggested_public =
  gq_id :: int
  gq_exercise_id :: int
  gq_triggered_by_response_id :: int
  gq_title :: string
  gq_content :: string
  gq_target_teams :: "string list option"
  gq_llm_model :: string
  gq_status :: suggested_status
  gq_reviewed_by :: "int option"
  gq_reviewed_at :: "string option"
  gq_generated_at :: string

record summary_public =
  uq_exercise_id :: int
  uq_summary_text :: string
  uq_llm_model :: string
  uq_edited :: bool
  uq_generated_at :: string

section \<open>Payloads\<close>

definition assessment_payload :: "response_assessment \<Rightarrow> assessment_public" where
  "assessment_payload a =
     \<lparr>aq_id = ra_id a, aq_response_id = ra_response_id a, aq_llm_model = ra_llm_model a,
      aq_assessment_text = ra_assessment_text a, aq_decision_quality = ra_decision_quality a,
      aq_recommended_branch_option_id = ra_recommended_branch_option_id a,
      aq_assessed_at = isoformat (ra_assessed_at a)\<rparr>"

definition suggested_payload :: "suggested_inject \<Rightarrow> suggested_public" where
  "suggested_payload s =
     \<lparr>gq_id = sj_id s, gq_exercise_id = sj_exercise_id s,
      gq_triggered_by_response_id = sj_triggered_by_response_id s, gq_title = sj_title s,
      gq_content = sj_content s, gq_target_teams = sj_target_teams s, gq_llm_model = sj_llm_model s,
      gq_status = sj_status s, gq_reviewed_by = sj_reviewed_by s,
      gq_reviewed_at = map_option isoformat (sj_reviewed_at s),
      gq_generated_at = isoformat (sj_generated_at s)\<rparr>"

definition summary_payload :: "executive_summary \<Rightarrow> summary_public" where
  "summary_payload s =
     \<lparr>uq_exercise_id = es_exercise_id s, uq_summary_text = es_summary_text s,
      uq_llm_model = es_llm_model s, uq_edited = es_edited s,
      uq_generated_at = isoformat (es_generated_at s)\<rparr>"

end
