(* ===== verification/Ws_Manager.thy ===== *)
theory Ws_Manager
  imports Task_Queue Comment_Service Provider_Rows
begin

text \<open>
  The sockets of one replica (\<^verbatim>\<open>app/services/ws_manager.py\<close>): rooms of connections
  per exercise and the fan-out of a frame.

  A socket is a number.  Whether a client drains a frame within the timeout is the client's
  doing: the parameter \<open>drains\<close>.  \<open>heard\<close> is what the clients received and
  \<open>closed\<close> the close frames sent, both in order; awaiting is not interleaved with other
  tasks.
\<close>

section \<open>Frames\<close>

record state_change =
  sq_transition_id :: int
  sq_exercise_id :: int
  sq_previous_state :: exercise_state
  sq_new_state :: exercise_state
  sq_state :: exercise_state
  sq_actor_id :: "int option"
  sq_transitioned_at :: string
  sq_started_at :: "string option"
  sq_ended_at :: "string option"
  sq_paused_at :: "string option"
  sq_accumulated_pause :: int

record response_frame =
  rf_response :: response_public
  rf_next_inject_ids :: "string option list"
  rf_next_injects :: "next_inject list"
  rf_progression :: progression_view

datatype frame_payload =
    StatePayload state_change
  | InjectPayload inject_public
  | CommentPayload comment_public
  | ResponsePayload response_frame
  | CommPayload communication_public
  | AssessmentPayload int assessment_public
  | SuggestedPayload suggested_public
  | SummaryPayload summary_public
  | EmptyPayload

record frame =
  fr_type :: string
  fr_exercise_id :: int
  fr_timestamp :: string
  fr_payload :: frame_payload

section \<open>Rooms\<close>

record connection =
  cn_ws :: int
  cn_user_id :: int
  cn_role :: user_role
  cn_group_id :: "string option"
  cn_last_ping :: instant

record ws_world =
  rooms :: "int \<Rightarrow> connection list option"
  heard :: "(int \<times> frame) list"
  closed :: "(int \<times> int option) list"

definition empty_ws :: ws_world where
  "empty_ws = \<lparr>rooms = (\<lambda>_. None), heard = [], closed = []\<rparr>"

definition room_of :: "ws_world \<Rightarrow> int \<Rightarrow> connection list" where
  "room_of w e = (case rooms w e of None \<Rightarrow> [] | Some cs \<Rightarrow> cs)"

text \<open>Replacing a room's connections, dropping the room when none is left.\<close>

definition keep_in_rooms :: "(connection \<Rightarrow> bool) \<Rightarrow> ws_world \<Rightarrow> ws_world" where
  "keep_in_rooms keep w =
     w\<lparr>rooms := (\<lambda>e. case rooms w e of None \<Rightarrow> None
        | Some cs \<Rightarrow> if filter keep cs = [] then None else Some (filter keep cs))\<rparr>"

definition connect :: "int \<Rightarrow> int \<Rightarrow> int \<Rightarrow> user_role \<Rightarrow> string option \<Rightarrow> instant \<Rightarrow> ws_world \<Rightarrow> ws_world" where
  "connect ws exercise_id user_id role group_id now w =
     w\<lparr>rooms := (rooms w)(exercise_id \<mapsto> room_of w exercise_id @
        [\<lparr>cn_ws = ws, cn_user_id = user_id, cn_role = role, cn_group_id = group_id,
          cn_last_ping = now\<rparr>])\<rparr>"

definition disconnect :: "int \<Rightarrow> int \<Rightarrow> ws_world \<Rightarrow> ws_world" where
  "disconnect ws exercise_id w =
     (case rooms w exercise_id of
        None \<Rightarrow> w
      | Some cs \<Rightarrow>
          let remaining = filter (\<lambda>c. cn_ws c \<noteq> ws) cs
          in w\<lparr>rooms := (rooms w)(exercise_id := if remaining \<noteq> [] then Some remaining else None)\<rparr>)"

definition close_sockets :: "int list \<Rightarrow> int option \<Rightarrow> ws_world \<Rightarrow> ws_world" where
  "close_sockets wss code w = w\<lparr>closed := closed w @ map (\<lambda>i. (i, code)) wss\<rparr>"

text \<open>\<^verbatim>\<open>list(self._rooms)\<close>: the exercises that have a room, given by their ids.\<close>

definition sockets_in :: "int list \<Rightarrow> (connection \<Rightarrow> bool) \<Rightarrow> ws_world \<Rightarrow> int list" where
  "sockets_in es p w = map cn_ws (filter p (concat (map (room_of w) es)))"

definition close_user_connections :: "int list \<Rightarrow> int \<Rightarrow> int \<Rightarrow> ws_world \<Rightarrow> ws_world" where
  "close_user_connections es user_id code w =
     (let targets = remdups (sockets_in es (\<lambda>c. cn_user_id c = user_id) w)
      in close_sockets targets (Some code) (keep_in_rooms (\<lambda>c. cn_user_id c \<noteq> user_id) w))"

fun update_first :: "('a \<Rightarrow> bool) \<Rightarrow> ('a \<Rightarrow> 'a) \<Rightarrow> 'a list \<Rightarrow> 'a list" where
  "update_first p f [] = []"
| "update_first p f (x # xs) = (if p x then f x # xs else x # update_first p f xs)"

definition update_connection ::
  "int \<Rightarrow> int \<Rightarrow> (connection \<Rightarrow> connection) \<Rightarrow> ws_world \<Rightarrow> ws_world" where
  "update_connection ws exercise_id f w =
     w\<lparr>rooms := (rooms w)(exercise_id :=
        map_option (update_first (\<lambda>c. cn_ws c = ws) f) (rooms w exercise_id))\<rparr>"

definition ping :: "int \<Rightarrow> int \<Rightarrow> instant \<Rightarrow> ws_world \<Rightarrow> ws_world" where
  "ping ws exercise_id now = update_connection ws exercise_id (\<lambda>c. c\<lparr>cn_last_ping := now\<rparr>)"

definition refresh_authorization ::
  "int \<Rightarrow> int \<Rightarrow> user_role \<Rightarrow> string option \<Rightarrow> ws_world \<Rightarrow> ws_world" where
  "refresh_authorization ws exercise_id role group_id =
     update_connection ws exercise_id (\<lambda>c. c\<lparr>cn_role := role, cn_group_id := group_id\<rparr>)"

section \<open>Fan-out\<close>

definition drop_dead :: "connection list \<Rightarrow> ws_world \<Rightarrow> ws_world" where
  "drop_dead dead = keep_in_rooms (\<lambda>c. cn_ws c \<notin> cn_ws ` set dead)"

definition send_to_many ::
  "(int \<Rightarrow> frame \<Rightarrow> bool) \<Rightarrow> connection list \<Rightarrow> frame \<Rightarrow> ws_world \<Rightarrow> ws_world" where
  "send_to_many drains conns message w =
     (let ok = filter (\<lambda>c. drains (cn_ws c) message) conns;
          dead = filter (\<lambda>c. \<not> drains (cn_ws c) message) conns;
          w1 = w\<lparr>heard := heard w @ map (\<lambda>c. (cn_ws c, message)) ok\<rparr>
      in if dead = [] then w1 else close_sockets (map cn_ws dead) None (drop_dead dead w1))"

fun matching_from :: "int set \<Rightarrow> (connection \<Rightarrow> bool) \<Rightarrow> connection list \<Rightarrow> connection list" where
  "matching_from seen p [] = []"
| "matching_from seen p (c # cs) =
     (if \<not> p c \<or> cn_ws c \<in> seen then matching_from seen p cs
      else c # matching_from (insert (cn_ws c) seen) p cs)"

definition matching :: "int \<Rightarrow> (connection \<Rightarrow> bool) \<Rightarrow> ws_world \<Rightarrow> connection list" where
  "matching exercise_id p w = matching_from {} p (room_of w exercise_id)"

text \<open>Facilitators get their own frame when there is one.\<close>

definition send_split ::
  "(int \<Rightarrow> frame \<Rightarrow> bool) \<Rightarrow> connection list \<Rightarrow> frame \<Rightarrow> frame option \<Rightarrow> ws_world \<Rightarrow> ws_world" where
  "send_split drains conns message facilitator_message w =
     (case facilitator_message of
        None \<Rightarrow> send_to_many drains conns message w
      | Some full \<Rightarrow>
          send_to_many drains (filter (\<lambda>c. cn_role c = Facilitator) conns) full
            (send_to_many drains (filter (\<lambda>c. cn_role c \<noteq> Facilitator) conns) message w))"

definition broadcast_to_exercise ::
  "(int \<Rightarrow> frame \<Rightarrow> bool) \<Rightarrow> int \<Rightarrow> frame \<Rightarrow> frame option \<Rightarrow> ws_world \<Rightarrow> ws_world" where
  "broadcast_to_exercise drains exercise_id message facilitator_message w =
     send_split drains (room_of w exercise_id) message facilitator_message w"

definition in_groups :: "string list \<Rightarrow> string option \<Rightarrow> bool" where
  "in_groups gs g = (case g of None \<Rightarrow> False | Some x \<Rightarrow> x \<in> set gs)"

definition broadcast_to_groups ::
  "(int \<Rightarrow> frame \<Rightarrow> bool) \<Rightarrow> int \<Rightarrow> string list \<Rightarrow> frame \<Rightarrow> frame option \<Rightarrow> ws_world \<Rightarrow> ws_world" where
  "broadcast_to_groups drains exercise_id group_ids message facilitator_message w =
     send_split drains
       (filter (\<lambda>c. in_groups group_ids (cn_group_id c) \<or> cn_role c \<in> {Facilitator, Observer})
          (room_of w exercise_id)) message facilitator_message w"

definition send_to_facilitators ::
  "(int \<Rightarrow> frame \<Rightarrow> bool) \<Rightarrow> int \<Rightarrow> frame \<Rightarrow> ws_world \<Rightarrow> ws_world" where
  "send_to_facilitators drains exercise_id message w =
     send_to_many drains (matching exercise_id (\<lambda>c. cn_role c = Facilitator) w) message w"

definition send_to_facilitators_and_user ::
  "(int \<Rightarrow> frame \<Rightarrow> bool) \<Rightarrow> int \<Rightarrow> int option \<Rightarrow> frame \<Rightarrow> ws_world \<Rightarrow> ws_world" where
  "send_to_facilitators_and_user drains exercise_id user_id message w =
     send_to_many drains (matching exercise_id
       (\<lambda>c. cn_role c = Facilitator \<or> Some (cn_user_id c) = user_id) w) message w"

definition send_to_facilitators_user_and_groups ::
  "(int \<Rightarrow> frame \<Rightarrow> bool) \<Rightarrow> int \<Rightarrow> int option \<Rightarrow> string list \<Rightarrow> frame \<Rightarrow> ws_world \<Rightarrow> ws_world" where
  "send_to_facilitators_user_and_groups drains exercise_id user_id group_ids message w =
     send_to_many drains (matching exercise_id
       (\<lambda>c. cn_role c = Facilitator \<or> Some (cn_user_id c) = user_id \<or>
            in_groups group_ids (cn_group_id c)) w) message w"

definition MAX_IDLE :: int where "MAX_IDLE = 90 * SECOND"

definition prune_stale :: "int list \<Rightarrow> instant \<Rightarrow> ws_world \<Rightarrow> ws_world" where
  "prune_stale es now w =
     close_sockets (sockets_in es (\<lambda>c. MAX_IDLE < now - cn_last_ping c) w) None
       (keep_in_rooms (\<lambda>c. \<not> MAX_IDLE < now - cn_last_ping c) w)"

section \<open>Lemmas\<close>

lemma matching_from_facts:
  "set (matching_from seen p cs) \<subseteq> {c \<in> set cs. p c \<and> cn_ws c \<notin> seen}"
  "distinct (map cn_ws (matching_from seen p cs))"
  "cn_ws ` set (matching_from seen p cs) = cn_ws ` {c \<in> set cs. p c} - seen"
proof (induction cs arbitrary: seen)
  case (Cons c cs)
  { case 1 show ?case using Cons.IH(1) [of seen] Cons.IH(1) [of "insert (cn_ws c) seen"] by auto }
  { case 2 show ?case using Cons.IH(2) [of seen] Cons.IH(2) [of "insert (cn_ws c) seen"]
      Cons.IH(1) [of "insert (cn_ws c) seen"] by auto }
  { case 3 show ?case using Cons.IH(3) [of seen] Cons.IH(3) [of "insert (cn_ws c) seen"] by auto }
qed simp_all

lemma keep_in_rooms_fields [simp]:
  "heard (keep_in_rooms k w) = heard w" "closed (keep_in_rooms k w) = closed w"
  "room_of (keep_in_rooms k w) e = filter k (room_of w e)"
  by (auto simp: keep_in_rooms_def room_of_def split: option.splits)

lemma close_sockets_fields [simp]:
  "heard (close_sockets wss code w) = heard w" "rooms (close_sockets wss code w) = rooms w"
  "closed (close_sockets wss code w) = closed w @ map (\<lambda>i. (i, code)) wss"
  "room_of (close_sockets wss code w) e = room_of w e"
  by (simp_all add: close_sockets_def room_of_def)

lemma room_of_heard [simp]: "room_of (w\<lparr>heard := h\<rparr>) e = room_of w e"
  by (simp add: room_of_def)

lemma send_to_many_heard:
  "heard (send_to_many drains conns m w) =
     heard w @ map (\<lambda>c. (cn_ws c, m)) (filter (\<lambda>c. drains (cn_ws c) m) conns)"
  by (simp add: send_to_many_def Let_def drop_dead_def)

lemma send_to_many_room:
  "room_of (send_to_many drains conns m w) e =
     filter (\<lambda>c. \<not> (\<exists>k\<in>set conns. cn_ws k = cn_ws c \<and> \<not> drains (cn_ws k) m)) (room_of w e)"
proof -
  let ?dead = "filter (\<lambda>c. \<not> drains (cn_ws c) m) conns"
  have "room_of (send_to_many drains conns m w) e =
      filter (\<lambda>c. cn_ws c \<notin> cn_ws ` set ?dead) (room_of w e)"
    by (cases "?dead = []") (simp_all only: send_to_many_def Let_def drop_dead_def if_True if_False
        close_sockets_fields keep_in_rooms_fields room_of_heard, simp)
  also have "(\<lambda>c. cn_ws c \<notin> cn_ws ` set ?dead) =
      (\<lambda>c. \<not> (\<exists>k\<in>set conns. cn_ws k = cn_ws c \<and> \<not> drains (cn_ws k) m))"
    by (rule ext) (simp only: set_filter, force)
  finally show ?thesis .
qed

section \<open>The contract of a fan-out\<close>

text \<open>
  Every way of sending a frame to a room is the same operation with a different predicate on
  connections: exactly the clients it picks, and that drain, hear the frame, whatever the others
  do; and exactly the picked sockets that do not drain leave the rooms.
\<close>

locale fan_out =
  fixes send :: "(int \<Rightarrow> frame \<Rightarrow> bool) \<Rightarrow> int \<Rightarrow> frame \<Rightarrow> ws_world \<Rightarrow> ws_world"
    and pick :: "connection \<Rightarrow> bool"
  assumes send_heard: "\<exists>new. heard (send drains e m w) = heard w @ new \<and>
      set new = (\<lambda>c. (cn_ws c, m)) ` {c \<in> set (room_of w e). pick c \<and> drains (cn_ws c) m}"
    and send_rooms: "room_of (send drains e m w) e' =
      filter (\<lambda>c. \<not> (\<exists>k\<in>set (room_of w e). pick k \<and> cn_ws k = cn_ws c \<and> \<not> drains (cn_ws k) m))
        (room_of w e')"
begin

lemma hears_iff:
  assumes "heard w = []"
  shows "(i, m') \<in> set (heard (send drains e m w)) \<longleftrightarrow>
    m' = m \<and> (\<exists>c\<in>set (room_of w e). pick c \<and> cn_ws c = i \<and> drains i m)"
proof -
  obtain new where "heard (send drains e m w) = heard w @ new"
      "set new = (\<lambda>c. (cn_ws c, m)) ` {c \<in> set (room_of w e). pick c \<and> drains (cn_ws c) m}"
    using send_heard by blast
  then show ?thesis using assms by auto
qed

lemma unpicked_hears_nothing:
  assumes "\<And>c. c \<in> set (room_of w e) \<Longrightarrow> cn_ws c = i \<Longrightarrow> \<not> pick c"
  shows "(i, m') \<in> set (heard (send drains e m w)) \<longleftrightarrow> (i, m') \<in> set (heard w)"
proof -
  obtain new where "heard (send drains e m w) = heard w @ new"
      "set new = (\<lambda>c. (cn_ws c, m)) ` {c \<in> set (room_of w e). pick c \<and> drains (cn_ws c) m}"
    using send_heard by blast
  then show ?thesis using assms by auto
qed

lemma stalled_client_alone:
  assumes "c \<in> set (room_of w e)" and "drains (cn_ws c) m"
  shows "c \<in> set (room_of (send drains e m w) e)"
  using assms unfolding send_rooms by auto

end

lemma fan_out_many:
  assumes "\<And>w e. cn_ws ` set (conns w e) = cn_ws ` {c \<in> set (room_of w e). pick c}"
  shows "fan_out (\<lambda>drains e m w. send_to_many drains (conns w e) m w) pick"
proof
  fix drains :: "int \<Rightarrow> frame \<Rightarrow> bool" and e m w e'
  have picked: "i \<in> cn_ws ` set (conns w e) \<longleftrightarrow> (\<exists>c\<in>set (room_of w e). pick c \<and> cn_ws c = i)" for i
    unfolding assms by auto
  have "(\<lambda>c. (cn_ws c, m)) ` {c \<in> set (conns w e). drains (cn_ws c) m} =
      (\<lambda>i. (i, m)) ` {i \<in> cn_ws ` set (conns w e). drains i m}" by auto
  also have "\<dots> = (\<lambda>c. (cn_ws c, m)) ` {c \<in> set (room_of w e). pick c \<and> drains (cn_ws c) m}"
    unfolding picked by auto
  finally show "\<exists>new. heard (send_to_many drains (conns w e) m w) = heard w @ new \<and>
      set new = (\<lambda>c. (cn_ws c, m)) ` {c \<in> set (room_of w e). pick c \<and> drains (cn_ws c) m}"
    by (intro exI [of _ "map (\<lambda>c. (cn_ws c, m)) (filter (\<lambda>c. drains (cn_ws c) m) (conns w e))"])
      (simp add: send_to_many_heard)
  have "(\<exists>k\<in>set (conns w e). cn_ws k = i \<and> \<not> drains (cn_ws k) m) \<longleftrightarrow>
      (\<exists>k\<in>set (room_of w e). pick k \<and> cn_ws k = i \<and> \<not> drains (cn_ws k) m)" for i
    using picked [of i] by auto
  then show "room_of (send_to_many drains (conns w e) m w) e' =
      filter (\<lambda>c. \<not> (\<exists>k\<in>set (room_of w e). pick k \<and> cn_ws k = cn_ws c \<and> \<not> drains (cn_ws k) m))
        (room_of w e')"
    unfolding send_to_many_room by simp
qed

lemma matching_set: "cn_ws ` set (matching e p w) = cn_ws ` {c \<in> set (room_of w e). p c}"
  using matching_from_facts(3) [of "{}" p "room_of w e"] by (simp add: matching_def)

interpretation to_exercise: fan_out "\<lambda>drains e m. broadcast_to_exercise drains e m None" "\<lambda>_. True"
proof -
  have "(\<lambda>drains e m. broadcast_to_exercise drains e m None) =
      (\<lambda>drains e m w. send_to_many drains (room_of w e) m w)"
    by (intro ext) (simp add: broadcast_to_exercise_def send_split_def)
  then show "fan_out (\<lambda>drains e m. broadcast_to_exercise drains e m None) (\<lambda>_. True)"
    using fan_out_many [of "\<lambda>w e. room_of w e" "\<lambda>_. True"] by simp
qed

interpretation to_groups: fan_out "\<lambda>drains e m. broadcast_to_groups drains e gs m None"
  "\<lambda>c. in_groups gs (cn_group_id c) \<or> cn_role c \<in> {Facilitator, Observer}"
proof -
  let ?p = "\<lambda>c. in_groups gs (cn_group_id c) \<or> cn_role c \<in> {Facilitator, Observer}"
  have eq: "(\<lambda>drains e m. broadcast_to_groups drains e gs m None) =
      (\<lambda>drains e m w. send_to_many drains (filter ?p (room_of w e)) m w)"
    by (intro ext) (simp add: broadcast_to_groups_def send_split_def)
  show "fan_out (\<lambda>drains e m. broadcast_to_groups drains e gs m None) ?p"
    unfolding eq by (rule fan_out_many) auto
qed

interpretation to_facilitators: fan_out send_to_facilitators "\<lambda>c. cn_role c = Facilitator"
proof -
  have eq: "send_to_facilitators =
      (\<lambda>drains e m w. send_to_many drains (matching e (\<lambda>c. cn_role c = Facilitator) w) m w)"
    by (intro ext) (simp add: send_to_facilitators_def)
  show "fan_out send_to_facilitators (\<lambda>c. cn_role c = Facilitator)"
    unfolding eq by (rule fan_out_many) (rule matching_set)
qed

interpretation to_sender: fan_out "\<lambda>drains e. send_to_facilitators_and_user drains e u"
  "\<lambda>c. cn_role c = Facilitator \<or> Some (cn_user_id c) = u"
proof -
  have eq: "(\<lambda>drains e. send_to_facilitators_and_user drains e u) = (\<lambda>drains e m w. send_to_many drains
      (matching e (\<lambda>c. cn_role c = Facilitator \<or> Some (cn_user_id c) = u) w) m w)"
    by (intro ext) (simp add: send_to_facilitators_and_user_def)
  show "fan_out (\<lambda>drains e. send_to_facilitators_and_user drains e u)
      (\<lambda>c. cn_role c = Facilitator \<or> Some (cn_user_id c) = u)"
    unfolding eq by (rule fan_out_many) (rule matching_set)
qed

interpretation to_sender_and_groups:
  fan_out "\<lambda>drains e. send_to_facilitators_user_and_groups drains e u gs"
  "\<lambda>c. cn_role c = Facilitator \<or> Some (cn_user_id c) = u \<or> in_groups gs (cn_group_id c)"
proof -
  let ?p = "\<lambda>c. cn_role c = Facilitator \<or> Some (cn_user_id c) = u \<or> in_groups gs (cn_group_id c)"
  have eq: "(\<lambda>drains e. send_to_facilitators_user_and_groups drains e u gs) =
      (\<lambda>drains e m w. send_to_many drains (matching e ?p w) m w)"
    by (intro ext) (simp add: send_to_facilitators_user_and_groups_def)
  show "fan_out (\<lambda>drains e. send_to_facilitators_user_and_groups drains e u gs) ?p"
    unfolding eq by (rule fan_out_many) (rule matching_set)
qed

section \<open>Lemmas: rooms\<close>

definition rooms_ok :: "ws_world \<Rightarrow> bool" where
  "rooms_ok w \<longleftrightarrow> (\<forall>e. rooms w e \<noteq> Some [])"

lemma keep_in_rooms_ok: "rooms_ok (keep_in_rooms k w)"
  by (auto simp: rooms_ok_def keep_in_rooms_def split: option.splits)

lemma rooms_ok_ops:
  "rooms_ok w \<Longrightarrow> rooms_ok (connect ws e u r g now w)"
  "rooms_ok w \<Longrightarrow> rooms_ok (disconnect ws e w)"
  "rooms_ok w \<Longrightarrow> rooms_ok (send_to_many drains conns m w)"
  "rooms_ok (prune_stale es now w)" "rooms_ok (close_user_connections es u code w)"
proof -
  show "rooms_ok w \<Longrightarrow> rooms_ok (disconnect ws e w)"
    by (auto simp: rooms_ok_def disconnect_def Let_def split: option.splits)
  have "rooms_ok (close_sockets wss c v) \<longleftrightarrow> rooms_ok v" for wss c v by (simp add: rooms_ok_def)
  then show "rooms_ok w \<Longrightarrow> rooms_ok (send_to_many drains conns m w)"
    "rooms_ok (prune_stale es now w)" "rooms_ok (close_user_connections es u code w)"
    by (auto simp: send_to_many_def Let_def drop_dead_def prune_stale_def close_user_connections_def
        keep_in_rooms_ok) (simp add: rooms_ok_def)
qed (simp add: rooms_ok_def connect_def)

lemma update_first_map:
  "map f (update_first p g xs) = map f xs" if "\<And>x. f (g x) = f x"
  using that by (induction xs) auto

lemma update_first_mem:
  "x \<in> set (update_first p g xs) \<Longrightarrow> x \<in> set xs \<or> (\<exists>y\<in>set xs. p y \<and> x = g y)"
  by (induction xs) (auto split: if_splits)

lemma split_heard:
  "set (heard (send_split drains conns m f w)) = set (heard w) \<union>
     (case f of
        None \<Rightarrow> (\<lambda>c. (cn_ws c, m)) ` {c \<in> set conns. drains (cn_ws c) m}
      | Some full \<Rightarrow>
          (\<lambda>c. (cn_ws c, m)) ` {c \<in> set conns. cn_role c \<noteq> Facilitator \<and> drains (cn_ws c) m} \<union>
          (\<lambda>c. (cn_ws c, full)) ` {c \<in> set conns. cn_role c = Facilitator \<and> drains (cn_ws c) full})"
  by (cases f) (auto simp: send_split_def send_to_many_heard)

end
