(* ===== verification/Middleware.thy ===== *)
theory Middleware
  imports Requests
begin

text \<open>
  The ASGI middleware of \<^verbatim>\<open>app/middleware.py\<close>: the origin test shared by the
  CSRF check and the WebSocket handshake, the CSRF check itself and the security headers.

  \<open>netloc\<close> is \<^verbatim>\<open>urllib.parse.urlparse(url).netloc\<close> on the code points of
  the model; the check that a bracketed host is an IP address is left out.
\<close>

section \<open>Parsing an origin\<close>

definition is_c0_or_space :: "char \<Rightarrow> bool" where
  "is_c0_or_space c \<longleftrightarrow> (of_char c :: nat) \<le> 32"

definition is_alpha :: "char \<Rightarrow> bool" where
  "is_alpha c = (let n = (of_char c :: nat) in 65 \<le> n \<and> n \<le> 90 \<or> 97 \<le> n \<and> n \<le> 122)"

definition is_scheme_char :: "char \<Rightarrow> bool" where
  "is_scheme_char c = (is_alpha c \<or> (let n = (of_char c :: nat) in 48 \<le> n \<and> n \<le> 57) \<or>
     c \<in> {CHR ''+'', CHR ''-'', CHR ''.''})"

definition drop_scheme :: "string \<Rightarrow> string" where
  "drop_scheme url =
     (let before = takeWhile (\<lambda>c. c \<noteq> CHR '':'') url
      in if CHR '':'' \<in> set url \<and> before \<noteq> [] \<and> is_alpha (hd before) \<and> list_all is_scheme_char before
         then drop (length before + 1) url else url)"

definition netloc :: "string \<Rightarrow> exn + string" where
  "netloc url0 =
     (let url = drop_scheme (filter (\<lambda>c. c \<notin> {CHR 0x09, CHR 0x0D, CHR 0x0A}) (dropWhile is_c0_or_space url0));
          host = (if starts_with ''//'' url
                  then takeWhile (\<lambda>c. c \<notin> {CHR ''/'', CHR ''?'', CHR ''#''}) (drop 2 url) else [])
      in if (CHR ''['' \<in> set host) \<noteq> (CHR '']'' \<in> set host) then Inl (ValueError ''Invalid IPv6 URL'')
         else Inr host)"

fun split_on :: "char \<Rightarrow> string \<Rightarrow> string list" where
  "split_on sep [] = [[]]"
| "split_on sep (c # cs) =
     (if c = sep then [] # split_on sep cs
      else (case split_on sep cs of [] \<Rightarrow> [[c]] | w # ws \<Rightarrow> (c # w) # ws))"

definition trusted_origin_set :: "string \<Rightarrow> string list" where
  "trusted_origin_set trusted_origins =
     map strip (filter (\<lambda>o1. strip o1 \<noteq> []) (split_on (CHR '','') trusted_origins))"

definition origin_allowed :: "string \<Rightarrow> string option \<Rightarrow> string option \<Rightarrow> exn + bool" where
  "origin_allowed trusted_origins origin1 request_host =
     (if \<not> truthy origin1 then Inr False
      else (case netloc (the origin1) of
              Inl e \<Rightarrow> Inl e
            | Inr host \<Rightarrow>
                if host = [] then Inr False
                else Inr (host \<in> set (trusted_origin_set trusted_origins) \<or>
                          truthy request_host \<and> host = the request_host)))"

section \<open>The CSRF check\<close>

record http_request =
  hr_method :: string
  hr_path :: string
  hr_host :: "string option"
  hr_origin :: "string option"
  hr_referer :: "string option"
  hr_authorization :: "string option"
  hr_cookie :: "string option"

definition CSRF_SAFE_METHODS :: "string list" where
  "CSRF_SAFE_METHODS = [''GET'', ''HEAD'', ''OPTIONS'', ''TRACE'']"

definition needs_origin_check :: "http_request \<Rightarrow> bool" where
  "needs_origin_check r \<longleftrightarrow>
     hr_method r \<notin> set CSRF_SAFE_METHODS \<and> starts_with ''/api/'' (hr_path r) \<and>
     \<not> starts_with ''/api/auth/'' (hr_path r) \<and> hr_cookie r \<noteq> None \<and>
     \<not> starts_with ''Bearer '' (case hr_authorization r of None \<Rightarrow> [] | Some a \<Rightarrow> a)"

definition csrf_check :: "string \<Rightarrow> http_request \<Rightarrow> exn + unit" where
  "csrf_check trusted_origins r =
     (if \<not> needs_origin_check r then Inr ()
      else and_then (origin_allowed trusted_origins (py_or (hr_origin r) (hr_referer r)) (hr_host r))
             (\<lambda>ok. if ok then Inr () else Inl (HTTPException 403 ''CSRF origin check failed'')))"

section \<open>Security headers\<close>

definition lower_char :: "char \<Rightarrow> char" where
  "lower_char c = (let n = (of_char c :: nat) in if 65 \<le> n \<and> n \<le> 90 then char_of (n + 32) else c)"

definition has_header :: "string \<Rightarrow> (string \<times> string) list \<Rightarrow> bool" where
  "has_header name hs \<longleftrightarrow> map lower_char name \<in> map lower_char ` fst ` set hs"

definition quoted :: "string \<Rightarrow> string" where
  "quoted w = CHR 0x27 # w @ [CHR 0x27]"

definition CONTENT_SECURITY_POLICY :: string where
  "CONTENT_SECURITY_POLICY =
     ''default-src '' @ quoted ''self'' @ ''; script-src '' @ quoted ''self'' @
     ''; style-src '' @ quoted ''self'' @ '' '' @ quoted ''unsafe-inline'' @
     ''; img-src '' @ quoted ''self'' @ '' data:; font-src '' @ quoted ''self'' @
     ''; connect-src '' @ quoted ''self'' @ ''; object-src '' @ quoted ''none'' @
     ''; base-uri '' @ quoted ''self'' @ ''; form-action '' @ quoted ''self'' @
     ''; frame-ancestors '' @ quoted ''none''"

definition DENIED_FEATURES :: "string list" where
  "DENIED_FEATURES = [''accelerometer'', ''autoplay'', ''camera'', ''display-capture'', ''encrypted-media'',
     ''fullscreen'', ''geolocation'', ''gyroscope'', ''magnetometer'', ''microphone'', ''midi'',
     ''payment'', ''usb'', ''xr-spatial-tracking'']"

fun join :: "string \<Rightarrow> string list \<Rightarrow> string" where
  "join sep [] = []"
| "join sep [x] = x"
| "join sep (x # xs) = x @ sep @ join sep xs"

definition PERMISSIONS_POLICY :: string where
  "PERMISSIONS_POLICY = join '', '' (map (\<lambda>f. f @ ''=()'') DENIED_FEATURES)"

definition build_security_headers :: "bool \<Rightarrow> (string \<times> string) list" where
  "build_security_headers dev_mode =
     [(''Content-Security-Policy'', CONTENT_SECURITY_POLICY), (''X-Frame-Options'', ''DENY''),
      (''X-Content-Type-Options'', ''nosniff''),
      (''Referrer-Policy'', ''strict-origin-when-cross-origin''),
      (''Permissions-Policy'', PERMISSIONS_POLICY),
      (''Cross-Origin-Opener-Policy'', ''same-origin'')] @
     (if dev_mode then []
      else [(''Strict-Transport-Security'', ''max-age=31536000; includeSubDomains'')])"

definition secured :: "bool \<Rightarrow> (string \<times> string) list \<Rightarrow> (string \<times> string) list" where
  "secured dev_mode hs =
     fold (\<lambda>(name, value) hs. if has_header name hs then hs else hs @ [(name, value)])
       (build_security_headers dev_mode) hs"

section \<open>Lemmas\<close>

lemma has_header_fold:
  "has_header n hs \<or> n \<in> fst ` set ps \<Longrightarrow> has_header n
     (fold (\<lambda>(name, value) hs. if has_header name hs then hs else hs @ [(name, value)]) ps hs)"
proof (induction ps arbitrary: hs)
  case (Cons p ps)
  obtain a b where p: "p = (a, b)" by (cases p)
  have "has_header n (if has_header a hs then hs else hs @ [(a, b)])"
    if "has_header n hs \<or> n = a"
    using that by (auto simp: has_header_def)
  then show ?case using Cons by (auto simp: p)
qed simp

lemma csrf_check_Inr:
  "csrf_check t r = Inr () \<longleftrightarrow> \<not> needs_origin_check r \<or>
     origin_allowed t (py_or (hr_origin r) (hr_referer r)) (hr_host r) = Inr True"
  by (cases "origin_allowed t (py_or (hr_origin r) (hr_referer r)) (hr_host r)")
    (auto simp: csrf_check_def)

section \<open>Properties\<close>

text \<open>No cookie drives a write from elsewhere: when a state-changing request to the API
  (outside \<^verbatim>\<open>/api/auth/\<close>) passes the CSRF check and its token is the one of the
  cookie, its Origin (or Referer) names the request's own host or a configured trusted one.\<close>

lemma cookie_writes_are_same_origin:
  assumes "csrf_check trusted r = Inr ()"
    and "hr_method r \<notin> set CSRF_SAFE_METHODS" and "starts_with ''/api/'' (hr_path r)"
    and "\<not> starts_with ''/api/auth/'' (hr_path r)"
    and "extract_token (hr_authorization r) (hr_cookie r) = Inr token"
    and "extract_token (hr_authorization r) None \<noteq> Inr token"
  shows "hr_cookie r = Some token \<and>
    (\<exists>src host. py_or (hr_origin r) (hr_referer r) = Some src \<and> netloc src = Inr host \<and> host \<noteq> [] \<and>
       (hr_host r = Some host \<or> host \<in> set (trusted_origin_set trusted)))"
proof -
  have bearer: "\<not> starts_with ''Bearer '' (case hr_authorization r of None \<Rightarrow> [] | Some a \<Rightarrow> a)"
  proof
    assume b: "starts_with ''Bearer '' (case hr_authorization r of None \<Rightarrow> [] | Some a \<Rightarrow> a)"
    then obtain a where a: "hr_authorization r = Some a" "starts_with ''Bearer '' a"
      by (cases "hr_authorization r") (auto simp: starts_with_def)
    then have "a \<noteq> []" by (auto simp: starts_with_def)
    with a have "extract_token (hr_authorization r) c = Inr (drop (length ''Bearer '') a)" for c
      by (simp add: extract_token_def)
    then show False using assms(5,6) by metis
  qed
  have "\<not> (truthy (hr_authorization r) \<and> starts_with ''Bearer '' (the (hr_authorization r)))"
    using bearer by (cases "hr_authorization r") auto
  then have cookie: "hr_cookie r = Some token"
    using assms(5) by (cases "hr_cookie r") (auto simp: extract_token_def split: if_splits)
  then have "needs_origin_check r"
    using assms(2-4) bearer by (simp add: needs_origin_check_def)
  then have "origin_allowed trusted (py_or (hr_origin r) (hr_referer r)) (hr_host r) = Inr True"
    using assms(1) by (simp add: csrf_check_Inr)
  then show ?thesis
    using cookie
    by (cases "py_or (hr_origin r) (hr_referer r)"; cases "hr_host r")
      (auto simp: origin_allowed_def split: if_splits sum.splits)
qed

lemma cookie_writes_are_same_origin_witness:
  "netloc ''https://ttx.example.com/x?y'' = Inr ''ttx.example.com'' \<and>
   csrf_check [] \<lparr>hr_method = ''POST'', hr_path = ''/api/exercises/1'', hr_host = Some ''ttx.example.com'',
     hr_origin = Some ''https://ttx.example.com/x?y'', hr_referer = None, hr_authorization = None,
     hr_cookie = Some ''t''\<rparr> = Inr ()"
proof -
  let ?r = "\<lparr>hr_method = ''POST'', hr_path = ''/api/exercises/1'', hr_host = Some ''ttx.example.com'',
     hr_origin = Some ''https://ttx.example.com/x?y'', hr_referer = None, hr_authorization = None,
     hr_cookie = Some ''t''\<rparr>"
  have h: "csrf_check [] ?r = Inr ()" "hr_method ?r \<notin> set CSRF_SAFE_METHODS"
    "starts_with ''/api/'' (hr_path ?r)" "\<not> starts_with ''/api/auth/'' (hr_path ?r)"
    "extract_token (hr_authorization ?r) (hr_cookie ?r) = Inr ''t''"
    "extract_token (hr_authorization ?r) None \<noteq> Inr ''t''" by code_simp+
  have s: "py_or (hr_origin ?r) (hr_referer ?r) = Some ''https://ttx.example.com/x?y''"
    "trusted_origin_set [] = []" "hr_host ?r = Some ''ttx.example.com''" by code_simp+
  from cookie_writes_are_same_origin [OF h] s show ?thesis using h(1) by auto
qed

end
