(* ===== verification/Ws_Projector.thy ===== *)
theory Ws_Projector
  imports Ws_Manager Middleware
begin

text \<open>
  What goes on the wire: the projection of a domain event to frames
  (\<^verbatim>\<open>app/services/ws_projector.py\<close>), the relay of events recorded elsewhere
  (\<^verbatim>\<open>ws_relay.py\<close>) and the socket endpoint with its heartbeat
  (\<^verbatim>\<open>app/routers/ws.py\<close>).

  A handler gets ids, reads the rows itself and tolerates a missing one; a handler that raises
  is caught by \<open>project\<close>.
\<close>

section \<open>The handlers\<close>

definition make_frame :: "string \<Rightarrow> int \<Rightarrow> frame_payload \<Rightarrow> string \<Rightarrow> frame" where
  "make_frame kind exercise_id payload timestamp =
     \<lparr>fr_type = kind, fr_exercise_id = exercise_id, fr_timestamp = timestamp,
      fr_payload = payload\<rparr>"

text \<open>What a handler works with: the clients, the clock and the tables it reads.\<close>

record projection =
  pj_drains :: "int \<Rightarrow> frame \<Rightarrow> bool"
  pj_now :: instant
  pj_db :: database

type_synonym handler_run = "ws_world \<Rightarrow> (exn + unit) \<times> ws_world"

definition stamped :: "projection \<Rightarrow> string \<Rightarrow> int \<Rightarrow> frame_payload \<Rightarrow> frame" where
  "stamped p kind exercise_id payload = make_frame kind exercise_id payload (isoformat (pj_now p))"

definition state_change_of :: "int \<Rightarrow> int \<Rightarrow> state_transition \<Rightarrow> exercise \<Rightarrow> state_change" where
  "state_change_of e tid t ex =
     \<lparr>sq_transition_id = tid, sq_exercise_id = e, sq_previous_state = st_from_state t,
      sq_new_state = st_to_state t, sq_state = st_to_state t, sq_actor_id = st_actor_id t,
      sq_transitioned_at = isoformat (st_transitioned_at t),
      sq_started_at = map_option isoformat (ex_started_at ex),
      sq_ended_at = map_option isoformat (ex_ended_at ex),
      sq_paused_at = map_option isoformat (ex_paused_at ex),
      sq_accumulated_pause = ex_accumulated_pause ex\<rparr>"

definition on_exercise_state_changed :: "projection \<Rightarrow> int \<Rightarrow> int \<Rightarrow> handler_run" where
  "on_exercise_state_changed p e tid w =
     (case get_transition (pj_db p) tid of
        None \<Rightarrow> (Inr (), w)
      | Some t \<Rightarrow>
          (case get_exercise (pj_db p) e of
             None \<Rightarrow> (Inr (), w)
           | Some ex \<Rightarrow>
               (Inr (), broadcast_to_exercise (pj_drains p) e
                  (make_frame ''exercise_state_change'' e (StatePayload (state_change_of e tid t ex))
                     (isoformat (st_transitioned_at t))) None w)))"

definition on_inject_released :: "projection \<Rightarrow> int \<Rightarrow> int \<Rightarrow> handler_run" where
  "on_inject_released p e i w =
     (case get_inject (pj_db p) i of
        None \<Rightarrow> (Inr (), w)
      | Some ij \<Rightarrow>
          (case inject_payload (pj_db p) ij False None of
             Inl x \<Rightarrow> (Inl x, w)
           | Inr base \<Rightarrow>
               (case inject_payload (pj_db p) ij True None of
                  Inl x \<Rightarrow> (Inl x, w)
                | Inr full \<Rightarrow>
                    let bf = stamped p ''inject_released'' e (InjectPayload base);
                        ff = stamped p ''inject_released'' e (InjectPayload full)
                    in (Inr (),
                        case inject_target_groups ij of
                          Some (g # gs) \<Rightarrow> broadcast_to_groups (pj_drains p) e (g # gs) bf (Some ff) w
                        | _ \<Rightarrow> broadcast_to_exercise (pj_drains p) e bf (Some ff) w))))"

definition on_inject_updated :: "projection \<Rightarrow> int \<Rightarrow> int \<Rightarrow> handler_run" where
  "on_inject_updated p e i w =
     (case get_inject (pj_db p) i of
        None \<Rightarrow> (Inr (), w)
      | Some ij \<Rightarrow>
          (case inject_payload (pj_db p) ij True None of
             Inl x \<Rightarrow> (Inl x, w)
           | Inr full \<Rightarrow>
               (Inr (), send_to_facilitators (pj_drains p) e
                  (stamped p ''inject_updated'' e (InjectPayload full)) w)))"

definition on_inject_comment_created :: "projection \<Rightarrow> int \<Rightarrow> int \<Rightarrow> handler_run" where
  "on_inject_comment_created p e i w =
     (case get_comment (pj_db p) i of
        None \<Rightarrow> (Inr (), w)
      | Some c \<Rightarrow>
          let f = stamped p ''inject_comment_created'' e (CommentPayload (comment_payload (pj_db p) c))
          in (Inr (),
              if truthy (ic_group_id c)
              then broadcast_to_groups (pj_drains p) e [the (ic_group_id c)] f None w
              else broadcast_to_exercise (pj_drains p) e f None w))"

definition on_response_submitted :: "projection \<Rightarrow> int \<Rightarrow> int \<Rightarrow> handler_run" where
  "on_response_submitted p e i w =
     (case get_response (pj_db p) i of
        None \<Rightarrow> (Inr (), w)
      | Some r \<Rightarrow>
          (case compute_next_inject_ids (pj_db p) e (rs_inject_id r) (rs_selected_option r) of
             Inl x \<Rightarrow> (Inl x, w)
           | Inr ids \<Rightarrow>
               let nexts = pending_next_injects (pj_db p) e ids (rs_group_id r);
                   payload = \<lparr>rf_response = response_payload r None None,
                              rf_next_inject_ids = map nx_scenario_node_id nexts,
                              rf_next_injects = nexts,
                              rf_progression = progression_snapshot (pj_db p) e None True\<rparr>
               in (Inr (), send_to_facilitators (pj_drains p) e
                     (stamped p ''response_submitted'' e (ResponsePayload payload)) w)))"

text \<open>The frame is built without a session: the stored sender team and the stored audience.\<close>

definition on_communication_created :: "projection \<Rightarrow> int \<Rightarrow> int \<Rightarrow> handler_run" where
  "on_communication_created p e i w =
     (case get_communication (pj_db p) i of
        None \<Rightarrow> (Inr (), w)
      | Some c \<Rightarrow>
          (case comm_payload None c None None of
             Inl x \<Rightarrow> (Inl x, w)
           | Inr q \<Rightarrow>
               let f = stamped p ''communication_received'' e (CommPayload q)
               in (Inr (),
                   if cm_direction c = Outbound
                   then (case cm_visible_to_teams c of
                           Some (t # ts) \<Rightarrow> send_to_facilitators_user_and_groups (pj_drains p) e
                             (cm_sender_id c) (t # ts) f w
                         | _ \<Rightarrow> send_to_facilitators_and_user (pj_drains p) e (cm_sender_id c) f w)
                   else (case cm_visible_to_teams c of
                           Some (t # ts) \<Rightarrow> broadcast_to_groups (pj_drains p) e (t # ts) f None w
                         | _ \<Rightarrow> broadcast_to_exercise (pj_drains p) e f None w))))"

definition on_response_assessed :: "projection \<Rightarrow> int \<Rightarrow> int \<Rightarrow> int \<Rightarrow> handler_run" where
  "on_response_assessed p e r a w =
     (case get_assessment (pj_db p) a of
        None \<Rightarrow> (Inr (), w)
      | Some x \<Rightarrow> (Inr (), send_to_facilitators (pj_drains p) e
                    (stamped p ''assessment_ready'' e (AssessmentPayload r (assessment_payload x))) w))"

definition on_inject_suggested :: "projection \<Rightarrow> int \<Rightarrow> int \<Rightarrow> handler_run" where
  "on_inject_suggested p e i w =
     (case get_suggestion (pj_db p) i of
        None \<Rightarrow> (Inr (), w)
      | Some x \<Rightarrow> (Inr (), send_to_facilitators (pj_drains p) e
                    (stamped p ''inject_suggested'' e (SuggestedPayload (suggested_payload x))) w))"

definition on_summary_generated :: "projection \<Rightarrow> int \<Rightarrow> int \<Rightarrow> handler_run" where
  "on_summary_generated p e i w =
     (case get_summary (pj_db p) i of
        None \<Rightarrow> (Inr (), w)
      | Some x \<Rightarrow> (Inr (), send_to_facilitators (pj_drains p) e
                    (stamped p ''summary_ready'' e (SummaryPayload (summary_payload x))) w))"

section \<open>The registry\<close>

datatype ws_handler = OnExerciseStateChanged | OnInjectReleased | OnInjectUpdated
  | OnInjectCommentCreated | OnResponseSubmitted | OnCommunicationCreated
  | OnResponseAssessed | OnInjectSuggested | OnSummaryGenerated

definition wrong_event :: handler_run where
  "wrong_event w = (Inl (RuntimeError ''not an event of this handler''), w)"

definition run_handler :: "projection \<Rightarrow> ws_handler \<Rightarrow> domain_event \<Rightarrow> handler_run" where
  "run_handler p h ev =
     (case h of
        OnExerciseStateChanged \<Rightarrow> (case ev of ExerciseStateChanged e t a \<Rightarrow> on_exercise_state_changed p e t | _ \<Rightarrow> wrong_event)
      | OnInjectReleased \<Rightarrow> (case ev of InjectReleased e i \<Rightarrow> on_inject_released p e i | _ \<Rightarrow> wrong_event)
      | OnInjectUpdated \<Rightarrow> (case ev of InjectUpdated e i \<Rightarrow> on_inject_updated p e i | _ \<Rightarrow> wrong_event)
      | OnInjectCommentCreated \<Rightarrow> (case ev of InjectCommentCreated e i \<Rightarrow> on_inject_comment_created p e i | _ \<Rightarrow> wrong_event)
      | OnResponseSubmitted \<Rightarrow> (case ev of ResponseSubmitted e i \<Rightarrow> on_response_submitted p e i | _ \<Rightarrow> wrong_event)
      | OnCommunicationCreated \<Rightarrow> (case ev of CommunicationCreated e i \<Rightarrow> on_communication_created p e i | _ \<Rightarrow> wrong_event)
      | OnResponseAssessed \<Rightarrow> (case ev of ResponseAssessed e r a \<Rightarrow> on_response_assessed p e r a | _ \<Rightarrow> wrong_event)
      | OnInjectSuggested \<Rightarrow> (case ev of InjectSuggested e i \<Rightarrow> on_inject_suggested p e i | _ \<Rightarrow> wrong_event)
      | OnSummaryGenerated \<Rightarrow> (case ev of SummaryGenerated e i \<Rightarrow> on_summary_generated p e i | _ \<Rightarrow> wrong_event))"

definition ws_registry :: "ws_handler registry" where
  "ws_registry =
     fold (\<lambda>(ty, h). subscribe ty h)
       [(TyExerciseStateChanged, OnExerciseStateChanged), (TyInjectReleased, OnInjectReleased),
        (TyInjectUpdated, OnInjectUpdated), (TyInjectCommentCreated, OnInjectCommentCreated),
        (TyResponseSubmitted, OnResponseSubmitted), (TyCommunicationCreated, OnCommunicationCreated),
        (TyResponseAssessed, OnResponseAssessed), (TyInjectSuggested, OnInjectSuggested),
        (TySummaryGenerated, OnSummaryGenerated)]
       \<lparr>subscribers = (\<lambda>_. []), local_only = []\<rparr>"

definition projected :: "projection \<Rightarrow> bool \<Rightarrow> domain_event \<Rightarrow> ws_world \<Rightarrow> ws_world" where
  "projected p is_local ev = project (run_handler p) ws_registry is_local ev"

text \<open>What a replica's own sockets see of the events its sessions dispatched.\<close>

definition project_dispatched ::
  "(int \<Rightarrow> frame \<Rightarrow> bool) \<Rightarrow> instant \<Rightarrow> (database \<times> domain_event) list \<Rightarrow> ws_world \<Rightarrow> ws_world" where
  "project_dispatched drains now =
     fold (\<lambda>(d, ev). projected \<lparr>pj_drains = drains, pj_now = now, pj_db = d\<rparr> True ev)"

section \<open>The relay\<close>

definition rebuild_pair :: "event_type \<Rightarrow> int \<Rightarrow> int \<Rightarrow> domain_event option" where
  "rebuild_pair ty e i =
     (case ty of
        TyInjectReleased \<Rightarrow> Some (InjectReleased e i)
      | TyInjectUpdated \<Rightarrow> Some (InjectUpdated e i)
      | TyInjectCommentCreated \<Rightarrow> Some (InjectCommentCreated e i)
      | TyResponseSubmitted \<Rightarrow> Some (ResponseSubmitted e i)
      | TyCommunicationCreated \<Rightarrow> Some (CommunicationCreated e i)
      | TyInjectSuggested \<Rightarrow> Some (InjectSuggested e i)
      | TySummaryGenerated \<Rightarrow> Some (SummaryGenerated e i)
      | _ \<Rightarrow> None)"

definition rebuild :: "event_type \<times> descriptor \<Rightarrow> domain_event option" where
  "rebuild tf =
     (case map snd (snd tf) of
        [JInt e, JInt i] \<Rightarrow> rebuild_pair (fst tf) e i
      | [JInt e, JInt t, JStr a] \<Rightarrow>
          if fst tf = TyExerciseStateChanged then Some (ExerciseStateChanged e t a) else None
      | [JInt e, JInt r, JInt a] \<Rightarrow>
          if fst tf = TyResponseAssessed then Some (ResponseAssessed e r a) else None
      | _ \<Rightarrow> None)"

text \<open>A descriptor whose fields have the wrong type makes its handler raise: no frame.\<close>

definition relay :: "string \<Rightarrow> int list \<Rightarrow> projection \<Rightarrow> descriptor \<Rightarrow> ws_world \<Rightarrow> ws_world" where
  "relay me es p d w =
     (if is_own me d then w
      else if map_of d ''event'' = Some (JStr ''user_connections_close'')
      then (case map_of d ''user_id'' of Some (JInt u) \<Rightarrow> close_user_connections es u 4003 w | _ \<Rightarrow> w)
      else (case from_descriptor d of None \<Rightarrow> w
            | Some tf \<Rightarrow> (case rebuild tf of None \<Rightarrow> w | Some ev \<Rightarrow> projected p False ev w)))"

definition user_connections_close :: "string \<Rightarrow> int \<Rightarrow> descriptor" where
  "user_connections_close orig u =
     envelope orig [(''event'', JStr ''user_connections_close''), (''user_id'', JInt u)]"

section \<open>The socket endpoint\<close>

text \<open>The group bucket of a socket, or \<open>None\<close> when the user may not be here.\<close>

definition socket_group :: "database \<Rightarrow> int \<Rightarrow> current_user \<Rightarrow> string option option" where
  "socket_group d e u =
     (let m = exercise_member_for_user d e (u_id u);
          g = (case m of None \<Rightarrow> None | Some x \<Rightarrow> em_group_id x)
      in if u_role u = Participant
         then (if is_actual_facilitator u then Some (if truthy g then g else u_team u)
               else (case m of None \<Rightarrow> None | Some x \<Rightarrow> Some (em_group_id x)))
         else Some g)"

record handshake =
  hs_cookie :: "string option"
  hs_origin :: "string option"
  hs_host :: "string option"
  hs_view_role :: "string option"
  hs_view_team :: "string option"

definition close_socket :: "int \<Rightarrow> int \<Rightarrow> ws_world \<Rightarrow> ws_world" where
  "close_socket ws code = close_sockets [ws] (Some code)"

definition ws_accept ::
  "(string \<Rightarrow> claims option) \<Rightarrow> string \<Rightarrow> int \<Rightarrow> int \<Rightarrow> handshake \<Rightarrow> instant \<Rightarrow> database \<Rightarrow> handler_run" where
  "ws_accept decode trusted ws e h now d w =
     (if \<not> truthy (hs_cookie h) then (Inr (), close_socket ws 4001 w)
      else (case origin_allowed trusted (hs_origin h) (hs_host h) of
        Inl x \<Rightarrow> (Inl x, w)
      | Inr False \<Rightarrow> (Inr (), close_socket ws 4003 w)
      | Inr True \<Rightarrow>
          (case resolve_user_from_token decode d (the (hs_cookie h)) (hs_view_role h) (hs_view_team h) of
             Inl x \<Rightarrow> (Inl x, w)
           | Inr None \<Rightarrow> (Inr (), close_socket ws 4001 w)
           | Inr (Some u) \<Rightarrow>
               (case require_exercise_access d e u of
                  Inl x \<Rightarrow> (Inr (), close_socket ws 4003 w)
                | Inr ex \<Rightarrow>
                    (case socket_group d e u of
                       None \<Rightarrow> (Inr (), close_socket ws 4003 w)
                     | Some g \<Rightarrow> (Inr (), connect ws e (u_id u) (u_role u) g now w))))))"

definition pong :: "int \<Rightarrow> instant \<Rightarrow> frame" where
  "pong e now = make_frame ''pong'' e EmptyPayload (isoformat now)"

text \<open>A heartbeat: the token, the access and the group are checked again; a failed check closes the
  socket and leaves the room.\<close>

definition ws_ping ::
  "(string \<Rightarrow> claims option) \<Rightarrow> int \<Rightarrow> int \<Rightarrow> int \<Rightarrow> handshake \<Rightarrow> instant \<Rightarrow> database \<Rightarrow> handler_run" where
  "ws_ping decode ws e user_id h now d w =
     (let bye = (\<lambda>code. (Inr (), disconnect ws e (close_socket ws code w)))
      in case resolve_user_from_token decode d (the (hs_cookie h)) (hs_view_role h) (hs_view_team h) of
           Inl x \<Rightarrow> (Inl x, disconnect ws e w)
         | Inr None \<Rightarrow> bye 4001
         | Inr (Some u) \<Rightarrow>
             (case require_exercise_access d e u of
                Inl x \<Rightarrow> bye 4003
              | Inr ex \<Rightarrow>
                  (case socket_group d e (u\<lparr>u_id := user_id\<rparr>) of
                     None \<Rightarrow> bye 4003
                   | Some g \<Rightarrow>
                       let w1 = ping ws e now (refresh_authorization ws e (u_role u) g w)
                       in (Inr (), w1\<lparr>heard := heard w1 @ [(ws, pong e now)]\<rparr>))))"

section \<open>Lemmas\<close>

lemma ws_handlers:
  "handlers_for ws_registry is_local ty =
     (case ty of
        TyExerciseStateChanged \<Rightarrow> [OnExerciseStateChanged] | TyInjectReleased \<Rightarrow> [OnInjectReleased]
      | TyInjectUpdated \<Rightarrow> [OnInjectUpdated] | TyInjectCommentCreated \<Rightarrow> [OnInjectCommentCreated]
      | TyResponseSubmitted \<Rightarrow> [OnResponseSubmitted] | TyCommunicationCreated \<Rightarrow> [OnCommunicationCreated]
      | TyResponseAssessed \<Rightarrow> [OnResponseAssessed] | TyInjectSuggested \<Rightarrow> [OnInjectSuggested]
      | TySummaryGenerated \<Rightarrow> [OnSummaryGenerated])"
  by (cases ty) (simp_all add: handlers_for_def ws_registry_def subscribe_def)

lemma projected_simps:
  "projected p l (ExerciseStateChanged e t a) w = snd (on_exercise_state_changed p e t w)"
  "projected p l (InjectReleased e i) w = snd (on_inject_released p e i w)"
  "projected p l (InjectUpdated e i) w = snd (on_inject_updated p e i w)"
  "projected p l (InjectCommentCreated e i) w = snd (on_inject_comment_created p e i w)"
  "projected p l (ResponseSubmitted e i) w = snd (on_response_submitted p e i w)"
  "projected p l (CommunicationCreated e i) w = snd (on_communication_created p e i w)"
  "projected p l (ResponseAssessed e r b) w = snd (on_response_assessed p e r b w)"
  "projected p l (InjectSuggested e i) w = snd (on_inject_suggested p e i w)"
  "projected p l (SummaryGenerated e i) w = snd (on_summary_generated p e i w)"
  by (simp_all add: projected_def project_def ws_handlers run_handler_def
      split: prod.splits sum.splits)

lemma rebuild_asdict: "rebuild (event_type_of ev, asdict ev) = Some ev"
  by (cases ev) (simp_all add: asdict_def rebuild_def rebuild_pair_def)

text \<open>The payloads one socket heard.\<close>

definition payloads_heard :: "int \<Rightarrow> ws_world \<Rightarrow> frame_payload set" where
  "payloads_heard ws w = fr_payload ` {m. (ws, m) \<in> set (heard w)}"

lemma payloads_heard_split:
  assumes "distinct (map cn_ws conns)" and "c \<in> set conns" and "heard w = []"
    and "\<forall>m. drains (cn_ws c) m"
  shows "payloads_heard (cn_ws c) (send_split drains conns m f w) =
    {fr_payload (case f of None \<Rightarrow> m | Some full \<Rightarrow> if cn_role c = Facilitator then full else m)}"
proof -
  have same: "k = c" if "k \<in> set conns" "cn_ws k = cn_ws c" for k
    using that assms(1,2) by (auto simp: distinct_map inj_on_def)
  have mem: "(cn_ws c, x) \<in> (\<lambda>k. (cn_ws k, y)) ` {k \<in> set conns. P k} \<longleftrightarrow> x = y \<and> P c" for x y P
  proof -
    have "(cn_ws c, x) \<in> (\<lambda>k. (cn_ws k, y)) ` {k \<in> set conns. P k} \<longleftrightarrow>
        (\<exists>k\<in>set conns. P k \<and> cn_ws k = cn_ws c \<and> x = y)"
      by (simp only: image_iff mem_Collect_eq prod.inject bex_simps) auto
    then show ?thesis using assms(2) same by blast
  qed
  have dr: "drains (cn_ws c) m'" for m' using assms(4) by blast
  show ?thesis
    unfolding payloads_heard_def split_heard
    using assms(3) by (cases f) (auto simp: mem dr)
qed

lemma payloads_heard_absent:
  assumes "cn_ws c \<notin> cn_ws ` set conns" and "heard w = []"
  shows "payloads_heard (cn_ws c) (send_split drains conns m f w) = {}"
  unfolding payloads_heard_def split_heard
  using assms by (cases f) (auto simp: image_iff)

lemma payloads_heard_filter:
  assumes "distinct (map cn_ws conns)" and "c \<in> set conns" and "heard w = []"
    and "\<forall>m. drains (cn_ws c) m"
  shows "payloads_heard (cn_ws c) (send_split drains (filter p conns) m f w) =
    (if p c then {fr_payload (case f of None \<Rightarrow> m | Some full \<Rightarrow> if cn_role c = Facilitator then full else m)}
     else {})"
proof (cases "p c")
  case True
  then show ?thesis
    using payloads_heard_split [of "filter p conns" c w drains m f] assms
    by (simp add: distinct_map_filter)
next
  case False
  have "cn_ws c \<notin> cn_ws ` set (filter p conns)"
    using assms(1,2) False by (auto simp: distinct_map inj_on_def)
  then show ?thesis using False assms(3) by (simp add: payloads_heard_absent)
qed

lemma payloads_heard_many:
  assumes "distinct (map cn_ws (room_of w e))" and "c \<in> set (room_of w e)" and "heard w = []"
    and "\<forall>m. drains (cn_ws c) m"
  shows "payloads_heard (cn_ws c) (send_to_many drains (matching e p w) m w) =
    (if p c then {fr_payload m} else {})"
proof -
  have "cn_ws c \<in> cn_ws ` set (matching e p w) \<longleftrightarrow> p c"
    using assms(1,2) unfolding matching_set by (auto simp: distinct_map inj_on_def)
  moreover have "drains (cn_ws c) m" using assms(4) by blast
  ultimately have "{x. (cn_ws c, x) \<in> set (heard (send_to_many drains (matching e p w) m w))} =
      (if p c then {m} else {})"
    using assms(3) by (auto simp: send_to_many_heard image_iff)
  then show ?thesis by (simp add: payloads_heard_def)
qed

lemma target_groups_match:
  assumes "ij_group_id ij \<noteq> Some []"
  shows "inject_matches_group ij g None \<longleftrightarrow>
    (case inject_target_groups ij of Some (t # ts) \<Rightarrow> in_groups (t # ts) g | _ \<Rightarrow> True)"
proof (cases "ij_group_id ij")
  case None
  then show ?thesis
    by (auto simp: inject_matches_group_def inject_target_groups_def in_groups_def
        split: option.splits list.splits)
next
  case (Some x)
  then show ?thesis
    using assms by (cases g) (auto simp: inject_matches_group_def inject_target_groups_def in_groups_def)
qed

section \<open>A room for the witnesses\<close>

definition demo_room :: ws_world where
  "demo_room = connect 3 1 13 Participant (Some ''blue'') 0 (connect 2 1 12 Participant (Some ''red'') 0
     (connect 1 1 10 Facilitator None 0 empty_ws))"

definition demo_blue :: connection where
  "demo_blue = \<lparr>cn_ws = 3, cn_user_id = 13, cn_role = Participant, cn_group_id = Some ''blue'',
     cn_last_ping = 0\<rparr>"

definition demo_red :: connection where
  "demo_red = \<lparr>cn_ws = 2, cn_user_id = 12, cn_role = Participant, cn_group_id = Some ''red'',
     cn_last_ping = 0\<rparr>"

definition demo_comment :: inject_comment where
  "demo_comment = \<lparr>ic_id = 1, ic_inject_id = 1, ic_exercise_id = 1, ic_user_id = 12,
     ic_group_id = Some ''red'', ic_content = ''on it'', ic_created_at = 5\<rparr>"

definition demo_projection :: projection where
  "demo_projection = \<lparr>pj_drains = (\<lambda>i m. i \<noteq> 1), pj_now = 9,
     pj_db = demo_comm_db\<lparr>injects := [demo_inject 1 ''a'' None Released, demo_inject 2 ''b'' (Some ''red'') Released],
        comments := [demo_comment]\<rparr>\<rparr>"

definition demo_handshake :: handshake where
  "demo_handshake = \<lparr>hs_cookie = Some ''t'', hs_origin = Some ''https://ttx'', hs_host = Some ''ttx'',
     hs_view_role = None, hs_view_team = None\<rparr>"

definition demo_decode :: "string \<Rightarrow> claims option" where
  "demo_decode t = Some \<lparr>claim_sub = Some (u_email (demo_user 12 Participant None)), claim_iat = Some 0\<rparr>"

lemma demo_room_facts:
  "distinct (map cn_ws (room_of demo_room 1))" "demo_blue \<in> set (room_of demo_room 1)"
  "demo_red \<in> set (room_of demo_room 1)" "heard demo_room = []"
  "\<forall>m. pj_drains demo_projection (cn_ws demo_blue) m"
  "\<forall>m. pj_drains demo_projection (cn_ws demo_red) m"
  by (simp_all add: demo_room_def room_of_def connect_def empty_ws_def demo_blue_def demo_red_def
      demo_projection_def)

section \<open>Properties\<close>

text \<open>C10: the release of an inject reaches exactly the sockets that may see it, redacted: a socket of
  the exercise hears the released inject if and only if the HTTP rules show that inject to a user
  of its role and group; a facilitator gets the branch topology with it, everyone else the
  payload without; and other clients that stall change nothing of it.\<close>

theorem release_reaches_its_audience:
  assumes "get_inject (pj_db p) i = Some ij" and "ij_state ij \<noteq> Pending"
    and "ij_group_id ij \<noteq> Some []"
    and "inject_payload (pj_db p) ij False None = Inr base"
    and "inject_payload (pj_db p) ij True None = Inr full"
    and "distinct (map cn_ws (room_of w e))" and "c \<in> set (room_of w e)" and "heard w = []"
    and "\<forall>m. pj_drains p (cn_ws c) m" and "u_role u = cn_role c"
  shows "payloads_heard (cn_ws c) (projected p l (InjectReleased e i) w) =
    (if inject_visible_to ij u (cn_group_id c)
     then {InjectPayload (if cn_role c = Facilitator then full else base)} else {})"
proof -
  have vis: "inject_visible_to ij u (cn_group_id c) \<longleftrightarrow> cn_role c \<in> {Facilitator, Observer} \<or>
      (case inject_target_groups ij of Some (t # ts) \<Rightarrow> in_groups (t # ts) (cn_group_id c) | _ \<Rightarrow> True)"
    using assms(2,10) target_groups_match [OF assms(3)] by (auto simp: inject_visible_to_iff)
  show ?thesis
  proof (cases "\<exists>t ts. inject_target_groups ij = Some (t # ts)")
    case True
    then obtain t ts where t: "inject_target_groups ij = Some (t # ts)" by blast
    show ?thesis
      unfolding projected_simps on_inject_released_def vis
      using payloads_heard_filter [where drains = "pj_drains p" and c = c and w = w and
        conns = "room_of w e", OF assms(6-9), of "\<lambda>c. in_groups (t # ts) (cn_group_id c) \<or>
          cn_role c \<in> {Facilitator, Observer}"]
      by (simp add: assms(1,4,5) t Let_def broadcast_to_groups_def stamped_def make_frame_def disj_commute)
  next
    case False
    then have all: "inject_visible_to ij u (cn_group_id c)"
      unfolding vis by (auto split: option.splits list.splits)
    have "snd (on_inject_released p e i w) = broadcast_to_exercise (pj_drains p) e
        (stamped p ''inject_released'' e (InjectPayload base))
        (Some (stamped p ''inject_released'' e (InjectPayload full))) w"
      using False by (auto simp: on_inject_released_def assms(1,4,5) Let_def split: option.splits list.splits)
    then show ?thesis
      using payloads_heard_split [where drains = "pj_drains p" and c = c and w = w and
        conns = "room_of w e", OF assms(6-9)] all
      by (simp add: projected_simps broadcast_to_exercise_def stamped_def make_frame_def)
  qed
qed

theorem release_reaches_its_audience_witness:
  "payloads_heard 3 (projected demo_projection True (InjectReleased 1 2) demo_room) = {} \<and>
   is_ok (inject_payload (pj_db demo_projection) (demo_inject 2 ''b'' (Some ''red'') Released) False None)"
proof -
  let ?i = "demo_inject 2 ''b'' (Some ''red'') Released" and ?d = "pj_db demo_projection"
  have ok: "is_ok (inject_payload ?d ?i False None)" "is_ok (inject_payload ?d ?i True None)"
    by code_simp+
  then obtain base full where pl: "inject_payload ?d ?i False None = Inr base"
      "inject_payload ?d ?i True None = Inr full"
    by (auto simp: is_ok_iff)
  let ?u = "plain_user (demo_user 13 Participant None)"
  have h: "get_inject ?d 2 = Some ?i" "ij_state ?i \<noteq> Pending" "ij_group_id ?i \<noteq> Some []"
    "u_role ?u = cn_role demo_blue" "\<not> inject_visible_to ?i ?u (cn_group_id demo_blue)"
    "cn_ws demo_blue = 3" by code_simp+
  show ?thesis
    using release_reaches_its_audience [OF h(1-3) pl demo_room_facts(1,2,4,5) h(4), of True]
      ok(1) h(5) unfolding h(6) by simp
qed

text \<open>A comment stays in its thread: the frame of a comment with a team thread reaches exactly
  the sockets whose users the list of comments shows it to, facilitators and observers in any
  team, participants in that team only.\<close>

lemma comment_stays_in_its_thread:
  assumes "get_comment (pj_db p) k = Some cm" and "ic_group_id cm = Some g" and "g \<noteq> []"
    and "rows (ic_inject_id cm) = Some ij" and "ij_state ij \<noteq> Pending"
    and "inject_matches_group ij (Some g) None"
    and "distinct (map cn_ws (room_of w e))" and "c \<in> set (room_of w e)" and "heard w = []"
    and "\<forall>m. pj_drains p (cn_ws c) m" and "u_role u = cn_role c"
  shows "payloads_heard (cn_ws c) (projected p l (InjectCommentCreated e k) w) =
    (if can_see_comment cm u rows (cn_group_id c)
     then {CommentPayload (comment_payload (pj_db p) cm)} else {})"
proof -
  have "can_see_comment cm u rows (cn_group_id c) \<longleftrightarrow>
      in_groups [g] (cn_group_id c) \<or> cn_role c \<in> {Facilitator, Observer}"
    using assms(2,4-6,11)
    by (cases "cn_role c")
      (auto simp: can_see_comment_def inject_visible_to_iff in_groups_def split: option.splits)
  moreover have "snd (on_inject_comment_created p e k w) = broadcast_to_groups (pj_drains p) e [g]
      (stamped p ''inject_comment_created'' e (CommentPayload (comment_payload (pj_db p) cm))) None w"
    using assms(1-3) by (simp add: on_inject_comment_created_def Let_def)
  ultimately show ?thesis
    using payloads_heard_filter [where drains = "pj_drains p" and c = c and w = w and
        conns = "room_of w e", OF assms(7-10), of "\<lambda>c. in_groups [g] (cn_group_id c) \<or>
        cn_role c \<in> {Facilitator, Observer}"]
    by (simp add: projected_simps broadcast_to_groups_def stamped_def make_frame_def)
qed

lemma comment_stays_in_its_thread_witness:
  "payloads_heard 2 (projected demo_projection True (InjectCommentCreated 1 1) demo_room) =
     {CommentPayload (comment_payload (pj_db demo_projection) demo_comment)}"
proof -
  let ?i = "demo_inject 1 ''a'' None Released" and ?d = "pj_db demo_projection"
  let ?u = "plain_user (demo_user 12 Participant None)"
  let ?rows = "\<lambda>k. if k = 1 then Some ?i else None"
  have h: "get_comment ?d 1 = Some demo_comment" "ic_group_id demo_comment = Some ''red''"
    "''red'' \<noteq> []" "?rows (ic_inject_id demo_comment) = Some ?i" "ij_state ?i \<noteq> Pending"
    "inject_matches_group ?i (Some ''red'') None" "u_role ?u = cn_role demo_red"
    "can_see_comment demo_comment ?u ?rows (cn_group_id demo_red)" "cn_ws demo_red = 2" by code_simp+
  show ?thesis
    using comment_stays_in_its_thread [where rows = ?rows and p = demo_projection and e = 1 and
        w = demo_room and c = demo_red and u = ?u, OF h(1-6) demo_room_facts(1,3,4,6) h(7), of True] h(8)
    unfolding h(9) by simp
qed

text \<open>C11: a message reaches who may open it: a participant's or facilitator's socket hears a new
  message of its exercise if and only if its user passes the check of the HTTP read, provided
  the sender still sits in the team the message was sent from; observers hear the inbound ones.\<close>

theorem message_reaches_who_may_open_it:
  assumes "get_communication (pj_db p) k = Some m" and "cm_exercise_id m = e"
    and "u_role u = cn_role c" and "u_id u = cn_user_id c"
    and "cn_role c = Participant \<longrightarrow> cn_group_id c = exercise_group_for_user (pj_db p) e u"
    and "cn_role c = Observer \<longrightarrow> cm_direction m = Inbound"
    and "cm_sender_id m = Some (u_id u) \<longrightarrow>
      sender_team_for_comm (Some (pj_db p)) m \<in> {None, exercise_group_for_user (pj_db p) e u}"
    and "distinct (map cn_ws (room_of w e))" and "c \<in> set (room_of w e)" and "heard w = []"
    and "\<forall>m. pj_drains p (cn_ws c) m"
  shows "payloads_heard (cn_ws c) (projected p l (CommunicationCreated e k) w) \<noteq> {} \<longleftrightarrow>
    comm_visible_to_user (pj_db p) m u"
proof -
  let ?q = "\<lparr>cq_id = cm_id m, cq_exercise_id = cm_exercise_id m, cq_sender_id = cm_sender_id m,
    cq_sender_team = sender_team_for_comm None m, cq_direction = cm_direction m,
    cq_external_entity = cm_external_entity m, cq_subject = cm_subject m, cq_body = cm_body m,
    cq_triggered_by_inject_id = cm_triggered_by_inject_id m,
    cq_visible_to_teams = (case cm_visible_to_teams m of Some [] \<Rightarrow> None | ts \<Rightarrow> ts),
    cq_sent_at = isoformat (cm_sent_at m), cq_is_read = False, cq_read_at = None\<rparr>"
  have q: "comm_payload None m None None = Inr ?q"
    by (auto simp: comm_payload_def visible_to_teams_for_payload_def Let_def split: option.splits list.splits)
  let ?f = "stamped p ''communication_received'' e (CommPayload ?q)"
  have grp: "in_team (Some (t # ts)) (cn_group_id c) = in_groups (t # ts) (cn_group_id c)" for t ts
    by (simp add: in_team_def in_groups_def)
  note filt = payloads_heard_filter [where drains = "pj_drains p" and c = c and w = w and
        conns = "room_of w e", OF assms(8-11), where f = None]
  note all = payloads_heard_split [where drains = "pj_drains p" and c = c and w = w and
        conns = "room_of w e", OF assms(8-11), where f = None]
  note many = payloads_heard_many [where drains = "pj_drains p" and c = c and w = w and e = e, OF assms(8-11)]
  consider (out_team) t ts where "cm_direction m = Outbound" "cm_visible_to_teams m = Some (t # ts)"
    | (out) "cm_direction m = Outbound" "cm_visible_to_teams m \<in> {None, Some []}"
    | (in_team) t ts where "cm_direction m = Inbound" "cm_visible_to_teams m = Some (t # ts)"
    | (in_all) "cm_direction m = Inbound" "cm_visible_to_teams m \<in> {None, Some []}"
    by (cases "cm_direction m"; cases "cm_visible_to_teams m") (auto, (metis list.exhaust)+)
  then show ?thesis
  proof cases
    case (out_team t ts)
    then have "snd (on_communication_created p e k w) = send_to_many (pj_drains p) (matching e
        (\<lambda>c. cn_role c = Facilitator \<or> Some (cn_user_id c) = cm_sender_id m \<or>
             in_groups (t # ts) (cn_group_id c)) w) ?f w"
      using assms(1) q by (simp add: on_communication_created_def Let_def send_to_facilitators_user_and_groups_def)
    then show ?thesis
      using assms(2-7) out_team grp
      by (cases "cn_role c") (auto simp: projected_simps many comm_visible_to_user_def Let_def)
  next
    case out
    then have "snd (on_communication_created p e k w) = send_to_many (pj_drains p) (matching e
        (\<lambda>c. cn_role c = Facilitator \<or> Some (cn_user_id c) = cm_sender_id m) w) ?f w"
      using assms(1) q by (auto simp: on_communication_created_def Let_def send_to_facilitators_and_user_def)
    then show ?thesis
      using assms(2-7) out
      by (cases "cn_role c") (auto simp: projected_simps many comm_visible_to_user_def Let_def in_team_def)
  next
    case (in_team t ts)
    then have "snd (on_communication_created p e k w) = send_split (pj_drains p)
        (filter (\<lambda>c. in_groups (t # ts) (cn_group_id c) \<or> cn_role c \<in> {Facilitator, Observer})
           (room_of w e)) ?f None w"
      using assms(1) q by (simp add: on_communication_created_def Let_def broadcast_to_groups_def)
    then show ?thesis
      using assms(2-7) in_team grp
      by (cases "cn_role c") (auto simp: projected_simps filt comm_visible_to_user_def Let_def)
  next
    case in_all
    then have "snd (on_communication_created p e k w) = send_split (pj_drains p) (room_of w e) ?f None w"
      using assms(1) q by (auto simp: on_communication_created_def Let_def broadcast_to_exercise_def)
    then show ?thesis
      using assms(2-7) in_all
      by (cases "cn_role c") (auto simp: projected_simps all comm_visible_to_user_def Let_def)
  qed
qed

theorem message_reaches_who_may_open_it_witness:
  "payloads_heard 2 (projected demo_projection True (CommunicationCreated 1 3) demo_room) \<noteq> {}"
proof -
  let ?m = "demo_comm 3 Outbound (Some 13) (Some [''red''])" and ?d = "pj_db demo_projection"
  let ?u = "plain_user (demo_user 12 Participant None)"
  have h: "get_communication ?d 3 = Some ?m" "cm_exercise_id ?m = 1" "u_role ?u = cn_role demo_red"
    "u_id ?u = cn_user_id demo_red"
    "cn_role demo_red = Participant \<longrightarrow> cn_group_id demo_red = exercise_group_for_user ?d 1 ?u"
    "cn_role demo_red = Observer \<longrightarrow> cm_direction ?m = Inbound"
    "cm_sender_id ?m = Some (u_id ?u) \<longrightarrow>
      sender_team_for_comm (Some ?d) ?m \<in> {None, exercise_group_for_user ?d 1 ?u}"
    "comm_visible_to_user ?d ?m ?u" "cn_ws demo_red = 2" by code_simp+
  show ?thesis
    using message_reaches_who_may_open_it [OF h(1-7) demo_room_facts(1,3,4,6), of True] h(8)
    unfolding h(9) by simp
qed

text \<open>C17: every replica shows the same: an event relayed from another replica changes the sockets
  exactly as the local projection does, the replica that recorded it skips its own copy, and a
  relayed order to drop a user's sockets is carried out.\<close>

theorem replicas_project_alike:
  "relay me es p (to_descriptor orig ev) w = (if orig = me then w else projected p True ev w) \<and>
   relay me es p (user_connections_close orig u) w =
     (if orig = me then w else close_user_connections es u 4003 w)"
proof
  have own: "is_own me (to_descriptor orig ev) \<longleftrightarrow> orig = me"
    by (auto simp: is_own_def to_descriptor_def envelope_def)
  have name: "map_of (to_descriptor orig ev) ''event'' = Some (JStr (EVENT_NAMES (event_type_of ev)))"
    by (simp add: to_descriptor_def envelope_def)
  have other: "EVENT_NAMES (event_type_of ev) \<noteq> ''user_connections_close''"
    by (cases ev) simp_all
  have rebuilt: "from_descriptor (to_descriptor orig ev) = Some (event_type_of ev, asdict ev)"
    by (cases ev) (simp_all add: from_descriptor_def to_descriptor_def envelope_def asdict_def
        events_by_name_def dict_of_def all_event_types_def)
  have same: "projected p False ev = projected p True ev"
    by (simp add: projected_def project_def ws_handlers)
  show "relay me es p (to_descriptor orig ev) w = (if orig = me then w else projected p True ev w)"
    unfolding relay_def own name rebuilt option.case rebuild_asdict same using other by simp
  show "relay me es p (user_connections_close orig u) w =
     (if orig = me then w else close_user_connections es u 4003 w)"
    by (auto simp: relay_def user_connections_close_def is_own_def envelope_def)
qed





section \<open>Where the two representations part\<close>

text \<open>A comment without a thread (its author had no team) goes to every socket of the exercise, but
  the list shows it to the teamless only.\<close>

definition demo_groupless :: inject_comment where
  "demo_groupless = demo_comment\<lparr>ic_group_id := None\<rparr>"

lemma groupless_comment_is_overheard:
  "length (heard (projected (demo_projection\<lparr>pj_db := (pj_db demo_projection)\<lparr>comments := [demo_groupless]\<rparr>\<rparr>)
      True (InjectCommentCreated 1 1) demo_room)) = 2 \<and>
   \<not> can_see_comment demo_groupless (plain_user (demo_user 13 Participant None))
      (\<lambda>k. Some (demo_inject 1 ''a'' None Released)) (Some ''blue'')"
  by code_simp

end
