(* ===== verification/Exercise_Api.thy ===== *)
theory Exercise_Api
  imports Communication_Service
begin

text \<open>
  The exercise routes (\<^verbatim>\<open>app/routers/exercises.py\<close>): listing, creation, settings,
  deletion with its foreign-key cascade, the lifecycle buttons, the roster, the progression
  view and the debrief notes.

  A route is the guards of the handler, the service calls on the session, and the payload.
  Files of a deleted exercise are named in the answer; \<open>Attachments\<close> removes them.
\<close>

section \<open>Payloads\<close>

record exercise_public =
  xq_id :: int
  xq_scenario_id :: int
  xq_title :: string
  xq_scenario_title :: "string option"
  xq_state :: exercise_state
  xq_current_node_id :: "string option"
  xq_llm_enabled :: bool
  xq_launch_provenance :: snapshot_provenance
  xq_launch_snapshot_digest :: "string option"
  xq_started_at :: "string option"
  xq_ended_at :: "string option"
  xq_paused_at :: "string option"
  xq_accumulated_pause :: int
  xq_created_by :: int
  xq_created_at :: string

definition exercise_out :: "exercise \<Rightarrow> string option \<Rightarrow> exercise_public" where
  "exercise_out ex scenario_title =
     \<lparr>xq_id = ex_id ex, xq_scenario_id = ex_scenario_id ex, xq_title = ex_title ex,
      xq_scenario_title = scenario_title, xq_state = ex_state ex,
      xq_current_node_id = ex_current_node_id ex, xq_llm_enabled = ex_llm_enabled ex,
      xq_launch_provenance = ex_launch_provenance ex,
      xq_launch_snapshot_digest = ex_launch_snapshot_digest ex,
      xq_started_at = map_option isoformat (ex_started_at ex),
      xq_ended_at = map_option isoformat (ex_ended_at ex),
      xq_paused_at = map_option isoformat (ex_paused_at ex),
      xq_accumulated_pause = ex_accumulated_pause ex, xq_created_by = ex_created_by ex,
      xq_created_at = isoformat (ex_created_at ex)\<rparr>"

record member_public =
  mq_id :: int
  mq_exercise_id :: int
  mq_user_id :: int
  mq_group_id :: "string option"
  mq_role_at_enrolment :: user_role
  mq_joined_at :: string

definition member_out :: "exercise_member \<Rightarrow> member_public" where
  "member_out m =
     \<lparr>mq_id = em_id m, mq_exercise_id = em_exercise_id m, mq_user_id = em_user_id m,
      mq_group_id = em_group_id m, mq_role_at_enrolment = em_role_at_enrolment m,
      mq_joined_at = isoformat (em_joined_at m)\<rparr>"

section \<open>Reading\<close>

definition listed_exercises :: "current_user \<Rightarrow> database \<Rightarrow> exercise list" where
  "listed_exercises u d =
     (let mine = filter (\<lambda>m. em_user_id m = u_id u) (members d)
      in if is_admin u then exercises d
         else if u_role u = Facilitator \<or> is_actual_facilitator u
         then filter (\<lambda>ex. ex_created_by ex = u_id u \<or> ex_id ex \<in> em_exercise_id ` set mine) (exercises d)
         else concat (map (\<lambda>ex. map (\<lambda>m. ex) (filter (\<lambda>m. em_exercise_id m = ex_id ex) mine)) (exercises d)))"

definition listing_key :: "exercise \<Rightarrow> int \<times> int \<times> int" where
  "listing_key ex =
     (case ex_started_at ex of None \<Rightarrow> (1, 0, - ex_id ex) | Some t \<Rightarrow> (0, - t, - ex_id ex))"

definition list_exercises :: "current_user \<Rightarrow> database \<Rightarrow> exercise_public list" where
  "list_exercises u d =
     (let exs = sort_key listing_key (listed_exercises u d);
          titles = titles_for d (ex_scenario_id ` set exs)
      in map (\<lambda>ex. exercise_out ex (titles (ex_scenario_id ex))) exs)"

definition read_exercise :: "int \<Rightarrow> current_user \<Rightarrow> database \<Rightarrow> exn + exercise_public" where
  "read_exercise exercise_id u d =
     and_then (require_exercise_access d exercise_id u) (\<lambda>ex. Inr (exercise_out ex None))"

definition get_exercise_progression :: "int \<Rightarrow> current_user \<Rightarrow> database \<Rightarrow> exn + progression_view" where
  "get_exercise_progression exercise_id u d =
     and_then (require_exercise_access d exercise_id u) (\<lambda>_.
       let participant_view = (u_role u = Participant);
           group_id = (if participant_view then exercise_group_for_user d exercise_id u else None)
       in Inr (progression_snapshot d exercise_id group_id (\<not> participant_view)))"

definition list_exercise_teams :: "int \<Rightarrow> current_user \<Rightarrow> database \<Rightarrow> exn + participant_team list" where
  "list_exercise_teams exercise_id u d =
     and_then (require_exercise_access d exercise_id u) (\<lambda>_.
     and_then (definition_for_exercise d exercise_id) (\<lambda>definition.
       case definition of None \<Rightarrow> Inl (HTTPException 404 ''Scenario not found'')
       | Some def1 \<Rightarrow> Inr (sd_participant_teams def1)))"

fun provenance_value :: "snapshot_provenance \<Rightarrow> string" where
  "provenance_value ProvPending = ''pending''"
| "provenance_value ProvExact = ''exact''"
| "provenance_value ProvUnknown = ''unknown''"

text \<open>Digest, schema version, content and time of the frozen launch configuration.\<close>

definition get_launch_snapshot ::
  "int \<Rightarrow> current_user \<Rightarrow> database \<Rightarrow> exn + string \<times> string \<times> launch_content \<times> string" where
  "get_launch_snapshot exercise_id u d =
     and_then (require_role [Facilitator] u) (\<lambda>_.
     and_then (require_exercise_owner d exercise_id u) (\<lambda>ex.
       case ex_launch_snapshot_digest ex of
         None \<Rightarrow> Inl (HTTPException 404 (''Launch snapshot unavailable ('' @
           provenance_value (ex_launch_provenance ex) @ '')''))
       | Some digest1 \<Rightarrow>
           (case get_snapshot d digest1 of
              None \<Rightarrow> Inl (RuntimeError ''exercise references a missing launch snapshot'')
            | Some x \<Rightarrow> Inr (ls_digest x, ls_schema_version x, ls_content x, isoformat (ls_created_at x)))))"

definition get_debrief ::
  "int \<Rightarrow> current_user \<Rightarrow> database \<Rightarrow> exn + int \<times> string option \<times> string option" where
  "get_debrief exercise_id u d =
     and_then (require_role [Facilitator] u) (\<lambda>_.
     and_then (require_exercise_owner d exercise_id u) (\<lambda>ex.
     and_then (definition_for_exercise d exercise_id) (\<lambda>definition.
       Inr (exercise_id, (case definition of None \<Rightarrow> None | Some def1 \<Rightarrow> sd_debrief_notes def1),
            ex_debrief_notes ex))))"

definition list_exercise_members :: "int \<Rightarrow> current_user \<Rightarrow> database \<Rightarrow> exn + member_public list" where
  "list_exercise_members exercise_id u d =
     and_then (require_exercise_access d exercise_id u) (\<lambda>_.
       Inr (map member_out (list_members d exercise_id)))"

section \<open>Creating, updating, deleting\<close>

definition create ::
  "int \<Rightarrow> string \<Rightarrow> bool \<Rightarrow> current_user \<Rightarrow> instant \<Rightarrow> session \<Rightarrow> (exn + exercise_public) \<times> session" where
  "create scenario_id title llm_enabled u now s =
     answered
       (guarded (require_role [Facilitator] u) (\<lambda>_.
          create_exercise scenario_id title (u_id u) llm_enabled now) s)
       (\<lambda>ex d. Inr (exercise_out ex None))"

text \<open>The fields the body set, each possibly to null.\<close>

record update_exercise_request =
  ur_title :: "string option option"
  ur_llm_enabled :: "bool option option"
  ur_debrief_notes :: "string option option"

definition launch_setting :: "update_exercise_request \<Rightarrow> bool" where
  "launch_setting body \<longleftrightarrow> ur_title body \<noteq> None \<or> ur_llm_enabled body \<noteq> None"

definition update_exercise_guard ::
  "int \<Rightarrow> update_exercise_request \<Rightarrow> current_user \<Rightarrow> database \<Rightarrow> exn + exercise" where
  "update_exercise_guard exercise_id body u d =
     and_then (require_role [Facilitator] u) (\<lambda>_.
     and_then (require_exercise_owner d exercise_id u) (\<lambda>ex0.
     and_then (if launch_setting body
               then and_then (lock_configuration_owner ex0 d) (\<lambda>(sc, ex).
                 if ex_launch_provenance ex = ProvExact
                 then Inl (HTTPException 409 ''Title and LLM launch settings are frozen after launch'')
                 else Inr ex)
               else Inr ex0) (\<lambda>ex.
     and_then (if ex_state ex = Completed \<and> launch_setting body
               then require_operational_mutability ex else Inr ()) (\<lambda>_. Inr ex))))"

definition apply_update :: "update_exercise_request \<Rightarrow> exercise \<Rightarrow> exercise" where
  "apply_update body ex =
     (let ex1 = (case ur_title body of Some (Some t) \<Rightarrow> ex\<lparr>ex_title := t\<rparr> | _ \<Rightarrow> ex);
          ex2 = (case ur_llm_enabled body of Some (Some b) \<Rightarrow> ex1\<lparr>ex_llm_enabled := b\<rparr> | _ \<Rightarrow> ex1)
      in case ur_debrief_notes body of Some n \<Rightarrow> ex2\<lparr>ex_debrief_notes := n\<rparr> | None \<Rightarrow> ex2)"

text \<open>A null title or switch breaks a NOT NULL column when the row is flushed.\<close>

definition update_exercise ::
  "int \<Rightarrow> update_exercise_request \<Rightarrow> current_user \<Rightarrow> session \<Rightarrow> (exn + exercise_public) \<times> session" where
  "update_exercise exercise_id body u s =
     guarded (update_exercise_guard exercise_id body u (db s)) (\<lambda>ex s.
       if ur_title body = Some None \<or> ur_llm_enabled body = Some None
       then (Inl IntegrityError, rollback s)
       else (Inr (exercise_out (apply_update body ex) None),
             commit (execute (\<lambda>d. d\<lparr>exercises := update_where (\<lambda>r. ex_id r = ex_id ex)
               (apply_update body) (exercises d)\<rparr>) s))) s"

text \<open>Every table that refers to the exercise follows it; a token keeps a NULL.\<close>

definition delete_exercise_rows :: "int \<Rightarrow> database \<Rightarrow> database" where
  "delete_exercise_rows e d =
     (let comms = cm_id ` set (filter (\<lambda>c. cm_exercise_id c = e) (communications d));
          rsps = rs_id ` set (filter (\<lambda>r. rs_exercise_id r = e) (responses d))
      in d\<lparr>exercises := filter (\<lambda>x. ex_id x \<noteq> e) (exercises d),
           members := filter (\<lambda>m. em_exercise_id m \<noteq> e) (members d),
           transitions := filter (\<lambda>t. st_exercise_id t \<noteq> e) (transitions d),
           cursors := filter (\<lambda>c. ep_exercise_id c \<noteq> e) (cursors d),
           injects := filter (\<lambda>i. ij_exercise_id i \<noteq> e) (injects d),
           resolutions := filter (\<lambda>r. ip_exercise_id r \<noteq> e) (resolutions d),
           responses := filter (\<lambda>r. rs_exercise_id r \<noteq> e) (responses d),
           assessments := filter (\<lambda>a. ra_response_id a \<notin> rsps) (assessments d),
           suggestions := filter (\<lambda>g. sj_exercise_id g \<noteq> e \<and> sj_triggered_by_response_id g \<notin> rsps) (suggestions d),
           communications := filter (\<lambda>c. cm_exercise_id c \<noteq> e) (communications d),
           reads := filter (\<lambda>r. cr_communication_id r \<notin> comms) (reads d),
           comments := filter (\<lambda>c. ic_exercise_id c \<noteq> e) (comments d),
           summaries := filter (\<lambda>x. es_exercise_id x \<noteq> e) (summaries d),
           auth_tokens := update_where (\<lambda>t. tk_exercise_id t = Some e)
             (\<lambda>t. t\<lparr>tk_exercise_id := None\<rparr>) (auth_tokens d)\<rparr>)"

definition delete_exercise_guard :: "int \<Rightarrow> current_user \<Rightarrow> database \<Rightarrow> exn + exercise" where
  "delete_exercise_guard exercise_id u d =
     and_then (require_role [Facilitator] u) (\<lambda>_.
     and_then (require_exercise_owner d exercise_id u) (\<lambda>ex0.
     and_then (require_operational_mutability ex0) (\<lambda>_.
     and_then (lock_configuration_owner ex0 d) (\<lambda>(sc, ex).
       if ex_state ex \<noteq> Draft
       then Inl (HTTPException 409 ''Only draft exercises can be deleted'') else Inr ex))))"

definition delete_exercise ::
  "int \<Rightarrow> current_user \<Rightarrow> session \<Rightarrow> (exn + string list) \<times> session" where
  "delete_exercise exercise_id u s =
     guarded (delete_exercise_guard exercise_id u (db s)) (\<lambda>ex s.
       (Inr (attachment_paths_for_exercise (db s) exercise_id),
        commit (execute (delete_exercise_rows (ex_id ex)) s))) s"

section \<open>Lifecycle\<close>

definition owner_guard :: "int \<Rightarrow> current_user \<Rightarrow> database \<Rightarrow> exn + exercise" where
  "owner_guard exercise_id u d =
     and_then (require_role [Facilitator] u) (\<lambda>_.
     and_then (require_exercise_owner d exercise_id u) (\<lambda>ex.
     and_then (require_operational_mutability ex) (\<lambda>_. Inr ex)))"

text \<open>Two units of work: the transition, then the jobs of a running exercise.\<close>

definition transition_route ::
  "(string \<Rightarrow> string) \<Rightarrow> file_reader \<Rightarrow> int \<Rightarrow> exercise_state \<Rightarrow> current_user \<Rightarrow> instant \<Rightarrow> session \<Rightarrow>
     (exn + exercise_public) \<times> session" where
  "transition_route sha256 read_file exercise_id target u now s =
     guarded (owner_guard exercise_id u (db s)) (\<lambda>ex s.
       case transition_state_with_history sha256 read_file ex target (Some (u_id u)) now s of
         (Inl x, s1) \<Rightarrow> (Inl x, s1)
       | (Inr (row, t, action), s1) \<Rightarrow>
           if target = Active
           then (case schedule_exercise_injects row now (db s1) of
                   Inl x \<Rightarrow> (Inl x, s1)
                 | Inr d \<Rightarrow> (Inr (exercise_out row None), commit (execute (\<lambda>_. d) s1)))
           else (Inr (exercise_out row None), s1)) s"

definition start_exercise where
  "start_exercise sha256 read_file e = transition_route sha256 read_file e Active"

definition pause_exercise where
  "pause_exercise sha256 read_file e = transition_route sha256 read_file e Paused"

definition resume_exercise where
  "resume_exercise sha256 read_file e = transition_route sha256 read_file e Active"

definition complete_exercise where
  "complete_exercise sha256 read_file e = transition_route sha256 read_file e Completed"

section \<open>Roster\<close>

definition add_member ::
  "int \<Rightarrow> int \<Rightarrow> string option \<Rightarrow> current_user \<Rightarrow> instant \<Rightarrow> session \<Rightarrow> (exn + member_public) \<times> session" where
  "add_member exercise_id user_id group_id u now s =
     answered (guarded (owner_guard exercise_id u (db s)) (\<lambda>ex. enrol_member ex user_id group_id True now) s)
       (\<lambda>m d. Inr (member_out m))"

definition patch_member ::
  "int \<Rightarrow> int \<Rightarrow> string option \<Rightarrow> current_user \<Rightarrow> session \<Rightarrow> (exn + member_public) \<times> session" where
  "patch_member exercise_id user_id group_id u s =
     answered (guarded (owner_guard exercise_id u (db s)) (\<lambda>ex. update_member_group ex user_id group_id) s)
       (\<lambda>m d. Inr (member_out m))"

definition delete_member :: "int \<Rightarrow> int \<Rightarrow> current_user \<Rightarrow> session \<Rightarrow> (exn + unit) \<times> session" where
  "delete_member exercise_id user_id u s =
     guarded (owner_guard exercise_id u (db s)) (\<lambda>ex. remove_member ex user_id) s"

section \<open>Lemmas\<close>

lemma launched_row:
  assumes "launch_or_keep sha256 read_file ex0 new_state now s = (Inr ex, s1)"
    and "get_exercise (db s) (ex_id ex0) = Some ex0"
  shows "get_exercise (db s1) (ex_id ex0) = Some ex" and "ex_id ex = ex_id ex0"
    and "ex_state ex = ex_state ex0"
    and "map ij_id (injects (db s1)) = map ij_id (injects (db s))"
proof -
  have "get_exercise (db s1) (ex_id ex0) = Some ex \<and> ex_id ex = ex_id ex0 \<and> ex_state ex = ex_state ex0 \<and>
      map ij_id (injects (db s1)) = map ij_id (injects (db s))"
  proof (cases "ex_state ex0 = Draft \<and> new_state = Active")
    case True
    then have fr: "freeze_launch_configuration sha256 read_file ex0 now (db s) = Inr (ex, db s1)"
      using launch_or_keep_Inr [OF assms(1)] by auto
    obtain dg where dg: "ex = ex0\<lparr>ex_launch_snapshot_digest := Some dg, ex_launch_provenance := ProvExact\<rparr>"
        "exercises (db s1) = update_where (\<lambda>r. ex_id r = ex_id ex0)
          (\<lambda>r. r\<lparr>ex_launch_snapshot_digest := Some dg, ex_launch_provenance := ProvExact\<rparr>)
          (exercises (db s))"
      using freeze_state(1) [OF fr] assms(2) by auto
    have "get_row ex_id (ex_id ex0) (exercises (db s)) = Some ex0"
      using assms(2) by (simp add: get_defs)
    moreover have "map ij_id (injects (db s1)) = map ij_id (injects (db s))"
      by (rule freeze_Inr [OF fr])
        (simp add: map_update_where stamp_attachment_def split: option.split)
    ultimately show ?thesis
      unfolding get_exercise_def dg by (simp add: get_row_update_where)
  next
    case False
    then show ?thesis using launch_or_keep_Inr [OF assms(1)] assms(2) by auto
  qed
  then show "get_exercise (db s1) (ex_id ex0) = Some ex" and "ex_id ex = ex_id ex0"
    and "ex_state ex = ex_state ex0" and "map ij_id (injects (db s1)) = map ij_id (injects (db s))"
    by simp_all
qed

lemma transition_row:
  assumes "transition_state_with_history sha256 read_file ex0 Active actor now s = (Inr (row, t, action), s')"
    and "get_exercise (db s) (ex_id ex0) = Some ex0"
  shows "get_exercise (db s') (ex_id ex0) = Some row" and "ex_id row = ex_id ex0"
    and "ex_state row = Active" and "ex_started_at row \<noteq> None"
    and "map ij_id (injects (db s')) = map ij_id (injects (db s))" and "committed s' = db s'"
proof -
  obtain ex s1 where l: "launch_or_keep sha256 read_file ex0 Active now s = (Inr ex, s1)"
    and sw: "swap_state ex Active actor now s1 = (Inr (row, t, action), s')"
    using assms(1) by (rule transition_Inr)
  note pre = launched_row [OF l assms(2)]
  note w = swap_state_Inr [OF sw]
  have "get_row ex_id (ex_id ex0) (exercises (db s1)) = Some ex"
    using pre(1) by (simp add: get_defs)
  then have after: "get_exercise (db s') (ex_id ex0) = Some (transition_values ex Active now ex)"
    unfolding get_exercise_def w(5) using pre(2) by (simp add: get_row_update_where)
  then show "get_exercise (db s') (ex_id ex0) = Some row" using w(11) pre(2) by simp
  then have row: "row = transition_values ex Active now ex" using after by simp
  show "ex_id row = ex_id ex0" "ex_state row = Active" "ex_started_at row \<noteq> None"
    using pre(2) by (auto simp: row transition_values_def Let_def split: option.splits)
  have "injects (db s') = injects (db s1)"
    using sw by (auto simp: swap_state_def Let_def split: if_splits)
  then show "map ij_id (injects (db s')) = map ij_id (injects (db s))" using pre(4) by simp
  show "committed s' = db s'" by (rule w(7))
qed

lemma require_exercise_owner_row:
  "require_exercise_owner d e u = Inr ex \<Longrightarrow> get_exercise d e = Some ex \<and> ex_id ex = e"
  by (auto simp: require_exercise_owner_def get_exercise_or_404_def get_defs
      split: option.splits if_splits dest: get_row_Some)

section \<open>Properties\<close>

text \<open>C13: pressing start or resume arms the exercise: when the request succeeds, the committed row
  is active with a start time, and every pending inject of the exercise that has a release
  offset has a waiting release job in the committed queue, whatever jobs an earlier run or a
  pause had left.\<close>

theorem running_exercise_is_armed:
  assumes run: "transition_route sha256 read_file e Active u now s = (Inr pub, s')"
    and ids: "distinct (map ij_id (injects (db s)))"
  shows "(\<exists>ex. get_exercise (committed s') e = Some ex \<and> ex_state ex = Active \<and> ex_started_at ex \<noteq> None) \<and>
    (\<forall>ij\<in>set (injects (committed s')). ij_exercise_id ij = e \<and> ij_state ij = Pending \<and>
      ij_release_offset_minutes ij \<noteq> None \<longrightarrow> live_release (committed s') e (ij_id ij))"
proof (rule conjI)
  from run obtain ex where ok: "owner_guard e u (db s) = Inr ex"
    by (auto simp: transition_route_def guarded_Inr_iff)
  from run obtain row t action s1 d where tr: "transition_state_with_history sha256 read_file ex Active (Some (u_id u)) now s =
      (Inr (row, t, action), s1)"
    and sch: "schedule_exercise_injects row now (db s1) = Inr d"
    and s': "s' = commit (execute (\<lambda>_. d) s1)"
    by (auto simp: transition_route_def ok split: prod.splits sum.splits)
  have ex: "get_exercise (db s) (ex_id ex) = Some ex" "ex_id ex = e"
    using ok require_exercise_owner_row by (auto simp: owner_guard_def)
  note r = transition_row [OF tr ex(1)]
  have c: "committed s' = d" by (simp add: s' commit_def)
  note same = enqueued_frame [OF schedule_exercise_enqueued [OF sch]]
  show "\<exists>ex. get_exercise (committed s') e = Some ex \<and> ex_state ex = Active \<and> ex_started_at ex \<noteq> None"
    using r same ex(2) by (simp add: c get_exercise_def)
  have "live_release d e (ij_id ij)" if "ij \<in> set (injects d)" "ij_exercise_id ij = e"
    "ij_state ij = Pending" "ij_release_offset_minutes ij \<noteq> None" for ij
  proof -
    have mem: "ij \<in> set (scheduled_injects (db s1) (ex_id row))"
      using that same r(2) ex(2) by (simp add: scheduled_injects_def)
    have dist: "distinct (map ij_id (injects (db s1)))" using ids r(5) by simp
    have "schedule_exercise_communications row now (schedule_pending_injects row now (db s1)) = Inr d"
      using sch r(3,4) by (simp add: schedule_exercise_injects_def)
    from release_jobs_comms [OF this]
    show ?thesis
      using release_jobs_scheduled [OF dist mem, of now] r(2) ex(2)
      by (auto simp: live_release_jobs split: if_splits)
  qed
  then show "\<forall>ij\<in>set (injects (committed s')). ij_exercise_id ij = e \<and> ij_state ij = Pending \<and>
      ij_release_offset_minutes ij \<noteq> None \<longrightarrow> live_release (committed s') e (ij_id ij)"
    by (simp add: c)
qed

theorem running_exercise_is_armed_witness:
  "\<exists>pub s'. start_exercise (\<lambda>b. ''d'') (\<lambda>p. None) 1 (plain_user (demo_user 10 Facilitator None)) 5
      (demo_session demo_draft_db) = (Inr pub, s') \<and>
     (\<forall>ij\<in>set (injects (committed s')). ij_exercise_id ij = 1 \<and> ij_state ij = Pending \<and>
        ij_release_offset_minutes ij \<noteq> None \<longrightarrow> live_release (committed s') 1 (ij_id ij)) \<and>
     length (filter (\<lambda>ij. ij_release_offset_minutes ij \<noteq> None) (injects (committed s'))) > 0"
proof -
  let ?r = "start_exercise (\<lambda>b. ''d'') (\<lambda>p. None) 1 (plain_user (demo_user 10 Facilitator None)) 5
      (demo_session demo_draft_db)"
  have "is_ok (fst ?r)" by code_simp
  then obtain pub s' where run: "?r = (Inr pub, s')" by (cases ?r) (auto simp: is_ok_iff)
  have dist: "distinct (map ij_id (injects (db (demo_session demo_draft_db))))" by code_simp
  have "length (filter (\<lambda>ij. ij_release_offset_minutes ij \<noteq> None) (injects (committed (snd ?r)))) > 0"
    by code_simp
  then show ?thesis
    using run running_exercise_is_armed [OF run [unfolded start_exercise_def] dist] by simp
qed

end
