(* ===== verification/Inject_Api.thy ===== *)
theory Inject_Api
  imports Requests
begin

text \<open>
  The inject routes (\<^verbatim>\<open>app/routers/injects.py\<close>): listing, creation with an
  attachment, deletion, download, manual release and the release schedule.

  The request body is taken as parsed (\<open>Attachments\<close> parses the form).  An uploaded file is its name, its declared type and the
  chunks \<^verbatim>\<open>read\<close> returns; the random part of the storage name and the SHA-256 of
  the content are parameters, and stored files are read through \<open>file_reader\<close>.
\<close>

section \<open>Attachments\<close>

definition MAX_ATTACHMENT_BYTES :: int where "MAX_ATTACHMENT_BYTES = 25 * 1024 * 1024"

definition DEFAULT_ATTACHMENT_TYPE :: string where
  "DEFAULT_ATTACHMENT_TYPE = ''application/octet-stream''"

definition ALLOWED_ATTACHMENT_TYPES :: "string list" where
  "ALLOWED_ATTACHMENT_TYPES =
     [''application/pdf'', ''image/png'', ''image/jpeg'', ''image/gif'', ''text/plain'', ''text/csv'',
      ''application/json'', ''application/zip'', ''application/msword'',
      ''application/vnd.openxmlformats-officedocument.wordprocessingml.document'',
      ''application/vnd.ms-excel'',
      ''application/vnd.openxmlformats-officedocument.spreadsheetml.sheet'',
      ''application/vnd.ms-powerpoint'',
      ''application/vnd.openxmlformats-officedocument.presentationml.presentation'']"

text \<open>\<^verbatim>\<open>str.lower\<close> on the code points below 256.\<close>

definition latin_lower :: "char \<Rightarrow> char" where
  "latin_lower c =
     (let n = (of_char c :: nat)
      in if 65 \<le> n \<and> n \<le> 90 \<or> 192 \<le> n \<and> n \<le> 222 \<and> n \<noteq> 215 then char_of (n + 32) else c)"

definition normalize_content_type :: "string option \<Rightarrow> string" where
  "normalize_content_type content_type =
     (let base = (if truthy content_type
                  then map latin_lower (strip (takeWhile (\<lambda>c. c \<noteq> CHR '';'') (the content_type)))
                  else [])
      in if base \<in> set ALLOWED_ATTACHMENT_TYPES then base else DEFAULT_ATTACHMENT_TYPE)"

text \<open>\<^verbatim>\<open>Path(p).name\<close>: the last component that is not empty or a dot.\<close>

fun components :: "string \<Rightarrow> string list" where
  "components [] = [[]]"
| "components (c # cs) =
     (if c = CHR ''/'' then [] # components cs
      else (case components cs of [] \<Rightarrow> [[c]] | w # ws \<Rightarrow> (c # w) # ws))"

definition path_name :: "string \<Rightarrow> string" where
  "path_name p =
     (case filter (\<lambda>w. w \<noteq> [] \<and> w \<noteq> ''.'') (components p) of [] \<Rightarrow> [] | ws \<Rightarrow> last ws)"

definition filename_char :: "char \<Rightarrow> bool" where
  "filename_char c =
     (let n = (of_char c :: nat)
      in 65 \<le> n \<and> n \<le> 90 \<or> 97 \<le> n \<and> n \<le> 122 \<or> 48 \<le> n \<and> n \<le> 57 \<or>
         c \<in> {CHR ''.'', CHR ''_'', CHR ''-''})"

text \<open>Every run of other characters becomes one underscore.\<close>

fun underscored :: "bool \<Rightarrow> string \<Rightarrow> string" where
  "underscored after_run [] = []"
| "underscored after_run (c # cs) =
     (if filename_char c then c # underscored False cs
      else if after_run then underscored True cs else CHR ''_'' # underscored True cs)"

definition trim :: "char set \<Rightarrow> string \<Rightarrow> string" where
  "trim cs s = rev (dropWhile (\<lambda>c. c \<in> cs) (rev (dropWhile (\<lambda>c. c \<in> cs) s)))"

definition safe_filename :: "string option \<Rightarrow> string" where
  "safe_filename filename =
     (let original = path_name (if truthy filename then the filename else ''attachment'');
          cleaned = trim {CHR ''.'', CHR ''_''} (underscored False original)
      in if cleaned \<noteq> [] then cleaned else ''attachment'')"

record upload =
  uf_filename :: "string option"
  uf_content_type :: "string option"
  uf_chunks :: "string list"

text \<open>The copy loop: bytes written so far; it stops at an empty chunk.\<close>

fun store_chunks :: "string \<Rightarrow> string list \<Rightarrow> exn + string" where
  "store_chunks written [] = Inr written"
| "store_chunks written (chunk # chunks) =
     (if chunk = [] then Inr written
      else if MAX_ATTACHMENT_BYTES < int (length written) + int (length chunk)
      then Inl (HTTPException 413 ''Attachment is too large'')
      else store_chunks (written @ chunk) chunks)"

definition storage_path :: "int \<Rightarrow> string \<Rightarrow> string option \<Rightarrow> string" where
  "storage_path exercise_id hex filename =
     ''uploads/inject_attachments/'' @ show_int exercise_id @ ''/'' @ hex @ ''_'' @
     safe_filename (Some (path_name (if truthy filename then the filename else ''attachment'')))"

definition save_attachment ::
  "(string \<Rightarrow> string) \<Rightarrow> string \<Rightarrow> int \<Rightarrow> upload option \<Rightarrow> exn + attachment_meta option" where
  "save_attachment sha256 hex exercise_id file =
     (case file of
        None \<Rightarrow> Inr None
      | Some f \<Rightarrow>
          and_then (store_chunks [] (uf_chunks f)) (\<lambda>content.
            Inr (Some \<lparr>am_filename = path_name (if truthy (uf_filename f) then the (uf_filename f)
                                                else ''attachment''),
                       am_content_type = normalize_content_type (uf_content_type f),
                       am_path = storage_path exercise_id hex (uf_filename f),
                       am_size = int (length content), am_sha256 = sha256 content\<rparr>)))"

section \<open>Reading\<close>

definition visible_injects :: "int \<Rightarrow> current_user \<Rightarrow> database \<Rightarrow> inject list" where
  "visible_injects exercise_id u d =
     (let ijs = sort_key ij_sequence_order (filter (\<lambda>ij. ij_exercise_id ij = exercise_id) (injects d))
      in if u_role u = Facilitator then ijs
         else filter (\<lambda>ij. inject_visible_to ij u (exercise_group_for_user d exercise_id u)) ijs)"

definition list_injects :: "int \<Rightarrow> current_user \<Rightarrow> database \<Rightarrow> exn + inject_public list" where
  "list_injects exercise_id u d =
     and_then (require_exercise_access d exercise_id u) (\<lambda>_.
     and_then (definition_for_exercise d exercise_id) (\<lambda>definition.
       map_checked (\<lambda>ij. inject_payload d ij (u_role u = Facilitator) definition)
         (visible_injects exercise_id u d)))"

definition visible_inject :: "int \<Rightarrow> int \<Rightarrow> current_user \<Rightarrow> database \<Rightarrow> exn + inject" where
  "visible_inject exercise_id inject_id u d =
     and_then (require_exercise_access d exercise_id u) (\<lambda>_.
     and_then (get_inject_or_404 d exercise_id inject_id) (\<lambda>ij.
     and_then (require_inject_visible d ij u) (\<lambda>_. Inr ij)))"

definition read_inject :: "int \<Rightarrow> int \<Rightarrow> current_user \<Rightarrow> database \<Rightarrow> exn + inject_public" where
  "read_inject exercise_id inject_id u d =
     and_then (visible_inject exercise_id inject_id u d) (\<lambda>ij.
       inject_payload d ij (u_role u = Facilitator) None)"

text \<open>The path, media type and file name of a download.\<close>

definition download_attachment ::
  "file_reader \<Rightarrow> int \<Rightarrow> int \<Rightarrow> current_user \<Rightarrow> database \<Rightarrow> exn + string \<times> string \<times> string" where
  "download_attachment read_file exercise_id inject_id u d =
     and_then (visible_inject exercise_id inject_id u d) (\<lambda>ij.
       if \<not> truthy (ij_attachment_path ij) \<or> \<not> truthy (ij_attachment_filename ij)
       then Inl (HTTPException 404 ''Attachment not found'')
       else case read_file (the (ij_attachment_path ij)) of
              None \<Rightarrow> Inl (HTTPException 404 ''Attachment not found'')
            | Some (digest1, actual_size) \<Rightarrow>
                if (case ij_attachment_sha256 ij of None \<Rightarrow> False
                    | Some x \<Rightarrow> digest1 \<noteq> x \<or>
                        (case ij_attachment_size ij of None \<Rightarrow> False | Some n \<Rightarrow> actual_size \<noteq> n))
                then Inl (HTTPException 409 ''Attachment integrity check failed'')
                else Inr (the (ij_attachment_path ij),
                          normalize_content_type (ij_attachment_content_type ij),
                          the (ij_attachment_filename ij)))"

section \<open>Creating and deleting\<close>

record create_inject_request =
  jr_title :: string
  jr_content :: string
  jr_scenario_node_id :: "string option"
  jr_target_teams :: "string list option"
  jr_group_id :: "string option"
  jr_sequence_order :: int

text \<open>The guards that open the handlers which change the configuration of an exercise.\<close>

definition configuration_guard :: "exercise \<Rightarrow> database \<Rightarrow> exn + exercise" where
  "configuration_guard ex0 d =
     and_then (require_operational_mutability ex0) (\<lambda>_.
     and_then (lock_configuration_owner ex0 d) (\<lambda>(sc, ex).
     and_then (require_operational_mutability ex) (\<lambda>_. Inr ex)))"

definition create_inject_guard ::
  "(string \<Rightarrow> string) \<Rightarrow> string \<Rightarrow> int \<Rightarrow> create_inject_request \<Rightarrow> upload option \<Rightarrow> current_user \<Rightarrow> database \<Rightarrow>
     exn + exercise \<times> string list option \<times> string option \<times> attachment_meta option" where
  "create_inject_guard sha256 hex exercise_id body file u d =
     and_then (require_role [Facilitator] u) (\<lambda>_.
     and_then (require_exercise_access d exercise_id u) (\<lambda>ex0.
     and_then (configuration_guard ex0 d) (\<lambda>ex.
     and_then (validate_exercise_team_ids d ex (jr_target_teams body) ''target_teams'') (\<lambda>teams.
     and_then (validate_group_id d ex (jr_group_id body)) (\<lambda>g.
     and_then (save_attachment sha256 hex exercise_id file) (\<lambda>meta.
       let group_id = (case (g, teams) of (None, Some [t]) \<Rightarrow> Some t | _ \<Rightarrow> g)
       in Inr (ex, teams, group_id, meta)))))))"

definition create_inject_route ::
  "(string \<Rightarrow> string) \<Rightarrow> string \<Rightarrow> int \<Rightarrow> create_inject_request \<Rightarrow> upload option \<Rightarrow> current_user \<Rightarrow> session \<Rightarrow>
     (exn + inject_public) \<times> session" where
  "create_inject_route sha256 hex exercise_id body file u s =
     answered
       (guarded (create_inject_guard sha256 hex exercise_id body file u (db s))
          (\<lambda>(ex, teams, group_id, meta).
             create_inject exercise_id (jr_title body) (jr_content body) (jr_scenario_node_id body)
               teams group_id (jr_sequence_order body) None meta (ex_state ex \<noteq> Draft) True) s)
       (\<lambda>ij d. inject_payload d ij True None)"

definition delete_inject_guard :: "int \<Rightarrow> int \<Rightarrow> current_user \<Rightarrow> database \<Rightarrow> exn + inject" where
  "delete_inject_guard exercise_id inject_id u d =
     and_then (require_role [Facilitator] u) (\<lambda>_.
     and_then (require_exercise_owner d exercise_id u) (\<lambda>ex0.
     and_then (configuration_guard ex0 d) (\<lambda>ex.
     and_then (get_inject_or_404 d exercise_id inject_id) (\<lambda>ij.
     and_then (require_inject_configuration_mutable ex ij) (\<lambda>_. Inr ij)))))"

definition delete_inject :: "int \<Rightarrow> int \<Rightarrow> current_user \<Rightarrow> session \<Rightarrow> (exn + unit) \<times> session" where
  "delete_inject exercise_id inject_id u s =
     guarded (delete_inject_guard exercise_id inject_id u (db s)) delete_pending_inject s"

section \<open>Release and schedule\<close>

definition release_guard :: "int \<Rightarrow> int \<Rightarrow> current_user \<Rightarrow> database \<Rightarrow> exn + inject" where
  "release_guard exercise_id inject_id u d =
     and_then (require_role [Facilitator] u) (\<lambda>_.
     and_then (require_exercise_access d exercise_id u) (\<lambda>ex.
     and_then (require_operational_mutability ex) (\<lambda>_.
       if ex_state ex \<noteq> Active
       then Inl (HTTPException 409 ''Only active exercises can release injects'')
       else get_inject_or_404 d exercise_id inject_id)))"

definition release ::
  "int \<Rightarrow> int \<Rightarrow> current_user \<Rightarrow> instant \<Rightarrow> session \<Rightarrow> (exn + inject_public) \<times> session" where
  "release exercise_id inject_id u now s =
     answered
       (guarded (release_guard exercise_id inject_id u (db s)) (\<lambda>ij.
          release_inject ij (Some (u_id u)) False now) s)
       (\<lambda>ij d. inject_payload d ij True None)"

definition update_schedule_guard ::
  "int \<Rightarrow> int \<Rightarrow> int option \<Rightarrow> current_user \<Rightarrow> database \<Rightarrow> exn + exercise \<times> inject" where
  "update_schedule_guard exercise_id inject_id offset u d =
     and_then (require_role [Facilitator] u) (\<lambda>_.
       if (case offset of None \<Rightarrow> False | Some m \<Rightarrow> m < 0)
       then Inl (HTTPException 422 ''release_offset_minutes must be >= 0'')
       else
         and_then (require_exercise_access d exercise_id u) (\<lambda>ex0.
         and_then (configuration_guard ex0 d) (\<lambda>ex.
         and_then (get_inject_or_404 d exercise_id inject_id) (\<lambda>ij.
         and_then (require_inject_configuration_mutable ex ij) (\<lambda>_.
           if ij_state ij \<noteq> Pending
           then Inl (HTTPException 409 (''Inject is '' @ CHR 0x27 # inject_state_value (ij_state ij) @
             CHR 0x27 # '', cannot schedule'')) else Inr (ex, ij))))))"

definition set_offset :: "int \<Rightarrow> int option \<Rightarrow> database \<Rightarrow> database" where
  "set_offset inject_id offset d =
     d\<lparr>injects := update_where (\<lambda>r. ij_id r = inject_id)
        (\<lambda>r. r\<lparr>ij_release_offset_minutes := offset\<rparr>) (injects d)\<rparr>"

definition reschedule ::
  "int \<Rightarrow> exercise \<Rightarrow> inject \<Rightarrow> int option \<Rightarrow> instant \<Rightarrow> session \<Rightarrow> (exn + inject) \<times> session" where
  "reschedule exercise_id ex ij offset now s =
     (let ij1 = ij\<lparr>ij_release_offset_minutes := offset\<rparr>;
          s1 = execute (set_offset (ij_id ij) offset) s;
          s2 = snd (record_event (InjectUpdated exercise_id (ij_id ij)) s1);
          s3 = dispatch (commit (execute (arm_inject_schedule ex ij1 now) s2))
      in (Inr ij1, s3))"

definition update_schedule ::
  "int \<Rightarrow> int \<Rightarrow> int option \<Rightarrow> current_user \<Rightarrow> instant \<Rightarrow> session \<Rightarrow> (exn + inject_public) \<times> session" where
  "update_schedule exercise_id inject_id offset u now s =
     answered
       (guarded (update_schedule_guard exercise_id inject_id offset u (db s)) (\<lambda>(ex, ij).
          reschedule exercise_id ex ij offset now) s)
       (\<lambda>ij d. inject_payload d ij True None)"

section \<open>Lemmas\<close>

lemma components_clean: "w \<in> set (components p) \<Longrightarrow> CHR ''/'' \<notin> set w"
  by (induction p arbitrary: w) (auto split: if_splits list.splits)

lemma path_name_clean: "CHR ''/'' \<notin> set (path_name p)"
proof (cases "filter (\<lambda>w. w \<noteq> [] \<and> w \<noteq> ''.'') (components p)" rule: rev_cases)
  case Nil
  then show ?thesis by (simp add: path_name_def)
next
  case (snoc ws w)
  have "w \<in> set (filter (\<lambda>w. w \<noteq> [] \<and> w \<noteq> ''.'') (components p))" unfolding snoc by simp
  then have "CHR ''/'' \<notin> set w" using components_clean by auto
  moreover have "path_name p = w" by (cases ws) (simp_all add: path_name_def snoc)
  ultimately show ?thesis by simp
qed

lemma underscored_chars: "c \<in> set (underscored b s) \<Longrightarrow> filename_char c"
  by (induction s arbitrary: b) (auto simp: filename_char_def split: if_splits)

lemma set_trim: "set (trim cs s) \<subseteq> set s"
  unfolding trim_def by (metis set_dropWhileD set_rev subsetI)

lemma safe_filename_chars: "c \<in> set (safe_filename f) \<Longrightarrow> filename_char c"
proof -
  have att: "\<forall>c\<in>set ''attachment''. filename_char c" by code_simp
  show "c \<in> set (safe_filename f) \<Longrightarrow> filename_char c"
    using att set_trim underscored_chars
    by (auto simp: safe_filename_def Let_def split: if_splits) blast+
qed

lemma safe_filename_nonempty: "safe_filename f \<noteq> []"
  by (simp add: safe_filename_def Let_def)

lemma store_chunks_size:
  "store_chunks written chunks = Inr content \<Longrightarrow> int (length written) \<le> MAX_ATTACHMENT_BYTES \<Longrightarrow>
     content = written @ concat (takeWhile (\<lambda>c. c \<noteq> []) chunks) \<and>
     int (length content) \<le> MAX_ATTACHMENT_BYTES"
proof (induction chunks arbitrary: written)
  case (Cons chunk chunks)
  show ?case
  proof (cases "chunk = []")
    case False
    then have "store_chunks (written @ chunk) chunks = Inr content \<and>
        int (length (written @ chunk)) \<le> MAX_ATTACHMENT_BYTES"
      using Cons.prems(1) by (auto split: if_splits)
    then have "content = (written @ chunk) @ concat (takeWhile (\<lambda>c. c \<noteq> []) chunks)"
      "int (length content) \<le> MAX_ATTACHMENT_BYTES"
      using Cons.IH [of "written @ chunk"] by auto
    then show ?thesis using False by simp
  qed (use Cons.prems in simp)
qed simp

lemma normalized_type_allowed:
  "normalize_content_type t \<in> insert DEFAULT_ATTACHMENT_TYPE (set ALLOWED_ATTACHMENT_TYPES)"
  by (simp add: normalize_content_type_def Let_def)

lemma visible_inject_Inr:
  "visible_inject e i u d = Inr ij \<longleftrightarrow>
     (\<exists>ex. require_exercise_access d e u = Inr ex) \<and> get_inject d i = Some ij \<and>
     ij_exercise_id ij = e \<and> inject_visible_to ij u (exercise_group_for_user d e u)"
  by (auto simp: visible_inject_def get_inject_or_404_def require_inject_visible_Inr
      visible_to_user_iff split: option.splits if_splits)

section \<open>Properties\<close>

text \<open>C20: an upload that is stored is bounded and tame: whatever the client declares, at most 25 MiB
  were written, the bytes are the chunks up to the first empty one, the stored type is one of
  the allowed ones, and the file lies directly in the directory of the exercise under a name
  of letters, digits, dots, dashes and underscores.\<close>

theorem stored_upload_is_tame:
  assumes "save_attachment sha256 hex e (Some f) = Inr (Some m)"
  shows "am_size m \<le> MAX_ATTACHMENT_BYTES \<and>
    am_size m = int (length (concat (takeWhile (\<lambda>c. c \<noteq> []) (uf_chunks f)))) \<and>
    am_sha256 m = sha256 (concat (takeWhile (\<lambda>c. c \<noteq> []) (uf_chunks f))) \<and>
    am_content_type m \<in> insert DEFAULT_ATTACHMENT_TYPE (set ALLOWED_ATTACHMENT_TYPES) \<and>
    CHR ''/'' \<notin> set (am_filename m) \<and>
    (\<exists>name. am_path m = ''uploads/inject_attachments/'' @ show_int e @ ''/'' @ hex @ ''_'' @ name \<and>
       name \<noteq> [] \<and> (\<forall>c\<in>set name. filename_char c))"
proof -
  obtain content where c: "store_chunks [] (uf_chunks f) = Inr content"
    and m: "m = \<lparr>am_filename = path_name (if truthy (uf_filename f) then the (uf_filename f) else ''attachment''),
       am_content_type = normalize_content_type (uf_content_type f),
       am_path = storage_path e hex (uf_filename f),
       am_size = int (length content), am_sha256 = sha256 content\<rparr>"
    using assms by (auto simp: save_attachment_def)
  have "CHR ''/'' \<notin> set (path_name p)" for p
    by (rule path_name_clean)
  moreover have size: "content = concat (takeWhile (\<lambda>c. c \<noteq> []) (uf_chunks f))"
      "int (length content) \<le> MAX_ATTACHMENT_BYTES"
    using store_chunks_size [OF c] by (auto simp: MAX_ATTACHMENT_BYTES_def)
  moreover have "\<exists>name. storage_path e hex fn = ''uploads/inject_attachments/'' @ show_int e @ ''/'' @ hex @ ''_'' @ name \<and>
      name \<noteq> [] \<and> (\<forall>c\<in>set name. filename_char c)" for fn
    unfolding storage_path_def using safe_filename_chars safe_filename_nonempty by blast
  ultimately show ?thesis
    using size normalized_type_allowed by (simp add: m)
qed

definition demo_upload :: upload where
  "demo_upload = \<lparr>uf_filename = Some ''../a b/..evil name.html'', uf_content_type = Some ''Text/HTML; x'',
     uf_chunks = [''abc'', ''de'', [], ''f'']\<rparr>"

theorem stored_upload_is_tame_witness:
  "\<exists>m. save_attachment (\<lambda>b. ''h'') ''00'' 1 (Some demo_upload) = Inr (Some m) \<and> am_size m = 5 \<and>
     am_path m = ''uploads/inject_attachments/1/00_evil_name.html'' \<and>
     am_content_type m = ''application/octet-stream''"
proof -
  define m where "m = \<lparr>am_filename = ''..evil name.html'', am_content_type = ''application/octet-stream'',
    am_path = ''uploads/inject_attachments/1/00_evil_name.html'', am_size = 5, am_sha256 = ''h''\<rparr>"
  have "save_attachment (\<lambda>b. ''h'') ''00'' 1 (Some demo_upload) = Inr (Some m)"
    unfolding m_def by code_simp
  moreover have "length (concat (takeWhile (\<lambda>c. c \<noteq> []) (uf_chunks demo_upload))) = 5" by code_simp
  ultimately show ?thesis
    using stored_upload_is_tame [of "\<lambda>b. ''h''" "''00''" 1 demo_upload m] by (auto simp: m_def)
qed

text \<open>The list shows what opens: an inject is in a user's list of an exercise if and only if
  the user may open it by its id, whatever the user's role, group and preview.\<close>

lemma listed_injects_are_the_open_ones:
  assumes "distinct (map ij_id (injects d))" and "require_exercise_access d e u = Inr ex"
    and "ij \<in> set (injects d)"
  shows "ij \<in> set (visible_injects e u d) \<longleftrightarrow> visible_inject e (ij_id ij) u d = Inr ij"
proof -
  have "get_inject d (ij_id ij) = Some ij"
    using get_row_unique [OF assms(1,3)] by (simp add: get_inject_def)
  then show ?thesis
    using assms(2,3) by (auto simp: visible_inject_Inr visible_injects_def Let_def inject_visible_to_iff)
qed

lemma listed_injects_are_the_open_ones_witness:
  "demo_inject 1 ''a'' None Released \<in>
     set (visible_injects 1 (plain_user (demo_user 12 Participant None)) demo_play_db)"
proof -
  let ?u = "plain_user (demo_user 12 Participant None)" and ?i = "demo_inject 1 ''a'' None Released"
  have ok: "is_ok (require_exercise_access demo_play_db 1 ?u)" by code_simp
  then obtain ex where ex: "require_exercise_access demo_play_db 1 ?u = Inr ex"
    by (auto simp: is_ok_iff)
  have h: "distinct (map ij_id (injects demo_play_db))" "?i \<in> set (injects demo_play_db)"
    "visible_inject 1 (ij_id ?i) ?u demo_play_db = Inr ?i" by code_simp+
  show ?thesis using listed_injects_are_the_open_ones [OF h(1) ex h(2)] h(3) by blast
qed

end
