(* ===== verification/Response_Api.thy ===== *)
theory Response_Api
  imports Inject_Api Provider_Rows
begin

text \<open>
  The answer routes (\<^verbatim>\<open>app/routers/responses.py\<close>), the review of suggested injects
  (\<^verbatim>\<open>app/routers/suggested_injects.py\<close>) and the queueing of the provider jobs
  (\<^verbatim>\<open>queue_llm_pipeline\<close> and \<^verbatim>\<open>queue_summary_pipeline\<close> of
  \<^verbatim>\<open>app/services/llm_service.py\<close>).  Request bodies are taken as parsed.
\<close>

section \<open>Queueing\<close>

definition assess_lock :: "int \<Rightarrow> string" where
  "assess_lock response_id = ''assess:'' @ show_int response_id"

definition queue_llm_pipeline :: "int \<Rightarrow> int \<Rightarrow> int \<Rightarrow> database \<Rightarrow> bool \<times> database" where
  "queue_llm_pipeline response_id inject_id exercise_id =
     defer_job_once (AssessResponse response_id inject_id exercise_id) (assess_lock response_id)"

definition queue_summary_pipeline :: "int \<Rightarrow> database \<Rightarrow> bool \<times> database" where
  "queue_summary_pipeline exercise_id =
     defer_job_once (GenerateSummary exercise_id) (''summary:'' @ show_int exercise_id)"

section \<open>Answers\<close>

definition list_responses :: "int \<Rightarrow> current_user \<Rightarrow> database \<Rightarrow> exn + response_public list" where
  "list_responses exercise_id u d =
     and_then (require_exercise_access d exercise_id u) (\<lambda>_.
       let rs = filter (\<lambda>r. rs_exercise_id r = exercise_id) (responses d)
       in if u_role u = Participant
          then Inr (map (\<lambda>r. response_payload r None None) (filter (\<lambda>r. rs_user_id r = u_id u) rs))
          else and_then (response_next_inject_suggestions_bulk d exercise_id rs) (\<lambda>suggestions.
                 Inr (map (\<lambda>r. response_payload r
                        (Some (case suggestions (rs_id r) of None \<Rightarrow> [] | Some xs \<Rightarrow> xs)) None) rs)))"

record submit_request =
  tr_inject_id :: int
  tr_content :: string
  tr_selected_option :: "string option"

text \<open>The exercise and the participant's group, when the answer may be stored.\<close>

definition submit_guard ::
  "int \<Rightarrow> submit_request \<Rightarrow> current_user \<Rightarrow> database \<Rightarrow> exn + exercise \<times> string option" where
  "submit_guard exercise_id body u d =
     and_then (require_exercise_access d exercise_id u) (\<lambda>ex.
     and_then (require_operational_mutability ex) (\<lambda>_.
       if u_role u \<noteq> Participant
       then Inl (HTTPException 403 ''Only participants can submit responses'')
       else if ex_state ex \<noteq> Active
       then Inl (HTTPException 409 ''Responses can only be submitted while the exercise is active'')
       else and_then (get_inject_or_404 d exercise_id (tr_inject_id body)) (\<lambda>ij.
            and_then (require_inject_visible d ij u) (\<lambda>_.
              if ij_state ij \<noteq> Released
              then Inl (HTTPException 409 ''Responses can only be submitted to released injects'')
              else if \<exists>r\<in>set (responses d). response_key r = (exercise_id, tr_inject_id body, u_id u)
              then Inl (HTTPException 409 ''Response already submitted for this inject'')
              else and_then (definition_for_exercise d exercise_id) (\<lambda>definition.
                let node = (case (definition, ij_scenario_node_id ij) of
                              (Some def1, Some nid) \<Rightarrow> get_inject_node def1 nid | _ \<Rightarrow> None)
                in case response_validation_error node (tr_content body) (tr_selected_option body) of
                     Some msg \<Rightarrow> Inl (HTTPException 422 msg)
                   | None \<Rightarrow> Inr (ex, exercise_group_for_user d exercise_id u))))))"

definition submit ::
  "int \<Rightarrow> submit_request \<Rightarrow> current_user \<Rightarrow> instant \<Rightarrow> session \<Rightarrow> (exn + response_public) \<times> session" where
  "submit exercise_id body u now s =
     guarded (submit_guard exercise_id body u (db s)) (\<lambda>(ex, group_id) s.
       case submit_response (tr_inject_id body) exercise_id (u_id u) (tr_content body)
              (tr_selected_option body) group_id now s of
         (Inl x, s1) \<Rightarrow> (Inl x, s1)
       | (Inr (r, nexts), s1) \<Rightarrow>
           let s2 = (if ex_llm_enabled ex
                     then commit (execute (\<lambda>d. snd (queue_llm_pipeline (rs_id r) (tr_inject_id body)
                                                      exercise_id d)) s1)
                     else s1)
           in (Inr (response_payload r None
                 (Some (progression_snapshot (db s2) exercise_id group_id False))), s2)) s"

definition response_or_404 :: "database \<Rightarrow> int \<Rightarrow> int \<Rightarrow> exn + response" where
  "response_or_404 d exercise_id response_id =
     (case get_response d response_id of
        None \<Rightarrow> Inl (HTTPException 404 ''Response not found'')
      | Some r \<Rightarrow> if rs_exercise_id r \<noteq> exercise_id
                  then Inl (HTTPException 404 ''Response not found'') else Inr r)"

definition read_response :: "int \<Rightarrow> int \<Rightarrow> current_user \<Rightarrow> database \<Rightarrow> exn + response_public" where
  "read_response exercise_id response_id u d =
     and_then (require_exercise_access d exercise_id u) (\<lambda>_.
     and_then (response_or_404 d exercise_id response_id) (\<lambda>r.
       if u_role u = Participant \<and> rs_user_id r \<noteq> u_id u
       then Inl (HTTPException 403 ''Access denied'') else Inr (response_payload r None None)))"

definition trigger_assess_guard :: "int \<Rightarrow> int \<Rightarrow> current_user \<Rightarrow> database \<Rightarrow> exn + response" where
  "trigger_assess_guard exercise_id response_id u d =
     and_then (require_role [Facilitator] u) (\<lambda>_.
     and_then (require_exercise_owner d exercise_id u) (\<lambda>ex.
       if \<not> ex_llm_enabled ex
       then Inl (HTTPException 409 ''AI assessment is disabled for this exercise'')
       else response_or_404 d exercise_id response_id))"

definition link_assessment :: "response \<Rightarrow> response_assessment \<Rightarrow> database \<Rightarrow> database" where
  "link_assessment r a d =
     d\<lparr>responses := update_where (\<lambda>x. rs_id x = rs_id r) (\<lambda>x. x\<lparr>rs_assessment_id := Some (ra_id a)\<rparr>)
        (responses d)\<rparr>"

definition assessment_of :: "database \<Rightarrow> int \<Rightarrow> response_assessment option" where
  "assessment_of d response_id = find (\<lambda>a. ra_response_id a = response_id) (assessments d)"

definition trigger_assess ::
  "int \<Rightarrow> int \<Rightarrow> current_user \<Rightarrow> session \<Rightarrow> (exn + string) \<times> session" where
  "trigger_assess exercise_id response_id u s =
     guarded (trigger_assess_guard exercise_id response_id u (db s)) (\<lambda>r s.
       case assessment_of (db s) response_id of
         Some a \<Rightarrow>
           (Inr ''Assessment already exists'',
            if rs_assessment_id r \<noteq> Some (ra_id a) then commit (execute (link_assessment r a) s) else s)
       | None \<Rightarrow>
           (let (queued, d) = queue_llm_pipeline response_id (rs_inject_id r) exercise_id (db s)
            in (Inr (if queued then ''Assessment queued'' else ''Assessment already queued''),
                commit (execute (\<lambda>_. d) s)))) s"

definition read_assessment ::
  "int \<Rightarrow> int \<Rightarrow> current_user \<Rightarrow> database \<Rightarrow> exn + assessment_public" where
  "read_assessment exercise_id response_id u d =
     and_then (require_role [Facilitator] u) (\<lambda>_.
     and_then (require_exercise_access d exercise_id u) (\<lambda>_.
     and_then (response_or_404 d exercise_id response_id) (\<lambda>r.
       case rs_assessment_id r of
         None \<Rightarrow> Inl (HTTPException 404 ''No assessment yet'')
       | Some i \<Rightarrow> (case get_assessment d i of
                      None \<Rightarrow> Inl (HTTPException 404 ''Assessment not found'') | Some a \<Rightarrow> Inr (assessment_payload a)))))"

section \<open>Suggested injects\<close>

definition list_suggested :: "int \<Rightarrow> current_user \<Rightarrow> database \<Rightarrow> exn + suggested_public list" where
  "list_suggested exercise_id u d =
     and_then (require_role [Facilitator] u) (\<lambda>_.
     and_then (require_exercise_access d exercise_id u) (\<lambda>_.
       Inr (map suggested_payload
         (filter (\<lambda>g. sj_exercise_id g = exercise_id) (suggestions d)))))"

definition suggestion_or_404 :: "database \<Rightarrow> int \<Rightarrow> int \<Rightarrow> exn + suggested_inject" where
  "suggestion_or_404 d exercise_id suggested_id =
     (case get_suggestion d suggested_id of
        None \<Rightarrow> Inl (HTTPException 404 ''Suggested inject not found'')
      | Some g \<Rightarrow> if sj_exercise_id g \<noteq> exercise_id
                  then Inl (HTTPException 404 ''Suggested inject not found'') else Inr g)"

definition approve_guard ::
  "int \<Rightarrow> int \<Rightarrow> current_user \<Rightarrow> database \<Rightarrow> exn + exercise \<times> suggested_inject" where
  "approve_guard exercise_id suggested_id u d =
     and_then (require_role [Facilitator] u) (\<lambda>_.
     and_then (require_exercise_owner d exercise_id u) (\<lambda>ex0.
     and_then (configuration_guard ex0 d) (\<lambda>ex.
     and_then (suggestion_or_404 d exercise_id suggested_id) (\<lambda>g.
       if sj_status g \<noteq> PendingReview
       then Inl (HTTPException 409 ''Only pending_review suggestions can be approved'')
       else Inr (ex, g)))))"

definition next_order :: "database \<Rightarrow> int \<Rightarrow> int" where
  "next_order d exercise_id =
     (let orders = map ij_sequence_order (filter (\<lambda>ij. ij_exercise_id ij = exercise_id) (injects d))
      in (if orders = [] then 0 else Max (set orders)) + 1)"

definition mark_reviewed :: "int \<Rightarrow> suggested_status \<Rightarrow> int \<Rightarrow> instant \<Rightarrow> database \<Rightarrow> database" where
  "mark_reviewed suggested_id verdict reviewer now d =
     d\<lparr>suggestions := update_where (\<lambda>g. sj_id g = suggested_id)
        (\<lambda>g. g\<lparr>sj_status := verdict, sj_reviewed_by := Some reviewer, sj_reviewed_at := Some now\<rparr>)
        (suggestions d)\<rparr>"

definition sole_team :: "string list option \<Rightarrow> string option" where
  "sole_team teams = (case teams of Some [t] \<Rightarrow> Some t | _ \<Rightarrow> None)"

definition approve ::
  "int \<Rightarrow> int \<Rightarrow> current_user \<Rightarrow> instant \<Rightarrow> session \<Rightarrow> (exn + inject) \<times> session" where
  "approve exercise_id suggested_id u now s =
     guarded (approve_guard exercise_id suggested_id u (db s)) (\<lambda>(ex, g) s.
       case create_inject exercise_id (sj_title g) (sj_content g) None (sj_target_teams g)
              (sole_team (sj_target_teams g)) (next_order (db s) exercise_id) None None
              (ex_state ex \<noteq> Draft) False s of
         (Inl x, s1) \<Rightarrow> (Inl x, s1)
       | (Inr ij, s1) \<Rightarrow>
           (Inr ij, commit (execute (mark_reviewed suggested_id Approved (u_id u) now) s1))) s"

definition reject_guard :: "int \<Rightarrow> int \<Rightarrow> current_user \<Rightarrow> database \<Rightarrow> exn + suggested_inject" where
  "reject_guard exercise_id suggested_id u d =
     and_then (require_role [Facilitator] u) (\<lambda>_.
     and_then (require_exercise_owner d exercise_id u) (\<lambda>ex.
     and_then (require_operational_mutability ex) (\<lambda>_.
     and_then (suggestion_or_404 d exercise_id suggested_id) (\<lambda>g.
       if sj_status g \<noteq> PendingReview
       then Inl (HTTPException 409 ''Only pending_review suggestions can be rejected'') else Inr g))))"

definition reject ::
  "int \<Rightarrow> int \<Rightarrow> current_user \<Rightarrow> instant \<Rightarrow> session \<Rightarrow> (exn + suggested_public) \<times> session" where
  "reject exercise_id suggested_id u now s =
     guarded (reject_guard exercise_id suggested_id u (db s)) (\<lambda>g s.
       (Inr (suggested_payload (g\<lparr>sj_status := Rejected, sj_reviewed_by := Some (u_id u),
                                 sj_reviewed_at := Some now\<rparr>)), commit (execute (mark_reviewed suggested_id Rejected (u_id u) now) s))) s"

section \<open>Lemmas\<close>

lemma suggestion_or_404_Inr:
  "suggestion_or_404 d e i = Inr g \<longleftrightarrow> get_suggestion d i = Some g \<and> sj_exercise_id g = e"
  by (auto simp: suggestion_or_404_def split: option.splits)

lemma approve_guard_Inr:
  assumes "approve_guard e i u d = Inr (ex, g)"
  shows "get_suggestion d i = Some g \<and> sj_exercise_id g = e \<and> sj_status g = PendingReview"
  using assms by (auto simp: approve_guard_def suggestion_or_404_Inr split: if_splits)

lemma get_suggestion_reviewed:
  "get_suggestion (mark_reviewed i v u now d) i =
     map_option (\<lambda>g. g\<lparr>sj_status := v, sj_reviewed_by := Some u, sj_reviewed_at := Some now\<rparr>)
       (get_suggestion d i)"
  unfolding get_suggestion_def mark_reviewed_def
  by (cases "get_row sj_id i (suggestions d)") (auto simp: get_row_update_where dest: get_row_Some)

lemma reviewed_stays:
  assumes "get_suggestion (db s) i = Some g" and "sj_status g \<noteq> PendingReview"
  shows "\<exists>x. approve e i u now s = (Inl x, s)" and "\<exists>x. reject e i u now s = (Inl x, s)"
proof -
  have "\<nexists>exg. approve_guard e i u (db s) = Inr exg"
    using assms approve_guard_Inr by (metis option.inject surj_pair)
  then obtain x where "approve_guard e i u (db s) = Inl x" by (cases "approve_guard e i u (db s)") auto
  then show "\<exists>x. approve e i u now s = (Inl x, s)" by (simp add: approve_def)
  have "\<nexists>g. reject_guard e i u (db s) = Inr g"
    using assms by (auto simp: reject_guard_def suggestion_or_404_Inr split: if_splits)
  then obtain x where "reject_guard e i u (db s) = Inl x" by (cases "reject_guard e i u (db s)") auto
  then show "\<exists>x. reject e i u now s = (Inl x, s)" by (simp add: reject_def)
qed

lemma next_order_above:
  "ij \<in> set (injects d) \<Longrightarrow> ij_exercise_id ij = e \<Longrightarrow> ij_sequence_order ij < next_order d e"
  by (auto simp: next_order_def Let_def filter_empty_conv intro!: zless_add1_eq [THEN iffD2] Max_ge)

section \<open>Properties\<close>


definition demo_suggestion :: suggested_inject where
  "demo_suggestion = \<lparr>sj_id = 5, sj_exercise_id = 1, sj_triggered_by_response_id = 7, sj_title = ''T'',
     sj_content = ''C'', sj_target_teams = Some [''red''], sj_llm_model = ''m'',
     sj_status = PendingReview, sj_reviewed_by = None, sj_reviewed_at = None, sj_generated_at = 3\<rparr>"

definition demo_review_db :: database where
  "demo_review_db = demo_play_db\<lparr>suggestions := [demo_suggestion]\<rparr>"


end
