(* ===== verification/Llm_Service.thy ===== *)
theory Llm_Service
  imports Response_Api
begin

text \<open>
  The provider tasks (\<^verbatim>\<open>app/services/llm_service.py\<close>): assessing an answer, suggesting
  a follow-up inject, drafting the executive summary.

  The provider is a parameter: its label and a completion function that may raise.  While it
  works, other sessions commit; their effect is the parameter \<open>meanwhile\<close>.
  \<^verbatim>\<open>json.loads\<close> is the parameter \<open>loads\<close> (\<open>None\<close> for a decode error),
  and the summary prompt is left to the provider parameter: what is proved holds for every
  answer it could give.
\<close>

section \<open>Untrusted output\<close>

datatype pyjson = PNull | PBool bool | PNum string | PStr string | PList "pyjson list"
  | PObj "(string \<times> pyjson) list"

definition MAX_LLM_TEXT :: nat where "MAX_LLM_TEXT = 12000"
definition MAX_LLM_TITLE :: nat where "MAX_LLM_TITLE = 300"
definition MAX_LLM_TEAMS :: nat where "MAX_LLM_TEAMS = 100"
definition MAX_OPTION_ID :: nat where "MAX_OPTION_ID = 200"

record assessment_output =
  ao_assessment_text :: string
  ao_decision_quality :: "string option"
  ao_recommended_branch_option_id :: "string option"

record suggested_output =
  so_title :: string
  so_content :: string
  so_target_teams :: "string list option"

text \<open>A required string within bounds; an optional one (absent and null are the same).\<close>

definition bounded_field :: "nat \<Rightarrow> pyjson option \<Rightarrow> string option" where
  "bounded_field n v =
     (case v of Some (PStr t) \<Rightarrow> if 1 \<le> length t \<and> length t \<le> n then Some t else None | _ \<Rightarrow> None)"

definition optional_field :: "(string \<Rightarrow> bool) \<Rightarrow> pyjson option \<Rightarrow> string option option" where
  "optional_field ok v =
     (case v of None \<Rightarrow> Some None | Some PNull \<Rightarrow> Some None
      | Some (PStr t) \<Rightarrow> if ok t then Some (Some t) else None | _ \<Rightarrow> None)"

definition text_list :: "pyjson list \<Rightarrow> string list option" where
  "text_list vs =
     (if list_all (\<lambda>v. case v of PStr _ \<Rightarrow> True | _ \<Rightarrow> False) vs
      then Some (map (\<lambda>v. case v of PStr t \<Rightarrow> t | _ \<Rightarrow> []) vs) else None)"

definition teams_field :: "pyjson option \<Rightarrow> string list option option" where
  "teams_field v =
     (case v of None \<Rightarrow> Some None | Some PNull \<Rightarrow> Some None
      | Some (PList vs) \<Rightarrow> if length vs \<le> MAX_LLM_TEAMS then map_option Some (text_list vs) else None
      | _ \<Rightarrow> None)"

definition known_quality :: "string \<Rightarrow> bool" where
  "known_quality q \<longleftrightarrow> q \<in> {''good'', ''adequate'', ''poor''}"

definition validate_assessment :: "(string \<times> pyjson) list \<Rightarrow> assessment_output option" where
  "validate_assessment kvs =
     (let f = dict_of kvs
      in if \<not> fst ` set kvs \<subseteq> {''assessment_text'', ''decision_quality'', ''recommended_branch_option_id''}
         then None
         else case (bounded_field MAX_LLM_TEXT (f ''assessment_text''),
                    optional_field known_quality (f ''decision_quality''),
                    optional_field (\<lambda>t. length t \<le> MAX_OPTION_ID) (f ''recommended_branch_option_id'')) of
                (Some t, Some q, Some r) \<Rightarrow>
                  Some \<lparr>ao_assessment_text = t, ao_decision_quality = q, ao_recommended_branch_option_id = r\<rparr>
              | _ \<Rightarrow> None)"

definition validate_suggestion :: "(string \<times> pyjson) list \<Rightarrow> suggested_output option" where
  "validate_suggestion kvs =
     (let f = dict_of kvs
      in if \<not> fst ` set kvs \<subseteq> {''title'', ''content'', ''target_teams''} then None
         else case (bounded_field MAX_LLM_TITLE (f ''title''), bounded_field MAX_LLM_TEXT (f ''content''),
                    teams_field (f ''target_teams'')) of
                (Some t, Some c, Some ts) \<Rightarrow>
                  Some \<lparr>so_title = t, so_content = c, so_target_teams = ts\<rparr>
              | _ \<Rightarrow> None)"

definition parse_json ::
  "(string \<Rightarrow> pyjson option) \<Rightarrow> string \<Rightarrow> (string \<times> pyjson) list \<Rightarrow> (string \<times> pyjson) list" where
  "parse_json loads answer fallback = (case loads answer of Some (PObj kvs) \<Rightarrow> kvs | _ \<Rightarrow> fallback)"

definition fallback_text :: "string \<Rightarrow> string \<Rightarrow> string" where
  "fallback_text answer otherwise = take MAX_LLM_TEXT (if strip answer \<noteq> [] then strip answer else otherwise)"

definition node_for :: "scenario_definition \<Rightarrow> inject \<Rightarrow> inject_node option" where
  "node_for def1 ij = find (\<lambda>n. Some (in_id n) = ij_scenario_node_id ij) (sd_injects def1)"

text \<open>What is stored of a completion: only an option of the node may be recommended.\<close>

definition read_assessment_output ::
  "(string \<Rightarrow> pyjson option) \<Rightarrow> scenario_definition \<Rightarrow> inject \<Rightarrow> string \<Rightarrow> assessment_output" where
  "read_assessment_output loads def1 ij answer =
     (let data = parse_json loads answer [(''assessment_text'', PStr answer), (''decision_quality'', PNull),
                    (''recommended_branch_option_id'', PNull)];
          out = (case validate_assessment data of
                   Some x \<Rightarrow> x
                 | None \<Rightarrow> \<lparr>ao_assessment_text = fallback_text answer ''Provider returned invalid assessment'',
                           ao_decision_quality = None, ao_recommended_branch_option_id = None\<rparr>);
          option_ids = (case node_for def1 ij of None \<Rightarrow> {} | Some n \<Rightarrow> io_id ` set (in_options n))
      in if (case ao_recommended_branch_option_id out of None \<Rightarrow> True | Some r \<Rightarrow> r \<notin> option_ids)
         then out\<lparr>ao_recommended_branch_option_id := None\<rparr> else out)"

definition read_suggestion_output ::
  "(string \<Rightarrow> pyjson option) \<Rightarrow> string \<Rightarrow> suggested_output" where
  "read_suggestion_output loads answer =
     (let data = parse_json loads answer [(''title'', PStr ''Follow-up inject''), (''content'', PStr answer),
                    (''target_teams'', PNull)]
      in case validate_suggestion data of
           Some x \<Rightarrow> x
         | None \<Rightarrow> \<lparr>so_title = ''Follow-up inject'',
                   so_content = fallback_text answer ''Provider returned invalid suggestion'',
                   so_target_teams = None\<rparr>)"

section \<open>Prompts\<close>

definition newline :: string where "newline = [CHR 0x0A]"
definition in_quotes :: "string \<Rightarrow> string" where "in_quotes s = CHR 0x22 # s @ [CHR 0x22]"
definition or_else :: "string \<Rightarrow> string \<Rightarrow> string" where "or_else s t = (if s = [] then t else s)"

definition scenario_summary :: "scenario_definition \<Rightarrow> string" where
  "scenario_summary def1 =
     ''Scenario: '' @ sd_title def1 @ newline @
     (case sd_description def1 of None \<Rightarrow> [] | Some t \<Rightarrow> t) @ newline @
     ''Participant teams: '' @
     or_else (Launch_Snapshot.join '', '' (map pt_label (sd_participant_teams def1))) ''All participants''"

definition inject_summary :: "inject \<Rightarrow> inject_node option \<Rightarrow> string" where
  "inject_summary ij node =
     Launch_Snapshot.join newline
       ([''Inject: '' @ ij_title ij, ij_content ij] @
        (case node of None \<Rightarrow> []
         | Some n \<Rightarrow>
             (if in_options n = [] then [] else [''Options: '' @ Launch_Snapshot.join ''; ''
                (map (\<lambda>o1. io_id o1 @ ''='' @ io_label o1) (in_options n))]) @
             (if in_expected_actions n = [] then []
              else [''Expected actions: '' @ Launch_Snapshot.join ''; '' (in_expected_actions n)])))"

definition build_context :: "inject \<Rightarrow> scenario_definition \<Rightarrow> response \<Rightarrow> string \<times> string" where
  "build_context ij def1 r =
     (scenario_summary def1 @ newline @ newline @ inject_summary ij (node_for def1 ij),
      if truthy (rs_selected_option r)
      then newline @ ''Selected option: '' @ the (rs_selected_option r) else [])"

definition ASSESSMENT_SYSTEM :: string where
  "ASSESSMENT_SYSTEM = ''You are an expert tabletop exercise facilitator. Assess participant responses concisely and constructively. Reply only with valid JSON.''"

definition SUGGESTION_SYSTEM :: string where
  "SUGGESTION_SYSTEM = ''You are an expert tabletop exercise facilitator. Suggest realistic, challenging follow-up injects that build on participant decisions. Reply only with valid JSON.''"

definition answer_prompt :: "response \<Rightarrow> string \<Rightarrow> string" where
  "answer_prompt r selected_line =
     ''Participant response:'' @ newline @ rs_content r @ selected_line @ newline @ newline"

definition assessment_prompt :: "response \<Rightarrow> string \<Rightarrow> string" where
  "assessment_prompt r selected_line =
     answer_prompt r selected_line @ ''Assess this response. Reply as JSON with keys: '' @
     in_quotes ''assessment_text'' @ '' (2-3 sentence narrative), '' @
     in_quotes ''decision_quality'' @ '' ('' @ in_quotes ''good'' @ '', '' @ in_quotes ''adequate'' @
     '', or '' @ in_quotes ''poor'' @ ''), '' @
     in_quotes ''recommended_branch_option_id'' @ '' (option id string or null).''"

definition suggestion_prompt :: "response \<Rightarrow> string \<Rightarrow> string" where
  "suggestion_prompt r selected_line =
     answer_prompt r selected_line @ ''Suggest a follow-up inject. Reply as JSON with keys: '' @
     in_quotes ''title'' @ '' (short string), '' @ in_quotes ''content'' @ '' (inject body text), '' @
     in_quotes ''target_teams'' @
     '' (list of team id strings from the scenario, or null for all teams).''"

section \<open>Assessing\<close>

record provider =
  pr_label :: string
  pr_complete :: "string \<Rightarrow> string \<Rightarrow> string \<Rightarrow> exn + string"

text \<open>Other sessions commit while this one holds no write.\<close>

definition overtaken :: "(database \<Rightarrow> database) \<Rightarrow> session \<Rightarrow> session" where
  "overtaken meanwhile s = s\<lparr>db := meanwhile (db s), committed := meanwhile (committed s)\<rparr>"

definition suggestion_of :: "database \<Rightarrow> int \<Rightarrow> suggested_inject option" where
  "suggestion_of d response_id = find (\<lambda>g. sj_triggered_by_response_id g = response_id) (suggestions d)"

definition new_assessment ::
  "string \<Rightarrow> int \<Rightarrow> assessment_output \<Rightarrow> instant \<Rightarrow> database \<Rightarrow> response_assessment" where
  "new_assessment label response_id out now d =
     \<lparr>ra_id = nextval TAssessment d, ra_response_id = response_id, ra_llm_model = label,
      ra_assessment_text = ao_assessment_text out, ra_decision_quality = ao_decision_quality out,
      ra_recommended_branch_option_id = ao_recommended_branch_option_id out, ra_assessed_at = now\<rparr>"

definition insert_assessment :: "response_assessment \<Rightarrow> database \<Rightarrow> exn + database" where
  "insert_assessment a d =
     (if assessment_of d (ra_response_id a) \<noteq> None \<or> get_response d (ra_response_id a) = None
      then Inl IntegrityError
      else Inr ((bump TAssessment d)\<lparr>assessments := assessments d @ [a]\<rparr>))"

definition store_assessment ::
  "response \<Rightarrow> int \<Rightarrow> response_assessment \<Rightarrow> session \<Rightarrow> (exn + response_assessment option \<times> bool) \<times> session" where
  "store_assessment r exercise_id a s =
     (case insert_assessment a (db s) of
        Inl x \<Rightarrow>
          (let s1 = rollback s
           in (case assessment_of (db s1) (rs_id r) of
                 Some other \<Rightarrow> (Inr (Some other, False), s1) | None \<Rightarrow> (Inl x, s1)))
      | Inr d \<Rightarrow>
          let s1 = execute (link_assessment r a) (execute (\<lambda>_. d) s);
              s2 = snd (record_event (ResponseAssessed exercise_id (rs_id r) (ra_id a)) s1)
          in (Inr (Some a, True), dispatch (commit s2)))"

definition assess_response_result ::
  "(string \<Rightarrow> pyjson option) \<Rightarrow> provider option \<Rightarrow> (database \<Rightarrow> database) \<Rightarrow> response \<Rightarrow> inject \<Rightarrow>
     scenario_definition \<Rightarrow> instant \<Rightarrow> session \<Rightarrow> (exn + response_assessment option \<times> bool) \<times> session" where
  "assess_response_result loads provider meanwhile r ij def1 now s =
     (case (case rs_assessment_id r of None \<Rightarrow> None | Some i \<Rightarrow> get_assessment (db s) i) of
        Some a \<Rightarrow> (Inr (Some a, False), s)
      | None \<Rightarrow>
     (case assessment_of (db s) (rs_id r) of
        Some a \<Rightarrow> (Inr (Some a, False), s)
      | None \<Rightarrow>
     (case provider of
        None \<Rightarrow> (Inr (None, False), s)
      | Some p \<Rightarrow>
          let (cached, selected_line) = build_context ij def1 r
          in (case pr_complete p ASSESSMENT_SYSTEM cached (assessment_prompt r selected_line) of
                Inl x \<Rightarrow> (Inl x, s)
              | Inr answer \<Rightarrow>
                  let s1 = overtaken meanwhile s
                  in store_assessment r (ij_exercise_id ij)
                       (new_assessment (pr_label p) (rs_id r) (read_assessment_output loads def1 ij answer)
                          now (db s1)) s1))))"

section \<open>Suggesting\<close>

definition validated_suggested_target_teams ::
  "string list option \<Rightarrow> scenario_definition \<Rightarrow> exn + string list option" where
  "validated_suggested_target_teams value1 def1 =
     (case value1 of None \<Rightarrow> Inr None
      | Some ts \<Rightarrow> (case validate_team_ids (Some ts) def1 ''LLM target_teams'' of
                      Inl msg \<Rightarrow> Inl (ValueError msg) | Inr r \<Rightarrow> Inr r))"

definition new_suggestion ::
  "string \<Rightarrow> int \<Rightarrow> int \<Rightarrow> suggested_output \<Rightarrow> string list option \<Rightarrow> instant \<Rightarrow> database \<Rightarrow> suggested_inject" where
  "new_suggestion label exercise_id response_id out teams now d =
     \<lparr>sj_id = nextval TSuggested d, sj_exercise_id = exercise_id,
      sj_triggered_by_response_id = response_id, sj_title = so_title out,
      sj_content = so_content out, sj_target_teams = teams, sj_llm_model = label,
      sj_status = PendingReview, sj_reviewed_by = None, sj_reviewed_at = None,
      sj_generated_at = now\<rparr>"

definition insert_suggestion :: "suggested_inject \<Rightarrow> database \<Rightarrow> exn + database" where
  "insert_suggestion g d =
     (if suggestion_of d (sj_triggered_by_response_id g) \<noteq> None \<or>
         get_response d (sj_triggered_by_response_id g) = None \<or> get_exercise d (sj_exercise_id g) = None
      then Inl IntegrityError
      else Inr ((bump TSuggested d)\<lparr>suggestions := suggestions d @ [g]\<rparr>))"

definition store_suggestion ::
  "suggested_inject \<Rightarrow> session \<Rightarrow> (exn + suggested_inject option \<times> bool) \<times> session" where
  "store_suggestion g s =
     (case insert_suggestion g (db s) of
        Inl x \<Rightarrow>
          (let s1 = rollback s
           in (case suggestion_of (db s1) (sj_triggered_by_response_id g) of
                 Some other \<Rightarrow> (Inr (Some other, False), s1) | None \<Rightarrow> (Inl x, s1)))
      | Inr d \<Rightarrow>
          let s1 = execute (\<lambda>_. d) s;
              s2 = snd (record_event (InjectSuggested (sj_exercise_id g) (sj_id g)) s1)
          in (Inr (Some g, True), dispatch (commit s2)))"

definition suggest_inject_result ::
  "(string \<Rightarrow> pyjson option) \<Rightarrow> provider option \<Rightarrow> (database \<Rightarrow> database) \<Rightarrow> response \<Rightarrow> inject \<Rightarrow> int \<Rightarrow>
     scenario_definition \<Rightarrow> instant \<Rightarrow> session \<Rightarrow> (exn + suggested_inject option \<times> bool) \<times> session" where
  "suggest_inject_result loads provider meanwhile r ij exercise_id def1 now s =
     (case suggestion_of (db s) (rs_id r) of
        Some g \<Rightarrow> (Inr (Some g, False), s)
      | None \<Rightarrow>
     (case provider of
        None \<Rightarrow> (Inr (None, False), s)
      | Some p \<Rightarrow>
          let (cached, selected_line) = build_context ij def1 r
          in (case pr_complete p SUGGESTION_SYSTEM cached (suggestion_prompt r selected_line) of
                Inl x \<Rightarrow> (Inl x, s)
              | Inr answer \<Rightarrow>
                  let out = read_suggestion_output loads answer; s1 = overtaken meanwhile s
                  in (case validated_suggested_target_teams (so_target_teams out) def1 of
                        Inl x \<Rightarrow> (Inl x, s1)
                      | Inr teams \<Rightarrow>
                          store_suggestion (new_suggestion (pr_label p) exercise_id (rs_id r) out teams
                            now (db s1)) s1))))"

section \<open>The tasks\<close>

text \<open>The rows the pipeline works on, unless its arguments do not (or no longer) fit.\<close>

definition pipeline_rows ::
  "int \<Rightarrow> int \<Rightarrow> int \<Rightarrow> database \<Rightarrow> (response \<times> inject \<times> exercise) option" where
  "pipeline_rows response_id inject_id exercise_id d =
     (case (get_response d response_id, get_inject d inject_id, get_exercise d exercise_id) of
        (Some r, Some ij, Some ex) \<Rightarrow>
          if ex_scenario_id ex \<noteq> 0 \<and> ex_llm_enabled ex \<and> rs_exercise_id r = exercise_id \<and>
             rs_inject_id r = inject_id \<and> ij_exercise_id ij = exercise_id
          then Some (r, ij, ex) else None
      | _ \<Rightarrow> None)"

definition run_pipeline_body ::
  "(string \<Rightarrow> pyjson option) \<Rightarrow> provider option \<Rightarrow> (database \<Rightarrow> database) \<Rightarrow> (database \<Rightarrow> database) \<Rightarrow>
     int \<Rightarrow> int \<Rightarrow> int \<Rightarrow> instant \<Rightarrow> session \<Rightarrow> (exn + unit) \<times> session" where
  "run_pipeline_body loads provider meanwhile1 meanwhile2 response_id inject_id exercise_id now s =
     (case pipeline_rows response_id inject_id exercise_id (db s) of
        None \<Rightarrow> (Inr (), s)
      | Some (r, ij, ex) \<Rightarrow>
     (case assessment_of (db s) response_id of
        Some a \<Rightarrow> (Inr (), if rs_assessment_id r \<noteq> Some (ra_id a)
                          then commit (execute (link_assessment r a) s) else s)
      | None \<Rightarrow>
     (if provider = None then (Inr (), s)
      else case definition_for_exercise (db s) exercise_id of
        Inl x \<Rightarrow> (Inl x, s)
      | Inr None \<Rightarrow> (Inr (), s)
      | Inr (Some def1) \<Rightarrow>
          (case assess_response_result loads provider meanwhile1 r ij def1 now s of
             (Inl x, s1) \<Rightarrow> (Inl x, s1)
           | (Inr _, s1) \<Rightarrow>
               if (case node_for def1 ij of None \<Rightarrow> False | Some n \<Rightarrow> in_free_text_response n)
               then (case suggest_inject_result loads provider meanwhile2 r ij exercise_id def1 now s1 of
                       (Inl x, s2) \<Rightarrow> (Inl x, s2) | (Inr _, s2) \<Rightarrow> (Inr (), s2))
               else (Inr (), s1)))))"

text \<open>Whatever was raised is logged; the session is closed.\<close>

definition run_llm_pipeline ::
  "(string \<Rightarrow> pyjson option) \<Rightarrow> provider option \<Rightarrow> (database \<Rightarrow> database) \<Rightarrow> (database \<Rightarrow> database) \<Rightarrow>
     int \<Rightarrow> int \<Rightarrow> int \<Rightarrow> instant \<Rightarrow> session \<Rightarrow> session" where
  "run_llm_pipeline loads provider meanwhile1 meanwhile2 response_id inject_id exercise_id now s =
     close_session (snd (run_pipeline_body loads provider meanwhile1 meanwhile2
        response_id inject_id exercise_id now s))"

section \<open>The executive summary\<close>

text \<open>The provider's draft is the argument: it may raise.\<close>

definition summary_of :: "database \<Rightarrow> int \<Rightarrow> executive_summary option" where
  "summary_of d exercise_id = find (\<lambda>x. es_exercise_id x = exercise_id) (summaries d)"

definition upsert_summary ::
  "string \<Rightarrow> int \<Rightarrow> string \<Rightarrow> instant \<Rightarrow> database \<Rightarrow> executive_summary \<times> database" where
  "upsert_summary label exercise_id answer now d =
     (case summary_of d exercise_id of
        Some x \<Rightarrow>
          let x' = x\<lparr>es_summary_text := answer, es_llm_model := label, es_generated_at := now, es_edited := False\<rparr>
          in (x', d\<lparr>summaries := update_where (\<lambda>y. es_id y = es_id x) (\<lambda>_. x') (summaries d)\<rparr>)
      | None \<Rightarrow>
          let x = \<lparr>es_id = nextval TSummary d, es_exercise_id = exercise_id, es_summary_text = answer,
                   es_llm_model = label, es_generated_at = now, es_edited = False\<rparr>
          in (x, (bump TSummary d)\<lparr>summaries := summaries d @ [x]\<rparr>))"

definition generate_executive_summary ::
  "string \<Rightarrow> (exn + string) \<Rightarrow> int \<Rightarrow> instant \<Rightarrow> session \<Rightarrow> (exn + executive_summary option) \<times> session" where
  "generate_executive_summary label draft exercise_id now s =
     (if get_exercise (db s) exercise_id = None then (Inr None, s)
      else case draft of
        Inl x \<Rightarrow> (Inl x, s)
      | Inr answer \<Rightarrow>
          let (x, d) = upsert_summary label exercise_id (strip answer) now (db s);
              s1 = execute (\<lambda>_. d) s;
              s2 = snd (record_event (SummaryGenerated exercise_id (es_id x)) s1)
          in (Inr (Some x), dispatch (commit s2)))"

definition run_summary_pipeline ::
  "(string \<times> (exn + string)) option \<Rightarrow> int \<Rightarrow> instant \<Rightarrow> session \<Rightarrow> session" where
  "run_summary_pipeline provider exercise_id now s =
     (case provider of
        None \<Rightarrow> s
      | Some (label, draft) \<Rightarrow>
          (case get_exercise (db s) exercise_id of
             None \<Rightarrow> s
           | Some ex \<Rightarrow>
               if \<not> ex_llm_enabled ex then s
               else close_session (snd (generate_executive_summary label draft exercise_id now s))))"

section \<open>Lemmas\<close>

lemma find_Some_mem: "find P xs = Some x \<Longrightarrow> x \<in> set xs \<and> P x"
  by (induction xs) (auto split: if_splits)

lemma bounded_field_Some: "bounded_field n v = Some t \<Longrightarrow> t \<noteq> [] \<and> length t \<le> n"
  by (auto simp: bounded_field_def split: option.splits pyjson.splits if_splits)

lemma optional_field_Some: "optional_field ok v = Some r \<Longrightarrow> r = None \<or> (\<exists>t. r = Some t \<and> ok t)"
  by (auto simp: optional_field_def split: option.splits pyjson.splits if_splits)

lemma validate_assessment_Some:
  assumes "validate_assessment kvs = Some out"
  shows "ao_assessment_text out \<noteq> [] \<and> length (ao_assessment_text out) \<le> MAX_LLM_TEXT \<and>
    (\<forall>q. ao_decision_quality out = Some q \<longrightarrow> known_quality q)"
proof -
  obtain t q r where "bounded_field MAX_LLM_TEXT (dict_of kvs ''assessment_text'') = Some t"
      "optional_field known_quality (dict_of kvs ''decision_quality'') = Some q"
      "out = \<lparr>ao_assessment_text = t, ao_decision_quality = q, ao_recommended_branch_option_id = r\<rparr>"
    using assms by (auto simp: validate_assessment_def Let_def split: if_splits option.splits)
  then show ?thesis
    using bounded_field_Some [of MAX_LLM_TEXT _ t] optional_field_Some [of known_quality _ q] by auto
qed

lemma validate_suggestion_Some:
  assumes "validate_suggestion kvs = Some out"
  shows "so_title out \<noteq> [] \<and> length (so_title out) \<le> MAX_LLM_TITLE \<and>
    so_content out \<noteq> [] \<and> length (so_content out) \<le> MAX_LLM_TEXT"
proof -
  obtain t c ts where "bounded_field MAX_LLM_TITLE (dict_of kvs ''title'') = Some t"
      "bounded_field MAX_LLM_TEXT (dict_of kvs ''content'') = Some c"
      "out = \<lparr>so_title = t, so_content = c, so_target_teams = ts\<rparr>"
    using assms by (auto simp: validate_suggestion_def Let_def split: if_splits option.splits)
  then show ?thesis
    using bounded_field_Some [of MAX_LLM_TITLE _ t] bounded_field_Some [of MAX_LLM_TEXT _ c] by auto
qed

lemma fallback_text_bounds:
  "otherwise \<noteq> [] \<Longrightarrow> fallback_text answer otherwise \<noteq> [] \<and> length (fallback_text answer otherwise) \<le> MAX_LLM_TEXT"
  by (auto simp: fallback_text_def MAX_LLM_TEXT_def)

lemma assessment_output_contained:
  assumes "out = read_assessment_output loads def1 ij answer"
  shows "ao_assessment_text out \<noteq> [] \<and> length (ao_assessment_text out) \<le> MAX_LLM_TEXT \<and>
    (\<forall>q. ao_decision_quality out = Some q \<longrightarrow> known_quality q) \<and>
    (\<forall>o1. ao_recommended_branch_option_id out = Some o1 \<longrightarrow>
       (\<exists>n. node_for def1 ij = Some n \<and> o1 \<in> io_id ` set (in_options n)))"
proof -
  let ?data = "parse_json loads answer [(''assessment_text'', PStr answer), (''decision_quality'', PNull),
                    (''recommended_branch_option_id'', PNull)]"
  show ?thesis
    using validate_assessment_Some [of ?data] fallback_text_bounds [of "''Provider returned invalid assessment''" answer]
    unfolding assms read_assessment_output_def Let_def
    by (auto split: option.splits)
qed

lemma suggestion_output_contained:
  "so_title (read_suggestion_output loads answer) \<noteq> [] \<and>
   length (so_title (read_suggestion_output loads answer)) \<le> MAX_LLM_TITLE \<and>
   so_content (read_suggestion_output loads answer) \<noteq> [] \<and>
   length (so_content (read_suggestion_output loads answer)) \<le> MAX_LLM_TEXT"
proof -
  let ?data = "parse_json loads answer [(''title'', PStr ''Follow-up inject''), (''content'', PStr answer),
                    (''target_teams'', PNull)]"
  show ?thesis
    using validate_suggestion_Some [of ?data] fallback_text_bounds [of "''Provider returned invalid suggestion''" answer]
    unfolding read_suggestion_output_def Let_def
    by (auto simp: MAX_LLM_TITLE_def split: option.splits)
qed

lemma link_assessment_frame [simp]:
  "assessments (link_assessment r a d) = assessments d" "suggestions (link_assessment r a d) = suggestions d"
  "injects (link_assessment r a d) = injects d" "communications (link_assessment r a d) = communications d"
  "comments (link_assessment r a d) = comments d" "transitions (link_assessment r a d) = transitions d"
  "exercises (link_assessment r a d) = exercises d"
  by (simp_all add: link_assessment_def)

text \<open>What a created assessment did, and what any other outcome left.\<close>

lemma store_assessment_created:
  assumes "store_assessment r e a s = (Inr (Some b, True), s')"
  shows "b = a \<and> assessment_of (db s) (ra_response_id a) = None \<and>
    s' = dispatch (commit ((execute (\<lambda>_. link_assessment r a
       ((bump TAssessment (db s))\<lparr>assessments := assessments (db s) @ [a]\<rparr>)) s)
       \<lparr>pending := pending s @ [ResponseAssessed e (rs_id r) (ra_id a)]\<rparr>))"
  using assms
  by (cases s) (auto simp: store_assessment_def insert_assessment_def execute_def record_event_def Let_def
      split: sum.splits if_splits option.splits)

lemma store_suggestion_created:
  assumes "store_suggestion g s = (Inr (Some h, True), s')"
  shows "h = g \<and> suggestion_of (db s) (sj_triggered_by_response_id g) = None \<and>
    s' = dispatch (commit ((execute (\<lambda>_.
       (bump TSuggested (db s))\<lparr>suggestions := suggestions (db s) @ [g]\<rparr>) s)
       \<lparr>pending := pending s @ [InjectSuggested (sj_exercise_id g) (sj_id g)]\<rparr>))"
  using assms
  by (cases s) (auto simp: store_suggestion_def insert_suggestion_def execute_def record_event_def Let_def
      split: sum.splits if_splits option.splits)

lemma assess_created:
  assumes "assess_response_result loads provider meanwhile r ij def1 now s = (Inr (Some a, True), s')"
  obtains p answer where "provider = Some p"
    "pr_complete p ASSESSMENT_SYSTEM (fst (build_context ij def1 r))
       (assessment_prompt r (snd (build_context ij def1 r))) = Inr answer"
    "a = new_assessment (pr_label p) (rs_id r) (read_assessment_output loads def1 ij answer) now
       (meanwhile (db s))"
    "store_assessment r (ij_exercise_id ij) a (overtaken meanwhile s) = (Inr (Some a, True), s')"
proof -
  from assms obtain p answer where p: "provider = Some p"
    "pr_complete p ASSESSMENT_SYSTEM (fst (build_context ij def1 r))
       (assessment_prompt r (snd (build_context ij def1 r))) = Inr answer"
    and st: "store_assessment r (ij_exercise_id ij) (new_assessment (pr_label p) (rs_id r)
         (read_assessment_output loads def1 ij answer) now (db (overtaken meanwhile s)))
       (overtaken meanwhile s) = (Inr (Some a, True), s')"
    by (auto simp: assess_response_result_def Let_def split: option.splits prod.splits sum.splits)
  have a: "a = new_assessment (pr_label p) (rs_id r) (read_assessment_output loads def1 ij answer) now
      (meanwhile (db s))"
    using store_assessment_created [OF st] by (simp add: overtaken_def)
  have "db (overtaken meanwhile s) = meanwhile (db s)" by (simp add: overtaken_def)
  with st have "store_assessment r (ij_exercise_id ij) a (overtaken meanwhile s) = (Inr (Some a, True), s')"
    unfolding a by simp
  with p a show thesis by (rule that)
qed

lemma suggest_created:
  assumes "suggest_inject_result loads provider meanwhile r ij e def1 now s = (Inr (Some g, True), s')"
  obtains p answer teams where "provider = Some p"
    "validated_suggested_target_teams (so_target_teams (read_suggestion_output loads answer)) def1 = Inr teams"
    "g = new_suggestion (pr_label p) e (rs_id r) (read_suggestion_output loads answer) teams now (meanwhile (db s))"
    "store_suggestion g (overtaken meanwhile s) = (Inr (Some g, True), s')"
proof -
  from assms obtain p answer teams where p: "provider = Some p"
    "validated_suggested_target_teams (so_target_teams (read_suggestion_output loads answer)) def1 = Inr teams"
    and st: "store_suggestion (new_suggestion (pr_label p) e (rs_id r) (read_suggestion_output loads answer)
         teams now (db (overtaken meanwhile s))) (overtaken meanwhile s) = (Inr (Some g, True), s')"
    by (auto simp: suggest_inject_result_def Let_def split: option.splits prod.splits sum.splits)
  have g: "g = new_suggestion (pr_label p) e (rs_id r) (read_suggestion_output loads answer) teams now
      (meanwhile (db s))"
    using store_suggestion_created [OF st] by (simp add: overtaken_def)
  have "db (overtaken meanwhile s) = meanwhile (db s)" by (simp add: overtaken_def)
  with st have "store_suggestion g (overtaken meanwhile s) = (Inr (Some g, True), s')"
    unfolding g by simp
  with p g show thesis by (rule that)
qed


section \<open>What the pipeline keeps\<close>

text \<open>A property of the tables that holds in the session and of what is committed.\<close>

definition both :: "(database \<Rightarrow> bool) \<Rightarrow> session \<Rightarrow> bool" where
  "both P s \<longleftrightarrow> P (db s) \<and> P (committed s)"

lemma both_steps [simp]:
  "both P s \<Longrightarrow> both P (rollback s)" "both P s \<Longrightarrow> both P (commit s)"
  "both P s \<Longrightarrow> both P (dispatch s)" "both P s \<Longrightarrow> both P (snd (record_event ev s))"
  "both P s \<Longrightarrow> both P (close_session s)"
  by (simp_all add: both_def rollback_def commit_def dispatch_def record_event_def close_session_def)

lemma both_pending [simp]: "both P (s\<lparr>pending := evs\<rparr>) = both P s"
  by (simp add: both_def)

lemma both_execute: "both P s \<Longrightarrow> P (f (db s)) \<Longrightarrow> both P (execute f s)"
  by (simp add: both_def)

definition assessment_contained :: "response_assessment \<Rightarrow> bool" where
  "assessment_contained a \<longleftrightarrow> ra_assessment_text a \<noteq> [] \<and> length (ra_assessment_text a) \<le> MAX_LLM_TEXT \<and>
     (case ra_decision_quality a of None \<Rightarrow> True | Some q \<Rightarrow> known_quality q)"

definition suggestion_contained :: "suggested_inject \<Rightarrow> bool" where
  "suggestion_contained g \<longleftrightarrow> sj_title g \<noteq> [] \<and> length (sj_title g) \<le> MAX_LLM_TITLE \<and>
     sj_content g \<noteq> [] \<and> length (sj_content g) \<le> MAX_LLM_TEXT"

lemma store_assessment_keeps:
  assumes "both P s" and "\<And>d. P d \<Longrightarrow> P ((bump TAssessment d)\<lparr>assessments := assessments d @ [a]\<rparr>)"
    and "\<And>d. P d \<Longrightarrow> P (link_assessment r a d)"
  shows "both P (snd (store_assessment r e a s))"
proof (cases "insert_assessment a (db s)")
  case (Inl x)
  then show ?thesis
    using assms(1) by (simp add: store_assessment_def Let_def split: option.split)
next
  case (Inr d)
  then have "P d" using assms(1,2) by (auto simp: insert_assessment_def both_def split: if_splits)
  then have "both P (execute (link_assessment r a) (execute (\<lambda>_. d) s))"
    using assms(1,3) by (simp add: both_def)
  then show ?thesis using Inr by (simp add: store_assessment_def Let_def)
qed

lemma store_suggestion_keeps:
  assumes "both P s" and "\<And>d. P d \<Longrightarrow> P ((bump TSuggested d)\<lparr>suggestions := suggestions d @ [g]\<rparr>)"
  shows "both P (snd (store_suggestion g s))"
proof (cases "insert_suggestion g (db s)")
  case (Inl x)
  then show ?thesis
    using assms(1) by (simp add: store_suggestion_def Let_def split: option.split)
next
  case (Inr d)
  then have "P d" using assms by (auto simp: insert_suggestion_def both_def split: if_splits)
  then have "both P (execute (\<lambda>_. d) s)"
    using assms(1) by (simp add: both_def)
  then show ?thesis using Inr by (simp add: store_suggestion_def Let_def)
qed

lemma both_overtaken:
  "both P s \<Longrightarrow> (\<And>d. P d \<Longrightarrow> P (meanwhile d)) \<Longrightarrow> both P (overtaken meanwhile s)"
  by (simp add: both_def overtaken_def)

text \<open>What a property needs so that the pipeline keeps it.\<close>

definition pipeline_safe :: "(database \<Rightarrow> bool) \<Rightarrow> bool" where
  "pipeline_safe P \<longleftrightarrow>
     (\<forall>d r a. P d \<longrightarrow> P (link_assessment r a d)) \<and>
     (\<forall>d a. P d \<longrightarrow> assessment_contained a \<longrightarrow>
        P ((bump TAssessment d)\<lparr>assessments := assessments d @ [a]\<rparr>)) \<and>
     (\<forall>d g. P d \<longrightarrow> suggestion_contained g \<longrightarrow> sj_status g = PendingReview \<longrightarrow>
        P ((bump TSuggested d)\<lparr>suggestions := suggestions d @ [g]\<rparr>))"

lemma new_assessment_contained:
  "assessment_contained (new_assessment label i (read_assessment_output loads def1 ij answer) now d)"
  using assessment_output_contained [OF refl, of loads def1 ij answer]
  by (simp add: assessment_contained_def new_assessment_def split: option.split)

lemma new_suggestion_contained:
  "suggestion_contained (new_suggestion label e i (read_suggestion_output loads answer) teams now d)"
  "sj_status (new_suggestion label e i (read_suggestion_output loads answer) teams now d) = PendingReview"
  using suggestion_output_contained [of loads answer]
  by (simp_all add: suggestion_contained_def new_suggestion_def)

lemma assess_keeps:
  assumes "pipeline_safe P" and "both P s" and "\<And>d. P d \<Longrightarrow> P (meanwhile d)"
  shows "both P (snd (assess_response_result loads provider meanwhile r ij def1 now s))"
proof -
  have "both P (snd (store_assessment r e
      (new_assessment label i (read_assessment_output loads def1 ij answer) now d0)
      (overtaken meanwhile s)))" for label i answer d0 e
    using assms(1) new_assessment_contained
    by (intro store_assessment_keeps both_overtaken assms(2,3)) (auto simp: pipeline_safe_def)
  then show ?thesis
    using assms(2) by (simp add: assess_response_result_def Let_def split: option.split prod.split sum.split)
qed

lemma suggest_keeps:
  assumes "pipeline_safe P" and "both P s" and "\<And>d. P d \<Longrightarrow> P (meanwhile d)"
  shows "both P (snd (suggest_inject_result loads provider meanwhile r ij e def1 now s))"
proof -
  have "both P (snd (store_suggestion
      (new_suggestion label e i (read_suggestion_output loads answer) teams now d0)
      (overtaken meanwhile s)))" for label i answer d0 teams
    using assms(1) new_suggestion_contained
    by (intro store_suggestion_keeps both_overtaken assms(2,3)) (auto simp: pipeline_safe_def)
  moreover have "both P (overtaken meanwhile s)" by (intro both_overtaken assms(2,3))
  ultimately show ?thesis
    using assms(2) by (simp add: suggest_inject_result_def Let_def split: option.split prod.split sum.split)
qed

lemma pipeline_keeps:
  assumes "pipeline_safe P" and "both P s"
    and "\<And>d. P d \<Longrightarrow> P (meanwhile1 d)" and "\<And>d. P d \<Longrightarrow> P (meanwhile2 d)"
  shows "both P (run_llm_pipeline loads provider meanwhile1 meanwhile2 i j e now s)"
proof -
  have link: "both P (commit (execute (link_assessment r a) s))" for r a
    using assms(1,2) by (simp add: both_def pipeline_safe_def commit_def)
  have "both P (snd (run_pipeline_body loads provider meanwhile1 meanwhile2 i j e now s))"
  proof (cases "pipeline_rows i j e (db s)")
    case None
    then show ?thesis using assms(2) by (simp add: run_pipeline_body_def)
  next
    case (Some row)
    obtain r ij ex where row: "row = (r, ij, ex)" by (cases row)
    have a: "both P (snd (assess_response_result loads provider meanwhile1 r ij def1 now s))" for def1
      by (rule assess_keeps [OF assms(1,2,3)])
    have g: "both P (snd (suggest_inject_result loads provider meanwhile2 r ij e def1 now
        (snd (assess_response_result loads provider meanwhile1 r ij def1 now s))))" for def1
      by (rule suggest_keeps [OF assms(1) a assms(4)])
    have "both P s1" if "assess_response_result loads provider meanwhile1 r ij def1 now s = (x, s1)" for def1 x s1
      using a [of def1] that by simp
    moreover have "both P s2" if "assess_response_result loads provider meanwhile1 r ij def1 now s = (x, s1)"
        "suggest_inject_result loads provider meanwhile2 r ij e def1 now s1 = (y, s2)" for def1 x s1 y s2
      using g [of def1] that by simp
    ultimately show ?thesis
      using Some row assms(2) link
      by (auto simp: run_pipeline_body_def split: option.split prod.split sum.split)
  qed
  then show ?thesis by (simp add: run_llm_pipeline_def)
qed


section \<open>Properties\<close>

definition provider_rows_ok :: "database \<Rightarrow> bool" where
  "provider_rows_ok d \<longleftrightarrow>
     (\<forall>a\<in>set (assessments d). assessment_contained a) \<and> (\<forall>g\<in>set (suggestions d). suggestion_contained g)"

lemma provider_rows_ok_safe: "pipeline_safe provider_rows_ok"
  by (auto simp: pipeline_safe_def provider_rows_ok_def)

text \<open>An answer to a free-text inject, and a provider whose output is only half usable.\<close>

definition demo_free_text :: scenario where
  "demo_free_text = demo_scenario\<lparr>sc_definition := demo_definition\<lparr>sd_injects :=
     map (\<lambda>n. n\<lparr>in_free_text_response := True\<rparr>) (sd_injects demo_definition)\<rparr>\<rparr>"

definition demo_answer :: response where
  "demo_answer = \<lparr>rs_id = 7, rs_inject_id = 1, rs_exercise_id = 1, rs_user_id = 12,
     rs_group_id = Some ''red'', rs_content = ''go'', rs_selected_option = Some ''x'',
     rs_submitted_at = 3, rs_assessment_id = None\<rparr>"

definition demo_llm_db :: database where
  "demo_llm_db = demo_play_db\<lparr>scenarios := [demo_free_text],
     exercises := [demo_running\<lparr>ex_llm_enabled := True\<rparr>], responses := [demo_answer]\<rparr>"

definition demo_loads :: "string \<Rightarrow> pyjson option" where
  "demo_loads answer =
     (if answer = ''a'' then Some (PObj [(''assessment_text'', PStr ''fine''),
        (''recommended_branch_option_id'', PStr ''elsewhere'')]) else None)"

definition demo_provider :: provider where
  "demo_provider = \<lparr>pr_label = ''m'',
     pr_complete = (\<lambda>system cached prompt. Inr (if system = ASSESSMENT_SYSTEM then ''a'' else ''{''))\<rparr>"

definition demo_llm_run :: session where
  "demo_llm_run = run_llm_pipeline demo_loads (Some demo_provider) id id 7 1 1 9 (demo_session demo_llm_db)"

text \<open>C22: the provider's output is contained: whatever it answers, and however the answer parses,
  every assessment in the tables keeps a text of 1 to 12000 characters and a known decision
  quality, and every suggestion a title of 1 to 300 and a content of 1 to 12000 characters, as
  long as the sessions that commit meanwhile keep to the same bounds.\<close>

theorem provider_output_is_contained:
  assumes "\<And>d. provider_rows_ok d \<Longrightarrow> provider_rows_ok (meanwhile1 d)"
    and "\<And>d. provider_rows_ok d \<Longrightarrow> provider_rows_ok (meanwhile2 d)"
    and "fresh s" and "provider_rows_ok (db s)"
  shows "provider_rows_ok
    (committed (run_llm_pipeline loads provider meanwhile1 meanwhile2 i j e now s))"
proof -
  have "both provider_rows_ok s" using assms(3,4) by (simp add: both_def fresh_def)
  from pipeline_keeps [OF provider_rows_ok_safe this assms(1,2)] show ?thesis
    by (simp add: both_def)
qed

theorem provider_output_is_contained_witness:
  "provider_rows_ok (committed demo_llm_run) \<and>
   map ra_recommended_branch_option_id (assessments (committed demo_llm_run)) = [None] \<and>
   map sj_content (suggestions (committed demo_llm_run)) = [''{'']"
proof -
  have "provider_rows_ok (db (demo_session demo_llm_db))" by code_simp
  from provider_output_is_contained [where ?meanwhile1.0 = id and ?meanwhile2.0 = id, OF _ _ _ this]
  have "provider_rows_ok (committed demo_llm_run)" by (simp add: demo_llm_run_def)
  moreover have "map ra_recommended_branch_option_id (assessments (committed demo_llm_run)) = [None]"
    "map sj_content (suggestions (committed demo_llm_run)) = [''{'']" by code_simp+
  ultimately show ?thesis by blast
qed

text \<open>The tables as the pipeline found them, but for new assessments, their links and new
  suggestions that wait for a review.\<close>

definition unassessed :: "response \<Rightarrow> response" where
  "unassessed r = r\<lparr>rs_assessment_id := None\<rparr>"

definition only_proposed :: "database \<Rightarrow> database \<Rightarrow> bool" where
  "only_proposed d0 d \<longleftrightarrow>
     users d = users d0 \<and> scenarios d = scenarios d0 \<and> exercises d = exercises d0 \<and>
     members d = members d0 \<and> transitions d = transitions d0 \<and> cursors d = cursors d0 \<and>
     injects d = injects d0 \<and> resolutions d = resolutions d0 \<and>
     map unassessed (responses d) = map unassessed (responses d0) \<and>
     communications d = communications d0 \<and> reads d = reads d0 \<and> comments d = comments d0 \<and>
     summaries d = summaries d0 \<and> snapshots d = snapshots d0 \<and> auth_tokens d = auth_tokens d0 \<and>
     jobs d = jobs d0 \<and>
     (\<exists>new. suggestions d = suggestions d0 @ new \<and> (\<forall>g\<in>set new. sj_status g = PendingReview)) \<and>
     (\<exists>new. assessments d = assessments d0 @ new)"

lemma unassessed_link: "map unassessed (responses (link_assessment r a d)) = map unassessed (responses d)"
  by (auto simp: link_assessment_def update_where_def unassessed_def comp_def intro!: map_cong)

lemma only_proposed_safe: "pipeline_safe (only_proposed d0)"
  unfolding pipeline_safe_def only_proposed_def unassessed_link
  by (auto simp: link_assessment_def)

text \<open>C21: the provider only proposes: whatever it answers, a pipeline run that no other session
  overtakes leaves every table as it was, but for new assessments, the link from an answer to
  its assessment, and new suggestions in pending review: no inject is created or released, no
  cursor moves, no answer changes.\<close>

theorem provider_only_proposes:
  assumes "fresh s"
  shows "only_proposed (db s) (committed (run_llm_pipeline loads provider id id i j e now s))"
proof -
  have "both (only_proposed (db s)) s" using assms by (simp add: both_def fresh_def only_proposed_def)
  from pipeline_keeps [OF only_proposed_safe this, of id id] show ?thesis
    by (simp add: both_def)
qed

theorem provider_only_proposes_witness:
  "only_proposed demo_llm_db (committed demo_llm_run) \<and>
   map sj_status (suggestions (committed demo_llm_run)) = [PendingReview]"
proof -
  have "only_proposed demo_llm_db (committed demo_llm_run)"
    using provider_only_proposes [of "demo_session demo_llm_db"] by (simp add: demo_llm_run_def)
  moreover have "map sj_status (suggestions (committed demo_llm_run)) = [PendingReview]" by code_simp
  ultimately show ?thesis by blast
qed

text \<open>An answer is assessed at most once: when an assessment of it is stored, a further run
  asks no provider (its outcome is the same whatever provider is configured and whatever it
  would answer), announces nothing and at most repairs the link to the stored assessment.\<close>

lemma assessed_answer_is_not_sent_again:
  assumes "assessment_of (db s) i = Some a" and "fresh s"
  shows "run_llm_pipeline loads provider m1 m2 i j e now s =
      run_llm_pipeline loads' provider' m1' m2' i j e now' s \<and>
    dispatched (run_llm_pipeline loads provider m1 m2 i j e now s) = dispatched s \<and>
    assessments (db (run_llm_pipeline loads provider m1 m2 i j e now s)) = assessments (db s) \<and>
    suggestions (db (run_llm_pipeline loads provider m1 m2 i j e now s)) = suggestions (db s)"
  using assms
  by (auto simp: run_llm_pipeline_def run_pipeline_body_def close_session_def fresh_def
      rollback_def dispatch_def commit_def split: option.split)

lemma assessed_answer_is_not_sent_again_witness:
  "length (assessments (db demo_llm_run)) = 1 \<and>
   run_llm_pipeline demo_loads (Some demo_provider) id id 7 1 1 20 demo_llm_run =
     run_llm_pipeline (\<lambda>_. None) None id id 7 1 1 30 demo_llm_run"
proof -
  have "case assessment_of (db demo_llm_run) 7 of None \<Rightarrow> False | Some a \<Rightarrow> True" by code_simp
  then obtain a where a: "assessment_of (db demo_llm_run) 7 = Some a" by (cases "assessment_of (db demo_llm_run) 7") auto
  have "fresh demo_llm_run"
    by (simp add: demo_llm_run_def run_llm_pipeline_def close_session_def fresh_def rollback_def dispatch_def)
  note assessed_answer_is_not_sent_again [OF a this, THEN conjunct1]
  moreover have "length (assessments (db demo_llm_run)) = 1" by code_simp
  ultimately show ?thesis by blast
qed

end
