(* ===== verification/Timeline.thy ===== *)
theory Timeline
  imports Exercise_Api Llm_Service "HOL-Library.Multiset"
begin

text \<open>
  The record of one exercise (\<^verbatim>\<open>app/services/timeline_service.py\<close>): the bundle of
  rows every projection reads, the resolution state derived from the per-context rows, and the
  merged event feed.
\<close>

section \<open>The bundle\<close>

record exercise_bundle =
  eb_exercise :: exercise
  eb_scenario :: "scenario option"
  eb_definition :: "scenario_definition option"
  eb_users :: "user list"
  eb_members :: "exercise_member list"
  eb_injects :: "inject list"
  eb_resolutions :: "inject_progress list"
  eb_responses :: "response list"
  eb_assessments :: "response_assessment list"
  eb_communications :: "communication list"
  eb_comments :: "inject_comment list"
  eb_transitions :: "state_transition list"
  eb_summary :: "executive_summary option"

definition get_by_ids :: "int set \<Rightarrow> database \<Rightarrow> user list" where
  "get_by_ids ids d = filter (\<lambda>u. u_id u \<in> ids) (users d)"

definition some_values :: "'a option list \<Rightarrow> 'a list" where
  "some_values xs = concat (map (\<lambda>x. case x of None \<Rightarrow> [] | Some v \<Rightarrow> [v]) xs)"

text \<open>The accounts the rows of an exercise mention.\<close>

definition referenced_ids ::
  "exercise \<Rightarrow> exercise_member list \<Rightarrow> inject list \<Rightarrow> inject_progress list \<Rightarrow> response list \<Rightarrow>
     communication list \<Rightarrow> inject_comment list \<Rightarrow> state_transition list \<Rightarrow> int set" where
  "referenced_ids ex ms ijs ips rs cs ics sts =
     set ([ex_created_by ex] @ map em_user_id ms @ some_values (map ij_released_by ijs) @
          some_values (map ij_resolved_by ijs) @ some_values (map ip_resolved_by ips) @
          map rs_user_id rs @ some_values (map cm_sender_id cs) @ map ic_user_id ics @
          some_values (map st_actor_id sts))"

definition load_exercise_bundle :: "database \<Rightarrow> int \<Rightarrow> exn + exercise_bundle option" where
  "load_exercise_bundle d e =
     (case get_exercise d e of
        None \<Rightarrow> Inr None
      | Some ex \<Rightarrow>
          (let sc = get_scenario d (ex_scenario_id ex);
               ms = filter (\<lambda>m. em_exercise_id m = e) (members d);
               ijs = filter (\<lambda>i. ij_exercise_id i = e) (injects d);
               ips = filter (\<lambda>p. ip_exercise_id p = e) (resolutions d);
               rs = filter (\<lambda>r. rs_exercise_id r = e) (responses d);
               cs = filter (\<lambda>c. cm_exercise_id c = e) (communications d);
               ics = filter (\<lambda>c. ic_exercise_id c = e) (comments d);
               sts = filter (\<lambda>t. st_exercise_id t = e) (transitions d)
           in and_then (case sc of None \<Rightarrow> Inr None
                        | Some x \<Rightarrow> and_then (export_definition x) (\<lambda>def1. Inr (Some def1))) (\<lambda>def1.
                Inr (Some \<lparr>eb_exercise = ex, eb_scenario = sc, eb_definition = def1,
                  eb_users = get_by_ids (referenced_ids ex ms ijs ips rs cs ics sts) d,
                  eb_members = ms, eb_injects = ijs, eb_resolutions = ips, eb_responses = rs,
                  eb_assessments = filter (\<lambda>a. ra_response_id a \<in> rs_id ` set rs) (assessments d),
                  eb_communications = cs, eb_comments = ics, eb_transitions = sts,
                  eb_summary = summary_of d e\<rparr>))))"

section \<open>The state of an inject\<close>

text \<open>\<^verbatim>\<open>max(xs, key=...)\<close>: the first of the largest.\<close>

fun first_max :: "('a \<Rightarrow> int) \<Rightarrow> 'a \<Rightarrow> 'a list \<Rightarrow> 'a" where
  "first_max key best [] = best"
| "first_max key best (x # xs) = first_max key (if key best < key x then x else best) xs"

definition DATETIME_MIN :: instant where "DATETIME_MIN = -62135596800000000"

record resolution_view =
  rv_state :: inject_state
  rv_resolved_at :: "instant option"
  rv_resolved_by :: "int option"
  rv_reason :: "string option"
  rv_rows :: "inject_progress list"

definition inject_resolution_projection :: "exercise_bundle \<Rightarrow> inject \<Rightarrow> resolution_view" where
  "inject_resolution_projection b ij =
     (let rows = filter (\<lambda>p. ip_inject_id p = ij_id ij) (eb_resolutions b);
          resolved = filter (\<lambda>p. ip_state p = Resolved) rows
      in if rows \<noteq> [] \<and> length resolved = length rows
         then let latest = first_max (\<lambda>p. case ip_resolved_at p of Some t \<Rightarrow> t | None \<Rightarrow> DATETIME_MIN)
                             (hd resolved) (tl resolved)
              in \<lparr>rv_state = Resolved, rv_resolved_at = ip_resolved_at latest,
                  rv_resolved_by = ip_resolved_by latest, rv_reason = ip_resolution_reason latest,
                  rv_rows = rows\<rparr>
         else if rows \<noteq> []
         then \<lparr>rv_state = (if ij_released_at ij \<noteq> None then Released else Pending),
               rv_resolved_at = None, rv_resolved_by = None, rv_reason = None, rv_rows = rows\<rparr>
         else \<lparr>rv_state = ij_state ij, rv_resolved_at = ij_resolved_at ij,
               rv_resolved_by = ij_resolved_by ij, rv_reason = ij_resolution_reason ij, rv_rows = rows\<rparr>)"

section \<open>The feed\<close>

datatype timeline_payload =
    InjectReleasedAt int "string option" string "string list option" "string option" "int option"
  | InjectResolvedAt int "string option" "string option" "int option" "string option"
  | ResponseAt int int int "string option" "string option" string "string option"
  | CommunicationAt int comm_direction "string option" string "int option" "string option"
      "string list option" "int option"
  | CommentAt int int int "string option" string
  | StateChangeAt int "string option" "int option" exercise_state exercise_state

record timeline_event =
  te_at :: instant
  te_ref :: int
  te_payload :: timeline_payload

fun KIND_ORDER :: "timeline_payload \<Rightarrow> int" where
  "KIND_ORDER (StateChangeAt _ _ _ _ _) = 0"
| "KIND_ORDER (InjectReleasedAt _ _ _ _ _ _) = 1"
| "KIND_ORDER (InjectResolvedAt _ _ _ _ _) = 2"
| "KIND_ORDER (ResponseAt _ _ _ _ _ _ _) = 3"
| "KIND_ORDER (CommentAt _ _ _ _ _) = 4"
| "KIND_ORDER (CommunicationAt _ _ _ _ _ _ _ _) = 5"

definition event_key :: "timeline_event \<Rightarrow> int \<times> int \<times> int" where
  "event_key ev = (te_at ev, KIND_ORDER (te_payload ev), te_ref ev)"

definition released_event :: "inject \<Rightarrow> timeline_event" where
  "released_event i =
     \<lparr>te_at = the (ij_released_at i), te_ref = ij_id i,
      te_payload = InjectReleasedAt (ij_id i) (ij_scenario_node_id i) (ij_title i)
        (ij_target_teams i) (ij_group_id i) (ij_released_by i)\<rparr>"

definition resolved_event :: "(int \<Rightarrow> string option) \<Rightarrow> inject_progress \<Rightarrow> timeline_event" where
  "resolved_event titles p =
     \<lparr>te_at = the (ip_resolved_at p), te_ref = ip_id p,
      te_payload = InjectResolvedAt (ip_inject_id p) (titles (ip_inject_id p)) (ip_group_id p)
        (ip_resolved_by p) (ip_resolution_reason p)\<rparr>"

definition response_event :: "(int \<Rightarrow> string option) \<Rightarrow> response \<Rightarrow> timeline_event" where
  "response_event quality r =
     \<lparr>te_at = rs_submitted_at r, te_ref = rs_id r,
      te_payload = ResponseAt (rs_id r) (rs_inject_id r) (rs_user_id r) (rs_group_id r)
        (rs_selected_option r) (rs_content r) (quality (rs_id r))\<rparr>"

definition communication_event :: "communication \<Rightarrow> timeline_event" where
  "communication_event c =
     \<lparr>te_at = cm_sent_at c, te_ref = cm_id c,
      te_payload = CommunicationAt (cm_id c) (cm_direction c) (cm_external_entity c) (cm_subject c)
        (cm_sender_id c) (cm_sender_team c) (cm_visible_to_teams c) (cm_triggered_by_inject_id c)\<rparr>"

definition comment_event :: "inject_comment \<Rightarrow> timeline_event" where
  "comment_event c =
     \<lparr>te_at = ic_created_at c, te_ref = ic_id c,
      te_payload = CommentAt (ic_id c) (ic_inject_id c) (ic_user_id c) (ic_group_id c) (ic_content c)\<rparr>"

definition transition_event :: "state_transition \<Rightarrow> timeline_event" where
  "transition_event t =
     \<lparr>te_at = st_transitioned_at t, te_ref = st_id t,
      te_payload = StateChangeAt (st_id t) (transition_action (st_from_state t) (st_to_state t))
        (st_actor_id t) (st_from_state t) (st_to_state t)\<rparr>"

definition quality_by_response :: "exercise_bundle \<Rightarrow> int \<Rightarrow> string option" where
  "quality_by_response b i =
     (case dict_of (map (\<lambda>a. (ra_response_id a, ra_decision_quality a)) (eb_assessments b)) i of
        None \<Rightarrow> None | Some q \<Rightarrow> q)"

definition timeline_events :: "exercise_bundle \<Rightarrow> timeline_event list" where
  "timeline_events b =
     (let released = filter (\<lambda>i. ij_released_at i \<noteq> None) (eb_injects b);
          titles = dict_of (map (\<lambda>i. (ij_id i, ij_title i)) released)
      in map released_event released @
         map (resolved_event titles) (filter (\<lambda>p. ip_resolved_at p \<noteq> None) (eb_resolutions b)) @
         map (response_event (quality_by_response b)) (eb_responses b) @
         map communication_event (eb_communications b) @
         map comment_event (eb_comments b) @
         map transition_event (eb_transitions b))"

definition build_timeline :: "exercise_bundle option \<Rightarrow> timeline_event list" where
  "build_timeline bundle =
     (case bundle of None \<Rightarrow> [] | Some b \<Rightarrow> sort_key event_key (timeline_events b))"

definition exercise_timeline :: "int \<Rightarrow> current_user \<Rightarrow> database \<Rightarrow> exn + timeline_event list" where
  "exercise_timeline e u d =
     and_then (require_role [Facilitator] u) (\<lambda>_.
     and_then (require_exercise_owner d e u) (\<lambda>_.
     and_then (load_exercise_bundle d e) (\<lambda>bundle. Inr (build_timeline bundle))))"

section \<open>Lemmas\<close>

lemma sort_key_stable_filter: "filter P (sort_key f xs) = sort_key f (filter P xs)"
  by (induction xs) (simp_all add: filter_insort_triv filter_insort)

lemma first_max_mem: "first_max key b xs = b \<or> first_max key b xs \<in> set xs"
  by (induction xs arbitrary: b) auto

lemma first_max_ge:
  "key b \<le> key (first_max key b xs) \<and> (\<forall>x\<in>set xs. key x \<le> key (first_max key b xs))"
proof (induction xs arbitrary: b)
  case (Cons x xs)
  show ?case
    using Cons.IH [of "if key b < key x then x else b"] by (auto split: if_splits)
qed simp

lemma load_bundle_Some:
  assumes "load_exercise_bundle d e = Inr (Some b)"
  shows "eb_injects b = filter (\<lambda>i. ij_exercise_id i = e) (injects d)"
    and "eb_resolutions b = filter (\<lambda>p. ip_exercise_id p = e) (resolutions d)"
    and "eb_responses b = filter (\<lambda>r. rs_exercise_id r = e) (responses d)"
    and "eb_communications b = filter (\<lambda>c. cm_exercise_id c = e) (communications d)"
    and "eb_comments b = filter (\<lambda>c. ic_exercise_id c = e) (comments d)"
    and "eb_transitions b = filter (\<lambda>t. st_exercise_id t = e) (transitions d)"
    and "eb_members b = filter (\<lambda>m. em_exercise_id m = e) (members d)"
    and "get_exercise d e = Some (eb_exercise b)"
  using assms by (auto simp: load_exercise_bundle_def Let_def split: option.splits)


lemma exercise_timeline_Inr:
  assumes "exercise_timeline e u d = Inr evs"
  obtains b where "load_exercise_bundle d e = Inr (Some b)" "evs = sort_key event_key (timeline_events b)"
proof -
  have "get_exercise d e \<noteq> None"
    using assms by (auto simp: exercise_timeline_def dest!: require_exercise_owner_row)
  then have some: "load_exercise_bundle d e \<noteq> Inr None"
    by (auto simp: load_exercise_bundle_def Let_def)
  from assms obtain ob where "load_exercise_bundle d e = Inr ob" "evs = build_timeline ob"
    by (auto simp: exercise_timeline_def)
  with some show thesis
    by (cases ob) (auto simp: build_timeline_def intro: that)
qed

section \<open>Properties\<close>

text \<open>The timeline is the record, in order: it holds exactly one event for every release, every
  resolution, every answer, every message, every comment and every state change of the
  exercise, with its content, and nothing else; and it is sorted by time, then by the kind of
  event, then by id.\<close>

lemma timeline_is_the_record:
  assumes "exercise_timeline e u d = Inr evs"
  shows "sorted (map event_key evs) \<and> (\<exists>titles quality. mset evs =
      mset (map released_event (filter (\<lambda>i. ij_exercise_id i = e \<and> ij_released_at i \<noteq> None) (injects d))) +
      mset (map (resolved_event titles)
        (filter (\<lambda>p. ip_exercise_id p = e \<and> ip_resolved_at p \<noteq> None) (resolutions d))) +
      mset (map (response_event quality) (filter (\<lambda>r. rs_exercise_id r = e) (responses d))) +
      mset (map communication_event (filter (\<lambda>c. cm_exercise_id c = e) (communications d))) +
      mset (map comment_event (filter (\<lambda>c. ic_exercise_id c = e) (comments d))) +
      mset (map transition_event (filter (\<lambda>t. st_exercise_id t = e) (transitions d))))"
proof (rule conjI)
  obtain b where b: "load_exercise_bundle d e = Inr (Some b)" "evs = sort_key event_key (timeline_events b)"
    using assms by (rule exercise_timeline_Inr)
  show "sorted (map event_key evs)" by (simp add: b(2))
  let ?titles = "dict_of (map (\<lambda>i. (ij_id i, ij_title i))
    (filter (\<lambda>i. ij_released_at i \<noteq> None) (eb_injects b)))"
  have "mset evs = mset (timeline_events b)" by (simp add: b(2))
  also have "\<dots> = mset (map released_event (filter (\<lambda>i. ij_exercise_id i = e \<and> ij_released_at i \<noteq> None) (injects d))) +
      mset (map (resolved_event ?titles)
        (filter (\<lambda>p. ip_exercise_id p = e \<and> ip_resolved_at p \<noteq> None) (resolutions d))) +
      mset (map (response_event (quality_by_response b)) (filter (\<lambda>r. rs_exercise_id r = e) (responses d))) +
      mset (map communication_event (filter (\<lambda>c. cm_exercise_id c = e) (communications d))) +
      mset (map comment_event (filter (\<lambda>c. ic_exercise_id c = e) (comments d))) +
      mset (map transition_event (filter (\<lambda>t. st_exercise_id t = e) (transitions d)))"
    unfolding timeline_events_def Let_def load_bundle_Some [OF b(1)]
    by (simp only: mset_append filter_filter add.assoc)
  finally show "\<exists>titles quality. mset evs =
      mset (map released_event (filter (\<lambda>i. ij_exercise_id i = e \<and> ij_released_at i \<noteq> None) (injects d))) +
      mset (map (resolved_event titles)
        (filter (\<lambda>p. ip_exercise_id p = e \<and> ip_resolved_at p \<noteq> None) (resolutions d))) +
      mset (map (response_event quality) (filter (\<lambda>r. rs_exercise_id r = e) (responses d))) +
      mset (map communication_event (filter (\<lambda>c. cm_exercise_id c = e) (communications d))) +
      mset (map comment_event (filter (\<lambda>c. ic_exercise_id c = e) (comments d))) +
      mset (map transition_event (filter (\<lambda>t. st_exercise_id t = e) (transitions d)))"
    by blast
qed

lemma timeline_is_the_record_witness:
  "\<exists>evs. exercise_timeline 1 (plain_user (demo_user 10 Facilitator None)) demo_llm_db = Inr evs \<and>
     sorted (map event_key evs) \<and> map te_ref evs = [1, 7]"
proof -
  let ?r = "exercise_timeline 1 (plain_user (demo_user 10 Facilitator None)) demo_llm_db"
  have "is_ok ?r" by code_simp
  then obtain evs where run: "?r = Inr evs" by (auto simp: is_ok_iff)
  have "map te_ref (case ?r of Inr x \<Rightarrow> x | Inl x \<Rightarrow> []) = [1, 7]" by code_simp
  then show ?thesis using run timeline_is_the_record [OF run] by simp
qed

end
