(* ===== verification/Reports.thy ===== *)
theory Reports
  imports Timeline
begin

text \<open>
  The after-action report (\<^verbatim>\<open>app/services/report_service.py\<close>), its Markdown, the
  spreadsheet export (\<^verbatim>\<open>app/services/csv_export.py\<close>) and the routes that serve
  them (\<^verbatim>\<open>app/routers/exercises.py\<close>).

  U+2014, which the documents use and \<open>char\<close> does not have, is the argument
  \<open>dash\<close>.  Whether a provider is configured is an argument too.
\<close>

section \<open>The report\<close>

definition duration :: "instant option \<Rightarrow> instant option \<Rightarrow> string option" where
  "duration started ended =
     (case (started, ended) of
        (Some a, Some b) \<Rightarrow>
          (let total = (if b < a then - ((a - b) div SECOND) else (b - a) div SECOND);
               h = total div 3600; m = total mod 3600 div 60
           in if total < 0 then None
              else Some (if h \<noteq> 0 then show_int h @ ''h '' @ padded 2 m @ ''m'' else show_int m @ ''m''))
      | _ \<Rightarrow> None)"

text \<open>Display names: an account without one is shown by its address.\<close>

definition user_name :: "exercise_bundle \<Rightarrow> int option \<Rightarrow> string" where
  "user_name b who =
     (case who of None \<Rightarrow> ''system''
      | Some i \<Rightarrow>
          (case dict_of (map (\<lambda>u. (u_id u, or_else (u_display_name u) (u_email u))) (eb_users b)) i of
             None \<Rightarrow> ''User #'' @ show_int i | Some n \<Rightarrow> n))"

record report_response =
  pr_author :: string
  pr_group_id :: "string option"
  pr_selected_option :: "string option"
  pr_content :: string
  pr_decision_quality :: "string option"
  pr_assessment_text :: "string option"
  pr_submitted_at :: string

record report_resolution =
  pz_group_id :: "string option"
  pz_state :: inject_state
  pz_resolved_at :: "string option"
  pz_resolved_by :: string
  pz_reason :: "string option"

record report_inject =
  pi_title :: string
  pi_scenario_node_id :: "string option"
  pi_content :: string
  pi_target_teams :: "string list option"
  pi_released_at :: string
  pi_released_by :: string
  pi_resolutions :: "report_resolution list"
  pi_responses :: "report_response list"

record report_communication =
  pc_direction :: comm_direction
  pc_external_entity :: "string option"
  pc_subject :: string
  pc_body :: string
  pc_sent_at :: string
  pc_visible_to_teams :: "string list option"
  pc_sender :: "string option"

record report_team =
  pt_team_id :: string
  pt_team_label :: string
  pt_participant_count :: nat

record report_summary =
  px_summary_text :: string
  px_llm_model :: string
  px_edited :: bool
  px_generated_at :: string

record report =
  rp_id :: int
  rp_title :: string
  rp_state :: exercise_state
  rp_started_at :: "string option"
  rp_ended_at :: "string option"
  rp_duration :: "string option"
  rp_scenario_title :: "string option"
  rp_scenario_description :: "string option"
  rp_teams :: "report_team list"
  rp_member_count :: nat
  rp_participant_count :: nat
  rp_facilitator_count :: nat
  rp_observer_count :: nat
  rp_unassigned_participant_count :: nat
  rp_injects :: "report_inject list"
  rp_communications :: "report_communication list"
  rp_scenario_debrief_notes :: "string option"
  rp_debrief_notes :: "string option"
  rp_executive_summary :: "report_summary option"

definition assessment_by_response :: "exercise_bundle \<Rightarrow> int \<Rightarrow> response_assessment option" where
  "assessment_by_response b = dict_of (map (\<lambda>a. (ra_response_id a, a)) (eb_assessments b))"

definition report_response_of :: "exercise_bundle \<Rightarrow> response \<Rightarrow> report_response" where
  "report_response_of b r =
     (let a = assessment_by_response b (rs_id r)
      in \<lparr>pr_author = user_name b (Some (rs_user_id r)), pr_group_id = rs_group_id r,
          pr_selected_option = rs_selected_option r, pr_content = rs_content r,
          pr_decision_quality = (case a of None \<Rightarrow> None | Some x \<Rightarrow> ra_decision_quality x),
          pr_assessment_text = map_option ra_assessment_text a,
          pr_submitted_at = isoformat (rs_submitted_at r)\<rparr>)"

definition report_resolution_of :: "exercise_bundle \<Rightarrow> inject_progress \<Rightarrow> report_resolution" where
  "report_resolution_of b p =
     \<lparr>pz_group_id = ip_group_id p, pz_state = ip_state p,
      pz_resolved_at = map_option isoformat (ip_resolved_at p),
      pz_resolved_by = user_name b (ip_resolved_by p), pz_reason = ip_resolution_reason p\<rparr>"

definition report_inject_of :: "exercise_bundle \<Rightarrow> inject \<Rightarrow> report_inject" where
  "report_inject_of b i =
     \<lparr>pi_title = ij_title i, pi_scenario_node_id = ij_scenario_node_id i, pi_content = ij_content i,
      pi_target_teams = ij_target_teams i, pi_released_at = isoformat (the (ij_released_at i)),
      pi_released_by = user_name b (ij_released_by i),
      pi_resolutions = map (report_resolution_of b)
        (filter (\<lambda>p. ip_inject_id p = ij_id i) (eb_resolutions b)),
      pi_responses = map (report_response_of b)
        (sort_key rs_submitted_at (filter (\<lambda>r. rs_inject_id r = ij_id i) (eb_responses b)))\<rparr>"

definition report_communication_of :: "exercise_bundle \<Rightarrow> communication \<Rightarrow> report_communication" where
  "report_communication_of b c =
     \<lparr>pc_direction = cm_direction c, pc_external_entity = cm_external_entity c,
      pc_subject = cm_subject c, pc_body = cm_body c, pc_sent_at = isoformat (cm_sent_at c),
      pc_visible_to_teams = cm_visible_to_teams c,
      pc_sender = (if cm_sender_id c \<noteq> None \<and> cm_sender_id c \<noteq> Some 0
                   then Some (user_name b (cm_sender_id c))
                   else if truthy (cm_sender_team c) then cm_sender_team c else cm_external_entity c)\<rparr>"

definition is_participant :: "exercise_member \<Rightarrow> bool" where
  "is_participant m \<longleftrightarrow> em_role_at_enrolment m = Participant"

definition in_counted_team :: "string \<Rightarrow> exercise_member \<Rightarrow> bool" where
  "in_counted_team t m \<longleftrightarrow> is_participant m \<and> em_group_id m = Some t"

definition unassigned :: "string set \<Rightarrow> exercise_member \<Rightarrow> bool" where
  "unassigned team_ids m \<longleftrightarrow>
     is_participant m \<and> (case em_group_id m of None \<Rightarrow> True | Some g \<Rightarrow> g \<notin> team_ids)"

definition build_report :: "exercise_bundle \<Rightarrow> report" where
  "build_report b =
     (let ex = eb_exercise b; ms = eb_members b;
          teams = (case eb_definition b of None \<Rightarrow> [] | Some d \<Rightarrow> sd_participant_teams d);
          count = (\<lambda>P. length (filter P ms))
      in \<lparr>rp_id = ex_id ex, rp_title = ex_title ex, rp_state = ex_state ex,
          rp_started_at = map_option isoformat (ex_started_at ex),
          rp_ended_at = map_option isoformat (ex_ended_at ex),
          rp_duration = duration (ex_started_at ex) (ex_ended_at ex),
          rp_scenario_title = (case eb_definition b of Some d \<Rightarrow> Some (sd_title d)
                               | None \<Rightarrow> map_option sc_title (eb_scenario b)),
          rp_scenario_description = (case eb_definition b of Some d \<Rightarrow> sd_description d | None \<Rightarrow> None),
          rp_teams = map (\<lambda>t. \<lparr>pt_team_id = pt_id t, pt_team_label = pt_label t,
                               pt_participant_count = count (in_counted_team (pt_id t))\<rparr>) teams,
          rp_member_count = length ms, rp_participant_count = count is_participant,
          rp_facilitator_count = count (\<lambda>m. em_role_at_enrolment m = Facilitator),
          rp_observer_count = count (\<lambda>m. em_role_at_enrolment m = Observer),
          rp_unassigned_participant_count = count (unassigned (pt_id ` set teams)),
          rp_injects = map (report_inject_of b)
            (sort_key (\<lambda>i. the (ij_released_at i)) (filter (\<lambda>i. ij_released_at i \<noteq> None) (eb_injects b))),
          rp_communications = map (report_communication_of b) (sort_key cm_sent_at (eb_communications b)),
          rp_scenario_debrief_notes = (case eb_definition b of Some d \<Rightarrow> sd_debrief_notes d | None \<Rightarrow> None),
          rp_debrief_notes = ex_debrief_notes ex,
          rp_executive_summary = map_option (\<lambda>x. \<lparr>px_summary_text = es_summary_text x,
            px_llm_model = es_llm_model x, px_edited = es_edited x,
            px_generated_at = isoformat (es_generated_at x)\<rparr>) (eb_summary b)\<rparr>)"


section \<open>Markdown\<close>

definition quality_label :: "string \<Rightarrow> string" where
  "quality_label q =
     (if q = ''good'' then ''Good'' else if q = ''adequate'' then ''Adequate''
      else if q = ''poor'' then ''Poor'' else q)"

definition or_dash :: "string \<Rightarrow> string option \<Rightarrow> string" where
  "or_dash dash t = (if truthy t then the t else dash)"

definition teams_line :: "string \<Rightarrow> report \<Rightarrow> string" where
  "teams_line dash r =
     (let listed = Launch_Snapshot.join '', '' (map (\<lambda>t. pt_team_label t @ '' ('' @
            show_nat (pt_participant_count t) @ '')'') (rp_teams r));
          others = ''Unassigned / other ('' @ show_nat (rp_unassigned_participant_count r) @ '')'';
          teams = (if rp_unassigned_participant_count r \<noteq> 0
                   then Launch_Snapshot.join '', '' (filter (\<lambda>part. part \<noteq> []) [listed, others])
                   else listed)
      in or_else teams dash)"

definition overview_lines :: "string \<Rightarrow> report \<Rightarrow> string list" where
  "overview_lines dash r =
     [''# After-Action Report '' @ dash @ '' '' @ rp_title r, [], ''## Overview''] @
     (if truthy (rp_scenario_title r) then [''- **Scenario:** '' @ the (rp_scenario_title r)] else []) @
     (if truthy (rp_scenario_description r)
      then [''- **Description:** '' @ the (rp_scenario_description r)] else []) @
     [''- **Status:** '' @ state_value (rp_state r),
      ''- **Started:** '' @ or_dash dash (rp_started_at r),
      ''- **Ended:** '' @ or_dash dash (rp_ended_at r)] @
     (if truthy (rp_duration r) then [''- **Duration:** '' @ the (rp_duration r)] else []) @
     [''- **Teams:** '' @ teams_line dash r,
      ''- **Participants:** '' @ show_nat (rp_participant_count r),
      ''- **Facilitators:** '' @ show_nat (rp_facilitator_count r),
      ''- **Observers:** '' @ show_nat (rp_observer_count r),
      ''- **Total enrolled:** '' @ show_nat (rp_member_count r), []] @
     (case rp_executive_summary r of None \<Rightarrow> []
      | Some x \<Rightarrow> [''## Executive Summary'', px_summary_text x, []])"

definition resolution_line :: "string \<Rightarrow> report_resolution \<Rightarrow> string" where
  "resolution_line dash z =
     ''*Resolved for '' @ (if truthy (pz_group_id z) then the (pz_group_id z) else ''shared path'') @
     '' at '' @ or_dash dash (pz_resolved_at z) @ '' by '' @ pz_resolved_by z @ ''.*''"

definition response_lines :: "report_response \<Rightarrow> string list" where
  "response_lines p =
     [''- **'' @ pr_author p @ ''**'' @
      (if truthy (pr_selected_option p)
       then '' '' @ [CHR 0xB7] @ '' selected **'' @ the (pr_selected_option p) @ ''**'' else []) @
      (if truthy (pr_decision_quality p)
       then '' '' @ [CHR 0xB7] @ '' quality: **'' @ quality_label (the (pr_decision_quality p)) @ ''**''
       else [])] @
     (if pr_content p \<noteq> [] then [''  - '' @ pr_content p] else []) @
     (if truthy (pr_assessment_text p)
      then [''  - _Assessment: '' @ the (pr_assessment_text p) @ ''_''] else [])"

definition inject_lines :: "string \<Rightarrow> report_inject \<Rightarrow> string list" where
  "inject_lines dash i =
     [''### '' @ pi_title i] @
     (if pi_released_at i \<noteq> []
      then [''*Released '' @ pi_released_at i @ '' by '' @ pi_released_by i @ ''.*''] else []) @
     map (resolution_line dash) (pi_resolutions i) @
     (if pi_responses i = [] then [[], ''_No responses recorded._''] else []) @
     concat (map response_lines (pi_responses i)) @ [[]]"

definition communication_lines :: "string \<Rightarrow> report_communication \<Rightarrow> string list" where
  "communication_lines dash c =
     [''- **['' @ direction_value (pc_direction c) @ '']** '' @ pc_subject c @
      (if truthy (pc_external_entity c) then '' ('' @ the (pc_external_entity c) @ '')'' else []) @
      '' '' @ dash @ '' '' @ or_else (pc_sent_at c) dash] @
     (if pc_body c \<noteq> [] then [''  - '' @ pc_body c] else [])"

definition debrief_lines :: "report \<Rightarrow> string list" where
  "debrief_lines r =
     (if truthy (rp_scenario_debrief_notes r) \<or> truthy (rp_debrief_notes r)
      then [''## Debrief''] @
        (if truthy (rp_scenario_debrief_notes r)
         then [''**Scenario prompts:**'', the (rp_scenario_debrief_notes r), []] else []) @
        (if truthy (rp_debrief_notes r)
         then [''**Facilitator notes:**'', the (rp_debrief_notes r), []] else [])
      else [])"

definition report_lines :: "string \<Rightarrow> report \<Rightarrow> string list" where
  "report_lines dash r =
     overview_lines dash r @ [''## Decision Summary''] @
     (if rp_injects r = [] then [''_No injects were released._''] else []) @
     concat (map (inject_lines dash) (rp_injects r)) @
     [''## Communications Log''] @
     (if rp_communications r = [] then [''_No communications were sent._''] else []) @
     concat (map (communication_lines dash) (rp_communications r)) @ [[]] @ debrief_lines r"

definition render_markdown :: "string \<Rightarrow> report \<Rightarrow> string" where
  "render_markdown dash r =
     rev (dropWhile is_space (rev (Launch_Snapshot.join newline (report_lines dash r)))) @ newline"

section \<open>The prompt of the executive summary\<close>

definition decision_lines :: "report_inject \<Rightarrow> string list" where
  "decision_lines i =
     (''Inject '' @ [CHR 0x27] @ pi_title i @ [CHR 0x27] @ '':'') #
     map (\<lambda>p. ''- '' @ pr_author p @
        (if truthy (pr_decision_quality p) then '' ['' @ the (pr_decision_quality p) @ '']'' else []) @
        '': '' @ pr_content p) (pi_responses i)"

definition none_text :: "string option \<Rightarrow> string" where
  "none_text t = (case t of None \<Rightarrow> ''None'' | Some x \<Rightarrow> x)"

definition build_summary_context :: "report \<Rightarrow> string \<times> string" where
  "build_summary_context r =
     (''Scenario: '' @ none_text (rp_scenario_title r) @ newline @
      (if truthy (rp_scenario_description r) then the (rp_scenario_description r) else []) @ newline @
      ''Participant teams: '' @
      or_else (Launch_Snapshot.join '', '' (map pt_team_label (rp_teams r))) ''All participants'',
      ''Write the executive summary for this exercise.'' @ newline @ newline @
      ''Decisions:'' @ newline @
      or_else (Launch_Snapshot.join newline (concat (map decision_lines (rp_injects r)))) ''None recorded'' @
      newline @ newline @ ''Communications:'' @ newline @
      or_else (Launch_Snapshot.join newline
        (map (\<lambda>c. ''- ['' @ direction_value (pc_direction c) @ ''] '' @ pc_subject c) (rp_communications r)))
        ''None'' @
      newline @ newline @ ''Facilitator observations:'' @ newline @
      (if truthy (rp_debrief_notes r) then the (rp_debrief_notes r) else ''None''))"

section \<open>Spreadsheet cells\<close>

datatype cell = CInt int | CText string

text \<open>\<^verbatim>\<open>unicodedata.normalize("NFKC", ...)\<close> on a code point below 256, as code
  points: the compatibility decompositions of the Latin-1 block.\<close>

definition nfkc :: "char \<Rightarrow> nat list" where
  "nfkc c =
     (let n = (of_char c :: nat)
      in case map_of [(0xA0, [32]), (0xA8, [32, 0x308]), (0xAA, [97]), (0xAF, [32, 0x304]),
             (0xB2, [50]), (0xB3, [51]), (0xB4, [32, 0x301]), (0xB5, [0x3BC]), (0xB8, [32, 0x327]),
             (0xB9, [49]), (0xBA, [111]), (0xBC, [49, 0x2044, 52]), (0xBD, [49, 0x2044, 50]),
             (0xBE, [51, 0x2044, 52])] n of
           Some xs \<Rightarrow> xs | None \<Rightarrow> [n])"

text \<open>White space, or a control or format character.\<close>

definition ignorable :: "nat \<Rightarrow> bool" where
  "ignorable n \<longleftrightarrow> n \<le> 32 \<or> 127 \<le> n \<and> n \<le> 160 \<or> n = 0xAD"

definition FORMULA_MARKERS :: "nat list" where "FORMULA_MARKERS = [61, 43, 45, 64]"
definition LEADING_CONTROL_MARKERS :: "nat list" where "LEADING_CONTROL_MARKERS = [9, 13, 10]"

definition formula_like :: "string \<Rightarrow> bool" where
  "formula_like s =
     (let normalized = concat (map nfkc s);
          unsafe_control = list_ex (\<lambda>n. n \<in> set LEADING_CONTROL_MARKERS) (takeWhile ignorable normalized);
          marker = (case dropWhile ignorable normalized of [] \<Rightarrow> False | n # _ \<Rightarrow> n \<in> set FORMULA_MARKERS)
      in unsafe_control \<or> marker)"

definition spreadsheet_safe_cell :: "cell \<Rightarrow> cell" where
  "spreadsheet_safe_cell v =
     (case v of CInt i \<Rightarrow> CInt i
      | CText s \<Rightarrow> if s \<noteq> [] \<and> formula_like s then CText (CHR 0x27 # s) else CText s)"

definition spreadsheet_safe_row :: "cell list \<Rightarrow> cell list" where
  "spreadsheet_safe_row = map spreadsheet_safe_cell"

text \<open>\<^verbatim>\<open>csv.writer\<close> with its defaults.\<close>

definition needs_quotes :: "string \<Rightarrow> bool" where
  "needs_quotes s \<longleftrightarrow> list_ex (\<lambda>c. c \<in> {CHR '','', CHR 0x22, CHR 0x0D, CHR 0x0A}) s"

definition csv_field :: "cell \<Rightarrow> string" where
  "csv_field v =
     (case v of CInt i \<Rightarrow> show_int i
      | CText s \<Rightarrow>
          if needs_quotes s
          then CHR 0x22 # concat (map (\<lambda>c. if c = CHR 0x22 then [c, c] else [c]) s) @ [CHR 0x22]
          else s)"

definition csv_row :: "cell list \<Rightarrow> string" where
  "csv_row cells = Launch_Snapshot.join '','' (map csv_field cells) @ [CHR 0x0D, CHR 0x0A]"

section \<open>The export\<close>

record export_inject_row =
  xi_id :: int
  xi_scenario_node_id :: "string option"
  xi_title :: string
  xi_state :: inject_state
  xi_group_id :: "string option"
  xi_released_at :: "string option"
  xi_resolved_at :: "string option"
  xi_resolved_by :: "int option"
  xi_reason :: "string option"
  xi_resolutions :: "(string option \<times> inject_state \<times> string option \<times> int option \<times> string option) list"

definition export_inject_row :: "exercise_bundle \<Rightarrow> inject \<Rightarrow> export_inject_row" where
  "export_inject_row b i =
     (let v = inject_resolution_projection b i
      in \<lparr>xi_id = ij_id i, xi_scenario_node_id = ij_scenario_node_id i, xi_title = ij_title i,
          xi_state = rv_state v, xi_group_id = ij_group_id i,
          xi_released_at = map_option isoformat (ij_released_at i),
          xi_resolved_at = map_option isoformat (rv_resolved_at v), xi_resolved_by = rv_resolved_by v,
          xi_reason = rv_reason v,
          xi_resolutions = map (\<lambda>p. (ip_group_id p, ip_state p, map_option isoformat (ip_resolved_at p),
            ip_resolved_by p, ip_resolution_reason p)) (rv_rows v)\<rparr>)"

record export_response_row =
  xr_id :: int
  xr_inject_id :: int
  xr_user_id :: int
  xr_group_id :: "string option"
  xr_content :: string
  xr_selected_option :: "string option"
  xr_submitted_at :: string

definition export_response_row :: "response \<Rightarrow> export_response_row" where
  "export_response_row r =
     \<lparr>xr_id = rs_id r, xr_inject_id = rs_inject_id r, xr_user_id = rs_user_id r,
      xr_group_id = rs_group_id r, xr_content = rs_content r,
      xr_selected_option = rs_selected_option r, xr_submitted_at = isoformat (rs_submitted_at r)\<rparr>"

record export_comment_row =
  xc_id :: int
  xc_inject_id :: int
  xc_user_id :: int
  xc_group_id :: "string option"
  xc_content :: string
  xc_created_at :: string

definition export_comment_row :: "inject_comment \<Rightarrow> export_comment_row" where
  "export_comment_row c =
     \<lparr>xc_id = ic_id c, xc_inject_id = ic_inject_id c, xc_user_id = ic_user_id c,
      xc_group_id = ic_group_id c, xc_content = ic_content c, xc_created_at = isoformat (ic_created_at c)\<rparr>"

record export_data =
  xd_exercise :: exercise_public
  xd_scenario_debrief_notes :: "string option"
  xd_debrief_notes :: "string option"
  xd_members :: "member_public list"
  xd_injects :: "export_inject_row list"
  xd_responses :: "export_response_row list"
  xd_comments :: "export_comment_row list"

definition build_export :: "int \<Rightarrow> current_user \<Rightarrow> database \<Rightarrow> exn + export_data" where
  "build_export e u d =
     and_then (require_role [Facilitator] u) (\<lambda>_.
     and_then (require_exercise_owner d e u) (\<lambda>ex.
     and_then (load_exercise_bundle d e) (\<lambda>bundle.
       case bundle of None \<Rightarrow> Inl AssertionError
       | Some b \<Rightarrow>
           Inr \<lparr>xd_exercise = exercise_out ex None,
                xd_scenario_debrief_notes =
                  (case eb_definition b of None \<Rightarrow> None | Some def1 \<Rightarrow> sd_debrief_notes def1),
                xd_debrief_notes = ex_debrief_notes ex, xd_members = map member_out (eb_members b),
                xd_injects = map (export_inject_row b) (eb_injects b),
                xd_responses = map export_response_row (eb_responses b),
                xd_comments = map export_comment_row (eb_comments b)\<rparr>)))"

text \<open>\<^verbatim>\<open>json.dumps(..., separators=(",", ":"))\<close> of the resolutions.\<close>

definition json_text :: "string option \<Rightarrow> string" where
  "json_text t = (case t of None \<Rightarrow> ''null'' | Some s \<Rightarrow> json_string s)"

definition resolution_json ::
  "string option \<times> inject_state \<times> string option \<times> int option \<times> string option \<Rightarrow> string" where
  "resolution_json z =
     (case z of (g, st, at, by, reason) \<Rightarrow>
        ''{'' @ json_string ''group_id'' @ '':'' @ json_text g @ '','' @
        json_string ''state'' @ '':'' @ json_string (inject_state_value st) @ '','' @
        json_string ''resolved_at'' @ '':'' @ json_text at @ '','' @
        json_string ''resolved_by'' @ '':'' @ (case by of None \<Rightarrow> ''null'' | Some i \<Rightarrow> show_int i) @ '','' @
        json_string ''resolution_reason'' @ '':'' @ json_text reason @ ''}'')"

definition csv_columns :: "string list" where
  "csv_columns = [''inject_id'', ''inject_title'', ''inject_state'', ''inject_resolutions'', ''user_id'',
     ''selected_option'', ''content'', ''submitted_at'']"

definition export_csv_row :: "export_data \<Rightarrow> export_response_row \<Rightarrow> cell list" where
  "export_csv_row x r =
     (let i = dict_of (map (\<lambda>i. (xi_id i, i)) (xd_injects x)) (xr_inject_id r)
      in [CInt (xr_inject_id r),
          CText (case i of None \<Rightarrow> [] | Some row \<Rightarrow> xi_title row),
          CText (case i of None \<Rightarrow> [] | Some row \<Rightarrow> inject_state_value (xi_state row)),
          CText (''['' @ Launch_Snapshot.join '','' (map resolution_json
            (case i of None \<Rightarrow> [] | Some row \<Rightarrow> xi_resolutions row)) @ '']''),
          CInt (xr_user_id r),
          CText (case xr_selected_option r of None \<Rightarrow> [] | Some t \<Rightarrow> t),
          CText (xr_content r), CText (xr_submitted_at r)])"

definition export_csv :: "int \<Rightarrow> current_user \<Rightarrow> database \<Rightarrow> exn + string" where
  "export_csv e u d =
     and_then (build_export e u d) (\<lambda>x.
       Inr (concat (map csv_row (spreadsheet_safe_row (map CText csv_columns) #
         map (\<lambda>r. spreadsheet_safe_row (export_csv_row x r)) (xd_responses x)))))"

section \<open>The report routes\<close>

definition owned_report :: "int \<Rightarrow> current_user \<Rightarrow> database \<Rightarrow> exn + report" where
  "owned_report e u d =
     and_then (require_role [Facilitator] u) (\<lambda>_.
     and_then (require_exercise_owner d e u) (\<lambda>_.
     and_then (load_exercise_bundle d e) (\<lambda>bundle.
       case bundle of None \<Rightarrow> Inl (HTTPException 404 ''Exercise not found'')
       | Some b \<Rightarrow> Inr (build_report b))))"

definition report_json :: "int \<Rightarrow> current_user \<Rightarrow> database \<Rightarrow> exn + report" where
  "report_json = owned_report"

definition report_markdown :: "string \<Rightarrow> int \<Rightarrow> current_user \<Rightarrow> database \<Rightarrow> exn + string" where
  "report_markdown dash e u d = and_then (owned_report e u d) (\<lambda>r. Inr (render_markdown dash r))"

text \<open>Is drafting available, and the current summary.\<close>

definition get_report_summary ::
  "bool \<Rightarrow> int \<Rightarrow> current_user \<Rightarrow> database \<Rightarrow> exn + bool \<times> summary_public option" where
  "get_report_summary provider e u d =
     and_then (require_role [Facilitator] u) (\<lambda>_.
     and_then (require_exercise_owner d e u) (\<lambda>ex.
       Inr (provider \<and> ex_llm_enabled ex, map_option summary_payload (summary_of d e))))"

definition draft_guard :: "bool \<Rightarrow> int \<Rightarrow> current_user \<Rightarrow> database \<Rightarrow> exn + exercise" where
  "draft_guard provider e u d =
     and_then (require_role [Facilitator] u) (\<lambda>_.
     and_then (require_exercise_owner d e u) (\<lambda>ex.
       if \<not> provider \<or> \<not> ex_llm_enabled ex
       then Inl (HTTPException 409 ''AI summary unavailable: no provider configured or exercise AI disabled'')
       else Inr ex))"

definition draft_report_summary ::
  "bool \<Rightarrow> int \<Rightarrow> current_user \<Rightarrow> session \<Rightarrow> (exn + string) \<times> session" where
  "draft_report_summary provider e u s =
     guarded (draft_guard provider e u (db s)) (\<lambda>_ s.
       let (queued, d) = queue_summary_pipeline e (db s)
       in (Inr (if queued then ''accepted'' else ''already-running''), commit (execute (\<lambda>_. d) s))) s"

definition edit_guard :: "int \<Rightarrow> current_user \<Rightarrow> database \<Rightarrow> exn + executive_summary" where
  "edit_guard e u d =
     and_then (require_role [Facilitator] u) (\<lambda>_.
     and_then (require_exercise_owner d e u) (\<lambda>_.
       case summary_of d e of None \<Rightarrow> Inl (HTTPException 404 ''No summary to edit'') | Some x \<Rightarrow> Inr x))"

definition edit_report_summary ::
  "int \<Rightarrow> string \<Rightarrow> current_user \<Rightarrow> session \<Rightarrow> (exn + summary_public) \<times> session" where
  "edit_report_summary e answer u s =
     guarded (edit_guard e u (db s)) (\<lambda>x s.
       let x' = x\<lparr>es_summary_text := answer, es_edited := True\<rparr>
       in (Inr (summary_payload x'),
           commit (execute (\<lambda>d. d\<lparr>summaries := update_where (\<lambda>y. es_id y = es_id x) (\<lambda>_. x')
             (summaries d)\<rparr>) s))) s"


section \<open>Lemmas\<close>

text \<open>A context that has not resolved is printed as resolved by the system.\<close>

lemma open_context_is_printed_as_resolved:
  assumes "ip_state p = Released" and "ip_resolved_at p = None" and "ip_resolved_by p = None"
    and "ip_group_id p = Some ''red''"
  shows "resolution_line dash (report_resolution_of b p) =
    ''*Resolved for red at '' @ dash @ '' by system.*''"
  using assms by (simp add: resolution_line_def report_resolution_of_def or_dash_def user_name_def)

lemma nfkc_nonempty: "nfkc c \<noteq> []"
  by (auto simp: nfkc_def Let_def split: option.splits dest!: map_of_SomeD)

lemma sum_filter_partition:
  assumes "distinct ks" and "\<And>x. x \<in> set xs \<Longrightarrow> P x \<Longrightarrow> f x \<in> set ks"
  shows "sum_list (map (\<lambda>k. length (filter (\<lambda>x. P x \<and> f x = k) xs)) ks) = length (filter P xs)"
  using assms(2)
proof (induction xs)
  case Nil
  then show ?case by simp
next
  case (Cons x xs)
  have split: "length (filter (\<lambda>x. P x \<and> f x = k) (x # xs)) =
      (if P x \<and> f x = k then 1 else 0) + length (filter (\<lambda>x. P x \<and> f x = k) xs)" for k
    by simp
  have one: "sum_list (map (\<lambda>k. if P x \<and> f x = k then 1 else 0 :: nat) ks) = (if P x then 1 else 0)"
  proof (cases "P x")
    case True
    then have "f x \<in> set ks" using Cons.prems by simp
    then have "sum_list (map (\<lambda>k. if f x = k then 1 else 0 :: nat) ks) = 1"
      using assms(1) by (induction ks) (auto simp: sum_list_0 intro!: sum_list_eq_0_iff [THEN iffD2])
    then show ?thesis using True by simp
  qed simp
  show ?case
    unfolding split sum_list_addf one using Cons by simp
qed

section \<open>Reading a spreadsheet file back\<close>

text \<open>A reference reader of comma-separated records (RFC 4180): fields that may be quoted, a doubled
  quote inside a quoted field, records ended by CR LF.\<close>

definition with_field :: "string \<Rightarrow> (string list \<times> string) option \<Rightarrow> (string list \<times> string) option" where
  "with_field f r = map_option (\<lambda>(fs, rest). (f # fs, rest)) r"

definition record_end :: "string \<Rightarrow> string \<Rightarrow> (string list \<times> string) option" where
  "record_end f cs = (case cs of c # rest \<Rightarrow> if c = CHR 0x0A then Some ([f], rest) else None | [] \<Rightarrow> None)"

function (sequential) read_field :: "string \<Rightarrow> (string list \<times> string) option"
  and read_plain :: "string \<Rightarrow> string \<Rightarrow> (string list \<times> string) option"
  and read_quoted :: "string \<Rightarrow> string \<Rightarrow> (string list \<times> string) option" where
  "read_field [] = read_plain [] []"
| "read_field (c # cs) = (if c = CHR 0x22 then read_quoted [] cs else read_plain [] (c # cs))"
| "read_plain acc [] = None"
| "read_plain acc (c # cs) =
     (if c = CHR '','' then with_field (rev acc) (read_field cs)
      else if c = CHR 0x0D then record_end (rev acc) cs
      else read_plain (c # acc) cs)"
| "read_quoted acc [] = None"
| "read_quoted acc [c] = None"
| "read_quoted acc (c # e # cs) =
     (if c \<noteq> CHR 0x22 then read_quoted (c # acc) (e # cs)
      else if e = CHR 0x22 then read_quoted (c # acc) cs
      else if e = CHR '','' then with_field (rev acc) (read_field cs)
      else if e = CHR 0x0D then record_end (rev acc) cs
      else None)"
  by pat_completeness auto

termination
  by (relation "measure (\<lambda>x. case x of Inl cs \<Rightarrow> 2 * length cs + 1
     | Inr (Inl (acc, cs)) \<Rightarrow> 2 * length cs | Inr (Inr (acc, cs)) \<Rightarrow> 2 * length cs)") auto

definition cell_text :: "cell \<Rightarrow> string" where
  "cell_text v = (case v of CInt i \<Rightarrow> show_int i | CText s \<Rightarrow> s)"

definition special :: "char \<Rightarrow> bool" where
  "special c \<longleftrightarrow> c \<in> {CHR '','', CHR 0x22, CHR 0x0D, CHR 0x0A}"

lemma needs_quotes_iff: "needs_quotes s \<longleftrightarrow> (\<exists>c\<in>set s. special c)"
  by (auto simp: needs_quotes_def special_def list_ex_iff)

lemma special_cases: "special c \<longleftrightarrow> c = CHR '','' \<or> c = CHR 0x22 \<or> c = CHR 0x0D \<or> c = CHR 0x0A"
  by (simp add: special_def)

lemma read_plain_over:
  "\<forall>c\<in>set s. \<not> special c \<Longrightarrow> read_plain acc (s @ cs) = read_plain (rev s @ acc) cs"
  by (induction s arbitrary: acc) (auto simp: special_cases)

definition doubled :: "string \<Rightarrow> string" where
  "doubled s = concat (map (\<lambda>c. if c = CHR 0x22 then [c, c] else [c]) s)"

lemma read_quoted_over:
  "e \<noteq> CHR 0x22 \<Longrightarrow> read_quoted acc (doubled s @ CHR 0x22 # e # cs) =
     read_quoted (rev s @ acc) (CHR 0x22 # e # cs)"
proof (induction s arbitrary: acc)
  case Nil
  then show ?case by (simp add: doubled_def)
next
  case (Cons c s)
  have "doubled (c # s) @ CHR 0x22 # e # cs =
      (if c = CHR 0x22 then c # c # doubled s @ CHR 0x22 # e # cs else c # doubled s @ CHR 0x22 # e # cs)"
    by (simp add: doubled_def)
  moreover have "read_quoted acc (c # doubled s @ CHR 0x22 # e # cs) =
      read_quoted (c # acc) (doubled s @ CHR 0x22 # e # cs)" if "c \<noteq> CHR 0x22"
    using that by (cases "doubled s @ CHR 0x22 # e # cs") auto
  ultimately show ?case using Cons by auto
qed

lemma digit_not_special: "d < 10 \<Longrightarrow> \<not> special (digit d)"
proof
  assume "d < 10" "special (digit d)"
  then have "(of_char (digit d) :: nat) \<in> {44, 34, 13, 10}" by (auto simp: special_cases)
  with \<open>d < 10\<close> show False by (simp add: of_char_digit)
qed

lemma show_int_plain: "\<forall>c\<in>set (show_int i). \<not> special c"
proof -
  have "\<not> special c" if "c \<in> set (show_nat n)" for c n
    using show_nat_digits [OF that] digit_not_special by auto
  moreover have "\<not> special (CHR ''-'')" by (simp add: special_cases)
  ultimately show ?thesis by (auto simp: show_int_def)
qed

lemma read_field_plain:
  assumes "\<forall>c\<in>set s. \<not> special c" and "c = CHR '','' \<or> c = CHR 0x0D"
  shows "read_field (s @ c # cs) = read_plain (rev s) (c # cs)"
proof (cases s)
  case Nil
  then show ?thesis using assms(2) by auto
next
  case (Cons x xs)
  then show ?thesis using assms read_plain_over [OF assms(1), of "[]" "c # cs"]
    by (auto simp: special_cases)
qed

text \<open>One written field, before a comma or the end of the record.\<close>

lemma read_written_field:
  assumes "e = CHR '','' \<or> e = CHR 0x0D"
  shows "read_field (csv_field v @ e # cs) =
    (if e = CHR '','' then with_field (cell_text v) (read_field cs) else record_end (cell_text v) cs)"
proof -
  have plain: "read_field (s @ e # cs) =
      (if e = CHR '','' then with_field s (read_field cs) else record_end s cs)"
    if "\<forall>c\<in>set s. \<not> special c" for s
    using read_field_plain [OF that assms, of cs] assms by auto
  show ?thesis
  proof (cases v)
    case (CInt i)
    then show ?thesis using plain [OF show_int_plain] by (simp add: csv_field_def cell_text_def)
  next
    case (CText s)
    show ?thesis
    proof (cases "needs_quotes s")
      case True
      have "read_field (csv_field v @ e # cs) = read_quoted [] (doubled s @ CHR 0x22 # e # cs)"
        using True CText by (simp add: csv_field_def doubled_def)
      also have "\<dots> = read_quoted (rev s) (CHR 0x22 # e # cs)"
        using read_quoted_over [of e "[]" s cs] assms by auto
      finally show ?thesis using assms CText by (auto simp: cell_text_def)
    next
      case False
      then show ?thesis using plain [of s] CText by (simp add: csv_field_def cell_text_def needs_quotes_iff)
    qed
  qed
qed

lemma read_row:
  "read_field (csv_row (v # vs) @ rest) = Some (map cell_text (v # vs), rest)"
proof (induction vs arbitrary: v)
  case Nil
  then show ?case
    using read_written_field [of "CHR 0x0D" v "CHR 0x0A # rest"]
    by (simp add: csv_row_def Launch_Snapshot.join_def record_end_def)
next
  case (Cons w ws)
  have "csv_row (v # w # ws) @ rest = csv_field v @ CHR '','' # csv_row (w # ws) @ rest"
    by (simp add: csv_row_def Launch_Snapshot.join_def)
  then show ?case
    using read_written_field [of "CHR '',''" v "csv_row (w # ws) @ rest"] Cons [of w]
    by (simp add: with_field_def)
qed

section \<open>Properties\<close>

text \<open>The head count adds up: the participants listed per team and the unassigned ones together
  are all the participants, and the three roles together are the roster.\<close>

lemma report_head_count_adds_up:
  assumes "owned_report e u d = Inr r" and "distinct (map pt_team_id (rp_teams r))"
  shows "sum_list (map pt_participant_count (rp_teams r)) + rp_unassigned_participant_count r =
      rp_participant_count r"
    and "rp_participant_count r + rp_facilitator_count r + rp_observer_count r = rp_member_count r"
proof -
  from assms(1) obtain b where r: "r = build_report b"
    by (auto simp: owned_report_def split: option.splits)
  let ?teams = "case eb_definition b of None \<Rightarrow> [] | Some d \<Rightarrow> sd_participant_teams d"
  let ?ids = "map pt_id ?teams" and ?ms = "eb_members b"
  have ids: "distinct ?ids"
    using assms(2) by (simp add: r build_report_def Let_def comp_def)
  have "sum_list (map (\<lambda>k. length (filter (\<lambda>m. (is_participant m \<and> \<not> unassigned (set ?ids) m) \<and>
      the (em_group_id m) = k) ?ms)) ?ids) =
    length (filter (\<lambda>m. is_participant m \<and> \<not> unassigned (set ?ids) m) ?ms)"
    by (rule sum_filter_partition [OF ids]) (auto simp: unassigned_def split: option.splits)
  moreover have "map (\<lambda>k. length (filter (\<lambda>m. (is_participant m \<and> \<not> unassigned (set ?ids) m) \<and>
      the (em_group_id m) = k) ?ms)) ?ids = map (\<lambda>k. length (filter (in_counted_team k) ?ms)) ?ids"
    by (intro map_cong refl arg_cong [where f = length] filter_cong)
      (auto simp: in_counted_team_def unassigned_def split: option.splits)
  ultimately have teams: "sum_list (map (\<lambda>k. length (filter (in_counted_team k) ?ms)) ?ids) =
      length (filter (\<lambda>m. is_participant m \<and> \<not> unassigned (set ?ids) m) ?ms)"
    by (simp only:)
  have part: "length (filter (\<lambda>m. is_participant m \<and> \<not> unassigned A m) ms) + length (filter (unassigned A) ms) =
      length (filter is_participant ms)" for A ms
    by (induction ms) (auto simp: unassigned_def)
  show "sum_list (map pt_participant_count (rp_teams r)) + rp_unassigned_participant_count r =
      rp_participant_count r"
    using teams part [of "set ?ids" ?ms] by (simp add: r build_report_def Let_def comp_def)
  have "length (filter is_participant ms) + length (filter (\<lambda>m. em_role_at_enrolment m = Facilitator) ms) +
      length (filter (\<lambda>m. em_role_at_enrolment m = Observer) ms) = length ms" for ms
  proof (induction ms)
    case (Cons m ms)
    then show ?case by (cases "em_role_at_enrolment m") (auto simp: is_participant_def)
  qed simp
  then show "rp_participant_count r + rp_facilitator_count r + rp_observer_count r = rp_member_count r"
    by (simp add: r build_report_def Let_def)
qed

lemma report_head_count_adds_up_witness:
  "\<exists>r. owned_report 1 (plain_user (demo_user 10 Facilitator None)) demo_llm_db = Inr r \<and>
     sum_list (map pt_participant_count (rp_teams r)) + rp_unassigned_participant_count r =
       rp_participant_count r \<and> rp_participant_count r = 2"
proof -
  let ?r = "owned_report 1 (plain_user (demo_user 10 Facilitator None)) demo_llm_db"
  have "is_ok ?r" by code_simp
  then obtain r where run: "?r = Inr r" by (auto simp: is_ok_iff)
  have "case ?r of Inr x \<Rightarrow> distinct (map pt_team_id (rp_teams x)) \<and> rp_participant_count x = 2 | Inl x \<Rightarrow> False"
    by code_simp
  then have "distinct (map pt_team_id (rp_teams r))" "rp_participant_count r = 2" by (simp_all add: run)
  with report_head_count_adds_up(1) [OF run] run show ?thesis by blast
qed

text \<open>No exported cell is a formula: whatever the text, the cell that is written keeps it, at
  most behind an apostrophe, and what a spreadsheet reads first (after white space and control
  characters, width variants folded) is never one of the four formula markers, nor is a tab or
  line break hidden in front of it.\<close>

lemma exported_cell_is_no_formula:
  assumes "spreadsheet_safe_cell (CText s) = CText out"
  shows "(out = s \<or> out = CHR 0x27 # s) \<and>
    (\<forall>n rest. dropWhile ignorable (concat (map nfkc out)) = n # rest \<longrightarrow> n \<notin> set FORMULA_MARKERS) \<and>
    (\<forall>n. out \<noteq> [] \<and> n \<in> set (takeWhile ignorable (concat (map nfkc out))) \<longrightarrow>
      n \<notin> set LEADING_CONTROL_MARKERS)"
proof (intro conjI allI impI)
  have quote: "\<not> formula_like (CHR 0x27 # s)"
    by (simp add: formula_like_def nfkc_def ignorable_def FORMULA_MARKERS_def)
  have out: "out = (if s \<noteq> [] \<and> formula_like s then CHR 0x27 # s else s)"
    using assms by (auto simp: spreadsheet_safe_cell_def split: if_splits)
  then show "out = s \<or> out = CHR 0x27 # s" by auto
  have "\<not> formula_like []" by (simp add: formula_like_def)
  then have safe: "\<not> formula_like out" using quote out by (cases "s = []") auto
  then show "n \<notin> set FORMULA_MARKERS" if "dropWhile ignorable (concat (map nfkc out)) = n # rest" for n rest
    using that by (simp add: formula_like_def Let_def)
  show "n \<notin> set LEADING_CONTROL_MARKERS"
    if "out \<noteq> [] \<and> n \<in> set (takeWhile ignorable (concat (map nfkc out)))" for n
    using safe that by (auto simp: formula_like_def Let_def list_ex_iff)
qed


lemma exported_cell_is_no_formula_witness:
  "spreadsheet_safe_cell (CText '' =1+1'') = CText (CHR 0x27 # '' =1+1'') \<and>
   (\<exists>n rest. dropWhile ignorable (concat (map nfkc (CHR 0x27 # '' =1+1''))) = n # rest \<and>
      n \<notin> set FORMULA_MARKERS)"
proof -
  have safe: "spreadsheet_safe_cell (CText '' =1+1'') = CText (CHR 0x27 # '' =1+1'')"
    by (simp add: spreadsheet_safe_cell_def formula_like_def nfkc_def ignorable_def
        FORMULA_MARKERS_def LEADING_CONTROL_MARKERS_def)
  moreover have "dropWhile ignorable (concat (map nfkc (CHR 0x27 # '' =1+1''))) =
      hd (nfkc (CHR 0x27)) # tl (concat (map nfkc (CHR 0x27 # '' =1+1'')))"
    by (simp add: nfkc_def ignorable_def)
  ultimately show ?thesis using exported_cell_is_no_formula [OF safe] by blast
qed

text \<open>The spreadsheet file reads back: a reader of comma-separated records gets from the exported
  rows exactly the texts of their cells, row by row, whatever commas, quotes and line breaks
  the cells contain.\<close>

lemma written_rows_read_back:
  assumes "row \<noteq> []"
  shows "read_field (csv_row row @ rest) = Some (map cell_text row, rest)"
  using read_row [of "hd row" "tl row" rest] assms by simp

lemma written_rows_read_back_witness:
  "read_field (csv_row [CInt 3, CText (''a,'' @ [CHR 0x22] @ ''b'' @ [CHR 0x0A])] @ csv_row [CText []]) =
     Some ([''3'', ''a,'' @ [CHR 0x22] @ ''b'' @ [CHR 0x0A]], csv_row [CText []])"
proof -
  define row where "row = [CInt 3, CText (''a,'' @ [CHR 0x22] @ ''b'' @ [CHR 0x0A])]"
  have "map cell_text row = [''3'', ''a,'' @ [CHR 0x22] @ ''b'' @ [CHR 0x0A]]"
    unfolding row_def by code_simp
  moreover have "row \<noteq> []" by (simp add: row_def)
  ultimately show ?thesis
    unfolding row_def [symmetric] using written_rows_read_back [of row "csv_row [CText []]"] by argo
qed

end
