(* ===== verification/Egress.thy ===== *)
theory Egress
  imports Inject_Api Middleware
begin

text \<open>
  Where outbound requests go: the pinning of destinations that carry a secret
  (\<^verbatim>\<open>app/services/sink_pinning.py\<close>) and the choice of the outbound proxy
  (\<^verbatim>\<open>proxy.py\<close>), with what they use of \<^verbatim>\<open>urllib.parse\<close> and
  \<^verbatim>\<open>ipaddress\<close>.

  The strings are those of the code points below 256; for them the NFKC test of
  \<^verbatim>\<open>urlsplit\<close> never fails.
\<close>

section \<open>str.partition and its like\<close>

definition before :: "char \<Rightarrow> string \<Rightarrow> string" where
  "before c s = takeWhile (\<lambda>x. x \<noteq> c) s"

definition after :: "char \<Rightarrow> string \<Rightarrow> string" where
  "after c s = drop 1 (dropWhile (\<lambda>x. x \<noteq> c) s)"

definition after_last :: "char \<Rightarrow> string \<Rightarrow> string" where
  "after_last c s = rev (takeWhile (\<lambda>x. x \<noteq> c) (rev s))"

definition ascii_digit :: "char \<Rightarrow> bool" where
  "ascii_digit c = (let n = (of_char c :: nat) in 48 \<le> n \<and> n \<le> 57)"

definition ascii_letter :: "char \<Rightarrow> bool" where
  "ascii_letter c = (let n = (of_char c :: nat) in 65 \<le> n \<and> n \<le> 90 \<or> 97 \<le> n \<and> n \<le> 122)"

definition hex_char :: "char \<Rightarrow> bool" where
  "hex_char c = (let n = (of_char c :: nat)
     in 48 \<le> n \<and> n \<le> 57 \<or> 65 \<le> n \<and> n \<le> 70 \<or> 97 \<le> n \<and> n \<le> 102)"

definition hex_val :: "char \<Rightarrow> int" where
  "hex_val c = (let n = (of_char c :: int)
     in if n \<le> 57 then n - 48 else if n \<le> 70 then n - 55 else n - 87)"

definition read_base :: "int \<Rightarrow> string \<Rightarrow> int" where
  "read_base b s = fold (\<lambda>c n. n * b + hex_val c) s 0"

definition all_digits :: "string \<Rightarrow> bool" where
  "all_digits s \<longleftrightarrow> s \<noteq> [] \<and> list_all ascii_digit s"

section \<open>IP addresses\<close>

datatype ip = IPv4 int | IPv6 int "string option"

definition octet :: "string \<Rightarrow> int option" where
  "octet s =
     (if \<not> all_digits s \<or> 3 < length s \<or> s \<noteq> ''0'' \<and> hd s = CHR ''0'' \<or> 255 < read_base 10 s
      then None else Some (read_base 10 s))"

definition parse_ipv4 :: "string \<Rightarrow> int option" where
  "parse_ipv4 s =
     (case map octet (split_on CHR ''.'' s) of
        [Some a, Some b, Some c, Some d] \<Rightarrow> Some (((a * 256 + b) * 256 + c) * 256 + d)
      | _ \<Rightarrow> None)"

definition hextet :: "string \<Rightarrow> int option" where
  "hextet s = (if s = [] \<or> \<not> list_all hex_char s \<or> 4 < length s then None else Some (read_base 16 s))"

definition hextets :: "string list \<Rightarrow> int list option" where
  "hextets ps = (if None \<in> set (map hextet ps) then None else Some (map (the \<circ> hextet) ps))"

definition combine :: "int list \<Rightarrow> int" where
  "combine hs = fold (\<lambda>h n. n * 65536 + h) hs 0"

text \<open>The parts of a colon-separated address; a dotted tail counts as two hextets.\<close>

definition ipv6_parts :: "string \<Rightarrow> (string list \<times> int list) option" where
  "ipv6_parts s =
     (let parts = split_on CHR '':'' s
      in if length parts < 3 then None
         else if CHR ''.'' \<in> set (last parts)
         then (case parse_ipv4 (last parts) of None \<Rightarrow> None
               | Some n \<Rightarrow> Some (butlast parts, [n div 65536, n mod 65536]))
         else Some (parts, []))"

definition inner_gaps :: "string list \<Rightarrow> nat list" where
  "inner_gaps parts = filter (\<lambda>i. parts ! i = []) [1..<length parts - 1]"

text \<open>\<^verbatim>\<open>IPv6Address._ip_int_from_string\<close>: \<open>dotted\<close> are the two hextets of a dotted
  tail, which stand after the parts and are not empty.\<close>

definition ipv6_int :: "string list \<Rightarrow> int list \<Rightarrow> int option" where
  "ipv6_int parts0 dotted =
     (let parts = parts0 @ map (\<lambda>_. ''x'') dotted;
          len = length parts
      in if 9 < len then None
         else case inner_gaps parts of
                [] \<Rightarrow>
                  if len \<noteq> 8 then None
                  else map_option (\<lambda>hs. combine (hs @ dotted)) (hextets parts0)
              | [g] \<Rightarrow>
                  let lead_open = hd parts = [];
                      tail_open = last parts = [];
                      hi = g - (if lead_open then 1 else 0);
                      lo = len - g - 1 - (if tail_open then 1 else 0)
                  in if lead_open \<and> hi \<noteq> 0 \<or> tail_open \<and> lo \<noteq> 0 \<or> 8 < hi + lo + 1 then None
                     else (case (hextets (take hi parts0),
                                 hextets (filter (\<lambda>p. p \<noteq> []) (drop (g + 1) parts0))) of
                             (Some hs, Some ls) \<Rightarrow>
                               Some (combine (hs @ replicate (8 - (hi + lo)) 0 @ ls @ dotted))
                           | _ \<Rightarrow> None)
              | _ \<Rightarrow> None)"

definition parse_ipv6 :: "string \<Rightarrow> (int \<times> string option) option" where
  "parse_ipv6 s =
     (let addr = before CHR ''%'' s; scope = after CHR ''%'' s; scoped = CHR ''%'' \<in> set s
      in if CHR ''/'' \<in> set s \<or> scoped \<and> (scope = [] \<or> CHR ''%'' \<in> set scope) then None
         else (case ipv6_parts addr of None \<Rightarrow> None
               | Some (ps, dotted) \<Rightarrow>
                   map_option (\<lambda>n. (n, if scoped then Some scope else None)) (ipv6_int ps dotted)))"

definition ip_address :: "string \<Rightarrow> ip option" where
  "ip_address s =
     (case parse_ipv4 s of Some n \<Rightarrow> Some (IPv4 n)
      | None \<Rightarrow> map_option (\<lambda>(n, scope). IPv6 n scope) (parse_ipv6 s))"

text \<open>\<^verbatim>\<open>ip in ip_network(entry, strict=False)\<close>; \<open>None\<close> when the entry is no
  network.  An IPv4 prefix is a length, a netmask or a hostmask.\<close>

definition ipv4_prefix :: "string \<Rightarrow> nat option" where
  "ipv4_prefix s =
     (if all_digits s then (if read_base 10 s \<le> 32 then Some (nat (read_base 10 s)) else None)
      else (case parse_ipv4 s of None \<Rightarrow> None
            | Some n \<Rightarrow>
                (case find (\<lambda>p. n = 2 ^ 32 - 2 ^ (32 - p)) [0..<33] of Some p \<Rightarrow> Some p
                 | None \<Rightarrow> find (\<lambda>p. n = 2 ^ (32 - p) - 1) [0..<33])))"

definition in_network :: "ip \<Rightarrow> string \<Rightarrow> bool option" where
  "in_network address entry =
     (case split_on CHR ''/'' entry of
        [a, p] \<Rightarrow>
          (case (parse_ipv4 a, ipv4_prefix p) of
             (Some net, Some len) \<Rightarrow>
               Some (case address of IPv4 n \<Rightarrow> n div 2 ^ (32 - len) = net div 2 ^ (32 - len) | IPv6 _ _ \<Rightarrow> False)
           | _ \<Rightarrow>
               (case parse_ipv6 a of None \<Rightarrow> None
                | Some (net, _) \<Rightarrow>
                    if all_digits p \<and> read_base 10 p \<le> 128
                    then let size = 2 ^ nat (128 - read_base 10 p)
                         in Some (case address of IPv4 _ \<Rightarrow> False | IPv6 n _ \<Rightarrow> n div size = net div size)
                    else None))
      | _ \<Rightarrow> None)"

section \<open>urlsplit\<close>

record url_parts =
  up_scheme :: string
  up_netloc :: string
  up_path :: string
  up_query :: string
  up_fragment :: string

definition scheme_char :: "char \<Rightarrow> bool" where
  "scheme_char c \<longleftrightarrow> ascii_letter c \<or> ascii_digit c \<or> c \<in> set ''+-.''"

definition split_scheme :: "string \<Rightarrow> string \<times> string" where
  "split_scheme url =
     (let scheme = before CHR '':'' url
      in if CHR '':'' \<in> set url \<and> scheme \<noteq> [] \<and> ascii_letter (hd scheme) \<and> list_all scheme_char scheme
         then (map latin_lower scheme, after CHR '':'' url) else ([], url))"

text \<open>The host in brackets: IPvFuture or an IPv6 address.\<close>

definition ip_future :: "string \<Rightarrow> bool" where
  "ip_future h \<longleftrightarrow>
     (let version = before CHR ''.'' (drop 1 h)
      in version \<noteq> [] \<and> list_all hex_char version \<and> CHR ''.'' \<in> set h \<and> after CHR ''.'' h \<noteq> [] \<and>
         list_all (\<lambda>c. c \<noteq> CHR 0x0A) (after CHR ''.'' h))"

definition bracketed_host_ok :: "string \<Rightarrow> bool" where
  "bracketed_host_ok loc =
     (let hostport = after_last CHR ''@'' loc
      in if CHR ''['' \<in> set hostport
         then let bracketed = after CHR ''['' hostport;
                  host = before CHR '']'' bracketed; port = after CHR '']'' bracketed
              in before CHR ''['' hostport = [] \<and> (port = [] \<or> hd port = CHR '':'') \<and>
                 (if host \<noteq> [] \<and> hd host = CHR ''v'' then ip_future host else parse_ipv6 host \<noteq> None)
         else let host = before CHR '':'' hostport
              in if host \<noteq> [] \<and> hd host = CHR ''v'' then ip_future host else parse_ipv6 host \<noteq> None)"

definition urlsplit :: "string \<Rightarrow> exn + url_parts" where
  "urlsplit url0 =
     (let url1 = filter (\<lambda>c. c \<notin> {CHR 0x09, CHR 0x0A, CHR 0x0D})
                   (dropWhile (\<lambda>c. (of_char c :: nat) \<le> 32) url0);
          (scheme, url2) = split_scheme url1;
          slashes = (take 2 url2 = ''//'');
          stop = (\<lambda>c. c \<in> set ''/?#'');
          loc = (if slashes then takeWhile (\<lambda>c. \<not> stop c) (drop 2 url2) else []);
          rest = (if slashes then dropWhile (\<lambda>c. \<not> stop c) (drop 2 url2) else url2);
          opened = CHR ''['' \<in> set loc; closed = CHR '']'' \<in> set loc
      in if opened \<noteq> closed then Inl (ValueError ''Invalid IPv6 URL'')
         else if opened \<and> \<not> bracketed_host_ok loc then Inl (ValueError ''Invalid IPv6 URL'')
         else Inr \<lparr>up_scheme = scheme, up_netloc = loc,
                up_path = before CHR ''?'' (before CHR ''#'' rest),
                up_query = after CHR ''?'' (before CHR ''#'' rest),
                up_fragment = after CHR ''#'' rest\<rparr>)"

text \<open>\<^verbatim>\<open>_hostinfo\<close>, \<^verbatim>\<open>.hostname\<close> and \<^verbatim>\<open>.port\<close>.\<close>

definition hostinfo :: "url_parts \<Rightarrow> string \<times> string" where
  "hostinfo parts =
     (let h = after_last CHR ''@'' (up_netloc parts)
      in if CHR ''['' \<in> set h
         then let b = after CHR ''['' h in (before CHR '']'' b, after CHR '':'' (after CHR '']'' b))
         else (before CHR '':'' h, after CHR '':'' h))"

definition hostname :: "url_parts \<Rightarrow> string option" where
  "hostname parts =
     (let h = fst (hostinfo parts)
      in if h = [] then None
         else Some (map latin_lower (before CHR ''%'' h) @ dropWhile (\<lambda>c. c \<noteq> CHR ''%'') h))"

definition url_port :: "url_parts \<Rightarrow> exn + int option" where
  "url_port parts =
     (let p = snd (hostinfo parts)
      in if p = [] then Inr None
         else if \<not> all_digits p then Inl (ValueError ''Port could not be cast to integer value'')
         else if 65535 < read_base 10 p then Inl (ValueError ''Port out of range 0-65535'')
         else Inr (Some (read_base 10 p)))"

text \<open>\<^verbatim>\<open>f":{parts.port}" if parts.port else ""\<close>.\<close>

definition port_text :: "int option \<Rightarrow> string" where
  "port_text p = (case p of None \<Rightarrow> [] | Some n \<Rightarrow> if n = 0 then [] else CHR '':'' # show_int n)"

section \<open>Pinned destinations\<close>

fun or_blank :: "string option \<Rightarrow> string" where
  "or_blank None = []"
| "or_blank (Some s) = s"

definition url_origin :: "string option \<Rightarrow> exn + string" where
  "url_origin v =
     (let text1 = strip (or_blank v)
      in if text1 = [] then Inr []
         else if \<not> (\<exists>i<length text1. take 2 (drop i text1) = ''//'') then Inr (map latin_lower text1)
         else and_then (urlsplit text1) (\<lambda>parts.
              and_then (url_port parts) (\<lambda>port.
                Inr (map latin_lower (up_scheme parts) @ ''://'' @ or_blank (hostname parts) @ port_text port))))"

definition host_changed :: "string option \<Rightarrow> string option \<Rightarrow> exn + bool" where
  "host_changed old new =
     and_then (url_origin old) (\<lambda>a. and_then (url_origin new) (\<lambda>b. Inr (a \<noteq> b)))"

definition check_pinned ::
  "string option \<Rightarrow> string \<Rightarrow> bool \<Rightarrow> string \<Rightarrow> string \<Rightarrow> string \<Rightarrow> exn + unit" where
  "check_pinned new env credential_present field_label env_var credential_var =
     (if \<not> credential_present then Inr ()
      else if strip (or_blank new) = [] then Inr ()
      else and_then (url_origin new) (\<lambda>a. and_then (url_origin (Some env)) (\<lambda>b.
        if a = b then Inr ()
        else Inl (ValueError (credential_var @ '' is set, so '' @ field_label @
               '' is pinned to the environment's '' @ env_var @ ''. Change '' @ env_var @
               '' and restart, or clear '' @ credential_var @ '', before pointing this at another host.'')))))"

section \<open>The outbound proxy\<close>

datatype proxy_mode = ProxyNone | ProxySystem | ProxyExplicit

fun proxy_mode_value :: "proxy_mode \<Rightarrow> string" where
  "proxy_mode_value ProxyNone = ''NONE''"
| "proxy_mode_value ProxySystem = ''SYSTEM''"
| "proxy_mode_value ProxyExplicit = ''EXPLICIT''"

text \<open>\<^verbatim>\<open>str.upper\<close>, as far as a comparison with the three ASCII words sees it.\<close>

definition ascii_upper :: "char \<Rightarrow> char" where
  "ascii_upper c = (let n = (of_char c :: nat) in if 97 \<le> n \<and> n \<le> 122 then char_of (n - 32) else c)"

definition read_proxy_mode :: "string \<Rightarrow> proxy_mode option" where
  "read_proxy_mode s =
     find (\<lambda>m. proxy_mode_value m = map ascii_upper s) [ProxyNone, ProxySystem, ProxyExplicit]"

record proxy_config =
  px_mode :: string
  px_proxy_url :: string
  px_no_proxy :: string

text \<open>The keyword arguments of \<^verbatim>\<open>httpx.AsyncClient\<close>: none, \<^verbatim>\<open>trust_env=True\<close>,
  or \<^verbatim>\<open>trust_env=False\<close> with the given \<^verbatim>\<open>proxy\<close>.\<close>

datatype proxy_kwargs = NoKwargs | TrustEnv | Through "string option"

definition parse_no_proxy :: "string \<Rightarrow> string list" where
  "parse_no_proxy v = filter (\<lambda>t. t \<noteq> []) (map strip (split_on CHR '','' v))"

definition ends_with :: "string \<Rightarrow> string \<Rightarrow> bool" where
  "ends_with suf s \<longleftrightarrow> length suf \<le> length s \<and> drop (length s - length suf) s = suf"

definition entry_bypasses :: "string \<Rightarrow> ip option \<Rightarrow> string \<Rightarrow> bool" where
  "entry_bypasses host address entry =
     (if entry = ''*'' then True
      else if CHR ''/'' \<in> set entry \<and> address \<noteq> None
      then in_network (the address) entry = Some True
      else let target = dropWhile (\<lambda>c. c = CHR ''.'') (map latin_lower entry)
           in host = target \<or> ends_with (CHR ''.'' # target) host)"

definition should_bypass :: "string option \<Rightarrow> string list \<Rightarrow> bool" where
  "should_bypass host entries =
     (case host of None \<Rightarrow> True
      | Some h \<Rightarrow>
          if h = [] then True
          else let l = map latin_lower h in list_ex (entry_bypasses l (ip_address l)) entries)"

text \<open>\<^verbatim>\<open>quote(s, safe="")\<close>: the UTF-8 bytes, all but the unreserved ones escaped.\<close>

definition unreserved :: "nat \<Rightarrow> bool" where
  "unreserved n \<longleftrightarrow> 48 \<le> n \<and> n \<le> 57 \<or> 65 \<le> n \<and> n \<le> 90 \<or> 97 \<le> n \<and> n \<le> 122 \<or> n \<in> {45, 46, 95, 126}"

definition upper_hex :: "nat \<Rightarrow> char" where
  "upper_hex n = char_of (if n < 10 then 48 + n else 55 + n)"

definition quoted_byte :: "nat \<Rightarrow> string" where
  "quoted_byte n =
     (if unreserved n then [char_of n] else [CHR ''%'', upper_hex (n div 16), upper_hex (n mod 16)])"

definition utf8 :: "char \<Rightarrow> nat list" where
  "utf8 c = (let n = (of_char c :: nat) in if n < 128 then [n] else [192 + n div 64, 128 + n mod 64])"

definition url_quote :: "string \<Rightarrow> string" where
  "url_quote s = concat (map quoted_byte (concat (map utf8 s)))"

text \<open>\<^verbatim>\<open>urlunsplit\<close> for a netloc that is not empty.\<close>

definition urlunsplit :: "string \<Rightarrow> string \<Rightarrow> string \<Rightarrow> string \<Rightarrow> string \<Rightarrow> string" where
  "urlunsplit scheme loc path query fragment =
     (if scheme = [] then [] else scheme @ '':'') @ ''//'' @ loc @
     (if path \<noteq> [] \<and> hd path \<noteq> CHR ''/'' then CHR ''/'' # path else path) @
     (if query = [] then [] else CHR ''?'' # query) @
     (if fragment = [] then [] else CHR ''#'' # fragment)"

definition with_credentials :: "string \<Rightarrow> string \<Rightarrow> string \<Rightarrow> exn + string" where
  "with_credentials username password proxy_url =
     (if username = [] then Inr proxy_url
      else and_then (urlsplit proxy_url) (\<lambda>parsed.
        case hostname parsed of
          None \<Rightarrow> Inr proxy_url
        | Some h \<Rightarrow>
            and_then (url_port parsed) (\<lambda>port.
              let userinfo = url_quote username @
                    (if password = [] then [] else CHR '':'' # url_quote password)
              in Inr (urlunsplit (up_scheme parsed) (userinfo @ CHR ''@'' # h @ port_text port)
                   (up_path parsed) (up_query parsed) (up_fragment parsed)))))"

definition resolve_proxy :: "string \<Rightarrow> string \<Rightarrow> proxy_config \<Rightarrow> string \<Rightarrow> exn + proxy_kwargs" where
  "resolve_proxy username password cfg url =
     (case read_proxy_mode (px_mode cfg) of
        None \<Rightarrow> Inr TrustEnv
      | Some ProxySystem \<Rightarrow> Inr TrustEnv
      | Some ProxyNone \<Rightarrow> Inr (Through None)
      | Some ProxyExplicit \<Rightarrow>
          if px_proxy_url cfg = [] then Inr (Through None)
          else and_then (urlsplit url) (\<lambda>parsed.
            if should_bypass (hostname parsed) (parse_no_proxy (px_no_proxy cfg)) then Inr (Through None)
            else and_then (with_credentials username password (px_proxy_url cfg)) (\<lambda>p. Inr (Through (Some p)))))"

definition resolve_kwargs ::
  "string \<Rightarrow> string \<Rightarrow> proxy_config option \<Rightarrow> string \<Rightarrow> exn + proxy_kwargs" where
  "resolve_kwargs username password cfg url =
     (case cfg of None \<Rightarrow> Inr NoKwargs | Some c \<Rightarrow> resolve_proxy username password c url)"

section \<open>Lemmas\<close>

lemma host_changed_same: "url_origin a = Inr x \<Longrightarrow> host_changed a a = Inr False"
  by (simp add: host_changed_def)

text \<open>What a passed check says.\<close>

definition pinned_to :: "string \<Rightarrow> string \<Rightarrow> bool" where
  "pinned_to env destination \<longleftrightarrow> strip destination = [] \<or> url_origin (Some destination) = url_origin (Some env)"

lemma check_pinned_Inr:
  "check_pinned (Some new) env True f e c = Inr () \<longleftrightarrow>
     strip new = [] \<or> (\<exists>x. url_origin (Some new) = Inr x \<and> url_origin (Some env) = Inr x)"
  by (auto simp: check_pinned_def)

lemma check_pinned_pins: "check_pinned (Some new) env True f e c = Inr () \<Longrightarrow> pinned_to env new"
  by (auto simp: check_pinned_Inr pinned_to_def)

text \<open>The brackets of an IPv6 host are lost: two different servers have the same origin, and a
  proxy URL with credentials is no longer well formed.\<close>

lemma bracketed_origins_collide:
  "url_origin (Some ''http://[::1]:99/'') = url_origin (Some ''http://[::1:99]/'') \<and>
   is_ok (url_origin (Some ''http://[::1]:99/'')) \<and> ip_address ''::1'' \<noteq> ip_address ''::1:99''"
  by code_simp

lemma credentials_drop_the_brackets:
  "with_credentials ''u'' ''p'' ''http://[::1]:3128'' = Inr ''http://u:p@::1:3128''"
  by code_simp

end
