(* ===== verification/Rate_Limit.thy ===== *)
theory Rate_Limit
  imports Schedule
begin

text \<open>
  The sliding-window limiter (\<^verbatim>\<open>app/services/rate_limit.py\<close>): one row per counted
  attempt in \<^verbatim>\<open>rate_limit_hits\<close>, a limiter per scope, and the nightly sweep.

  Every call is its own transaction, so an operation here maps the table to the table.  The
  time a call reads from the clock is an argument.
\<close>

section \<open>The table and the limiters\<close>

record hit =
  ht_id :: int
  ht_scope :: string
  ht_key :: string
  ht_at :: instant

record limiter =
  rl_scope :: string
  rl_max_attempts :: int
  rl_window_seconds :: int

definition in_window :: "limiter \<Rightarrow> string \<Rightarrow> instant \<Rightarrow> hit list \<Rightarrow> hit list" where
  "in_window lim key now hits =
     filter (\<lambda>h. ht_scope h = rl_scope lim \<and> ht_key h = key \<and>
        now - rl_window_seconds lim * SECOND < ht_at h) hits"

text \<open>Is the key limited, and after how many seconds may it retry.\<close>

definition check :: "limiter \<Rightarrow> string \<Rightarrow> instant \<Rightarrow> hit list \<Rightarrow> bool \<times> int" where
  "check lim key now hits =
     (let counted = in_window lim key now hits
      in if int (length counted) < rl_max_attempts lim \<or> counted = [] then (False, 0)
         else let oldest = Min (ht_at ` set counted);
                  remaining = rl_window_seconds lim * SECOND - (now - oldest)
              in (True, max 1 (remaining div SECOND)))"

definition is_limited :: "limiter \<Rightarrow> string \<Rightarrow> instant \<Rightarrow> hit list \<Rightarrow> bool" where
  "is_limited lim key now hits = fst (check lim key now hits)"

definition retry_after :: "limiter \<Rightarrow> string \<Rightarrow> instant \<Rightarrow> hit list \<Rightarrow> int" where
  "retry_after lim key now hits = snd (check lim key now hits)"

definition next_id :: "hit list \<Rightarrow> int" where
  "next_id hits = Max (insert 0 (ht_id ` set hits)) + 1"

definition record_failure :: "limiter \<Rightarrow> string \<Rightarrow> instant \<Rightarrow> hit list \<Rightarrow> hit list" where
  "record_failure lim key now hits =
     hits @ [\<lparr>ht_id = next_id hits, ht_scope = rl_scope lim, ht_key = key, ht_at = now\<rparr>]"

definition reset :: "limiter \<Rightarrow> string \<Rightarrow> hit list \<Rightarrow> hit list" where
  "reset lim key hits = filter (\<lambda>h. \<not> (ht_scope h = rl_scope lim \<and> ht_key h = key)) hits"

definition clear :: "limiter \<Rightarrow> hit list \<Rightarrow> hit list" where
  "clear lim hits = filter (\<lambda>h. ht_scope h \<noteq> rl_scope lim) hits"

definition reconfigure :: "int \<Rightarrow> int \<Rightarrow> limiter \<Rightarrow> limiter" where
  "reconfigure max_attempts window_seconds lim =
     lim\<lparr>rl_max_attempts := max_attempts, rl_window_seconds := window_seconds\<rparr>"

text \<open>The three limiters of the process.\<close>

record limiters =
  login_rate_limiter :: limiter
  registration_rate_limiter :: limiter
  password_reset_rate_limiter :: limiter

definition ALL_LIMITERS :: "limiters \<Rightarrow> limiter list" where
  "ALL_LIMITERS ls =
     [login_rate_limiter ls, registration_rate_limiter ls, password_reset_rate_limiter ls]"

definition apply_config :: "int \<times> int \<Rightarrow> int \<times> int \<Rightarrow> int \<times> int \<Rightarrow> limiters \<Rightarrow> limiters" where
  "apply_config login registration password_reset ls =
     \<lparr>login_rate_limiter = reconfigure (fst login) (snd login) (login_rate_limiter ls),
      registration_rate_limiter =
        reconfigure (fst registration) (snd registration) (registration_rate_limiter ls),
      password_reset_rate_limiter =
        reconfigure (fst password_reset) (snd password_reset) (password_reset_rate_limiter ls)\<rparr>"

definition sweep :: "limiters \<Rightarrow> instant \<Rightarrow> hit list \<Rightarrow> int \<times> hit list" where
  "sweep ls now hits =
     (let widest = Max (set (map rl_window_seconds (ALL_LIMITERS ls)));
          dead = (\<lambda>h. ht_at h < now - widest * SECOND)
      in (int (length (filter dead hits)), filter (\<lambda>h. \<not> dead h) hits))"

section \<open>Lemmas\<close>

lemma check_limited:
  "fst (check lim key now hits) \<longleftrightarrow>
     in_window lim key now hits \<noteq> [] \<and> rl_max_attempts lim \<le> int (length (in_window lim key now hits))"
  by (auto simp: check_def Let_def)

lemma in_window_record:
  "in_window lim key now (record_failure lim' key' t hits) = in_window lim key now hits @
     (if rl_scope lim' = rl_scope lim \<and> key' = key \<and> now - rl_window_seconds lim * SECOND < t
      then [\<lparr>ht_id = next_id hits, ht_scope = rl_scope lim', ht_key = key', ht_at = t\<rparr>] else [])"
  by (simp add: in_window_def record_failure_def)

lemma in_window_reset:
  "in_window lim key now (reset lim' key' hits) =
     (if rl_scope lim' = rl_scope lim \<and> key' = key then [] else in_window lim key now hits)"
  by (auto simp: in_window_def reset_def filter_empty_conv intro: filter_cong)

lemma in_window_clear:
  "in_window lim key now (clear lim' hits) =
     (if rl_scope lim' = rl_scope lim then [] else in_window lim key now hits)"
  by (auto simp: in_window_def clear_def filter_empty_conv intro: filter_cong)

lemma check_cong:
  "in_window lim key now hits = in_window lim key now hits' \<Longrightarrow>
     check lim key now hits = check lim key now hits'"
  by (simp add: check_def Let_def)

lemma window_of_limiter:
  "lim \<in> set (ALL_LIMITERS ls) \<Longrightarrow>
     rl_window_seconds lim \<le> Max (set (map rl_window_seconds (ALL_LIMITERS ls)))"
  by (intro Max_ge) auto

lemma in_window_sweep:
  assumes "lim \<in> set (ALL_LIMITERS ls)" and "t \<le> now"
  shows "in_window lim key now (snd (sweep ls t hits)) = in_window lim key now hits"
proof -
  let ?w = "Max (set (map rl_window_seconds (ALL_LIMITERS ls)))"
  have "rl_window_seconds lim * SECOND \<le> ?w * SECOND"
    using window_of_limiter [OF assms(1)] by (simp add: SECOND_def)
  then have "now - rl_window_seconds lim * SECOND < ht_at h \<Longrightarrow> \<not> ht_at h < t - ?w * SECOND" for h
    using assms(2) by linarith
  then show ?thesis
    by (auto simp: in_window_def sweep_def Let_def intro!: filter_cong)
qed

section \<open>Callers\<close>

text \<open>The guard of the two routes that count every attempt: registration and the reset request.\<close>

definition counted_attempt ::
  "string \<Rightarrow> limiter \<Rightarrow> string \<Rightarrow> instant \<Rightarrow> hit list \<Rightarrow> (exn + unit) \<times> hit list" where
  "counted_attempt detail lim key now hits =
     (if fst (check lim key now hits) then (Inl (HTTPException 429 detail), hits)
      else (Inr (), record_failure lim key now hits))"

text \<open>The limiters of the process, with the thresholds of its configuration.\<close>

definition process_limiters :: "int \<times> int \<Rightarrow> int \<times> int \<Rightarrow> int \<times> int \<Rightarrow> limiters" where
  "process_limiters login registration password_reset =
     \<lparr>login_rate_limiter = \<lparr>rl_scope = ''login'', rl_max_attempts = fst login,
        rl_window_seconds = snd login\<rparr>,
      registration_rate_limiter = \<lparr>rl_scope = ''registration'', rl_max_attempts = fst registration,
        rl_window_seconds = snd registration\<rparr>,
      password_reset_rate_limiter = \<lparr>rl_scope = ''password_reset'',
        rl_max_attempts = fst password_reset, rl_window_seconds = snd password_reset\<rparr>\<rparr>"

section \<open>Runs\<close>

text \<open>
  What can happen to the table between two configurations: time passes, a counted attempt comes
  in, a login fails or succeeds, the sweep runs.  \<open>passed\<close> is the log of the attempts that
  went through; no operation of the code has it, and nothing is ever removed from it.
\<close>

record limiter_run =
  clock :: instant
  table_of :: "hit list"
  passed :: "(string \<times> string \<times> instant) list"

inductive limiter_step :: "limiters \<Rightarrow> limiter_run \<Rightarrow> limiter_run \<Rightarrow> bool" for ls where
  tick: "0 \<le> d \<Longrightarrow> limiter_step ls r (r\<lparr>clock := clock r + d\<rparr>)"
| attempt: "lim \<in> {registration_rate_limiter ls, password_reset_rate_limiter ls} \<Longrightarrow>
    counted_attempt detail lim key (clock r) (table_of r) = (out, hits) \<Longrightarrow>
    limiter_step ls r (r\<lparr>table_of := hits,
      passed := passed r @ (if out = Inr () then [(rl_scope lim, key, clock r)] else [])\<rparr>)"
| failed_login: "limiter_step ls r (r\<lparr>table_of :=
    record_failure (login_rate_limiter ls) key (clock r) (table_of r)\<rparr>)"
| login: "limiter_step ls r (r\<lparr>table_of := reset (login_rate_limiter ls) key (table_of r)\<rparr>)"
| sweeping: "limiter_step ls r (r\<lparr>table_of := snd (sweep ls (clock r) (table_of r))\<rparr>)"

definition idle :: "instant \<Rightarrow> limiter_run" where
  "idle now = \<lparr>clock = now, table_of = [], passed = []\<rparr>"

inductive limiter_reach :: "limiters \<Rightarrow> limiter_run \<Rightarrow> bool" for ls where
  start: "limiter_reach ls (idle now)"
| step: "limiter_reach ls r \<Longrightarrow> limiter_step ls r r' \<Longrightarrow> limiter_reach ls r'"

text \<open>The attempts of a key that passed in the window of a limiter that ends at \<open>t\<close>.\<close>

definition passed_until :: "limiter \<Rightarrow> string \<Rightarrow> instant \<Rightarrow> limiter_run \<Rightarrow> (string \<times> string \<times> instant) list" where
  "passed_until lim key t r =
     filter (\<lambda>(sc, k, at). sc = rl_scope lim \<and> k = key \<and> t - rl_window_seconds lim * SECOND < at \<and> at \<le> t)
       (passed r)"

text \<open>
  The table knows enough of the log: as seen from now on, both count the same; the log holds
  no future; and no window that has ended or will end is over the limit.
\<close>

definition run_ok :: "limiter \<Rightarrow> limiter_run \<Rightarrow> bool" where
  "run_ok lim r \<longleftrightarrow>
     (\<forall>p\<in>set (passed r). snd (snd p) \<le> clock r) \<and>
     (\<forall>key t. clock r \<le> t \<longrightarrow>
        length (passed_until lim key t r) = length (in_window lim key t (table_of r))) \<and>
     (\<forall>key t. int (length (passed_until lim key t r)) \<le> max 1 (rl_max_attempts lim))"

lemma run_ok_idle: "run_ok lim (idle now)"
  by (auto simp: run_ok_def idle_def passed_until_def in_window_def)

lemma length_filter_mono:
  "(\<And>x. x \<in> set xs \<Longrightarrow> P x \<Longrightarrow> Q x) \<Longrightarrow> length (filter P xs) \<le> length (filter Q xs)"
  by (induction xs) auto

text \<open>A step that passes nothing and leaves the counts of the limiter alone.\<close>

lemma run_ok_quiet:
  assumes "run_ok lim r" and "clock r \<le> now"
    and "\<And>key t. now \<le> t \<Longrightarrow> in_window lim key t hits = in_window lim key t (table_of r)"
  shows "run_ok lim (r\<lparr>clock := now, table_of := hits\<rparr>)"
  using assms by (fastforce simp: run_ok_def passed_until_def)

lemma run_ok_pass:
  assumes ok: "run_ok lim r" and free: "\<not> fst (check lim key (clock r) (table_of r))"
  shows "run_ok lim (r\<lparr>table_of := record_failure lim key (clock r) (table_of r),
    passed := passed r @ [(rl_scope lim, key, clock r)]\<rparr>)" (is "run_ok lim ?r")
proof -
  let ?W = "rl_window_seconds lim * SECOND" and ?new = "(rl_scope lim, key, clock r)"
  have past: "\<forall>p\<in>set (passed r). snd (snd p) \<le> clock r"
    and same: "\<And>k t. clock r \<le> t \<Longrightarrow>
        length (passed_until lim k t r) = length (in_window lim k t (table_of r))"
    and bound: "\<And>k t. int (length (passed_until lim k t r)) \<le> max 1 (rl_max_attempts lim)"
    using ok by (auto simp: run_ok_def)
  have log: "passed_until lim k t ?r = passed_until lim k t r @
      (if k = key \<and> t - ?W < clock r \<and> clock r \<le> t then [?new] else [])" for k t
    by (simp add: passed_until_def)
  have "length (passed_until lim k t ?r) = length (in_window lim k t (table_of ?r))"
    if "clock r \<le> t" for k t
    using same [OF that] that by (auto simp: log in_window_record)
  moreover have "int (length (passed_until lim k t ?r)) \<le> max 1 (rl_max_attempts lim)" for k t
  proof (cases "k = key \<and> t - ?W < clock r \<and> clock r \<le> t")
    case False
    then show ?thesis using bound [of k t] by (auto simp: log)
  next
    case True
    have "length (passed_until lim key t r) \<le> length (passed_until lim key (clock r) r)"
      unfolding passed_until_def using True past by (intro length_filter_mono) auto
    moreover have "int (length (in_window lim key (clock r) (table_of r))) + 1 \<le>
        max 1 (rl_max_attempts lim)"
      using free by (auto simp: check_limited)
    ultimately show ?thesis using same [of "clock r" key] True by (simp add: log)
  qed
  ultimately show ?thesis using past by (auto simp: run_ok_def)
qed

text \<open>What another scope does to its rows does not show in the counts of this one.\<close>

lemma in_window_other:
  assumes "rl_scope lim' \<noteq> rl_scope lim"
  shows "in_window lim key t (record_failure lim' k now hits) = in_window lim key t hits"
    "in_window lim key t (reset lim' k hits) = in_window lim key t hits"
  using assms by (simp_all add: in_window_record in_window_reset)

lemma run_ok_step:
  assumes "limiter_step ls r r'" and "run_ok lim r"
    and "lim \<in> {registration_rate_limiter ls, password_reset_rate_limiter ls}"
    and "distinct (map rl_scope (ALL_LIMITERS ls))"
  shows "run_ok lim r'"
  using assms(1)
proof cases
  case (tick d)
  then show ?thesis
    using run_ok_quiet [OF assms(2), of "clock r + d" "table_of r"] by simp
next
  case (attempt lim' detail key out hits)
  show ?thesis
  proof (cases "fst (check lim' key (clock r) (table_of r))")
    case True
    then have "r' = r\<lparr>clock := clock r, table_of := table_of r\<rparr>"
      using attempt by (auto simp: counted_attempt_def)
    then show ?thesis using assms(2) by simp
  next
    case False
    then have r': "r' = r\<lparr>table_of := record_failure lim' key (clock r) (table_of r),
        passed := passed r @ [(rl_scope lim', key, clock r)]\<rparr>"
      using attempt by (auto simp: counted_attempt_def)
    show ?thesis
    proof (cases "rl_scope lim' = rl_scope lim")
      case True
      then have "lim' = lim"
        using attempt(2) assms(3,4) by (auto simp: ALL_LIMITERS_def)
      then show ?thesis using run_ok_pass [OF assms(2)] False r' by simp
    next
      case other: False
      have "run_ok lim (r\<lparr>clock := clock r, table_of := record_failure lim' key (clock r) (table_of r)\<rparr>)"
        using other by (intro run_ok_quiet [OF assms(2)]) (simp_all add: in_window_other)
      then show ?thesis
        using other assms(2) unfolding r' by (fastforce simp: run_ok_def passed_until_def)
    qed
  qed
next
  case (failed_login key)
  have "rl_scope (login_rate_limiter ls) \<noteq> rl_scope lim"
    using assms(3,4) by (auto simp: ALL_LIMITERS_def)
  then show ?thesis
    using run_ok_quiet [OF assms(2), of "clock r"
        "record_failure (login_rate_limiter ls) key (clock r) (table_of r)"]
    unfolding failed_login by (simp add: in_window_other)
next
  case (login key)
  have "rl_scope (login_rate_limiter ls) \<noteq> rl_scope lim"
    using assms(3,4) by (auto simp: ALL_LIMITERS_def)
  then show ?thesis
    using run_ok_quiet [OF assms(2), of "clock r" "reset (login_rate_limiter ls) key (table_of r)"]
    unfolding login by (simp add: in_window_other)
next
  case sweeping
  have "lim \<in> set (ALL_LIMITERS ls)" using assms(3) by (auto simp: ALL_LIMITERS_def)
  then show ?thesis
    using run_ok_quiet [OF assms(2), of "clock r" "snd (sweep ls (clock r) (table_of r))"]
    unfolding sweeping by (simp add: in_window_sweep)
qed

lemma process_limiters_scopes: "distinct (map rl_scope (ALL_LIMITERS (process_limiters l r p)))"
  by (simp add: process_limiters_def ALL_LIMITERS_def)

lemma run_ok_reach:
  assumes "limiter_reach ls r" and "distinct (map rl_scope (ALL_LIMITERS ls))"
    and "lim \<in> {registration_rate_limiter ls, password_reset_rate_limiter ls}"
  shows "run_ok lim r"
  using assms(1)
proof induction
  case (start now)
  then show ?case by (rule run_ok_idle)
next
  case (step r r')
  then show ?case using run_ok_step assms(2,3) by blast
qed

section \<open>Properties\<close>


definition demo_limits :: limiters where
  "demo_limits = process_limiters (5, 300) (1, 60) (3, 60)"

definition demo_attempt :: "limiter_run \<Rightarrow> limiter_run" where
  "demo_attempt r =
     (let (out, hits) = counted_attempt ''slow down'' (registration_rate_limiter demo_limits) ''ip''
            (clock r) (table_of r)
      in r\<lparr>table_of := hits,
           passed := passed r @ (if out = Inr () then [(''registration'', ''ip'', clock r)] else [])\<rparr>)"


text \<open>Waiting it out works: a limited key with a full window of past attempts is told to wait
  between one second and the length of the window, and if nothing more is counted, one second
  after that wait it may go again.\<close>

lemma waiting_ends_the_limit:
  assumes "check lim key now hits = (True, w)" and "\<forall>h\<in>set hits. ht_at h \<le> now"
    and "int (length (in_window lim key now hits)) \<le> rl_max_attempts lim"
    and "1 \<le> rl_window_seconds lim"
  shows "1 \<le> w \<and> w \<le> rl_window_seconds lim \<and>
    (\<forall>later\<ge>now + (w + 1) * SECOND. \<not> fst (check lim key later hits))"
proof -
  let ?c = "in_window lim key now hits" and ?W = "rl_window_seconds lim * SECOND"
  let ?old = "Min (ht_at ` set ?c)"
  have ne: "?c \<noteq> []" and full: "int (length ?c) = rl_max_attempts lim"
    using assms(1,3) by (auto simp: check_def Let_def split: if_splits)
  have w: "w = max 1 ((?W - (now - ?old)) div SECOND)"
    using assms(1) ne full by (auto simp: check_def Let_def)
  have "?old \<in> ht_at ` set ?c" using ne by (intro Min_in) auto
  then obtain h where h: "h \<in> set ?c" "ht_at h = ?old" by (metis imageE)
  have past: "?old \<le> now" and live: "now - ?W < ?old"
    using h assms(2) by (auto simp: in_window_def)
  have upper: "w \<le> rl_window_seconds lim"
    using past assms(4) unfolding w by (simp add: SECOND_def)
  have "\<not> fst (check lim key later hits)" if "now + (w + 1) * SECOND \<le> later" for later
  proof -
    have "?W - (now - ?old) < (w + 1) * SECOND"
    proof -
      have "(?W - (now - ?old)) div SECOND \<le> w" using w by simp
      then show ?thesis by (simp add: SECOND_def)
    qed
    then have gone: "\<not> later - ?W < ?old" using that by linarith
    have "now \<le> later" using that w by (simp add: SECOND_def)
    then have "in_window lim key later hits = filter (\<lambda>h. later - ?W < ht_at h) ?c"
      by (auto simp: in_window_def intro!: filter_cong)
    also have "length \<dots> < length ?c"
      using h gone by (intro length_filter_less [of h]) auto
    finally show ?thesis using full by (auto simp: check_limited)
  qed
  then show ?thesis using w upper by simp
qed

definition demo_hits :: "hit list" where
  "demo_hits = record_failure (registration_rate_limiter demo_limits) ''ip'' 0 []"

lemma waiting_ends_the_limit_witness:
  "check (registration_rate_limiter demo_limits) ''ip'' 5000000 demo_hits = (True, 55) \<and>
   \<not> fst (check (registration_rate_limiter demo_limits) ''ip'' 61000000 demo_hits)"
proof -
  let ?lim = "registration_rate_limiter demo_limits"
  have c: "check ?lim ''ip'' 5000000 demo_hits = (True, 55)" by code_simp
  have p: "\<forall>h\<in>set demo_hits. ht_at h \<le> 5000000" by code_simp
  have l: "int (length (in_window ?lim ''ip'' 5000000 demo_hits)) \<le> rl_max_attempts ?lim"
    "1 \<le> rl_window_seconds ?lim" by code_simp+
  show ?thesis using c waiting_ends_the_limit [OF c p l] by (simp add: SECOND_def)
qed

text \<open>The wait is rounded down, so a caller who comes back right after it can be refused again.\<close>

lemma retry_after_rounds_down:
  "check (registration_rate_limiter demo_limits) ''ip'' 5500000 demo_hits = (True, 54) \<and>
   fst (check (registration_rate_limiter demo_limits) ''ip'' (5500000 + 54 * SECOND) demo_hits)"
  by code_simp

end
