(* ===== verification/Accounts.thy ===== *)
theory Accounts
  imports Inject_Api Rate_Limit
begin

text \<open>
  Accounts: link tokens (\<^verbatim>\<open>app/services/token_service.py\<close>), passwords and
  access tokens (\<^verbatim>\<open>auth_service.py\<close>), the validators of
  \<^verbatim>\<open>app/schemas/auth.py\<close>, and the routes of \<^verbatim>\<open>app/routers/auth.py\<close>
  and \<^verbatim>\<open>app/routers/users.py\<close>.

  bcrypt, PyJWT's encoder and SHA-256 are parameters; a random token is an argument, and so is
  the clock.  A route works on a session and on the hit table of the limiters, and returns the
  mails it hands to the mailer (recipient and link).  Bodies are taken as validated.
\<close>

section \<open>Validators\<close>

definition MIN_PASSWORD_LENGTH :: nat where "MIN_PASSWORD_LENGTH = 12"
definition MAX_PASSWORD_BYTES :: nat where "MAX_PASSWORD_BYTES = 72"

text \<open>The length of \<^verbatim>\<open>s.encode("utf-8")\<close>.\<close>

definition utf8_length :: "string \<Rightarrow> nat" where
  "utf8_length s = sum_list (map (\<lambda>c. if (of_char c :: nat) < 128 then 1 else 2) s)"

definition validate_password_strength :: "string \<Rightarrow> exn + string" where
  "validate_password_strength v =
     (if strip v = [] then Inl (ValueError ''Password must not be blank.'')
      else if length v < MIN_PASSWORD_LENGTH
      then Inl (ValueError ''Password must be at least 12 characters.'')
      else if MAX_PASSWORD_BYTES < utf8_length v
      then Inl (ValueError ''Password must be at most 72 bytes.'')
      else Inr v)"

text \<open>\<^verbatim>\<open>EMAIL_RE\<close>: one at sign, no white space, and a dot inside the part
  behind the at sign.\<close>

definition email_shape :: "string \<Rightarrow> bool" where
  "email_shape e =
     (let local = takeWhile (\<lambda>c. c \<noteq> CHR ''@'') e; rest = drop (length local) e
      in local \<noteq> [] \<and> rest \<noteq> [] \<and> CHR ''@'' \<notin> set (tl rest) \<and> \<not> list_ex is_space e \<and>
         CHR ''.'' \<in> set (tl (butlast (tl rest))))"

definition validate_email :: "string \<Rightarrow> exn + string" where
  "validate_email v =
     (let email = map latin_lower (strip v)
      in if email_shape email then Inr email
         else Inl (ValueError ''Enter a valid email address.''))"

section \<open>Configuration\<close>

record auth_config =
  local_auth_enabled :: bool
  registration_enabled :: bool
  smtp_enabled :: bool
  public_base_url :: string
  access_token_expire_minutes :: int

definition link_base :: "auth_config \<Rightarrow> string option" where
  "link_base cfg =
     (let base = rev (dropWhile (\<lambda>c. c = CHR ''/'') (rev (strip (public_base_url cfg))))
      in if base = [] then None else Some base)"

definition build_link :: "auth_config \<Rightarrow> string \<Rightarrow> string \<Rightarrow> exn + string" where
  "build_link cfg path token =
     (case link_base cfg of
        None \<Rightarrow> Inl (RuntimeError ''PUBLIC_BASE_URL is not configured'')
      | Some base \<Rightarrow> Inr (base @ path @ ''?token='' @ token))"

definition require_local_auth :: "auth_config \<Rightarrow> exn + unit" where
  "require_local_auth cfg =
     (if \<not> local_auth_enabled cfg
      then Inl (HTTPException 403 ''Local authentication is disabled; sign in via SSO.'') else Inr ())"

definition require_registration_enabled :: "auth_config \<Rightarrow> exn + unit" where
  "require_registration_enabled cfg =
     (if \<not> registration_enabled cfg
      then Inl (HTTPException 403 ''Self-registration is disabled.'') else Inr ())"

definition require_smtp :: "auth_config \<Rightarrow> exn + unit" where
  "require_smtp cfg = (if \<not> smtp_enabled cfg then Inl (HTTPException 404 ''Not found'') else Inr ())"

definition require_link_base :: "auth_config \<Rightarrow> exn + unit" where
  "require_link_base cfg =
     (if link_base cfg = None
      then Inl (HTTPException 503 ''Emailed links are not configured. Set PUBLIC_BASE_URL.'') else Inr ())"

section \<open>Link tokens\<close>

definition RESET_TOKEN_TTL :: int where "RESET_TOKEN_TTL = 3600 * SECOND"
definition INVITE_TOKEN_TTL :: int where "INVITE_TOKEN_TTL = 7 * 86400 * SECOND"

definition new_token ::
  "string \<Rightarrow> token_purpose \<Rightarrow> string \<Rightarrow> int option \<Rightarrow> string option \<Rightarrow> int option \<Rightarrow> int \<Rightarrow> instant \<Rightarrow>
     database \<Rightarrow> auth_token" where
  "new_token token_hash purpose email user_id team exercise_id ttl now d =
     \<lparr>tk_id = nextval TAuthToken d, tk_token_hash = token_hash, tk_purpose = purpose,
      tk_email = email, tk_user_id = user_id, tk_team = team, tk_exercise_id = exercise_id,
      tk_expires_at = now + ttl, tk_used_at = None, tk_created_at = now\<rparr>"

text \<open>The unique index on the hash; the raw token is random, so a collision is a failure.\<close>

definition insert_token :: "auth_token \<Rightarrow> database \<Rightarrow> exn + database" where
  "insert_token t d =
     (if tk_token_hash t \<in> tk_token_hash ` set (auth_tokens d) then Inl IntegrityError
      else Inr ((bump TAuthToken d)\<lparr>auth_tokens := auth_tokens d @ [t]\<rparr>))"

definition create_token ::
  "(string \<Rightarrow> string) \<Rightarrow> string \<Rightarrow> token_purpose \<Rightarrow> string \<Rightarrow> int option \<Rightarrow> string option \<Rightarrow> int option \<Rightarrow>
     int \<Rightarrow> instant \<Rightarrow> session \<Rightarrow> (exn + string) \<times> session" where
  "create_token sha256 raw purpose email user_id team exercise_id ttl now s =
     (case insert_token (new_token (sha256 raw) purpose email user_id team exercise_id ttl now (db s)) (db s) of
        Inl x \<Rightarrow> (Inl x, rollback s)
      | Inr d \<Rightarrow> (Inr raw, commit (execute (\<lambda>_. d) s)))"

definition token_usable :: "token_purpose \<Rightarrow> instant \<Rightarrow> auth_token \<Rightarrow> bool" where
  "token_usable purpose now t \<longleftrightarrow>
     tk_purpose t = purpose \<and> tk_used_at t = None \<and> now < tk_expires_at t"

definition find_token :: "(string \<Rightarrow> string) \<Rightarrow> string \<Rightarrow> database \<Rightarrow> auth_token option" where
  "find_token sha256 raw d = get_row tk_token_hash (sha256 raw) (auth_tokens d)"

definition burn_token :: "auth_token \<Rightarrow> instant \<Rightarrow> database \<Rightarrow> database" where
  "burn_token t now d =
     d\<lparr>auth_tokens := update_where (\<lambda>r. tk_id r = tk_id t) (\<lambda>r. r\<lparr>tk_used_at := Some now\<rparr>) (auth_tokens d)\<rparr>"

definition consume ::
  "(string \<Rightarrow> string) \<Rightarrow> string \<Rightarrow> token_purpose \<Rightarrow> bool \<Rightarrow> instant \<Rightarrow> session \<Rightarrow> auth_token option \<times> session" where
  "consume sha256 raw purpose do_commit now s =
     (case find_token sha256 raw (db s) of
        None \<Rightarrow> (None, s)
      | Some t \<Rightarrow>
          if \<not> token_usable purpose now t then (None, s)
          else let s1 = execute (burn_token t now) s
               in (Some (t\<lparr>tk_used_at := Some now\<rparr>), if do_commit then commit s1 else s1))"

section \<open>Passwords and access tokens\<close>

text \<open>\<^verbatim>\<open>bcrypt.checkpw\<close> is \<open>checkpw\<close>; it may raise \<^verbatim>\<open>ValueError\<close>.\<close>

definition verify_password :: "(string \<Rightarrow> string \<Rightarrow> exn + bool) \<Rightarrow> string \<Rightarrow> string \<Rightarrow> bool" where
  "verify_password checkpw plain hashed =
     (if MAX_PASSWORD_BYTES < utf8_length plain then False
      else case checkpw plain hashed of Inr b \<Rightarrow> b | Inl x \<Rightarrow> False)"

record token_payload =
  tp_sub :: string
  tp_role :: string
  tp_is_admin :: bool
  tp_iat :: instant
  tp_exp :: instant

definition create_access_token ::
  "(token_payload \<Rightarrow> string) \<Rightarrow> auth_config \<Rightarrow> user \<Rightarrow> instant \<Rightarrow> string" where
  "create_access_token encode1 cfg u now =
     encode1 \<lparr>tp_sub = u_email u, tp_role = role_value (u_role u), tp_is_admin = u_is_admin u,
              tp_iat = now, tp_exp = now + access_token_expire_minutes cfg * 60 * SECOND\<rparr>"

text \<open>\<^verbatim>\<open>replace(microsecond=0)\<close>.\<close>

definition whole_second :: "instant \<Rightarrow> instant" where
  "whole_second t = t - t mod SECOND"

section \<open>Users\<close>

definition LOCAL_AUTH_PROVIDER :: string where "LOCAL_AUTH_PROVIDER = ''local''"

definition new_user ::
  "string \<Rightarrow> string \<Rightarrow> string \<Rightarrow> user_role \<Rightarrow> string option \<Rightarrow> bool \<Rightarrow> instant \<Rightarrow> database \<Rightarrow> user" where
  "new_user email display_name hashed role team is_admin1 now d =
     \<lparr>u_id = nextval TUser d, u_email = email, u_display_name = display_name,
      u_hashed_password = Some hashed, u_role = role, u_team = team, u_is_active = True,
      u_is_admin = is_admin1, u_must_change_password = False, u_created_at = now,
      u_token_valid_after = None, u_auth_provider = LOCAL_AUTH_PROVIDER, u_subject = None,
      u_auth_tenant = None, u_role_managed_by_idp = False\<rparr>"

definition email_exists :: "database \<Rightarrow> string \<Rightarrow> bool" where
  "email_exists d email \<longleftrightarrow> get_by_email d email \<noteq> None"

text \<open>The unique email; a local row has no subject, so the other constraint does not apply.\<close>

definition insert_user :: "user \<Rightarrow> database \<Rightarrow> exn + database" where
  "insert_user u d =
     (if email_exists d (u_email u) then Inl IntegrityError
      else Inr ((bump TUser d)\<lparr>users := users d @ [u]\<rparr>))"

definition update_user :: "int \<Rightarrow> (user \<Rightarrow> user) \<Rightarrow> database \<Rightarrow> database" where
  "update_user i f d = d\<lparr>users := update_where (\<lambda>u. u_id u = i) f (users d)\<rparr>"

text \<open>A new password: earlier access tokens are cut off at the second.\<close>

definition set_password :: "string \<Rightarrow> bool \<Rightarrow> instant \<Rightarrow> user \<Rightarrow> user" where
  "set_password hashed must_change now u =
     u\<lparr>u_hashed_password := Some hashed, u_token_valid_after := Some (whole_second now),
       u_must_change_password := must_change\<rparr>"


section \<open>Sign-up and sign-in\<close>

record register_request =
  gr_email :: string
  gr_display_name :: string
  gr_password :: string
  gr_team :: "string option"

definition unauthorized :: exn where
  "unauthorized = HTTPException 401 ''Invalid credentials''"

definition ip_or_unknown :: "string option \<Rightarrow> string" where
  "ip_or_unknown ip = (if truthy ip then the ip else ''unknown'')"

text \<open>One insertion and one commit; \<open>hashed\<close> is what \<^verbatim>\<open>hash_password\<close>
  returned for this call.\<close>

definition add_user :: "user \<Rightarrow> session \<Rightarrow> (exn + user) \<times> session" where
  "add_user u s =
     (case insert_user u (db s) of
        Inl x \<Rightarrow> (Inl x, rollback s)
      | Inr d \<Rightarrow> (Inr u, commit (execute (\<lambda>_. d) s)))"

definition register_account ::
  "register_request \<Rightarrow> string \<Rightarrow> instant \<Rightarrow> session \<Rightarrow> (exn + user) \<times> session" where
  "register_account body hashed now s =
     (if email_exists (db s) (gr_email body)
      then (Inl (HTTPException 409 ''Email already registered''), s)
      else add_user (new_user (gr_email body) (gr_display_name body) hashed Participant
             (gr_team body) False now (db s)) s)"

definition register ::
  "auth_config \<Rightarrow> limiters \<Rightarrow> string option \<Rightarrow> register_request \<Rightarrow> string \<Rightarrow> instant \<Rightarrow> session \<Rightarrow>
     hit list \<Rightarrow> (exn + user) \<times> session \<times> hit list" where
  "register cfg ls ip body hashed now s hits =
     (case and_then (require_local_auth cfg) (\<lambda>_. require_registration_enabled cfg) of
        Inl x \<Rightarrow> (Inl x, s, hits)
      | Inr _ \<Rightarrow>
          (case counted_attempt ''Too many registration attempts. Try again later.''
                  (registration_rate_limiter ls) (ip_or_unknown ip) now hits of
             (Inl x, hits1) \<Rightarrow> (Inl x, s, hits1)
           | (Inr _, hits1) \<Rightarrow>
               (let (r, s1) = register_account body hashed now s in (r, s1, hits1))))"

definition valid_credentials ::
  "(string \<Rightarrow> string \<Rightarrow> exn + bool) \<Rightarrow> string \<Rightarrow> user option \<Rightarrow> bool" where
  "valid_credentials checkpw password who =
     (case who of None \<Rightarrow> False
      | Some u \<Rightarrow> (case u_hashed_password u of None \<Rightarrow> False
                   | Some hashed \<Rightarrow> verify_password checkpw password hashed))"

definition login_key :: "string option \<Rightarrow> string \<Rightarrow> string" where
  "login_key ip email = ip_or_unknown ip @ '':'' @ email"

definition login ::
  "(token_payload \<Rightarrow> string) \<Rightarrow> (string \<Rightarrow> string \<Rightarrow> exn + bool) \<Rightarrow> auth_config \<Rightarrow> limiters \<Rightarrow>
     string option \<Rightarrow> string \<Rightarrow> string \<Rightarrow> instant \<Rightarrow> database \<Rightarrow> hit list \<Rightarrow> (exn + string) \<times> hit list" where
  "login encode1 checkpw cfg ls ip email password now d hits =
     (let key = login_key ip email; lim = login_rate_limiter ls; who = get_by_email d email
      in case require_local_auth cfg of
           Inl x \<Rightarrow> (Inl x, hits)
         | Inr _ \<Rightarrow>
             if fst (check lim key now hits)
             then (Inl (HTTPException 429 ''Too many login attempts. Try again later.''), hits)
             else if \<not> valid_credentials checkpw password who
             then (Inl unauthorized, record_failure lim key now hits)
             else if \<not> u_is_active (the who) then (Inl (HTTPException 403 ''Account disabled''), hits)
             else (Inr (create_access_token encode1 cfg (the who) now), reset lim key hits))"

section \<open>Password reset\<close>

text \<open>A mail: the recipient, the subject, and the link in it.\<close>

type_synonym mail = "string \<times> string \<times> string option"

definition reset_mails ::
  "(string \<Rightarrow> string) \<Rightarrow> auth_config \<Rightarrow> string \<Rightarrow> string \<Rightarrow> instant \<Rightarrow> session \<Rightarrow> (exn + mail list) \<times> session" where
  "reset_mails sha256 cfg raw email now s =
     (case get_by_email (db s) email of
        None \<Rightarrow> (Inr [], s)
      | Some u \<Rightarrow>
          if u_auth_provider u = LOCAL_AUTH_PROVIDER
          then (case create_token sha256 raw PasswordReset (u_email u) (Some (u_id u)) None None
                       RESET_TOKEN_TTL now s of
                  (Inl x, s1) \<Rightarrow> (Inl x, s1)
                | (Inr t, s1) \<Rightarrow>
                    (case build_link cfg ''/reset-password'' t of
                       Inl x \<Rightarrow> (Inl x, s1)
                     | Inr link \<Rightarrow> (Inr [(u_email u, ''Reset your IcebergTTX password'', Some link)], s1)))
          else (Inr [(u_email u, ''IcebergTTX password reset'', None)], s))"

definition password_reset_request ::
  "(string \<Rightarrow> string) \<Rightarrow> auth_config \<Rightarrow> limiters \<Rightarrow> string option \<Rightarrow> string \<Rightarrow> string \<Rightarrow> instant \<Rightarrow> session \<Rightarrow>
     hit list \<Rightarrow> (exn + mail list) \<times> session \<times> hit list" where
  "password_reset_request sha256 cfg ls ip email raw now s hits =
     (case and_then (require_smtp cfg) (\<lambda>_. require_link_base cfg) of
        Inl x \<Rightarrow> (Inl x, s, hits)
      | Inr _ \<Rightarrow>
          (case counted_attempt ''Too many reset requests. Try again later.''
                  (password_reset_rate_limiter ls) (ip_or_unknown ip) now hits of
             (Inl x, hits1) \<Rightarrow> (Inl x, s, hits1)
           | (Inr _, hits1) \<Rightarrow>
               (let (r, s1) = reset_mails sha256 cfg raw email now s in (r, s1, hits1))))"

text \<open>The account a reset token names, when it may be reset.\<close>

definition reset_account :: "database \<Rightarrow> auth_token option \<Rightarrow> user option" where
  "reset_account d token =
     (case token of None \<Rightarrow> None
      | Some t \<Rightarrow>
          (case tk_user_id t of None \<Rightarrow> None
           | Some i \<Rightarrow>
               if i = 0 then None
               else (case get_user d i of None \<Rightarrow> None
                     | Some u \<Rightarrow> if u_auth_provider u = LOCAL_AUTH_PROVIDER then Some u else None)))"

text \<open>The new access token goes to the cookie and to the body.\<close>

definition password_reset_complete ::
  "(string \<Rightarrow> string) \<Rightarrow> (token_payload \<Rightarrow> string) \<Rightarrow> auth_config \<Rightarrow> string \<Rightarrow> string \<Rightarrow> instant \<Rightarrow>
     session \<Rightarrow> (exn + string) \<times> session" where
  "password_reset_complete sha256 encode1 cfg token hashed now s =
     (case require_smtp cfg of Inl x \<Rightarrow> (Inl x, s)
      | Inr _ \<Rightarrow>
        (let (t, s1) = consume sha256 token PasswordReset True now s
         in case reset_account (db s1) t of
              None \<Rightarrow> (Inl (HTTPException 400 ''Invalid or expired reset link.''), s1)
            | Some u \<Rightarrow>
                (Inr (create_access_token encode1 cfg u now),
                 commit (execute (update_user (u_id u) (set_password hashed False now)) s1))))"

section \<open>Invitations\<close>

definition invite_guard ::
  "auth_config \<Rightarrow> string \<Rightarrow> int option \<Rightarrow> current_user \<Rightarrow> database \<Rightarrow> exn + unit" where
  "invite_guard cfg email exercise_id u d =
     and_then (require_admin u) (\<lambda>_.
     and_then (require_smtp cfg) (\<lambda>_.
     and_then (require_link_base cfg) (\<lambda>_.
       if email_exists d email then Inl (HTTPException 409 ''Email already registered'')
       else if (case exercise_id of None \<Rightarrow> False | Some e \<Rightarrow> get_exercise d e = None)
       then Inl (HTTPException 404 ''Exercise not found'') else Inr ())))"

definition invite_user ::
  "(string \<Rightarrow> string) \<Rightarrow> auth_config \<Rightarrow> string \<Rightarrow> string \<Rightarrow> string option \<Rightarrow> int option \<Rightarrow> current_user \<Rightarrow>
     instant \<Rightarrow> session \<Rightarrow> (exn + mail list) \<times> session" where
  "invite_user sha256 cfg raw email team exercise_id u now s =
     guarded (invite_guard cfg email exercise_id u (db s)) (\<lambda>_ s.
       case create_token sha256 raw Invite email None team exercise_id INVITE_TOKEN_TTL now s of
         (Inl x, s1) \<Rightarrow> (Inl x, s1)
       | (Inr t, s1) \<Rightarrow>
           (case build_link cfg ''/accept-invite'' t of
              Inl x \<Rightarrow> (Inl x, s1)
            | Inr link \<Rightarrow>
                (Inr [(email, u_display_name u @ '' invited you to IcebergTTX'', Some link)], s1))) s"

text \<open>The exercise the invitation is bound to, when it still exists.\<close>

definition enrol_invited ::
  "auth_token \<Rightarrow> int \<Rightarrow> instant \<Rightarrow> session \<Rightarrow> (exn + unit) \<times> session" where
  "enrol_invited t user_id now s =
     (case (case tk_exercise_id t of None \<Rightarrow> None | Some e \<Rightarrow> get_exercise (db s) e) of
        None \<Rightarrow> (Inr (), s)
      | Some ex \<Rightarrow>
          (case enrol_member ex user_id None False now s of
             (Inl x, s1) \<Rightarrow> (Inl x, case x of HTTPException _ _ \<Rightarrow> rollback s1 | _ \<Rightarrow> s1)
           | (Inr m, s1) \<Rightarrow> (Inr (), s1)))"

definition invite_accept ::
  "(string \<Rightarrow> string) \<Rightarrow> (token_payload \<Rightarrow> string) \<Rightarrow> auth_config \<Rightarrow> string \<Rightarrow> string \<Rightarrow> string \<Rightarrow> instant \<Rightarrow>
     session \<Rightarrow> (exn + string) \<times> session" where
  "invite_accept sha256 encode1 cfg token display_name hashed now s =
     (case require_smtp cfg of Inl x \<Rightarrow> (Inl x, s)
      | Inr _ \<Rightarrow>
     (case consume sha256 token Invite False now s of
        (None, s1) \<Rightarrow> (Inl (HTTPException 400 ''Invalid or expired invite link.''), s1)
      | (Some t, s1) \<Rightarrow>
          if email_exists (db s1) (tk_email t)
          then (Inl (HTTPException 409 ''This email already has an account.''), rollback s1)
          else
            let u = new_user (tk_email t) display_name hashed Participant (tk_team t) False now (db s1)
            in (case insert_user u (db s1) of
                  Inl x \<Rightarrow> (Inl x, s1)
                | Inr d \<Rightarrow>
                    (case enrol_invited t (u_id u) now (execute (\<lambda>_. d) s1) of
                       (Inl x, s2) \<Rightarrow> (Inl x, s2)
                     | (Inr _, s2) \<Rightarrow> (Inr (create_access_token encode1 cfg u now), commit s2)))))"

section \<open>Account administration\<close>

text \<open>A null display name breaks a NOT NULL column when the row is flushed; the answer has a
  fresh cookie when the password changed.\<close>

definition update_me ::
  "(token_payload \<Rightarrow> string) \<Rightarrow> auth_config \<Rightarrow> string option option \<Rightarrow> string option \<Rightarrow> current_user \<Rightarrow>
     instant \<Rightarrow> session \<Rightarrow> (exn + string option) \<times> session" where
  "update_me encode1 cfg display_name hashed u now s =
     (let change = (\<lambda>r. (case display_name of Some (Some n) \<Rightarrow> \<lambda>x. x\<lparr>u_display_name := n\<rparr> | _ \<Rightarrow> id)
                          ((case hashed of Some h \<Rightarrow> set_password h False now | None \<Rightarrow> id) r));
          s1 = execute (update_user (u_id u) change) s
      in if display_name = Some None then (Inl IntegrityError, rollback s)
         else (Inr (case (hashed, get_user (db s1) (u_id u)) of
                      (Some _, Some r) \<Rightarrow> Some (create_access_token encode1 cfg r now) | _ \<Rightarrow> None),
               commit s1))"

record user_public =
  uq_id :: int
  uq_email :: string
  uq_display_name :: string
  uq_role :: user_role
  uq_team :: "string option"
  uq_is_active :: bool
  uq_is_admin :: bool
  uq_must_change_password :: bool

definition user_out :: "user \<Rightarrow> user_public" where
  "user_out u =
     \<lparr>uq_id = u_id u, uq_email = u_email u, uq_display_name = u_display_name u, uq_role = u_role u,
      uq_team = u_team u, uq_is_active = u_is_active u, uq_is_admin = u_is_admin u,
      uq_must_change_password = u_must_change_password u\<rparr>"

definition list_users :: "current_user \<Rightarrow> database \<Rightarrow> exn + user_public list" where
  "list_users u d = and_then (require_role [Facilitator] u) (\<lambda>_. Inr (map user_out (users d)))"

record create_user_request =
  ar_email :: string
  ar_display_name :: string
  ar_role :: user_role
  ar_team :: "string option"
  ar_is_admin :: bool

definition create_user ::
  "create_user_request \<Rightarrow> string \<Rightarrow> current_user \<Rightarrow> instant \<Rightarrow> session \<Rightarrow> (exn + user_public) \<times> session" where
  "create_user body hashed u now s =
     answered
       (guarded (and_then (require_admin u) (\<lambda>_.
            if email_exists (db s) (ar_email body)
            then Inl (HTTPException 409 ''Email already registered'') else Inr ()))
          (\<lambda>_ s. add_user (new_user (ar_email body) (ar_display_name body) hashed (ar_role body)
                   (ar_team body) (ar_is_admin body) now (db s)) s) s)
       (\<lambda>r d. Inr (user_out r))"

definition reset_password_guard :: "int \<Rightarrow> current_user \<Rightarrow> database \<Rightarrow> exn + user" where
  "reset_password_guard user_id u d =
     and_then (require_admin u) (\<lambda>_.
       case get_user d user_id of
         None \<Rightarrow> Inl (HTTPException 404 ''User not found'')
       | Some r \<Rightarrow> if u_auth_provider r \<noteq> LOCAL_AUTH_PROVIDER
                   then Inl (HTTPException 400 ''Cannot reset the password of an SSO account.'') else Inr r)"

definition reset_password ::
  "int \<Rightarrow> string \<Rightarrow> bool \<Rightarrow> current_user \<Rightarrow> instant \<Rightarrow> session \<Rightarrow> (exn + user_public) \<times> session" where
  "reset_password user_id hashed must_change u now s =
     guarded (reset_password_guard user_id u (db s)) (\<lambda>r s.
       (Inr (user_out (set_password hashed must_change now r)),
        commit (execute (update_user (u_id r) (set_password hashed must_change now)) s))) s"


section \<open>Lemmas\<close>

lemma consume_Some:
  assumes "consume sha256 raw purpose c now s = (Some t, s')"
  obtains r where "find_token sha256 raw (db s) = Some r" "token_usable purpose now r"
    "t = r\<lparr>tk_used_at := Some now\<rparr>"
    "s' = (if c then commit (execute (burn_token r now) s) else execute (burn_token r now) s)"
  using assms by (auto simp: consume_def Let_def split: option.splits if_splits)

lemma consume_None: "consume sha256 raw purpose c now s = (None, s') \<Longrightarrow> s' = s"
  by (auto simp: consume_def Let_def split: option.splits if_splits)

lemma burn_token_frame [simp]:
  "users (burn_token t now d) = users d" "exercises (burn_token t now d) = exercises d"
  "scenarios (burn_token t now d) = scenarios d" "members (burn_token t now d) = members d"
  "sequences (burn_token t now d) = sequences d"
  by (simp_all add: burn_token_def)

lemma find_burnt:
  assumes "find_token sha256 raw d = Some r"
  shows "find_token sha256 raw (burn_token r now d) = Some (r\<lparr>tk_used_at := Some now\<rparr>)"
  using assms unfolding find_token_def burn_token_def by (simp add: get_row_update_where)

lemma add_user_Inr:
  assumes "add_user u s = (Inr v, s')"
  shows "v = u" and "\<not> email_exists (db s) (u_email u)"
    and "s' = commit (execute (\<lambda>_. (bump TUser (db s))\<lparr>users := users (db s) @ [u]\<rparr>) s)"
  using assms by (auto simp: add_user_def insert_user_def split: if_splits)

lemma register_account_Inr:
  assumes "register_account body hashed now s = (Inr u, s')"
  shows "u = new_user (gr_email body) (gr_display_name body) hashed Participant (gr_team body) False now (db s)"
    and "users (committed s') = users (db s) @ [u]" and "\<not> email_exists (db s) (gr_email body)"
proof -
  have fresh_email: "\<not> email_exists (db s) (gr_email body)"
    and run: "add_user (new_user (gr_email body) (gr_display_name body) hashed Participant
      (gr_team body) False now (db s)) s = (Inr u, s')"
    using assms by (auto simp: register_account_def split: if_splits)
  show "u = new_user (gr_email body) (gr_display_name body) hashed Participant (gr_team body) False now (db s)"
    by (rule add_user_Inr(1) [OF run])
  then show "users (committed s') = users (db s) @ [u]"
    using add_user_Inr(3) [OF run] by (simp add: commit_def)
  show "\<not> email_exists (db s) (gr_email body)" by (rule fresh_email)
qed

lemma register_Inr:
  assumes "register cfg ls ip body hashed now s hits = (Inr u, s', hits')"
  shows "register_account body hashed now s = (Inr u, s')"
  using assms by (auto simp: register_def split: sum.splits prod.splits)

lemma get_by_email_new:
  "\<not> email_exists d email \<Longrightarrow> u_email u = email \<Longrightarrow>
     get_row u_email email (users d @ [u]) = Some u"
  by (simp add: email_exists_def get_by_email_def get_row_append table_simps)

text \<open>The documented behaviour of PyJWT: the claims come back, \<^verbatim>\<open>iat\<close> in seconds.\<close>

definition jwt_faithful :: "(token_payload \<Rightarrow> string) \<Rightarrow> (string \<Rightarrow> claims option) \<Rightarrow> bool" where
  "jwt_faithful encode1 decode \<longleftrightarrow>
     (\<forall>p. decode (encode1 p) = Some \<lparr>claim_sub = Some (tp_sub p), claim_iat = Some (whole_second (tp_iat p))\<rparr>)"

lemma whole_second_mono: "a \<le> b \<Longrightarrow> whole_second a \<le> whole_second b"
  by (simp add: whole_second_def SECOND_def minus_mod_eq_mult_div zdiv_mono1)

lemma whole_second_le: "whole_second t \<le> t"
  by (simp add: whole_second_def SECOND_def)

lemma whole_second_first: "whole_second (-62135596800000000) = -62135596800000000"
  by (simp add: whole_second_def SECOND_def)

lemma whole_second_idem [simp]: "whole_second (whole_second t) = whole_second t"
  by (simp add: whole_second_def SECOND_def minus_mod_eq_mult_div)

text \<open>What a token of an account resolves to.\<close>

lemma resolve_issued:
  assumes "jwt_faithful encode1 decode" and "get_by_email d (tp_sub p) = Some u"
  shows "resolve_user_from_token decode d (encode1 p) vr vt =
     (if \<not> u_is_active u then Inr None
      else case token_revoked u (Some (whole_second (tp_iat p))) of
             Inl x \<Rightarrow> Inl x | Inr True \<Rightarrow> Inr None
           | Inr False \<Rightarrow> Inr (Some (apply_role_preview (plain_user u) vr vt)))"
  using assms by (simp add: resolve_user_from_token_def jwt_faithful_def)

lemma update_user_get:
  assumes "distinct (map u_id (users d))" and "u \<in> set (users d)" and "\<And>r. u_id (f r) = u_id r"
  shows "get_user (update_user (u_id u) f d) (u_id u) = Some (f u)"
  using get_row_unique [OF assms(1,2)] assms(3)
  by (simp add: get_user_def update_user_def get_row_update_where)

lemma update_user_email:
  assumes "distinct (map u_id (users d))" and "distinct (map u_email (users d))"
    and "u \<in> set (users d)" and "\<And>r. u_email (f r) = u_email r"
  shows "get_by_email (update_user (u_id u) f d) (u_email u) = Some (f u)"
  using get_row_unique [OF assms(2,3)] assms(4)
  by (simp add: get_by_email_def update_user_def get_row_update_where)

lemma set_password_fields [simp]:
  "u_id (set_password h m now u) = u_id u" "u_email (set_password h m now u) = u_email u"
  "u_is_active (set_password h m now u) = u_is_active u"
  "u_hashed_password (set_password h m now u) = Some h"
  "u_token_valid_after (set_password h m now u) = Some (whole_second now)"
  by (simp_all add: set_password_def)

lemma reset_complete_Inr:
  assumes "password_reset_complete sha256 encode1 cfg token hashed now s = (Inr tok, s')"
  obtains r u where "find_token sha256 token (db s) = Some r" "token_usable PasswordReset now r"
    "tk_user_id r = Some (u_id u)" "u \<in> set (users (db s))"
    "tok = create_access_token encode1 cfg u now"
    "committed s' = update_user (u_id u) (set_password hashed False now) (burn_token r now (db s))"
proof -
  obtain t s1 where c: "consume sha256 token PasswordReset True now s = (t, s1)" by fastforce
  from assms obtain u where u: "reset_account (db s1) t = Some u" "tok = create_access_token encode1 cfg u now"
    "s' = commit (execute (update_user (u_id u) (set_password hashed False now)) s1)"
    by (auto simp: password_reset_complete_def c split: sum.splits option.splits)
  then obtain tk where t: "t = Some tk" by (cases t) (auto simp: reset_account_def)
  obtain r where r: "find_token sha256 token (db s) = Some r" "token_usable PasswordReset now r"
    "tk = r\<lparr>tk_used_at := Some now\<rparr>" "s1 = commit (execute (burn_token r now) s)"
    using c t by (auto elim!: consume_Some)
  have d1: "db s1 = burn_token r now (db s)" by (simp add: r(4) commit_def)
  have "tk_user_id tk = Some (u_id u) \<and> u \<in> set (users (db s1))"
    using u(1) by (auto simp: reset_account_def t get_defs split: option.splits if_splits dest: get_row_Some)
  then have "tk_user_id r = Some (u_id u)" "u \<in> set (users (db s))"
    by (simp_all add: r(3) d1)
  moreover have "committed s' = update_user (u_id u) (set_password hashed False now) (burn_token r now (db s))"
    by (simp add: u(3) d1 commit_def)
  ultimately show thesis using r(1,2) u(2) by (intro that)
qed

lemma enrol_member_effect:
  assumes "enrol_member ex0 i g False now s = (r, s')"
  shows "unpublished s s'" and "pending s' = pending s" and "users (db s') = users (db s)"
    and "auth_tokens (db s') = auth_tokens (db s)"
    and "r = Inr m \<Longrightarrow> m \<in> set (members (db s')) \<and> em_user_id m = i \<and> em_exercise_id m = ex_id ex0"
proof -
  have "unpublished s s' \<and> pending s' = pending s \<and> users (db s') = users (db s) \<and>
      auth_tokens (db s') = auth_tokens (db s) \<and>
      (\<forall>m. r = Inr m \<longrightarrow> m \<in> set (members (db s')) \<and> em_user_id m = i \<and> em_exercise_id m = ex_id ex0)"
  proof (cases "roster_guard (db s) ex0")
    case (Inl x)
    then show ?thesis using assms by (auto simp: enrol_member_def unpublished_def)
  next
    case (Inr ex)
    then have ex: "ex_id ex = ex_id ex0"
      by (auto simp: roster_guard_def lock_configuration_owner_Inr get_defs split: if_splits
          dest: get_row_Some)
    show ?thesis
      using assms Inr ex
      by (auto simp: enrol_member_def unpublished_def Let_def exercise_member_for_user_def find_Some_iff
          split: option.splits sum.splits if_splits)
  qed
  then show "unpublished s s'" and "pending s' = pending s" and "users (db s') = users (db s)"
    and "auth_tokens (db s') = auth_tokens (db s)"
    and "r = Inr m \<Longrightarrow> m \<in> set (members (db s')) \<and> em_user_id m = i \<and> em_exercise_id m = ex_id ex0"
    by blast+
qed

text \<open>Accepting an invitation, step by step: what was consumed, and what is committed.\<close>

lemma insert_user_Inr: "insert_user u d = Inr d' \<longleftrightarrow>
    \<not> email_exists d (u_email u) \<and> d' = (bump TUser d)\<lparr>users := users d @ [u]\<rparr>"
  by (auto simp: insert_user_def)

lemma enrol_invited_effect:
  assumes "enrol_invited t i now s = (r, s')"
  shows "unpublished s s'" and "r = Inr () \<Longrightarrow> pending s' = pending s"
    and "r = Inr () \<Longrightarrow> users (db s') = users (db s)"
    and "r = Inr () \<Longrightarrow> auth_tokens (db s') = auth_tokens (db s)"
    and "r = Inr () \<Longrightarrow> tk_exercise_id t = Some e \<Longrightarrow> get_exercise (db s) e = Some ex \<Longrightarrow>
      \<exists>m\<in>set (members (db s')). em_user_id m = i \<and> em_exercise_id m = ex_id ex"
proof -
  have "unpublished s s' \<and> (r = Inr () \<longrightarrow> pending s' = pending s \<and> users (db s') = users (db s) \<and>
      auth_tokens (db s') = auth_tokens (db s) \<and>
      (\<forall>e ex. tk_exercise_id t = Some e \<longrightarrow> get_exercise (db s) e = Some ex \<longrightarrow>
         (\<exists>m\<in>set (members (db s')). em_user_id m = i \<and> em_exercise_id m = ex_id ex)))"
  proof (cases "case tk_exercise_id t of None \<Rightarrow> None | Some e \<Rightarrow> get_exercise (db s) e")
    case None
    then show ?thesis using assms by (auto simp: enrol_invited_def split: option.splits)
  next
    case (Some ex)
    obtain x s1 where run: "enrol_member ex i None False now s = (x, s1)" by fastforce
    note eff = enrol_member_effect [OF run]
    have "unpublished s (rollback s1)" using eff(1) by (simp add: unpublished_def)
    then show ?thesis
      using assms Some run eff
      by (cases x) (auto simp: enrol_invited_def split: option.splits exn.splits)
  qed
  then show "unpublished s s'" and "r = Inr () \<Longrightarrow> pending s' = pending s"
    and "r = Inr () \<Longrightarrow> users (db s') = users (db s)"
    and "r = Inr () \<Longrightarrow> auth_tokens (db s') = auth_tokens (db s)"
    and "r = Inr () \<Longrightarrow> tk_exercise_id t = Some e \<Longrightarrow> get_exercise (db s) e = Some ex \<Longrightarrow>
      \<exists>m\<in>set (members (db s')). em_user_id m = i \<and> em_exercise_id m = ex_id ex"
    by blast+
qed

lemma invite_accept_Inr:
  assumes "invite_accept sha256 encode1 cfg token name hashed now s = (Inr tok, s')"
  obtains t u s2 where "find_token sha256 token (db s) = Some t" "token_usable Invite now t"
    "\<not> email_exists (db s) (tk_email t)"
    "u = new_user (tk_email t) name hashed Participant (tk_team t) False now (db s)"
    "unpublished s s2" "pending s2 = pending s" "users (db s2) = users (db s) @ [u]"
    "auth_tokens (db s2) = auth_tokens (burn_token t now (db s))"
    "\<And>e ex. tk_exercise_id t = Some e \<Longrightarrow> get_exercise (db s) e = Some ex \<Longrightarrow>
       \<exists>m\<in>set (members (db s2)). em_user_id m = u_id u \<and> em_exercise_id m = ex_id ex"
    "s' = commit s2" "tok = create_access_token encode1 cfg u now"
proof -
  from assms obtain tk s1 where c: "consume sha256 token Invite False now s = (Some tk, s1)"
    by (auto simp: invite_accept_def split: sum.splits prod.splits option.splits)
  obtain t where t: "find_token sha256 token (db s) = Some t" "token_usable Invite now t"
    "tk = t\<lparr>tk_used_at := Some now\<rparr>" "s1 = execute (burn_token t now) s"
    using c by (auto elim!: consume_Some)
  have same: "email_exists (burn_token t now (db s)) e \<longleftrightarrow> email_exists (db s) e" for e
    by (simp add: email_exists_def get_by_email_def)
  let ?u = "new_user (tk_email t) name hashed Participant (tk_team t) False now (db s)"
  let ?d = "(bump TUser (burn_token t now (db s)))\<lparr>users := users (db s) @ [?u]\<rparr>"
  have u: "new_user (tk_email t) name hashed Participant (tk_team t) False now (burn_token t now (db s)) = ?u"
    by (simp add: new_user_def nextval_def)
  have "u_email ?u = tk_email t" by (simp add: new_user_def)
  with assms c t obtain s2 where ok: "\<not> email_exists (db s) (tk_email t)" "s' = commit s2"
    "enrol_invited tk (u_id ?u) now (execute (\<lambda>_. ?d) s1) = (Inr (), s2)"
    "tok = create_access_token encode1 cfg ?u now"
    by (auto simp: invite_accept_def Let_def same u insert_user_def split: sum.splits prod.splits if_splits)
  note eff = enrol_invited_effect [OF ok(3)]
  have "get_exercise ?d e = get_exercise (db s) e" for e by (simp add: get_exercise_def)
  then show thesis
    using eff ok t(1,2)
    by (intro that [of t ?u s2]) (simp_all add: t(3,4) unpublished_def)
qed

interpretation invitation: unit_of_work "invite_accept sha256 encode1 cfg token name hashed now"
proof
  fix s x s'
  assume run: "invite_accept sha256 encode1 cfg token name hashed now s = (Inl x, s')" and "ready s = []"
  obtain tk s1 where c: "consume sha256 token Invite False now s = (tk, s1)" by fastforce
  have "unpublished s s1" using c by (auto simp: consume_def Let_def unpublished_def split: option.splits if_splits)
  moreover have "unpublished s1 s2" if "enrol_invited t i now (execute f s1) = (r, s2)" for t i f r s2
    using enrol_invited_effect(1) [OF that] by (simp add: unpublished_def)
  ultimately have "unpublished s s'"
    using run c
    by (auto simp: invite_accept_def Let_def unpublished_def split: sum.splits prod.splits if_splits option.splits)
  then show "committed s' = committed s \<and> notified s' = notified s \<and> dispatched s' = dispatched s \<and> ready s' = []"
    using \<open>ready s = []\<close> by (simp add: unpublished_def)
next
  fix s x s'
  assume run: "invite_accept sha256 encode1 cfg token name hashed now s = (Inr x, s')" and "fresh s"
  show "fresh s'"
    by (rule invite_accept_Inr [OF run])
      (use \<open>fresh s\<close> in \<open>simp add: fresh_def commit_def unpublished_def\<close>)
qed

text \<open>Strikes: every row of a key that is not older than the window counts, seen from any moment
  up to now.\<close>

definition strikes :: "limiter \<Rightarrow> string \<Rightarrow> hit list \<Rightarrow> hit list" where
  "strikes lim key hits = filter (\<lambda>h. ht_scope h = rl_scope lim \<and> ht_key h = key) hits"

lemma in_window_strikes:
  assumes "\<And>h. h \<in> set (strikes lim key hits) \<Longrightarrow> now - rl_window_seconds lim * SECOND < ht_at h"
    and "t \<le> now"
  shows "in_window lim key t hits = strikes lim key hits"
proof -
  have "t - rl_window_seconds lim * SECOND < ht_at h"
    if "h \<in> set hits" "ht_scope h = rl_scope lim" "ht_key h = key" for h
    using assms(1) [of h] assms(2) that by (simp add: strikes_def)
  then show ?thesis unfolding in_window_def strikes_def by (intro filter_cong) auto
qed

lemma strikes_record:
  "strikes lim key (record_failure lim key t hits) =
     strikes lim key hits @ [\<lparr>ht_id = next_id hits, ht_scope = rl_scope lim, ht_key = key, ht_at = t\<rparr>]"
  by (simp add: strikes_def record_failure_def)

lemma failed_login:
  assumes "local_auth_enabled cfg" and "\<not> valid_credentials checkpw pw (get_by_email d email)"
  shows "snd (login encode1 checkpw cfg ls ip email pw t d hits) =
    (if fst (check (login_rate_limiter ls) (login_key ip email) t hits) then hits
     else record_failure (login_rate_limiter ls) (login_key ip email) t hits)"
  using assms by (simp add: login_def Let_def require_local_auth_def)

definition failed_run ::
  "(token_payload \<Rightarrow> string) \<Rightarrow> (string \<Rightarrow> string \<Rightarrow> exn + bool) \<Rightarrow> auth_config \<Rightarrow> limiters \<Rightarrow> string option \<Rightarrow>
     string \<Rightarrow> database \<Rightarrow> (string \<times> instant) list \<Rightarrow> hit list \<Rightarrow> hit list" where
  "failed_run encode1 checkpw cfg ls ip email d tries hits =
     fold (\<lambda>(pw, t) h. snd (login encode1 checkpw cfg ls ip email pw t d h)) tries hits"

lemma failed_run_strikes:
  fixes ls :: limiters and ip :: "string option" and email :: string
  defines "lim \<equiv> login_rate_limiter ls" and "key \<equiv> login_key ip email"
  assumes "local_auth_enabled cfg" and "strikes lim key hits = []"
    and "\<And>pw t. (pw, t) \<in> set tries \<Longrightarrow> \<not> valid_credentials checkpw pw (get_by_email d email) \<and>
      t \<le> now \<and> now - rl_window_seconds lim * SECOND < t"
  shows "(\<forall>h\<in>set (strikes lim key (failed_run encode1 checkpw cfg ls ip email d tries hits)).
      now - rl_window_seconds lim * SECOND < ht_at h) \<and>
    (fst (check lim key now (failed_run encode1 checkpw cfg ls ip email d tries hits)) \<or>
     length tries \<le> length (strikes lim key (failed_run encode1 checkpw cfg ls ip email d tries hits)))"
  using assms(5)
proof (induction tries rule: rev_induct)
  case Nil
  then show ?case by (simp add: failed_run_def assms(4))
next
  case (snoc x xs)
  obtain pw t where x: "x = (pw, t)" by (cases x)
  let ?h = "failed_run encode1 checkpw cfg ls ip email d xs hits"
  have t: "\<not> valid_credentials checkpw pw (get_by_email d email)" "t \<le> now"
      "now - rl_window_seconds lim * SECOND < t"
    using snoc.prems [of pw t] by (simp_all add: x)
  have IH: "\<forall>h\<in>set (strikes lim key ?h). now - rl_window_seconds lim * SECOND < ht_at h"
      "fst (check lim key now ?h) \<or> length xs \<le> length (strikes lim key ?h)"
    using snoc.IH snoc.prems by auto
  have same: "check lim key t ?h = check lim key now ?h \<or>
      fst (check lim key t ?h) = fst (check lim key now ?h)"
    using in_window_strikes [of lim key ?h now] IH(1) t(2) by (simp add: check_limited)
  have step: "failed_run encode1 checkpw cfg ls ip email d (xs @ [x]) hits =
      (if fst (check lim key t ?h) then ?h else record_failure lim key t ?h)"
    using failed_login [OF assms(3) t(1), of encode1 ls ip t ?h]
    by (simp add: failed_run_def x lim_def key_def)
  show ?case
  proof (cases "fst (check lim key t ?h)")
    case True
    then show ?thesis using IH same step by auto
  next
    case False
    then show ?thesis using IH same step t(3) by (auto simp: strikes_record)
  qed
qed

section \<open>An instance for the witnesses\<close>

text \<open>A token encoder that keeps the address and the second, in unary.\<close>

definition demo_encode :: "token_payload \<Rightarrow> string" where
  "demo_encode p =
     (let t = whole_second (tp_iat p)
      in (if t < 0 then CHR ''-'' else CHR ''+'') # replicate (nat \<bar>t\<bar>) (CHR ''x'') @ CHR '':'' # tp_sub p)"

definition demo_jwt_decode :: "string \<Rightarrow> claims option" where
  "demo_jwt_decode s =
     (case s of [] \<Rightarrow> None
      | c # cs \<Rightarrow>
          (let n = length (takeWhile (\<lambda>c. c = CHR ''x'') cs)
           in Some \<lparr>claim_sub = Some (drop (Suc n) cs),
                    claim_iat = Some (if c = CHR ''-'' then - int n else int n)\<rparr>))"

lemma takeWhile_replicate: "y \<noteq> x \<Longrightarrow> takeWhile (\<lambda>c. c = x) (replicate n x @ y # ys) = replicate n x"
  by (induction n) auto

lemma demo_jwt: "jwt_faithful demo_encode demo_jwt_decode"
  by (simp add: jwt_faithful_def demo_encode_def demo_jwt_decode_def Let_def takeWhile_replicate)

definition demo_checkpw :: "string \<Rightarrow> string \<Rightarrow> exn + bool" where
  "demo_checkpw pw hashed = Inr (hashed = CHR ''#'' # pw)"

definition demo_auth :: auth_config where
  "demo_auth = \<lparr>local_auth_enabled = True, registration_enabled = True, smtp_enabled = True,
     public_base_url = ''https://x/'', access_token_expire_minutes = 60\<rparr>"

definition demo_two_tries :: limiters where
  "demo_two_tries = process_limiters (2, 60) (2, 60) (2, 60)"

definition demo_link :: "token_purpose \<Rightarrow> int option \<Rightarrow> auth_token" where
  "demo_link purpose user_id = \<lparr>tk_id = 1, tk_token_hash = ''k'', tk_purpose = purpose,
     tk_email = ''new@x.y'', tk_user_id = user_id, tk_team = Some ''red'', tk_exercise_id = Some 1,
     tk_expires_at = 100, tk_used_at = None, tk_created_at = 0\<rparr>"

definition demo_accounts :: "auth_token list \<Rightarrow> session" where
  "demo_accounts links = demo_session (demo_draft_db\<lparr>users := [demo_user 10 Facilitator None], auth_tokens := links\<rparr>)"

definition demo_signup :: register_request where
  "demo_signup = \<lparr>gr_email = ''new@x.y'', gr_display_name = ''New'', gr_password = ''correct horse'',
     gr_team = None\<rparr>"

section \<open>Properties\<close>

text \<open>C27: a link token is spent once: it is accepted only unused, unexpired and for its own
  purpose, accepting it marks the stored row, and as long as the table shows that mark the same
  link is refused for every purpose, at any time.\<close>

theorem link_token_is_spent_once:
  assumes "consume sha256 raw purpose c now s = (Some t, s')"
  shows "(\<exists>r. find_token sha256 raw (db s) = Some r \<and> tk_purpose r = purpose \<and> tk_used_at r = None \<and>
      now < tk_expires_at r \<and> t = r\<lparr>tk_used_at := Some now\<rparr>) \<and>
    find_token sha256 raw (db s') = Some t \<and>
    (\<forall>purpose2 c2 now2 s2. find_token sha256 raw (db s2) = Some t \<longrightarrow>
      consume sha256 raw purpose2 c2 now2 s2 = (None, s2))"
proof (intro conjI allI impI)
  obtain r where r: "find_token sha256 raw (db s) = Some r" "token_usable purpose now r"
    "t = r\<lparr>tk_used_at := Some now\<rparr>"
    "s' = (if c then commit (execute (burn_token r now) s) else execute (burn_token r now) s)"
    using assms by (rule consume_Some)
  show "\<exists>r. find_token sha256 raw (db s) = Some r \<and> tk_purpose r = purpose \<and> tk_used_at r = None \<and>
      now < tk_expires_at r \<and> t = r\<lparr>tk_used_at := Some now\<rparr>"
    using r by (auto simp: token_usable_def)
  show "find_token sha256 raw (db s') = Some t"
    using find_burnt [OF r(1)] r by (simp add: commit_def)
  show "consume sha256 raw purpose2 c2 now2 s2 = (None, s2)" if "find_token sha256 raw (db s2) = Some t"
    for purpose2 c2 now2 s2
    using that r(3) by (simp add: consume_def token_usable_def)
qed

theorem link_token_is_spent_once_witness:
  "\<exists>t s'. consume id ''k'' Invite True 5 (demo_accounts [demo_link Invite None]) = (Some t, s') \<and>
     consume id ''k'' PasswordReset True 9 s' = (None, s')"
proof -
  let ?r = "consume id ''k'' Invite True 5 (demo_accounts [demo_link Invite None])"
  have "fst ?r \<noteq> None" by code_simp
  then obtain t s' where run: "?r = (Some t, s')" by (cases ?r) auto
  show ?thesis
    using run link_token_is_spent_once [OF run] by blast
qed



text \<open>C24: accepting an invitation is all or nothing.  When the request fails, nothing is committed:
  the link can still be used and no account exists.  When it succeeds, the link is burnt, one
  active participant without admin rights was created with the invited address and team, and
  it is on the roster of the exercise the invitation names.\<close>

theorem invitation_is_all_or_nothing:
  assumes run: "invite_accept sha256 encode1 cfg token name hashed now s = (r, s')" and "fresh s"
  shows "case r of
      Inl x \<Rightarrow> committed (close_session s') = committed s
    | Inr tok \<Rightarrow> \<exists>t u. find_token sha256 token (db s) = Some t \<and> token_usable Invite now t \<and>
        find_token sha256 token (committed s') = Some (t\<lparr>tk_used_at := Some now\<rparr>) \<and>
        users (committed s') = users (db s) @ [u] \<and> u_email u = tk_email t \<and> u_team u = tk_team t \<and>
        u_role u = Participant \<and> \<not> u_is_admin u \<and> u_is_active u \<and> \<not> email_exists (db s) (tk_email t) \<and>
        (\<forall>e ex. tk_exercise_id t = Some e \<longrightarrow> get_exercise (db s) e = Some ex \<longrightarrow>
           (\<exists>m\<in>set (members (committed s')). em_user_id m = u_id u \<and> em_exercise_id m = e))"
proof (cases r)
  case (Inl x)
  then show ?thesis
    using invitation.request_error(1) [OF run [unfolded Inl] assms(2)] by simp
next
  case (Inr tok)
  obtain t u s2 where f: "find_token sha256 token (db s) = Some t" "token_usable Invite now t"
    "\<not> email_exists (db s) (tk_email t)"
    "u = new_user (tk_email t) name hashed Participant (tk_team t) False now (db s)"
    "users (db s2) = users (db s) @ [u]"
    "auth_tokens (db s2) = auth_tokens (burn_token t now (db s))"
    "\<And>e ex. tk_exercise_id t = Some e \<Longrightarrow> get_exercise (db s) e = Some ex \<Longrightarrow>
       \<exists>m\<in>set (members (db s2)). em_user_id m = u_id u \<and> em_exercise_id m = ex_id ex"
    "s' = commit s2"
    using run [unfolded Inr] by (rule invite_accept_Inr) blast
  have "find_token sha256 token (db s2) = Some (t\<lparr>tk_used_at := Some now\<rparr>)"
    using find_burnt [OF f(1), of now] f(6) by (simp add: find_token_def)
  moreover have "ex_id ex = e" if "get_exercise (db s) e = Some ex" for e ex
    using that by (auto simp: get_defs dest: get_row_Some)
  ultimately show ?thesis
    using f by (auto simp: Inr commit_def new_user_def intro!: exI [of _ t] exI [of _ u])
qed

theorem invitation_is_all_or_nothing_witness:
  "\<exists>tok s' u m. invite_accept id demo_encode demo_auth ''k'' ''New'' ''#n'' 5
      (demo_accounts [demo_link Invite None]) = (Inr tok, s') \<and>
     u_email u = ''new@x.y'' \<and> u \<in> set (users (committed s')) \<and>
     m \<in> set (members (committed s')) \<and> em_user_id m = u_id u \<and> em_exercise_id m = 1"
proof -
  let ?r = "invite_accept id demo_encode demo_auth ''k'' ''New'' ''#n'' 5
      (demo_accounts [demo_link Invite None])"
  have "is_ok (fst ?r)" by code_simp
  then obtain tok s' where run: "?r = (Inr tok, s')" by (cases ?r) (auto simp: is_ok_iff)
  have "fresh (demo_accounts [demo_link Invite None])" by (simp add: demo_accounts_def)
  from invitation_is_all_or_nothing [OF run this] obtain t u where
    t: "find_token id ''k'' (db (demo_accounts [demo_link Invite None])) = Some t"
    and u: "users (committed s') = users (db (demo_accounts [demo_link Invite None])) @ [u]"
      "u_email u = tk_email t"
      "\<forall>e ex. tk_exercise_id t = Some e \<longrightarrow>
         get_exercise (db (demo_accounts [demo_link Invite None])) e = Some ex \<longrightarrow>
         (\<exists>m\<in>set (members (committed s')). em_user_id m = u_id u \<and> em_exercise_id m = e)"
    by auto
  have "find_token id ''k'' (db (demo_accounts [demo_link Invite None])) = Some (demo_link Invite None)"
    by code_simp
  then have "t = demo_link Invite None" using t by simp
  moreover have "get_exercise (db (demo_accounts [demo_link Invite None])) 1 = Some demo_exercise" by code_simp
  ultimately have "u_email u = ''new@x.y''" "\<exists>m\<in>set (members (committed s')). em_user_id m = u_id u \<and> em_exercise_id m = 1"
    using u(2,3) by (auto simp: demo_link_def)
  then show ?thesis using run u(1) by auto
qed

text \<open>Failed logins lock the account out: after as many wrong passwords for an address from one
  host, inside one window, as the limit allows, a further login there is refused before any
  password is checked, the correct one included, and whatever the account table holds.\<close>

lemma failed_logins_lock_out:
  assumes "local_auth_enabled cfg"
    and "strikes (login_rate_limiter ls) (login_key ip email) hits = []"
    and "\<And>pw t. (pw, t) \<in> set tries \<Longrightarrow> \<not> valid_credentials checkpw pw (get_by_email d email) \<and>
      t \<le> now \<and> now - rl_window_seconds (login_rate_limiter ls) * SECOND < t"
    and "tries \<noteq> []" and "rl_max_attempts (login_rate_limiter ls) \<le> int (length tries)"
  shows "login encode1 checkpw cfg ls ip email pw now d2
      (failed_run encode1 checkpw cfg ls ip email d tries hits) =
    (Inl (HTTPException 429 ''Too many login attempts. Try again later.''),
     failed_run encode1 checkpw cfg ls ip email d tries hits)"
proof -
  let ?lim = "login_rate_limiter ls" and ?key = "login_key ip email"
  let ?h = "failed_run encode1 checkpw cfg ls ip email d tries hits"
  have run: "\<forall>h\<in>set (strikes ?lim ?key ?h). now - rl_window_seconds ?lim * SECOND < ht_at h"
      "fst (check ?lim ?key now ?h) \<or> length tries \<le> length (strikes ?lim ?key ?h)"
    using failed_run_strikes [OF assms(1,2,3)] by auto
  have "in_window ?lim ?key now ?h = strikes ?lim ?key ?h"
    by (rule in_window_strikes) (use run(1) in auto)
  then have "fst (check ?lim ?key now ?h)"
    using run(2) assms(4,5) by (auto simp: check_limited)
  then show ?thesis
    using assms(1) by (simp add: login_def Let_def require_local_auth_def)
qed

lemma failed_logins_lock_out_witness:
  "fst (login demo_encode demo_checkpw demo_auth demo_two_tries None ''p@x.y'' ''right'' 9
      (db (demo_accounts []))
      (failed_run demo_encode demo_checkpw demo_auth demo_two_tries None ''p@x.y'' (db (demo_accounts []))
         [(''a'', 1), (''b'', 2)] [])) =
    Inl (HTTPException 429 ''Too many login attempts. Try again later.'')"
proof -
  have "local_auth_enabled demo_auth"
    "strikes (login_rate_limiter demo_two_tries) (login_key None ''p@x.y'') [] = []"
    "rl_window_seconds (login_rate_limiter demo_two_tries) = 60"
    "rl_max_attempts (login_rate_limiter demo_two_tries) = 2"
    "\<not> valid_credentials demo_checkpw ''a'' (get_by_email (db (demo_accounts [])) ''p@x.y'')"
    "\<not> valid_credentials demo_checkpw ''b'' (get_by_email (db (demo_accounts [])) ''p@x.y'')"
    by code_simp+
  note f = this
  have tries: "\<not> valid_credentials demo_checkpw pw (get_by_email (db (demo_accounts [])) ''p@x.y'') \<and>
      t \<le> 9 \<and> 9 - rl_window_seconds (login_rate_limiter demo_two_tries) * SECOND < t"
    if "(pw, t) \<in> set [(''a'', 1), (''b'', 2)]" for pw t
    using that f(3,5,6) by (auto simp: SECOND_def)
  have n: "[(''a'', 1), (''b'', 2)] \<noteq> []"
    "rl_max_attempts (login_rate_limiter demo_two_tries) \<le> int (length [(''a'', 1), (''b'', 2)])"
    by (simp_all add: f(4))
  show ?thesis by (simp only: failed_logins_lock_out [OF f(1,2) tries n] fst_conv)
qed



text \<open>Asking for a reset reveals nothing: with an unused random token the answer to the client
  and the strikes recorded are the same whatever accounts exist, and a mail with a link goes to
  no other address than the one asked for.\<close>

lemma reset_request_reveals_nothing:
  assumes "find_token sha256 raw (db s) = None" and "find_token sha256 raw (db s2) = None"
  shows "map_sum id (\<lambda>_. ()) (fst (password_reset_request sha256 cfg ls ip email raw now s hits)) =
      map_sum id (\<lambda>_. ()) (fst (password_reset_request sha256 cfg ls ip email raw now s2 hits)) \<and>
    snd (snd (password_reset_request sha256 cfg ls ip email raw now s hits)) =
      snd (snd (password_reset_request sha256 cfg ls ip email raw now s2 hits)) \<and>
    (\<forall>mails. fst (password_reset_request sha256 cfg ls ip email raw now s hits) = Inr mails \<longrightarrow>
      (\<forall>m\<in>set mails. fst m = email))"
proof (intro conjI allI impI ballI)
  have ok: "\<exists>mails s'. reset_mails sha256 cfg raw email now t = (Inr mails, s') \<and> (\<forall>m\<in>set mails. fst m = email)"
    if "find_token sha256 raw (db t) = None" "link_base cfg = Some base" for t base
  proof (cases "get_by_email (db t) email")
    case None
    then show ?thesis by (simp add: reset_mails_def)
  next
    case (Some u)
    then have "u_email u = email" by (auto simp: get_by_email_def dest: get_row_Some)
    moreover have "sha256 raw \<notin> tk_token_hash ` set (auth_tokens (db t))"
      using that(1) by (auto simp: find_token_def get_row_None)
    ultimately show ?thesis
      using Some that(2)
      by (simp add: reset_mails_def create_token_def insert_token_def new_token_def build_link_def)
  qed
  show "map_sum id (\<lambda>_. ()) (fst (password_reset_request sha256 cfg ls ip email raw now s hits)) =
      map_sum id (\<lambda>_. ()) (fst (password_reset_request sha256 cfg ls ip email raw now s2 hits))"
    using ok [OF assms(1)] ok [OF assms(2)]
    by (fastforce simp: password_reset_request_def require_link_base_def split: sum.splits prod.splits if_splits)
  show "snd (snd (password_reset_request sha256 cfg ls ip email raw now s hits)) =
      snd (snd (password_reset_request sha256 cfg ls ip email raw now s2 hits))"
    by (simp add: password_reset_request_def split: sum.split prod.split)
  show "fst m = email" if "fst (password_reset_request sha256 cfg ls ip email raw now s hits) = Inr mails"
    "m \<in> set mails" for mails m
    using ok [OF assms(1)] that
    by (fastforce simp: password_reset_request_def require_link_base_def split: sum.splits prod.splits if_splits)
qed

lemma reset_request_reveals_nothing_witness:
  "map_sum id (\<lambda>_. ()) (fst (password_reset_request id demo_auth demo_two_tries None (u_email (demo_user 10 Facilitator None))
       ''fresh'' 5 (demo_accounts []) [])) =
   map_sum id (\<lambda>_. ()) (fst (password_reset_request id demo_auth demo_two_tries None (u_email (demo_user 10 Facilitator None))
       ''fresh'' 5 (open_session ''o'' empty_database) []))"
proof -
  have "find_token id ''fresh'' (db (demo_accounts [])) = None"
    "find_token id ''fresh'' (db (open_session ''o'' empty_database)) = None" by code_simp+
  then show ?thesis by (rule reset_request_reveals_nothing [THEN conjunct1])
qed

section \<open>Two observations\<close>

text \<open>A token of the same second is not cut off: the cut-off is truncated to the second, and so is
  its \<^verbatim>\<open>iat\<close>.\<close>

lemma same_second_token_survives:
  assumes "password_reset_complete sha256 encode1 cfg token hashed now s = (Inr tok, s')"
    and "jwt_faithful encode1 decode"
    and "distinct (map u_id (users (db s)))" and "distinct (map u_email (users (db s)))"
    and "-62135596800000000 \<le> now" and "now < 253402300800000000"
  shows "\<exists>u. get_user (committed s') (u_id u) = Some u \<and> (u_is_active u \<longrightarrow>
    (\<forall>p vr vt. tp_sub p = u_email u \<longrightarrow> whole_second (tp_iat p) = whole_second now \<longrightarrow>
       resolve_user_from_token decode (committed s') (encode1 p) vr vt =
         Inr (Some (apply_role_preview (plain_user u) vr vt))))"
proof -
  obtain r u where u: "u \<in> set (users (db s))"
    "committed s' = update_user (u_id u) (set_password hashed False now) (burn_token r now (db s))"
    using assms(1) by (rule reset_complete_Inr)
  let ?v = "set_password hashed False now u"
  have row: "get_user (committed s') (u_id ?v) = Some ?v"
    using update_user_get [of "burn_token r now (db s)" u "set_password hashed False now"] assms(3) u by simp
  have email: "get_by_email (committed s') (u_email u) = Some ?v"
    using update_user_email [of "burn_token r now (db s)" u "set_password hashed False now"] assms(3,4) u
    by simp
  have w: "-62135596800000000 \<le> whole_second now" "whole_second now \<le> now"
    using whole_second_mono [OF assms(5)] whole_second_first whole_second_le by simp_all
  have "resolve_user_from_token decode (committed s') (encode1 p) vr vt =
      Inr (Some (apply_role_preview (plain_user ?v) vr vt))"
    if "u_is_active u" "tp_sub p = u_email u" "whole_second (tp_iat p) = whole_second now" for p vr vt
    using resolve_issued [OF assms(2), of "committed s'" p ?v vr vt] email that w assms(6)
    by (simp add: token_revoked_def fromtimestamp_def)
  then show ?thesis using row by (intro exI [of _ ?v]) simp
qed

text \<open>\<^verbatim>\<open>consume\<close> reads the row without locking it.  Two requests that both read it
  before either writes both find it usable; the second write only replaces the mark of the
  first.\<close>

lemma two_readers_both_spend:
  assumes "find_token sha256 raw d = Some t" and "token_usable p now t" and "token_usable p now2 t"
  shows "consume sha256 raw p True now (open_session a d) =
      (Some (t\<lparr>tk_used_at := Some now\<rparr>), commit (execute (burn_token t now) (open_session a d)))"
    and "consume sha256 raw p True now2 (open_session b d) =
      (Some (t\<lparr>tk_used_at := Some now2\<rparr>), commit (execute (burn_token t now2) (open_session b d)))"
    and "find_token sha256 raw (burn_token t now2 (burn_token t now d)) = Some (t\<lparr>tk_used_at := Some now2\<rparr>)"
proof -
  show "consume sha256 raw p True now (open_session a d) =
      (Some (t\<lparr>tk_used_at := Some now\<rparr>), commit (execute (burn_token t now) (open_session a d)))"
    "consume sha256 raw p True now2 (open_session b d) =
      (Some (t\<lparr>tk_used_at := Some now2\<rparr>), commit (execute (burn_token t now2) (open_session b d)))"
    using assms by (simp_all add: consume_def open_session_def)
  have "burn_token t now2 e = burn_token (t\<lparr>tk_used_at := Some now\<rparr>) now2 e" for e
    by (simp add: burn_token_def)
  then show "find_token sha256 raw (burn_token t now2 (burn_token t now d)) = Some (t\<lparr>tk_used_at := Some now2\<rparr>)"
    using find_burnt [OF find_burnt [OF assms(1), of now], of now2] by simp
qed

end
