(* ===== verification/Runtime_Settings.thy ===== *)
theory Runtime_Settings
  imports Egress Accounts
begin

text \<open>
  The settings an administrator changes at run time: the five singleton rows
  (\<^verbatim>\<open>general_settings_service.py\<close>, \<^verbatim>\<open>audit_settings_service.py\<close>,
  \<^verbatim>\<open>email_settings_service.py\<close>, \<^verbatim>\<open>proxy_settings_service.py\<close>,
  \<^verbatim>\<open>llm_settings_service.py\<close>), the environment that seeds them, and the process caches
  they are projected into.

  A service works on the rows of the database, the caches of its process and the scopes it
  announced on the bus; every write of a service is one committed transaction that carries its
  announcement.  A patch is the dictionary of a request body: for every editable name it is
  absent, an explicit null, or a value.
\<close>

section \<open>Patches\<close>

type_synonym 'a change = "'a option option"

text \<open>\<^verbatim>\<open>if key in changes and changes[key] is not None: setattr(...)\<close> and
  \<^verbatim>\<open>changes.get(key, old)\<close>.\<close>

fun patched :: "'a change \<Rightarrow> 'a \<Rightarrow> 'a" where
  "patched (Some (Some v)) old = v"
| "patched _ old = old"

fun change_or :: "'a change \<Rightarrow> 'a \<Rightarrow> 'a option" where
  "change_or None old = Some old"
| "change_or (Some v) old = v"

section \<open>Rows, patches and the environment\<close>

record general_config =
  gn_registration_enabled :: bool
  gn_access_token_expire_minutes :: int
  gn_audit_persist :: bool
  gn_login_max_attempts :: int
  gn_login_lockout_seconds :: int
  gn_registration_max_attempts :: int
  gn_registration_lockout_seconds :: int
  gn_password_reset_max_attempts :: int
  gn_password_reset_lockout_seconds :: int

record general_settings = general_config +
  gn_updated_at :: instant

record general_changes =
  gc_registration_enabled :: "bool change"
  gc_access_token_expire_minutes :: "int change"
  gc_audit_persist :: "bool change"
  gc_login_max_attempts :: "int change"
  gc_login_lockout_seconds :: "int change"
  gc_registration_max_attempts :: "int change"
  gc_registration_lockout_seconds :: "int change"
  gc_password_reset_max_attempts :: "int change"
  gc_password_reset_lockout_seconds :: "int change"

record audit_settings =
  au_enabled :: bool
  au_methods :: "string list"
  au_min_severity :: string
  au_file_path :: string
  au_syslog_host :: string
  au_syslog_port :: int
  au_syslog_protocol :: string
  au_syslog_facility :: int
  au_http_endpoint :: string
  au_http_verify_tls :: bool
  au_retention_days :: int

record audit_changes =
  ac_enabled :: "bool change"
  ac_methods :: "string list change"
  ac_min_severity :: "string change"
  ac_file_path :: "string change"
  ac_syslog_host :: "string change"
  ac_syslog_port :: "int change"
  ac_syslog_protocol :: "string change"
  ac_syslog_facility :: "int change"
  ac_http_endpoint :: "string change"
  ac_http_verify_tls :: "bool change"
  ac_retention_days :: "int change"

record siem_config =
  sk_enabled :: bool
  sk_methods :: "string set"
  sk_min_severity :: string
  sk_file_path :: string
  sk_syslog_host :: string
  sk_syslog_port :: int
  sk_syslog_protocol :: string
  sk_syslog_facility :: int
  sk_http_endpoint :: string
  sk_http_verify_tls :: bool

record mail_config =
  ml_enabled :: bool
  ml_smtp_host :: string
  ml_smtp_port :: int
  ml_smtp_from :: string
  ml_smtp_username :: string
  ml_smtp_starttls :: bool
  ml_smtp_tls :: bool
  ml_public_base_url :: string

record email_settings = mail_config +
  ml_updated_at :: instant

record email_changes =
  ec_enabled :: "bool change"
  ec_smtp_host :: "string change"
  ec_smtp_port :: "int change"
  ec_smtp_from :: "string change"
  ec_smtp_username :: "string change"
  ec_smtp_starttls :: "bool change"
  ec_smtp_tls :: "bool change"
  ec_public_base_url :: "string change"

record proxy_settings = proxy_config +
  px_updated_at :: instant

record proxy_changes =
  pc_mode :: "string change"
  pc_proxy_url :: "string change"
  pc_no_proxy :: "string change"

record llm_config =
  lz_provider :: string
  lz_max_tokens :: int
  lz_anthropic_model :: string
  lz_bedrock_model :: string
  lz_bedrock_aws_region :: string
  lz_openai_model :: string
  lz_openai_base_url :: string
  lz_ollama_model :: string
  lz_ollama_base_url :: string
  lz_gemini_model :: string
  lz_gemini_base_url :: string

record llm_settings = llm_config +
  lz_updated_at :: instant

record llm_changes =
  lg_provider :: "string change"
  lg_max_tokens :: "int change"
  lg_anthropic_model :: "string change"
  lg_bedrock_model :: "string change"
  lg_bedrock_aws_region :: "string change"
  lg_openai_model :: "string change"
  lg_openai_base_url :: "string change"
  lg_ollama_model :: "string change"
  lg_ollama_base_url :: "string change"
  lg_gemini_model :: "string change"
  lg_gemini_base_url :: "string change"

text \<open>The part of \<^verbatim>\<open>Settings\<close> (\<^verbatim>\<open>app/config.py\<close>) the services read: the seeds of
  the rows and the secrets, which never leave the environment.\<close>

record settings_env =
  st_general :: general_config
  st_siem :: audit_settings
  st_siem_methods :: string
  st_siem_http_token :: string
  st_smtp_host :: string
  st_smtp_port :: int
  st_smtp_username :: string
  st_smtp_password :: string
  st_smtp_from :: string
  st_smtp_starttls :: bool
  st_smtp_tls :: bool
  st_public_base_url :: string
  st_proxy :: proxy_config
  st_proxy_username :: string
  st_proxy_password :: string
  st_llm :: llm_config
  st_anthropic_api_key :: string
  st_openai_api_key :: string
  st_gemini_api_key :: string

definition siem_default_methods :: "settings_env \<Rightarrow> string list" where
  "siem_default_methods env =
     filter (\<lambda>m. m \<in> {''stdout'', ''file'', ''syslog'', ''http''})
       (map (\<lambda>p. map latin_lower (strip p)) (split_on CHR '','' (st_siem_methods env)))"

definition env_smtp_enabled :: "settings_env \<Rightarrow> bool" where
  "env_smtp_enabled env \<longleftrightarrow> st_smtp_host env \<noteq> [] \<and> st_smtp_from env \<noteq> []"

section \<open>The language model provider\<close>

definition LLM_PROVIDER_KEYS :: "string list" where
  "LLM_PROVIDER_KEYS = [''anthropic'', ''bedrock'', ''openai'', ''ollama'', ''gemini'']"

definition LLM_DISABLED_KEYS :: "string list" where
  "LLM_DISABLED_KEYS = [[], ''none'', ''disabled'']"

definition OLLAMA_DEFAULT_BASE_URL :: string where
  "OLLAMA_DEFAULT_BASE_URL = ''http://localhost:11434/v1''"

definition OPENAI_BASE_URL :: string where
  "OPENAI_BASE_URL = ''https://api.openai.com/v1''"

definition GEMINI_OPENAI_BASE_URL :: string where
  "GEMINI_OPENAI_BASE_URL = ''https://generativelanguage.googleapis.com/v1beta/openai/''"

record llm_provider_config =
  pv_key :: string
  pv_display_name :: string
  pv_adapter :: string
  pv_model :: string
  pv_api_key :: string
  pv_base_url :: string
  pv_aws_region :: string
  pv_max_tokens :: int
  pv_backend :: string

definition provider_key :: "llm_config \<Rightarrow> string" where
  "provider_key cfg = map latin_lower (strip (lz_provider cfg))"

definition provider_of ::
  "string \<Rightarrow> string \<Rightarrow> string \<Rightarrow> string \<Rightarrow> int \<Rightarrow> llm_provider_config" where
  "provider_of key name adapter model max_tokens =
     \<lparr>pv_key = key, pv_display_name = name, pv_adapter = adapter, pv_model = model, pv_api_key = [],
      pv_base_url = [], pv_aws_region = [], pv_max_tokens = max_tokens, pv_backend = ''api''\<rparr>"

definition or_default :: "string \<Rightarrow> string \<Rightarrow> string" where
  "or_default s d = (if s = [] then d else s)"

definition active_llm_provider :: "settings_env \<Rightarrow> llm_config \<Rightarrow> llm_provider_config option" where
  "active_llm_provider env cfg =
     (let key = provider_key cfg; n = lz_max_tokens cfg
      in if key \<in> set LLM_DISABLED_KEYS then None
         else if key = ''anthropic''
         then Some ((provider_of key ''Anthropic'' ''anthropic'' (lz_anthropic_model cfg) n)
                \<lparr>pv_api_key := st_anthropic_api_key env\<rparr>)
         else if key = ''bedrock''
         then Some ((provider_of key ''Amazon Bedrock'' ''anthropic'' (lz_bedrock_model cfg) n)
                \<lparr>pv_backend := ''bedrock'', pv_aws_region := lz_bedrock_aws_region cfg\<rparr>)
         else if key = ''openai''
         then Some ((provider_of key ''OpenAI'' ''openai'' (lz_openai_model cfg) n)
                \<lparr>pv_api_key := st_openai_api_key env, pv_base_url := lz_openai_base_url cfg\<rparr>)
         else if key = ''ollama''
         then Some ((provider_of key ''Ollama'' ''openai'' (lz_ollama_model cfg) n)
                \<lparr>pv_base_url := or_default (lz_ollama_base_url cfg) OLLAMA_DEFAULT_BASE_URL\<rparr>)
         else if key = ''gemini''
         then Some ((provider_of key ''Google Gemini'' ''openai'' (lz_gemini_model cfg) n)
                \<lparr>pv_api_key := st_gemini_api_key env,
                 pv_base_url := or_default (lz_gemini_base_url cfg) GEMINI_OPENAI_BASE_URL\<rparr>)
         else None)"

definition api_key_status :: "settings_env \<Rightarrow> string \<Rightarrow> bool option" where
  "api_key_status env =
     [''anthropic'' \<mapsto> (st_anthropic_api_key env \<noteq> []), ''openai'' \<mapsto> (st_openai_api_key env \<noteq> []),
      ''gemini'' \<mapsto> (st_gemini_api_key env \<noteq> [])]"

definition rstrip_slash :: "string \<Rightarrow> string" where
  "rstrip_slash s = rev (dropWhile (\<lambda>c. c = CHR ''/'') (rev s))"

definition validate_selection :: "settings_env \<Rightarrow> llm_config \<Rightarrow> exn + unit" where
  "validate_selection env cfg =
     (let key = provider_key cfg
      in if key \<notin> set (LLM_DISABLED_KEYS @ LLM_PROVIDER_KEYS)
         then Inl (ValueError ''Select a supported LLM provider or disable LLM features'')
         else case active_llm_provider env cfg of None \<Rightarrow> Inr ()
              | Some provider \<Rightarrow>
                  if strip (pv_model provider) = []
                  then Inl (ValueError (pv_display_name provider @ '' model must not be blank''))
                  else if api_key_status env key = Some False
                  then Inl (ValueError (map ascii_upper key @ ''_API_KEY is not set in the environment''))
                  else if key = ''bedrock'' \<and> strip (pv_aws_region provider) = []
                  then Inl (ValueError ''BEDROCK_AWS_REGION must be set before selecting Bedrock'')
                  else if key = ''openai'' \<and> rstrip_slash (lz_openai_base_url cfg) \<notin> {[], OPENAI_BASE_URL}
                  then Inl (ValueError ''OpenAI uses its fixed official API endpoint'')
                  else if key = ''gemini'' \<and>
                      rstrip_slash (lz_gemini_base_url cfg) \<noteq> rstrip_slash GEMINI_OPENAI_BASE_URL
                  then Inl (ValueError ''Gemini uses its fixed official API endpoint'')
                  else if key = ''ollama'' \<and> rstrip_slash (lz_ollama_base_url cfg) \<notin>
                      {rstrip_slash OLLAMA_DEFAULT_BASE_URL,
                       rstrip_slash (or_default (lz_ollama_base_url (st_llm env)) OLLAMA_DEFAULT_BASE_URL)}
                  then Inl (ValueError ''Ollama base URL must match the operator-approved environment endpoint'')
                  else Inr ())"

section \<open>Rows, caches and announcements\<close>

record config_rows =
  rw_general :: "general_settings option"
  rw_audit :: "audit_settings option"
  rw_email :: "email_settings option"
  rw_proxy :: "proxy_settings option"
  rw_llm :: "llm_settings option"

text \<open>\<open>cc_provider\<close> is the provider built once and kept, \<open>None\<close> before the first use.\<close>

record config_cache =
  cc_general :: "general_config option"
  cc_limiters :: limiters
  cc_siem :: siem_config
  cc_mail :: "mail_config option"
  cc_proxy :: "proxy_config option"
  cc_llm :: "llm_config option"
  cc_provider :: "llm_provider_config option option"

record config_world =
  cw_rows :: config_rows
  cw_cache :: config_cache
  cw_notices :: "string list"

definition set_rows :: "(config_rows \<Rightarrow> config_rows) \<Rightarrow> config_world \<Rightarrow> config_world" where
  "set_rows f w = w\<lparr>cw_rows := f (cw_rows w)\<rparr>"

definition set_cache :: "(config_cache \<Rightarrow> config_cache) \<Rightarrow> config_world \<Rightarrow> config_world" where
  "set_cache f w = w\<lparr>cw_cache := f (cw_cache w)\<rparr>"

text \<open>\<^verbatim>\<open>pg_bus.publish_config_changed\<close> and the commit that makes it heard.\<close>

definition publish_config_changed :: "string \<Rightarrow> config_world \<Rightarrow> config_world" where
  "publish_config_changed scope w = w\<lparr>cw_notices := cw_notices w @ [scope]\<rparr>"

section \<open>General settings\<close>

definition get_general_config :: "settings_env \<Rightarrow> config_cache \<Rightarrow> general_config" where
  "get_general_config env cache = (case cc_general cache of None \<Rightarrow> st_general env | Some c \<Rightarrow> c)"

definition limits_of :: "general_config \<Rightarrow> limiters \<Rightarrow> limiters" where
  "limits_of c =
     apply_config (gn_login_max_attempts c, gn_login_lockout_seconds c)
       (gn_registration_max_attempts c, gn_registration_lockout_seconds c)
       (gn_password_reset_max_attempts c, gn_password_reset_lockout_seconds c)"

definition set_general_config :: "general_config \<Rightarrow> config_cache \<Rightarrow> config_cache" where
  "set_general_config c cache =
     cache\<lparr>cc_general := Some c, cc_limiters := limits_of c (cc_limiters cache)\<rparr>"

definition get_general ::
  "settings_env \<Rightarrow> instant \<Rightarrow> config_world \<Rightarrow> general_settings \<times> config_world" where
  "get_general env now w =
     (case rw_general (cw_rows w) of
        Some row \<Rightarrow> (row, w)
      | None \<Rightarrow> let row = general_config.extend (st_general env) \<lparr>gn_updated_at = now\<rparr>
               in (row, set_rows (\<lambda>r. r\<lparr>rw_general := Some row\<rparr>) w))"

definition patch_general :: "general_changes \<Rightarrow> instant \<Rightarrow> general_settings \<Rightarrow> general_settings" where
  "patch_general c now row =
     row\<lparr>gn_registration_enabled := patched (gc_registration_enabled c) (gn_registration_enabled row),
         gn_access_token_expire_minutes :=
           patched (gc_access_token_expire_minutes c) (gn_access_token_expire_minutes row),
         gn_audit_persist := patched (gc_audit_persist c) (gn_audit_persist row),
         gn_login_max_attempts := patched (gc_login_max_attempts c) (gn_login_max_attempts row),
         gn_login_lockout_seconds := patched (gc_login_lockout_seconds c) (gn_login_lockout_seconds row),
         gn_registration_max_attempts :=
           patched (gc_registration_max_attempts c) (gn_registration_max_attempts row),
         gn_registration_lockout_seconds :=
           patched (gc_registration_lockout_seconds c) (gn_registration_lockout_seconds row),
         gn_password_reset_max_attempts :=
           patched (gc_password_reset_max_attempts c) (gn_password_reset_max_attempts row),
         gn_password_reset_lockout_seconds :=
           patched (gc_password_reset_lockout_seconds c) (gn_password_reset_lockout_seconds row),
         gn_updated_at := now\<rparr>"

definition update_general ::
  "settings_env \<Rightarrow> general_changes \<Rightarrow> instant \<Rightarrow> config_world \<Rightarrow> (exn + general_settings) \<times> config_world" where
  "update_general env c now w =
     (let (row, w1) = get_general env now w; row' = patch_general c now row
      in (Inr row', set_cache (set_general_config (general_config.truncate row'))
            (publish_config_changed ''general'' (set_rows (\<lambda>r. r\<lparr>rw_general := Some row'\<rparr>) w1))))"

definition refresh_general ::
  "settings_env \<Rightarrow> instant \<Rightarrow> config_world \<Rightarrow> (exn + unit) \<times> config_world" where
  "refresh_general env now w =
     (let (row, w1) = get_general env now w
      in (Inr (), set_cache (set_general_config (general_config.truncate row)) w1))"

section \<open>Audit forwarding and retention\<close>

definition siem_default :: siem_config where
  "siem_default =
     \<lparr>sk_enabled = False, sk_methods = {}, sk_min_severity = ''info'', sk_file_path = [],
      sk_syslog_host = ''localhost'', sk_syslog_port = 514, sk_syslog_protocol = ''UDP'',
      sk_syslog_facility = 13, sk_http_endpoint = [], sk_http_verify_tls = True\<rparr>"

definition siem_config_of :: "audit_settings \<Rightarrow> siem_config" where
  "siem_config_of row =
     \<lparr>sk_enabled = au_enabled row, sk_methods = set (map (map latin_lower) (au_methods row)),
      sk_min_severity = au_min_severity row, sk_file_path = au_file_path row,
      sk_syslog_host = au_syslog_host row, sk_syslog_port = au_syslog_port row,
      sk_syslog_protocol = au_syslog_protocol row, sk_syslog_facility = au_syslog_facility row,
      sk_http_endpoint = au_http_endpoint row, sk_http_verify_tls = au_http_verify_tls row\<rparr>"

definition get_audit :: "settings_env \<Rightarrow> config_world \<Rightarrow> audit_settings \<times> config_world" where
  "get_audit env w =
     (case rw_audit (cw_rows w) of
        Some row \<Rightarrow> (row, w)
      | None \<Rightarrow> let row = (st_siem env)\<lparr>au_methods := siem_default_methods env\<rparr>
               in (row, set_rows (\<lambda>r. r\<lparr>rw_audit := Some row\<rparr>) w))"

definition check_audit :: "settings_env \<Rightarrow> audit_settings \<Rightarrow> audit_changes \<Rightarrow> exn + unit" where
  "check_audit env row c =
     check_pinned (change_or (ac_http_endpoint c) (au_http_endpoint row)) (au_http_endpoint (st_siem env))
       (st_siem_http_token env \<noteq> []) ''the SIEM HTTP endpoint'' ''SIEM_HTTP_ENDPOINT'' ''SIEM_HTTP_TOKEN''"

definition patch_audit :: "audit_changes \<Rightarrow> audit_settings \<Rightarrow> audit_settings" where
  "patch_audit c row =
     \<lparr>au_enabled = patched (ac_enabled c) (au_enabled row),
      au_methods = patched (ac_methods c) (au_methods row),
      au_min_severity = patched (ac_min_severity c) (au_min_severity row),
      au_file_path = patched (ac_file_path c) (au_file_path row),
      au_syslog_host = patched (ac_syslog_host c) (au_syslog_host row),
      au_syslog_port = patched (ac_syslog_port c) (au_syslog_port row),
      au_syslog_protocol = patched (ac_syslog_protocol c) (au_syslog_protocol row),
      au_syslog_facility = patched (ac_syslog_facility c) (au_syslog_facility row),
      au_http_endpoint = patched (ac_http_endpoint c) (au_http_endpoint row),
      au_http_verify_tls = patched (ac_http_verify_tls c) (au_http_verify_tls row),
      au_retention_days = patched (ac_retention_days c) (au_retention_days row)\<rparr>"

definition update_audit ::
  "settings_env \<Rightarrow> audit_changes \<Rightarrow> config_world \<Rightarrow> (exn + audit_settings) \<times> config_world" where
  "update_audit env c w =
     (let (row, w1) = get_audit env w
      in case check_audit env row c of
           Inl e \<Rightarrow> (Inl e, w1)
         | Inr _ \<Rightarrow>
             let row' = patch_audit c row
             in (Inr row', set_cache (\<lambda>k. k\<lparr>cc_siem := siem_config_of row'\<rparr>)
                  (publish_config_changed ''siem'' (set_rows (\<lambda>r. r\<lparr>rw_audit := Some row'\<rparr>) w1))))"

definition refresh_audit :: "settings_env \<Rightarrow> config_world \<Rightarrow> (exn + unit) \<times> config_world" where
  "refresh_audit env w =
     (let (row, w1) = get_audit env w in (Inr (), set_cache (\<lambda>k. k\<lparr>cc_siem := siem_config_of row\<rparr>) w1))"

section \<open>Mail\<close>

definition env_mail :: "settings_env \<Rightarrow> mail_config" where
  "env_mail env =
     \<lparr>ml_enabled = env_smtp_enabled env, ml_smtp_host = st_smtp_host env, ml_smtp_port = st_smtp_port env,
      ml_smtp_from = st_smtp_from env, ml_smtp_username = st_smtp_username env,
      ml_smtp_starttls = st_smtp_starttls env, ml_smtp_tls = st_smtp_tls env,
      ml_public_base_url = st_public_base_url env\<rparr>"

definition get_mail_config :: "settings_env \<Rightarrow> config_cache \<Rightarrow> mail_config" where
  "get_mail_config env cache = (case cc_mail cache of None \<Rightarrow> env_mail env | Some c \<Rightarrow> c)"

definition mail_enabled :: "mail_config \<Rightarrow> bool" where
  "mail_enabled c \<longleftrightarrow> ml_enabled c \<and> ml_smtp_host c \<noteq> [] \<and> ml_smtp_from c \<noteq> []"

definition get_email ::
  "settings_env \<Rightarrow> instant \<Rightarrow> config_world \<Rightarrow> email_settings \<times> config_world" where
  "get_email env now w =
     (case rw_email (cw_rows w) of
        Some row \<Rightarrow> (row, w)
      | None \<Rightarrow> let row = mail_config.extend (env_mail env) \<lparr>ml_updated_at = now\<rparr>
               in (row, set_rows (\<lambda>r. r\<lparr>rw_email := Some row\<rparr>) w))"

definition check_email :: "settings_env \<Rightarrow> email_settings \<Rightarrow> email_changes \<Rightarrow> exn + unit" where
  "check_email env row c =
     check_pinned (change_or (ec_smtp_host c) (ml_smtp_host row)) (st_smtp_host env)
       (st_smtp_password env \<noteq> []) ''the SMTP host'' ''SMTP_HOST'' ''SMTP_PASSWORD''"

definition patch_email :: "email_changes \<Rightarrow> instant \<Rightarrow> email_settings \<Rightarrow> email_settings" where
  "patch_email c now row =
     row\<lparr>ml_enabled := patched (ec_enabled c) (ml_enabled row),
         ml_smtp_host := patched (ec_smtp_host c) (ml_smtp_host row),
         ml_smtp_port := patched (ec_smtp_port c) (ml_smtp_port row),
         ml_smtp_from := patched (ec_smtp_from c) (ml_smtp_from row),
         ml_smtp_username := patched (ec_smtp_username c) (ml_smtp_username row),
         ml_smtp_starttls := patched (ec_smtp_starttls c) (ml_smtp_starttls row),
         ml_smtp_tls := patched (ec_smtp_tls c) (ml_smtp_tls row),
         ml_public_base_url := patched (ec_public_base_url c) (ml_public_base_url row),
         ml_updated_at := now\<rparr>"

definition update_email ::
  "settings_env \<Rightarrow> email_changes \<Rightarrow> instant \<Rightarrow> config_world \<Rightarrow> (exn + email_settings) \<times> config_world" where
  "update_email env c now w =
     (let (row, w1) = get_email env now w
      in case check_email env row c of
           Inl e \<Rightarrow> (Inl e, w1)
         | Inr _ \<Rightarrow>
             let row' = patch_email c now row
             in (Inr row', set_cache (\<lambda>k. k\<lparr>cc_mail := Some (mail_config.truncate row')\<rparr>)
                  (publish_config_changed ''email'' (set_rows (\<lambda>r. r\<lparr>rw_email := Some row'\<rparr>) w1))))"

definition refresh_email ::
  "settings_env \<Rightarrow> instant \<Rightarrow> config_world \<Rightarrow> (exn + unit) \<times> config_world" where
  "refresh_email env now w =
     (let (row, w1) = get_email env now w
      in (Inr (), set_cache (\<lambda>k. k\<lparr>cc_mail := Some (mail_config.truncate row)\<rparr>) w1))"

section \<open>The proxy\<close>

definition seed_mode :: "settings_env \<Rightarrow> string" where
  "seed_mode env =
     (case read_proxy_mode (strip (px_mode (st_proxy env))) of
        None \<Rightarrow> proxy_mode_value ProxySystem | Some m \<Rightarrow> proxy_mode_value m)"

definition get_proxy ::
  "settings_env \<Rightarrow> instant \<Rightarrow> config_world \<Rightarrow> proxy_settings \<times> config_world" where
  "get_proxy env now w =
     (case rw_proxy (cw_rows w) of
        Some row \<Rightarrow> (row, w)
      | None \<Rightarrow> let row = proxy_config.extend ((st_proxy env)\<lparr>px_mode := seed_mode env\<rparr>) \<lparr>px_updated_at = now\<rparr>
               in (row, set_rows (\<lambda>r. r\<lparr>rw_proxy := Some row\<rparr>) w))"

definition check_proxy :: "settings_env \<Rightarrow> proxy_settings \<Rightarrow> proxy_changes \<Rightarrow> exn + unit" where
  "check_proxy env row c =
     check_pinned (change_or (pc_proxy_url c) (px_proxy_url row)) (px_proxy_url (st_proxy env))
       (st_proxy_username env \<noteq> [] \<or> st_proxy_password env \<noteq> []) ''the proxy URL'' ''PROXY_URL''
       ''PROXY_USERNAME/PROXY_PASSWORD''"

definition patch_proxy :: "proxy_changes \<Rightarrow> instant \<Rightarrow> proxy_settings \<Rightarrow> proxy_settings" where
  "patch_proxy c now row =
     row\<lparr>px_mode := patched (pc_mode c) (px_mode row),
         px_proxy_url := patched (pc_proxy_url c) (px_proxy_url row),
         px_no_proxy := patched (pc_no_proxy c) (px_no_proxy row), px_updated_at := now\<rparr>"

text \<open>\<^verbatim>\<open>set_config\<close>, then the provider built with the old proxy is dropped.  (The OIDC
  registration that is dropped with it is outside the model.)\<close>

definition install_proxy :: "proxy_settings \<Rightarrow> config_cache \<Rightarrow> config_cache" where
  "install_proxy row cache =
     cache\<lparr>cc_proxy := Some (proxy_config.truncate row), cc_provider := None\<rparr>"

definition update_proxy ::
  "settings_env \<Rightarrow> proxy_changes \<Rightarrow> instant \<Rightarrow> config_world \<Rightarrow> (exn + proxy_settings) \<times> config_world" where
  "update_proxy env c now w =
     (let (row, w1) = get_proxy env now w
      in case check_proxy env row c of
           Inl e \<Rightarrow> (Inl e, w1)
         | Inr _ \<Rightarrow>
             let row' = patch_proxy c now row
             in (Inr row', set_cache (install_proxy row')
                  (publish_config_changed ''proxy'' (set_rows (\<lambda>r. r\<lparr>rw_proxy := Some row'\<rparr>) w1))))"

definition refresh_proxy ::
  "settings_env \<Rightarrow> instant \<Rightarrow> config_world \<Rightarrow> (exn + unit) \<times> config_world" where
  "refresh_proxy env now w =
     (let (row, w1) = get_proxy env now w in (Inr (), set_cache (install_proxy row) w1))"

section \<open>The provider's routing\<close>

definition get_llm_config :: "settings_env \<Rightarrow> config_cache \<Rightarrow> llm_config" where
  "get_llm_config env cache = (case cc_llm cache of None \<Rightarrow> st_llm env | Some c \<Rightarrow> c)"

text \<open>\<^verbatim>\<open>llm/service.py active_provider\<close>: built once, then kept.\<close>

definition active_provider ::
  "settings_env \<Rightarrow> config_cache \<Rightarrow> llm_provider_config option \<times> config_cache" where
  "active_provider env cache =
     (case cc_provider cache of
        Some p \<Rightarrow> (p, cache)
      | None \<Rightarrow> let p = active_llm_provider env (get_llm_config env cache)
               in (p, cache\<lparr>cc_provider := Some p\<rparr>))"

definition get_llm ::
  "settings_env \<Rightarrow> instant \<Rightarrow> config_world \<Rightarrow> llm_settings \<times> config_world" where
  "get_llm env now w =
     (case rw_llm (cw_rows w) of
        Some row \<Rightarrow> (row, w)
      | None \<Rightarrow>
          let seed = (case validate_selection env (st_llm env) of
                        Inr _ \<Rightarrow> st_llm env | Inl _ \<Rightarrow> (st_llm env)\<lparr>lz_provider := ''none''\<rparr>);
              row = llm_config.extend seed \<lparr>lz_updated_at = now\<rparr>
          in (row, set_rows (\<lambda>r. r\<lparr>rw_llm := Some row\<rparr>) w))"

definition patch_llm :: "llm_changes \<Rightarrow> llm_config \<Rightarrow> llm_config" where
  "patch_llm c row =
     \<lparr>lz_provider = patched (lg_provider c) (lz_provider row),
      lz_max_tokens = patched (lg_max_tokens c) (lz_max_tokens row),
      lz_anthropic_model = patched (lg_anthropic_model c) (lz_anthropic_model row),
      lz_bedrock_model = patched (lg_bedrock_model c) (lz_bedrock_model row),
      lz_bedrock_aws_region = patched (lg_bedrock_aws_region c) (lz_bedrock_aws_region row),
      lz_openai_model = patched (lg_openai_model c) (lz_openai_model row),
      lz_openai_base_url = patched (lg_openai_base_url c) (lz_openai_base_url row),
      lz_ollama_model = patched (lg_ollama_model c) (lz_ollama_model row),
      lz_ollama_base_url = patched (lg_ollama_base_url c) (lz_ollama_base_url row),
      lz_gemini_model = patched (lg_gemini_model c) (lz_gemini_model row),
      lz_gemini_base_url = patched (lg_gemini_base_url c) (lz_gemini_base_url row)\<rparr>"

definition install_llm :: "llm_config \<Rightarrow> config_cache \<Rightarrow> config_cache" where
  "install_llm c cache = cache\<lparr>cc_llm := Some c, cc_provider := None\<rparr>"

definition update_llm ::
  "settings_env \<Rightarrow> llm_changes \<Rightarrow> instant \<Rightarrow> config_world \<Rightarrow> (exn + llm_settings) \<times> config_world" where
  "update_llm env c now w =
     (let (row, w1) = get_llm env now w; candidate = patch_llm c (llm_config.truncate row)
      in case validate_selection env candidate of
           Inl e \<Rightarrow> (Inl e, w1)
         | Inr _ \<Rightarrow>
             let row' = llm_config.extend candidate \<lparr>lz_updated_at = now\<rparr>
             in (Inr row', set_cache (install_llm candidate)
                  (publish_config_changed ''llm'' (set_rows (\<lambda>r. r\<lparr>rw_llm := Some row'\<rparr>) w1))))"

text \<open>An invalid selection is installed as disabled, and the refresh raises.\<close>

definition refresh_llm ::
  "settings_env \<Rightarrow> instant \<Rightarrow> config_world \<Rightarrow> (exn + unit) \<times> config_world" where
  "refresh_llm env now w =
     (let (row, w1) = get_llm env now w; config = llm_config.truncate row
      in case validate_selection env config of
           Inl e \<Rightarrow> (Inl e, set_cache (install_llm (config\<lparr>lz_provider := ''none''\<rparr>)) w1)
         | Inr _ \<Rightarrow> (Inr (), set_cache (install_llm config) w1))"

end
