(* ===== verification/Oidc_Settings.thy ===== *)
theory Oidc_Settings
  imports Runtime_Settings
begin

text \<open>
  Single sign-on settings: the row with its validation and its projection into the process
  (\<^verbatim>\<open>app/services/oidc_settings_service.py\<close>,
  \<^verbatim>\<open>app/models/oidc_settings.py\<close>), the providers it enables, and their
  registration with the OAuth library (\<^verbatim>\<open>app/services/oidc/service.py\<close>), which is
  a table from provider keys to configurations.

  Unlike the other settings services this one applies an explicit null of a request body: the
  candidate configuration has nullable columns.  An \<^verbatim>\<open>AttributeError\<close> is written as
  the runtime error \<open>attribute_error\<close>.
\<close>

section \<open>The configuration\<close>

text \<open>One record for the row's columns, for a patch of it, and for a candidate that may hold
  nulls.\<close>

record ('s, 'b) oidc_fields =
  oi_auth_mode :: 's
  oi_redirect_base_url :: 's
  oi_entra_enabled :: 'b
  oi_entra_client_id :: 's
  oi_entra_tenant_id :: 's
  oi_entra_scopes :: 's
  oi_entra_role_claim :: 's
  oi_entra_role_map :: 's
  oi_authentik_enabled :: 'b
  oi_authentik_client_id :: 's
  oi_authentik_base_url :: 's
  oi_authentik_app_slug :: 's
  oi_authentik_scopes :: 's
  oi_authentik_role_claim :: 's
  oi_authentik_role_map :: 's
  oi_auth0_enabled :: 'b
  oi_auth0_client_id :: 's
  oi_auth0_domain :: 's
  oi_auth0_scopes :: 's
  oi_auth0_role_claim :: 's
  oi_auth0_role_map :: 's
  oi_okta_enabled :: 'b
  oi_okta_client_id :: 's
  oi_okta_domain :: 's
  oi_okta_auth_server :: 's
  oi_okta_scopes :: 's
  oi_okta_role_claim :: 's
  oi_okta_role_map :: 's

type_synonym oidc_config = "(string, bool) oidc_fields"
type_synonym oidc_nullable = "(string option, bool option) oidc_fields"
type_synonym oidc_changes = "(string change, bool change) oidc_fields"

definition oidc_map :: "('s \<Rightarrow> 't) \<Rightarrow> ('b \<Rightarrow> 'c) \<Rightarrow> ('s, 'b) oidc_fields \<Rightarrow> ('t, 'c) oidc_fields" where
  "oidc_map f g c =
     \<lparr>oi_auth_mode = f (oi_auth_mode c), oi_redirect_base_url = f (oi_redirect_base_url c),
      oi_entra_enabled = g (oi_entra_enabled c), oi_entra_client_id = f (oi_entra_client_id c),
      oi_entra_tenant_id = f (oi_entra_tenant_id c), oi_entra_scopes = f (oi_entra_scopes c),
      oi_entra_role_claim = f (oi_entra_role_claim c), oi_entra_role_map = f (oi_entra_role_map c),
      oi_authentik_enabled = g (oi_authentik_enabled c),
      oi_authentik_client_id = f (oi_authentik_client_id c),
      oi_authentik_base_url = f (oi_authentik_base_url c),
      oi_authentik_app_slug = f (oi_authentik_app_slug c),
      oi_authentik_scopes = f (oi_authentik_scopes c),
      oi_authentik_role_claim = f (oi_authentik_role_claim c),
      oi_authentik_role_map = f (oi_authentik_role_map c), oi_auth0_enabled = g (oi_auth0_enabled c),
      oi_auth0_client_id = f (oi_auth0_client_id c), oi_auth0_domain = f (oi_auth0_domain c),
      oi_auth0_scopes = f (oi_auth0_scopes c), oi_auth0_role_claim = f (oi_auth0_role_claim c),
      oi_auth0_role_map = f (oi_auth0_role_map c), oi_okta_enabled = g (oi_okta_enabled c),
      oi_okta_client_id = f (oi_okta_client_id c), oi_okta_domain = f (oi_okta_domain c),
      oi_okta_auth_server = f (oi_okta_auth_server c), oi_okta_scopes = f (oi_okta_scopes c),
      oi_okta_role_claim = f (oi_okta_role_claim c), oi_okta_role_map = f (oi_okta_role_map c)\<rparr>"

definition oidc_strings :: "('s, 'b) oidc_fields \<Rightarrow> 's list" where
  "oidc_strings c =
     [oi_auth_mode c, oi_redirect_base_url c, oi_entra_client_id c, oi_entra_tenant_id c,
      oi_entra_scopes c, oi_entra_role_claim c, oi_entra_role_map c, oi_authentik_client_id c,
      oi_authentik_base_url c, oi_authentik_app_slug c, oi_authentik_scopes c,
      oi_authentik_role_claim c, oi_authentik_role_map c, oi_auth0_client_id c, oi_auth0_domain c,
      oi_auth0_scopes c, oi_auth0_role_claim c, oi_auth0_role_map c, oi_okta_client_id c,
      oi_okta_domain c, oi_okta_auth_server c, oi_okta_scopes c, oi_okta_role_claim c,
      oi_okta_role_map c]"

definition oidc_flags :: "('s, 'b) oidc_fields \<Rightarrow> 'b list" where
  "oidc_flags c =
     [oi_entra_enabled c, oi_authentik_enabled c, oi_auth0_enabled c, oi_okta_enabled c]"

text \<open>\<^verbatim>\<open>changes.get(field, getattr(current, field))\<close>.\<close>

definition oidc_candidate :: "oidc_changes \<Rightarrow> oidc_config \<Rightarrow> oidc_nullable" where
  "oidc_candidate ch c =
     \<lparr>oi_auth_mode = change_or (oi_auth_mode ch) (oi_auth_mode c),
      oi_redirect_base_url = change_or (oi_redirect_base_url ch) (oi_redirect_base_url c),
      oi_entra_enabled = change_or (oi_entra_enabled ch) (oi_entra_enabled c),
      oi_entra_client_id = change_or (oi_entra_client_id ch) (oi_entra_client_id c),
      oi_entra_tenant_id = change_or (oi_entra_tenant_id ch) (oi_entra_tenant_id c),
      oi_entra_scopes = change_or (oi_entra_scopes ch) (oi_entra_scopes c),
      oi_entra_role_claim = change_or (oi_entra_role_claim ch) (oi_entra_role_claim c),
      oi_entra_role_map = change_or (oi_entra_role_map ch) (oi_entra_role_map c),
      oi_authentik_enabled = change_or (oi_authentik_enabled ch) (oi_authentik_enabled c),
      oi_authentik_client_id = change_or (oi_authentik_client_id ch) (oi_authentik_client_id c),
      oi_authentik_base_url = change_or (oi_authentik_base_url ch) (oi_authentik_base_url c),
      oi_authentik_app_slug = change_or (oi_authentik_app_slug ch) (oi_authentik_app_slug c),
      oi_authentik_scopes = change_or (oi_authentik_scopes ch) (oi_authentik_scopes c),
      oi_authentik_role_claim = change_or (oi_authentik_role_claim ch) (oi_authentik_role_claim c),
      oi_authentik_role_map = change_or (oi_authentik_role_map ch) (oi_authentik_role_map c),
      oi_auth0_enabled = change_or (oi_auth0_enabled ch) (oi_auth0_enabled c),
      oi_auth0_client_id = change_or (oi_auth0_client_id ch) (oi_auth0_client_id c),
      oi_auth0_domain = change_or (oi_auth0_domain ch) (oi_auth0_domain c),
      oi_auth0_scopes = change_or (oi_auth0_scopes ch) (oi_auth0_scopes c),
      oi_auth0_role_claim = change_or (oi_auth0_role_claim ch) (oi_auth0_role_claim c),
      oi_auth0_role_map = change_or (oi_auth0_role_map ch) (oi_auth0_role_map c),
      oi_okta_enabled = change_or (oi_okta_enabled ch) (oi_okta_enabled c),
      oi_okta_client_id = change_or (oi_okta_client_id ch) (oi_okta_client_id c),
      oi_okta_domain = change_or (oi_okta_domain ch) (oi_okta_domain c),
      oi_okta_auth_server = change_or (oi_okta_auth_server ch) (oi_okta_auth_server c),
      oi_okta_scopes = change_or (oi_okta_scopes ch) (oi_okta_scopes c),
      oi_okta_role_claim = change_or (oi_okta_role_claim ch) (oi_okta_role_claim c),
      oi_okta_role_map = change_or (oi_okta_role_map ch) (oi_okta_role_map c)\<rparr>"

text \<open>The columns are NOT NULL: a candidate with a null cannot be stored.\<close>

definition oidc_row_of :: "oidc_nullable \<Rightarrow> oidc_config option" where
  "oidc_row_of c =
     (if None \<in> set (oidc_strings c) \<or> None \<in> set (oidc_flags c) then None
      else Some (oidc_map the the c))"

definition nullable :: "oidc_config \<Rightarrow> oidc_nullable" where
  "nullable c = oidc_map Some Some c"

text \<open>The part of the environment: the seed of the row, and the client secrets.\<close>

record oidc_env =
  oe_seed :: oidc_config
  oe_client_secret :: "string \<Rightarrow> string"
  oe_allow_unverified_email :: bool

definition AUTH_MODES :: "string list" where
  "AUTH_MODES = [''local'', ''oidc'', ''both'']"

definition PROVIDER_KEYS :: "string list" where
  "PROVIDER_KEYS = [''entra'', ''authentik'', ''auth0'', ''okta'']"

section \<open>Role maps\<close>

text \<open>The assignments of \<^verbatim>\<open>_parse_role_map\<close> in order; the dictionary it returns is
  \<open>dict_of\<close> of them.\<close>

type_synonym role_map = "(string \<times> string) list"

definition role_pairs :: "string \<Rightarrow> string list" where
  "role_pairs raw = filter (\<lambda>p. p \<noteq> []) (map strip (split_on CHR '','' raw))"

definition parse_role_map :: "string \<Rightarrow> role_map" where
  "parse_role_map raw =
     filter (\<lambda>(g, r). g \<noteq> [] \<and> r \<noteq> [])
       (map (\<lambda>p. (strip (before CHR ''='' p), strip (after CHR ''='' p)))
          (filter (\<lambda>p. CHR ''='' \<in> set p) (role_pairs raw)))"

definition dict_keys :: "role_map \<Rightarrow> string list" where
  "dict_keys m = remdups (map fst m)"

definition attribute_error :: exn where
  "attribute_error = RuntimeError ''NoneType object has no such attribute''"

definition ALLOWED_ROLES :: "string list" where
  "ALLOWED_ROLES = [''participant'', ''observer'', ''facilitator'']"

definition validate_role_map :: "string \<Rightarrow> string option \<Rightarrow> exn + unit" where
  "validate_role_map provider raw =
     (case raw of None \<Rightarrow> Inl attribute_error
      | Some r \<Rightarrow>
          if strip r = [] then Inr ()
          else let parsed = parse_role_map r; pairs = role_pairs r
               in if length (dict_keys parsed) \<noteq> length pairs \<or>
                     (\<exists>p\<in>set pairs. CHR ''='' \<notin> set p) \<or>
                     (\<exists>k\<in>set (dict_keys parsed). the (dict_of parsed k) \<notin> set ALLOWED_ROLES)
                  then Inl (ValueError (provider @
                         '' role map must use group=participant|observer|facilitator pairs''))
                  else Inr ())"

section \<open>Providers\<close>

record oidc_provider =
  op_key :: string
  op_display_name :: string
  op_client_id :: string
  op_client_secret :: string
  op_metadata_url :: string
  op_scopes :: string
  op_role_claim :: string
  op_role_map :: role_map
  op_issuer :: string

definition local_auth :: "oidc_config \<Rightarrow> bool" where
  "local_auth c \<longleftrightarrow> oi_auth_mode c \<in> {''local'', ''both''}"

definition oidc_auth_enabled :: "oidc_config \<Rightarrow> bool" where
  "oidc_auth_enabled c \<longleftrightarrow> oi_auth_mode c \<in> {''oidc'', ''both''}"

definition DISCOVERY :: string where
  "DISCOVERY = ''/.well-known/openid-configuration''"

definition entra_authority :: "oidc_config \<Rightarrow> string" where
  "entra_authority c = ''https://login.microsoftonline.com/'' @ oi_entra_tenant_id c @ ''/v2.0''"

definition okta_path :: "oidc_config \<Rightarrow> string" where
  "okta_path c =
     (let server = rstrip_slash (dropWhile (\<lambda>x. x = CHR ''/'') (oi_okta_auth_server c))
      in if server = [] then [] else ''/oauth2/'' @ server)"

definition enabled_providers :: "oidc_env \<Rightarrow> oidc_config \<Rightarrow> oidc_provider list" where
  "enabled_providers env c =
     (if \<not> oidc_auth_enabled c then []
      else (if oi_entra_enabled c
            then [\<lparr>op_key = ''entra'', op_display_name = ''Microsoft Entra ID'',
                   op_client_id = oi_entra_client_id c, op_client_secret = oe_client_secret env ''entra'',
                   op_metadata_url = entra_authority c @ DISCOVERY, op_scopes = oi_entra_scopes c,
                   op_role_claim = oi_entra_role_claim c, op_role_map = parse_role_map (oi_entra_role_map c),
                   op_issuer = entra_authority c\<rparr>] else []) @
           (if oi_authentik_enabled c
            then [\<lparr>op_key = ''authentik'', op_display_name = ''Authentik'',
                   op_client_id = oi_authentik_client_id c,
                   op_client_secret = oe_client_secret env ''authentik'',
                   op_metadata_url = rstrip_slash (oi_authentik_base_url c) @ ''/application/o/'' @
                     oi_authentik_app_slug c @ DISCOVERY,
                   op_scopes = oi_authentik_scopes c, op_role_claim = oi_authentik_role_claim c,
                   op_role_map = parse_role_map (oi_authentik_role_map c), op_issuer = []\<rparr>] else []) @
           (if oi_auth0_enabled c
            then [\<lparr>op_key = ''auth0'', op_display_name = ''Auth0'',
                   op_client_id = oi_auth0_client_id c, op_client_secret = oe_client_secret env ''auth0'',
                   op_metadata_url = ''https://'' @ rstrip_slash (oi_auth0_domain c) @ DISCOVERY,
                   op_scopes = oi_auth0_scopes c, op_role_claim = oi_auth0_role_claim c,
                   op_role_map = parse_role_map (oi_auth0_role_map c), op_issuer = []\<rparr>] else []) @
           (if oi_okta_enabled c
            then [\<lparr>op_key = ''okta'', op_display_name = ''Okta'',
                   op_client_id = oi_okta_client_id c, op_client_secret = oe_client_secret env ''okta'',
                   op_metadata_url = ''https://'' @ rstrip_slash (oi_okta_domain c) @ okta_path c @ DISCOVERY,
                   op_scopes = oi_okta_scopes c, op_role_claim = oi_okta_role_claim c,
                   op_role_map = parse_role_map (oi_okta_role_map c), op_issuer = []\<rparr>] else []))"

section \<open>Validation\<close>

text \<open>What \<^verbatim>\<open>getattr(config, f"oidc_{key}_...")\<close> and the requirements table read for
  one provider: the flag, the required columns, the scopes and the role map.\<close>

type_synonym ('s, 'b) provider_columns = "'b \<times> 's list \<times> 's \<times> 's"

definition provider_columns :: "('s, 'b) oidc_fields \<Rightarrow> string \<Rightarrow> ('s, 'b) provider_columns" where
  "provider_columns c key =
     (if key = ''entra''
      then (oi_entra_enabled c, [oi_entra_client_id c, oi_entra_tenant_id c], oi_entra_scopes c, oi_entra_role_map c)
      else if key = ''authentik''
      then (oi_authentik_enabled c, [oi_authentik_client_id c, oi_authentik_base_url c, oi_authentik_app_slug c],
            oi_authentik_scopes c, oi_authentik_role_map c)
      else if key = ''auth0''
      then (oi_auth0_enabled c, [oi_auth0_client_id c, oi_auth0_domain c], oi_auth0_scopes c, oi_auth0_role_map c)
      else (oi_okta_enabled c, [oi_okta_client_id c, oi_okta_domain c], oi_okta_scopes c, oi_okta_role_map c))"

definition valid_absolute_url :: "string \<Rightarrow> exn + bool" where
  "valid_absolute_url v =
     and_then (urlsplit v) (\<lambda>p. Inr (up_scheme p \<in> {''http'', ''https''} \<and> hostname p \<noteq> None))"

text \<open>\<^verbatim>\<open>all(value.strip() for value in ...)\<close>, stopping at the first blank one.\<close>

fun all_set :: "string option list \<Rightarrow> exn + bool" where
  "all_set [] = Inr True"
| "all_set (None # vs) = Inl attribute_error"
| "all_set (Some v # vs) = (if strip v = [] then Inr False else all_set vs)"

definition whitespace_words :: "string \<Rightarrow> string list" where
  "whitespace_words s =
     filter (\<lambda>w. w \<noteq> []) (split_on CHR '' '' (map (\<lambda>c. if is_space c then CHR '' '' else c) s))"

definition validate_provider :: "oidc_env \<Rightarrow> oidc_nullable \<Rightarrow> string \<Rightarrow> exn + unit" where
  "validate_provider env c key =
     (let (enabled, required, scopes, _) = provider_columns c key
      in if enabled \<noteq> Some True then Inr ()
         else and_then (all_set required) (\<lambda>complete.
           if \<not> complete
           then Inl (ValueError (key @ '' is enabled but its non-secret configuration is incomplete''))
           else case scopes of None \<Rightarrow> Inl attribute_error
                | Some sc \<Rightarrow>
                    if ''openid'' \<notin> set (whitespace_words sc)
                    then Inl (ValueError (key @ '' is enabled but its scopes do not include the required openid scope''))
                    else if oe_client_secret env key = []
                    then Inl (ValueError (''OIDC_'' @ map ascii_upper key @
                           ''_CLIENT_SECRET is not set in the environment''))
                    else Inr ()))"

definition validate_config :: "oidc_env \<Rightarrow> oidc_nullable \<Rightarrow> exn + unit" where
  "validate_config env c =
     (if oi_auth_mode c \<notin> Some ` set AUTH_MODES
      then Inl (ValueError ''Authentication mode must be local, oidc, or both'')
      else and_then (if truthy (oi_redirect_base_url c) then valid_absolute_url (the (oi_redirect_base_url c))
                     else Inr True) (\<lambda>ok.
        if \<not> ok then Inl (ValueError ''OIDC redirect base URL must be an absolute http(s) URL'')
        else and_then (map_checked (\<lambda>k. validate_role_map k (snd (snd (snd (provider_columns c k))))) PROVIDER_KEYS) (\<lambda>_.
          if oi_auth_mode c = Some ''local'' then Inr ()
          else and_then (map_checked (validate_provider env c) PROVIDER_KEYS) (\<lambda>_.
            if oi_auth_mode c = Some ''oidc'' \<and> filter (\<lambda>k. fst (provider_columns c k) = Some True) PROVIDER_KEYS = []
            then Inl (ValueError (''OIDC-only mode requires at least one complete enabled provider; '' @
                   ''local login was kept on''))
            else Inr ()))))"

section \<open>Registration\<close>

text \<open>The process: the cached configuration, the registered providers with the arguments of
  their HTTP client, and whether the registration has run.  \<open>wire\<close> is
  \<^verbatim>\<open>proxy.resolve_kwargs\<close> under the settings of the moment.\<close>

record oidc_process =
  oq_config :: "oidc_config option"
  oq_registered :: "(oidc_provider \<times> proxy_kwargs) list"
  oq_done :: bool

definition get_oidc_config :: "oidc_env \<Rightarrow> oidc_process \<Rightarrow> oidc_config" where
  "get_oidc_config env p = (case oq_config p of None \<Rightarrow> oe_seed env | Some c \<Rightarrow> c)"

definition reset_registration :: "oidc_process \<Rightarrow> oidc_process" where
  "reset_registration p = p\<lparr>oq_registered := [], oq_done := False\<rparr>"

definition get_provider :: "oidc_process \<Rightarrow> string \<Rightarrow> oidc_provider option" where
  "get_provider p key = find (\<lambda>c. op_key c = key) (map fst (oq_registered p))"

fun register_each ::
  "(string \<Rightarrow> exn + proxy_kwargs) \<Rightarrow> oidc_provider list \<Rightarrow> oidc_process \<Rightarrow> (exn + unit) \<times> oidc_process" where
  "register_each wire [] p = (Inr (), p)"
| "register_each wire (c # cs) p =
     (if get_provider p (op_key c) \<noteq> None then register_each wire cs p
      else case wire (op_metadata_url c) of
             Inl e \<Rightarrow> (Inl e, p)
           | Inr k \<Rightarrow> register_each wire cs (p\<lparr>oq_registered := oq_registered p @ [(c, k)]\<rparr>))"

definition register_providers ::
  "oidc_env \<Rightarrow> (string \<Rightarrow> exn + proxy_kwargs) \<Rightarrow> oidc_process \<Rightarrow> (exn + oidc_provider list) \<times> oidc_process" where
  "register_providers env wire p =
     (let cs = enabled_providers env (get_oidc_config env p)
      in case register_each wire cs p of
           (Inl e, p1) \<Rightarrow> (Inl e, p1)
         | (Inr _, p1) \<Rightarrow> (Inr cs, p1\<lparr>oq_done := True\<rparr>))"

definition ensure_registered ::
  "oidc_env \<Rightarrow> (string \<Rightarrow> exn + proxy_kwargs) \<Rightarrow> oidc_process \<Rightarrow> (exn + unit) \<times> oidc_process" where
  "ensure_registered env wire p =
     (if oq_done p then (Inr (), p)
      else case register_providers env wire p of (Inl e, p1) \<Rightarrow> (Inl e, p1) | (Inr _, p1) \<Rightarrow> (Inr (), p1))"

section \<open>The row\<close>

record oidc_world =
  ow_row :: "(oidc_config \<times> instant) option"
  ow_process :: oidc_process
  ow_notices :: "string list"

definition get_oidc :: "oidc_env \<Rightarrow> instant \<Rightarrow> oidc_world \<Rightarrow> (exn + oidc_config) \<times> oidc_world" where
  "get_oidc env now w =
     (case ow_row w of Some (c, _) \<Rightarrow> (Inr c, w)
      | None \<Rightarrow>
          (case validate_config env (nullable (oe_seed env)) of
             Inl e \<Rightarrow> (Inl e, w)
           | Inr _ \<Rightarrow> (Inr (oe_seed env), w\<lparr>ow_row := Some (oe_seed env, now)\<rparr>)))"

definition install_oidc :: "oidc_config \<Rightarrow> oidc_world \<Rightarrow> oidc_world" where
  "install_oidc c w =
     w\<lparr>ow_process := reset_registration ((ow_process w)\<lparr>oq_config := Some c\<rparr>)\<rparr>"

definition update_oidc ::
  "oidc_env \<Rightarrow> oidc_changes \<Rightarrow> instant \<Rightarrow> oidc_world \<Rightarrow> (exn + oidc_config) \<times> oidc_world" where
  "update_oidc env ch now w =
     (case get_oidc env now w of
        (Inl e, w1) \<Rightarrow> (Inl e, w1)
      | (Inr row, w1) \<Rightarrow>
          let candidate = oidc_candidate ch row
          in case validate_config env candidate of
               Inl e \<Rightarrow> (Inl e, w1)
             | Inr _ \<Rightarrow>
                 (case oidc_row_of candidate of
                    None \<Rightarrow> (Inl IntegrityError, w1)
                  | Some c \<Rightarrow>
                      (Inr c, install_oidc c (w1\<lparr>ow_row := Some (c, now),
                         ow_notices := ow_notices w1 @ [''oidc'']\<rparr>))))"

definition refresh_oidc :: "oidc_env \<Rightarrow> instant \<Rightarrow> oidc_world \<Rightarrow> (exn + unit) \<times> oidc_world" where
  "refresh_oidc env now w =
     (case get_oidc env now w of
        (Inl e, w1) \<Rightarrow> (Inl e, w1)
      | (Inr c, w1) \<Rightarrow>
          (case validate_config env (nullable c) of
             Inl e \<Rightarrow> (Inl e, w1) | Inr _ \<Rightarrow> (Inr (), install_oidc c w1)))"

definition client_secret_status :: "oidc_env \<Rightarrow> (string \<times> bool) list" where
  "client_secret_status env = map (\<lambda>k. (k, oe_client_secret env k \<noteq> [])) PROVIDER_KEYS"

section \<open>Lemmas\<close>

lemma some_the: "None \<noteq> x \<Longrightarrow> Some (the x) = x"
  by (cases x) simp_all

lemma oidc_row_of_Some:
  assumes "oidc_row_of c = Some r"
  shows "nullable r = c"
proof -
  have set: "None \<notin> set (oidc_strings c)" "None \<notin> set (oidc_flags c)" and r: "r = oidc_map the the c"
    using assms by (auto simp: oidc_row_of_def split: if_splits)
  show ?thesis
    using set unfolding r nullable_def oidc_strings_def oidc_flags_def
    by (intro oidc_fields.equality) (simp_all add: oidc_map_def some_the)
qed

text \<open>An enabled provider of a valid configuration is complete.\<close>

definition provider_ready :: "oidc_provider \<Rightarrow> bool" where
  "provider_ready p \<longleftrightarrow> strip (op_client_id p) \<noteq> [] \<and> op_client_secret p \<noteq> [] \<and>
     ''openid'' \<in> set (whitespace_words (op_scopes p))"

lemma map_checked_unit_all: "map_checked f ks = Inr us \<Longrightarrow> k \<in> set ks \<Longrightarrow> \<exists>u. f k = Inr u"
  by (induction ks arbitrary: us) (auto split: sum.splits)

lemma valid_config_provider:
  assumes "validate_config env c = Inr ()" and "oi_auth_mode c \<noteq> Some ''local''" and "k \<in> set PROVIDER_KEYS"
  shows "validate_provider env c k = Inr ()"
proof -
  obtain us where "map_checked (validate_provider env c) PROVIDER_KEYS = Inr us"
    using assms(1,2) by (auto simp: validate_config_def split: if_splits)
  from map_checked_unit_all [OF this assms(3)] show ?thesis by simp
qed

lemma all_set_hd: "all_set (Some v # vs) = Inr True \<Longrightarrow> strip v \<noteq> []"
  by (auto split: if_splits)

lemma nullable_fields [simp]:
  "oi_auth_mode (nullable c) = Some (oi_auth_mode c)"
  "oi_entra_enabled (nullable c) = Some (oi_entra_enabled c)"
  "oi_authentik_enabled (nullable c) = Some (oi_authentik_enabled c)"
  "oi_auth0_enabled (nullable c) = Some (oi_auth0_enabled c)"
  "oi_okta_enabled (nullable c) = Some (oi_okta_enabled c)"
  "provider_columns (nullable c) k =
     (case provider_columns c k of (e, rs, sc, m) \<Rightarrow> (Some e, map Some rs, Some sc, Some m))"
  by (simp_all add: nullable_def oidc_map_def provider_columns_def)

lemma ready_provider:
  assumes "validate_provider env (nullable c) k = Inr ()"
    and "provider_columns c k = (True, i # rs, sc, m)"
  shows "strip i \<noteq> [] \<and> oe_client_secret env k \<noteq> [] \<and> ''openid'' \<in> set (whitespace_words sc)"
  using assms by (auto simp: validate_provider_def split: if_splits)

lemma enabled_are_ready:
  assumes "validate_config env (nullable c) = Inr ()" and "p \<in> set (enabled_providers env c)"
  shows "provider_ready p"
proof -
  have on: "oi_auth_mode (nullable c) \<noteq> Some ''local''"
    using assms(2) by (auto simp: enabled_providers_def oidc_auth_enabled_def)
  have ready: "provider_columns c k = (True, i # rs, sc, m) \<Longrightarrow>
      strip i \<noteq> [] \<and> oe_client_secret env k \<noteq> [] \<and> ''openid'' \<in> set (whitespace_words sc)"
    if "k \<in> set PROVIDER_KEYS" for k i rs sc m
    using ready_provider valid_config_provider [OF assms(1) on that] by blast
  show ?thesis
    using assms(2) ready [of "''entra''"] ready [of "''authentik''"] ready [of "''auth0''"] ready [of "''okta''"]
    by (auto simp: enabled_providers_def provider_ready_def provider_columns_def PROVIDER_KEYS_def split: if_splits)
qed

lemma sso_only_has_a_provider:
  assumes "validate_config env (nullable c) = Inr ()" and "oi_auth_mode c = ''oidc''"
  shows "enabled_providers env c \<noteq> []"
proof -
  have some: "filter (\<lambda>k. fst (provider_columns (nullable c) k) = Some True) PROVIDER_KEYS \<noteq> []"
    using assms by (simp add: validate_config_def del: nullable_fields(6) split: if_splits)
  show ?thesis
  proof
    assume "enabled_providers env c = []"
    then have "\<not> oi_entra_enabled c \<and> \<not> oi_authentik_enabled c \<and> \<not> oi_auth0_enabled c \<and> \<not> oi_okta_enabled c"
      using assms(2) by (simp add: enabled_providers_def oidc_auth_enabled_def split: if_splits)
    then show False using some by (simp add: provider_columns_def PROVIDER_KEYS_def)
  qed
qed

text \<open>What a registration leaves registered.\<close>

lemma register_each_mem:
  "register_each wire cs p = (r, p') \<Longrightarrow>
     set (map fst (oq_registered p')) \<subseteq> set (map fst (oq_registered p)) \<union> set cs \<and> oq_config p' = oq_config p"
proof (induction cs arbitrary: p)
  case (Cons c cs)
  show ?case
  proof (cases "get_provider p (op_key c) \<noteq> None")
    case True
    with Cons.prems have "register_each wire cs p = (r, p')" by simp
    from Cons.IH [OF this] show ?thesis by auto
  next
    case new: False
    show ?thesis
    proof (cases "wire (op_metadata_url c)")
      case (Inl e)
      with Cons.prems new have "p' = p" by simp
      then show ?thesis by auto
    next
      case (Inr k)
      with Cons.prems new have "register_each wire cs (p\<lparr>oq_registered := oq_registered p @ [(c, k)]\<rparr>) = (r, p')" by simp
      from Cons.IH [OF this] show ?thesis by auto
    qed
  qed
qed simp

lemma ensure_registered_mem:
  assumes "ensure_registered env wire p = (r, p')"
    and "set (map fst (oq_registered p)) \<subseteq> set (enabled_providers env (get_oidc_config env p))"
  shows "set (map fst (oq_registered p')) \<subseteq> set (enabled_providers env (get_oidc_config env p')) \<and>
    oq_config p' = oq_config p"
proof (cases "oq_done p")
  case False
  obtain x p1 where run: "register_each wire (enabled_providers env (get_oidc_config env p)) p = (x, p1)" by fastforce
  have p': "oq_registered p' = oq_registered p1" "oq_config p' = oq_config p1"
    using assms(1) False run by (auto simp: ensure_registered_def register_providers_def Let_def split: sum.splits)
  note reg = register_each_mem [OF run]
  then have "get_oidc_config env p' = get_oidc_config env p" by (simp add: get_oidc_config_def p')
  then show ?thesis using reg assms(2) by (simp add: p') blast
qed (use assms in \<open>simp add: ensure_registered_def\<close>)

section \<open>A process and its peers\<close>

text \<open>One process: it saves, it re-reads, it registers; a peer over the same database saves.\<close>

inductive oidc_step :: "oidc_env \<Rightarrow> oidc_world \<Rightarrow> oidc_world \<Rightarrow> bool" for env where
  Save: "oidc_step env w (snd (update_oidc env ch now w))"
| Reread: "oidc_step env w (snd (refresh_oidc env now w))"
| Read: "oidc_step env w (snd (get_oidc env now w))"
| Register: "oidc_step env w (w\<lparr>ow_process := snd (ensure_registered env wire (ow_process w))\<rparr>)"
| Peer: "oidc_step env w
    ((snd (update_oidc env ch now (w\<lparr>ow_process := q\<rparr>)))\<lparr>ow_process := ow_process w\<rparr>)"

definition oidc_start :: oidc_world where
  "oidc_start =
     \<lparr>ow_row = None, ow_process = \<lparr>oq_config = None, oq_registered = [], oq_done = False\<rparr>, ow_notices = []\<rparr>"

inductive oidc_reach :: "oidc_env \<Rightarrow> oidc_world \<Rightarrow> bool" for env where
  start: "oidc_reach env oidc_start"
| step: "oidc_reach env w \<Longrightarrow> oidc_step env w w' \<Longrightarrow> oidc_reach env w'"

definition row_valid :: "oidc_env \<Rightarrow> oidc_world \<Rightarrow> bool" where
  "row_valid env w \<longleftrightarrow> (\<forall>c t. ow_row w = Some (c, t) \<longrightarrow> validate_config env (nullable c) = Inr ())"

definition process_valid :: "oidc_env \<Rightarrow> oidc_process \<Rightarrow> bool" where
  "process_valid env p \<longleftrightarrow> (\<forall>c. oq_config p = Some c \<longrightarrow> validate_config env (nullable c) = Inr ()) \<and>
     set (map fst (oq_registered p)) \<subseteq> set (enabled_providers env (get_oidc_config env p))"

lemma get_oidc_valid:
  assumes "get_oidc env now w = (r, w')" and "row_valid env w"
  shows "row_valid env w' \<and> ow_process w' = ow_process w \<and>
    (\<forall>c. r = Inr c \<longrightarrow> validate_config env (nullable c) = Inr ())"
  using assms by (auto simp: get_oidc_def row_valid_def split: option.splits sum.splits)

lemma install_valid:
  assumes "validate_config env (nullable c) = Inr ()"
  shows "process_valid env (ow_process (install_oidc c w))"
  using assms by (simp add: process_valid_def install_oidc_def reset_registration_def)

lemma update_oidc_valid:
  assumes "update_oidc env ch now w = (r, w')" and "row_valid env w"
  shows "row_valid env w' \<and> (ow_process w' = ow_process w \<or> process_valid env (ow_process w'))"
proof -
  obtain x w1 where g: "get_oidc env now w = (x, w1)" by fastforce
  note gv = get_oidc_valid [OF g assms(2)]
  show ?thesis
  proof (cases "\<exists>row c. x = Inr row \<and> validate_config env (oidc_candidate ch row) = Inr () \<and>
      oidc_row_of (oidc_candidate ch row) = Some c")
    case False
    then have "w' = w1" using assms(1) g by (auto simp: update_oidc_def Let_def split: sum.splits option.splits)
    then show ?thesis using gv by simp
  next
    case True
    then obtain row c where c: "x = Inr row" "validate_config env (oidc_candidate ch row) = Inr ()"
      "oidc_row_of (oidc_candidate ch row) = Some c" by blast
    have ok: "validate_config env (nullable c) = Inr ()" using c(2) oidc_row_of_Some [OF c(3)] by simp
    let ?v = "w1\<lparr>ow_row := Some (c, now), ow_notices := ow_notices w1 @ [''oidc'']\<rparr>"
    have w': "w' = install_oidc c ?v" using assms(1) g c by (simp add: update_oidc_def Let_def)
    have "ow_row w' = Some (c, now)" by (simp add: w' install_oidc_def)
    then show ?thesis using ok install_valid [OF ok, of ?v] by (auto simp: row_valid_def w')
  qed
qed

lemma refresh_oidc_valid:
  assumes "refresh_oidc env now w = (r, w')" and "row_valid env w"
  shows "row_valid env w' \<and> (ow_process w' = ow_process w \<or> process_valid env (ow_process w'))"
proof -
  obtain x w1 where g: "get_oidc env now w = (x, w1)" by fastforce
  note gv = get_oidc_valid [OF g assms(2)]
  show ?thesis
    using assms(1) gv g install_valid
    by (cases x) (auto simp: refresh_oidc_def row_valid_def install_oidc_def split: sum.splits)
qed

lemma oidc_step_valid:
  assumes "oidc_step env w w'" and "row_valid env w" and "process_valid env (ow_process w)"
  shows "row_valid env w' \<and> process_valid env (ow_process w')"
  using assms(1)
proof cases
  case (Save ch now)
  then show ?thesis using update_oidc_valid [OF prod.collapse [symmetric] assms(2)] assms(3) by metis
next
  case (Reread now)
  then show ?thesis using refresh_oidc_valid [OF prod.collapse [symmetric] assms(2)] assms(3) by metis
next
  case (Read now)
  then show ?thesis using get_oidc_valid [OF prod.collapse [symmetric] assms(2)] assms(3) by metis
next
  case (Register wire)
  then show ?thesis
    using ensure_registered_mem [where env = env and wire = wire and p = "ow_process w", OF prod.collapse [symmetric]] assms(2,3)
    by (simp add: row_valid_def process_valid_def)
next
  case (Peer ch now q)
  have "row_valid env (w\<lparr>ow_process := q\<rparr>)" using assms(2) by (simp add: row_valid_def)
  from update_oidc_valid [OF prod.collapse [symmetric] this] Peer assms(3) show ?thesis
    by (simp add: row_valid_def)
qed

lemma oidc_reach_valid: "oidc_reach env w \<Longrightarrow> row_valid env w \<and> process_valid env (ow_process w)"
proof (induction rule: oidc_reach.induct)
  case start
  then show ?case by (simp add: row_valid_def process_valid_def oidc_start_def)
next
  case (step w w')
  then show ?case using oidc_step_valid by blast
qed

text \<open>An explicit null is no "leave it alone" here: it reaches the candidate, and the save fails
  with something that is no \<^verbatim>\<open>ValueError\<close>.\<close>

definition oidc_fill :: "'s \<Rightarrow> 'b \<Rightarrow> ('s, 'b) oidc_fields" where
  "oidc_fill s b =
     \<lparr>oi_auth_mode = s, oi_redirect_base_url = s,
      oi_entra_enabled = b, oi_entra_client_id = s,
      oi_entra_tenant_id = s, oi_entra_scopes = s,
      oi_entra_role_claim = s, oi_entra_role_map = s,
      oi_authentik_enabled = b,
      oi_authentik_client_id = s,
      oi_authentik_base_url = s,
      oi_authentik_app_slug = s,
      oi_authentik_scopes = s,
      oi_authentik_role_claim = s,
      oi_authentik_role_map = s, oi_auth0_enabled = b,
      oi_auth0_client_id = s, oi_auth0_domain = s,
      oi_auth0_scopes = s, oi_auth0_role_claim = s,
      oi_auth0_role_map = s, oi_okta_enabled = b,
      oi_okta_client_id = s, oi_okta_domain = s,
      oi_okta_auth_server = s, oi_okta_scopes = s,
      oi_okta_role_claim = s, oi_okta_role_map = s\<rparr>"

definition demo_oidc :: oidc_config where
  "demo_oidc = (oidc_fill [] False)
     \<lparr>oi_auth_mode := ''both'', oi_auth0_enabled := True, oi_auth0_client_id := ''id'',
      oi_auth0_domain := ''t.auth0.com'', oi_auth0_scopes := ''openid email'',
      oi_auth0_role_map := ''staff=facilitator''\<rparr>"

definition demo_oidc_env :: oidc_env where
  "demo_oidc_env = \<lparr>oe_seed = demo_oidc, oe_client_secret = (\<lambda>k. if k = ''auth0'' then ''s'' else []),
     oe_allow_unverified_email = False\<rparr>"

definition no_oidc_changes :: oidc_changes where
  "no_oidc_changes = oidc_fill None None"

lemma null_breaks_the_save:
  "fst (update_oidc demo_oidc_env (no_oidc_changes\<lparr>oi_auth0_role_map := Some None\<rparr>) 1 oidc_start) = Inl attribute_error \<and>
   fst (update_oidc demo_oidc_env (no_oidc_changes\<lparr>oi_entra_enabled := Some None\<rparr>) 1 oidc_start) = Inl IntegrityError"
  by code_simp

section \<open>Properties\<close>

text \<open>C35: single sign-on offers the doors the settings name.  Whatever was saved, here or by a
  peer, and in whatever order the process registered its providers: a provider answers a login only
  if the loaded configuration enables it, with a client id, its secret and the openid scope; in
  local mode none does; and a configuration that turns the local login off has at least one such
  provider, so nobody is locked out by saving it.\<close>

theorem sso_doors_match_the_settings:
  assumes "oidc_reach env w" and "oq_config (ow_process w) = Some c"
  shows "(\<forall>k p. get_provider (ow_process w) k = Some p \<longrightarrow> p \<in> set (enabled_providers env c) \<and> op_key p = k) \<and>
    (\<forall>p\<in>set (enabled_providers env c). provider_ready p) \<and>
    (oi_auth_mode c = ''local'' \<longrightarrow> (\<forall>k. get_provider (ow_process w) k = None)) \<and>
    (\<not> local_auth c \<longrightarrow> enabled_providers env c \<noteq> [])"
proof -
  have v: "validate_config env (nullable c) = Inr ()"
    and reg: "set (map fst (oq_registered (ow_process w))) \<subseteq> set (enabled_providers env c)"
    using oidc_reach_valid [OF assms(1)] assms(2) by (simp_all add: process_valid_def get_oidc_config_def)
  have got: "p \<in> set (enabled_providers env c) \<and> op_key p = k"
    if "get_provider (ow_process w) k = Some p" for k p
    using that reg by (auto simp: get_provider_def find_Some_iff)
  have "oi_auth_mode c = ''oidc''" if "\<not> local_auth c"
    using v that by (auto simp: validate_config_def AUTH_MODES_def local_auth_def split: if_splits)
  moreover have "get_provider (ow_process w) k = None" if "oi_auth_mode c = ''local''" for k
    using got [of k] that by (cases "get_provider (ow_process w) k") (auto simp: enabled_providers_def oidc_auth_enabled_def)
  ultimately show ?thesis using got enabled_are_ready [OF v] sso_only_has_a_provider [OF v] by blast
qed

definition demo_doors :: oidc_world where
  "demo_doors =
     (let w = snd (refresh_oidc demo_oidc_env 1 oidc_start)
      in w\<lparr>ow_process := snd (ensure_registered demo_oidc_env (\<lambda>_. Inr NoKwargs) (ow_process w))\<rparr>)"

theorem sso_doors_match_the_settings_witness:
  "\<exists>p. get_provider (ow_process demo_doors) ''auth0'' = Some p \<and> provider_ready p \<and>
     op_metadata_url p = ''https://t.auth0.com/.well-known/openid-configuration''"
proof -
  have reach: "oidc_reach demo_oidc_env demo_doors"
    unfolding demo_doors_def Let_def
    by (rule oidc_reach.step [OF oidc_reach.step [OF oidc_reach.start oidc_step.Reread] oidc_step.Register])
  have "oq_config (ow_process demo_doors) = Some demo_oidc \<and>
    (case get_provider (ow_process demo_doors) ''auth0'' of None \<Rightarrow> False
     | Some p \<Rightarrow> op_metadata_url p = ''https://t.auth0.com/.well-known/openid-configuration'')"
    by code_simp
  then show ?thesis
    using sso_doors_match_the_settings [OF reach, of demo_oidc]
    by (cases "get_provider (ow_process demo_doors) ''auth0''") auto
qed

end
