(* ===== verification/Oidc.thy ===== *)
theory Oidc
  imports Oidc_Settings
begin

text \<open>
  Signing in through an identity provider: the claim adapters
  (\<^verbatim>\<open>app/services/oidc/base.py\<close>, \<^verbatim>\<open>entra.py\<close>), the account policy
  (\<^verbatim>\<open>app/services/oidc/service.py\<close>) and the two routes
  (\<^verbatim>\<open>app/routers/oidc.py\<close>).

  The OAuth library is outside: the outcome of its token exchange (an error, or the claims of the
  validated ID token, which may be missing) and of its userinfo request are arguments, as is the
  URL it redirects a login to.
\<close>

section \<open>Claims and identities\<close>

text \<open>A claim is a JSON value; of a list the \<^verbatim>\<open>str\<close> of the items and of the whole are
  kept, of any other value its truth and its \<^verbatim>\<open>str\<close>.\<close>

datatype claim =
    ClaimNull
  | ClaimStr string
  | ClaimBool bool
  | ClaimList "string list" string
  | ClaimOther bool string

type_synonym id_claims = "(string \<times> claim) list"

fun claim_true :: "claim \<Rightarrow> bool" where
  "claim_true ClaimNull = False"
| "claim_true (ClaimStr s) = (s \<noteq> [])"
| "claim_true (ClaimBool b) = b"
| "claim_true (ClaimList xs s) = (xs \<noteq> [])"
| "claim_true (ClaimOther b s) = b"

fun claim_str :: "claim \<Rightarrow> string" where
  "claim_str ClaimNull = ''None''"
| "claim_str (ClaimStr s) = s"
| "claim_str (ClaimBool b) = (if b then ''True'' else ''False'')"
| "claim_str (ClaimList xs s) = s"
| "claim_str (ClaimOther b s) = s"

text \<open>\<^verbatim>\<open>claims.get(name)\<close>, a missing claim and a null being one.\<close>

definition claim_get :: "id_claims \<Rightarrow> string \<Rightarrow> claim" where
  "claim_get claims name = (case map_of claims name of None \<Rightarrow> ClaimNull | Some c \<Rightarrow> c)"

record oidc_identity =
  id_subject :: string
  id_email :: string
  id_email_verified :: bool
  id_display_name :: string
  id_groups :: "string list"
  id_tenant :: "string option"

definition require_claim :: "id_claims \<Rightarrow> string list \<Rightarrow> exn + string" where
  "require_claim claims names =
     (case find claim_true (map (claim_get claims) names) of
        Some c \<Rightarrow> Inr (claim_str c)
      | None \<Rightarrow> Inl (ValueError (''ID token missing required claim(s): '' @
                     Launch_Snapshot.join '' / '' names)))"

definition groups_from :: "id_claims \<Rightarrow> string \<Rightarrow> string list" where
  "groups_from claims role_claim =
     (if role_claim = [] then []
      else case claim_get claims role_claim of
             ClaimNull \<Rightarrow> [] | ClaimStr s \<Rightarrow> [s] | ClaimList xs _ \<Rightarrow> xs | c \<Rightarrow> [claim_str c])"

text \<open>\<^verbatim>\<open>a or b or ... or last\<close>, as text.\<close>

definition first_true :: "claim list \<Rightarrow> string \<Rightarrow> string" where
  "first_true cs last1 = (case find claim_true cs of None \<Rightarrow> last1 | Some c \<Rightarrow> claim_str c)"

definition standard_identity :: "id_claims \<Rightarrow> string \<Rightarrow> exn + oidc_identity" where
  "standard_identity claims role_claim =
     and_then (require_claim claims [''sub'']) (\<lambda>subject.
     and_then (require_claim claims [''email'']) (\<lambda>email.
       Inr \<lparr>id_subject = subject, id_email = email,
            id_email_verified = claim_true (claim_get claims ''email_verified''),
            id_display_name =
              first_true [claim_get claims ''name'', claim_get claims ''preferred_username''] email,
            id_groups = groups_from claims role_claim, id_tenant = None\<rparr>))"

definition entra_identity :: "id_claims \<Rightarrow> string \<Rightarrow> exn + oidc_identity" where
  "entra_identity claims role_claim =
     and_then (require_claim claims [''sub'']) (\<lambda>subject.
     and_then (require_claim claims [''tid'']) (\<lambda>tenant.
     and_then (require_claim claims [''email'', ''preferred_username'']) (\<lambda>email.
       let edov = claim_get claims ''xms_edov'';
           asserted = (if edov \<noteq> ClaimNull then edov = ClaimBool True
                       else claim_get claims ''email_verified'' = ClaimBool True)
       in Inr \<lparr>id_subject = subject, id_email = email,
            id_email_verified = (claim_true (claim_get claims ''email'') \<and> asserted),
            id_display_name = first_true [claim_get claims ''name''] email,
            id_groups = groups_from claims role_claim, id_tenant = Some tenant\<rparr>)))"

definition get_adapter :: "string \<Rightarrow> (id_claims \<Rightarrow> string \<Rightarrow> exn + oidc_identity) option" where
  "get_adapter key =
     (if key = ''entra'' then Some entra_identity
      else if key \<in> {''authentik'', ''auth0'', ''okta''} then Some standard_identity
      else None)"

section \<open>The account policy\<close>

fun map_groups :: "role_map \<Rightarrow> string list \<Rightarrow> user_role" where
  "map_groups m [] = Participant"
| "map_groups m (g # gs) =
     (case dict_of m g of None \<Rightarrow> map_groups m gs
      | Some r \<Rightarrow> if r = [] then map_groups m gs
                  else (case parse_role r of Inl _ \<Rightarrow> map_groups m gs | Inr role \<Rightarrow> role))"

definition map_role :: "oidc_provider \<Rightarrow> oidc_identity \<Rightarrow> user_role" where
  "map_role cfg i = map_groups (op_role_map cfg) (id_groups i)"

text \<open>A refusal, or an exception that reaches the server.\<close>

datatype provision_error = Refused string | Crashed exn

definition synced_user :: "oidc_provider \<Rightarrow> oidc_identity \<Rightarrow> instant \<Rightarrow> user \<Rightarrow> user" where
  "synced_user cfg i now u =
     (let u1 = (if u_auth_tenant u = None \<and> id_tenant i \<noteq> None then u\<lparr>u_auth_tenant := id_tenant i\<rparr> else u)
      in if u_role_managed_by_idp u \<and> \<not> u_is_admin u \<and> map_role cfg i \<noteq> u_role u
         then u1\<lparr>u_role := map_role cfg i, u_token_valid_after := Some (whole_second now)\<rparr> else u1)"

definition connections_close :: "string \<Rightarrow> int \<Rightarrow> descriptor" where
  "connections_close me i =
     envelope me [(''event'', JStr ''user_connections_close''), (''user_id'', JInt i)]"

text \<open>The commit that carries an announcement published from inside its transaction.\<close>

definition commit_announcing :: "descriptor \<Rightarrow> session \<Rightarrow> session" where
  "commit_announcing note s = commit (s\<lparr>notified := notified s @ [note]\<rparr>)"

text \<open>The outcome, the session, and the users whose sockets this replica closes.\<close>

definition sync_returning_user ::
  "oidc_provider \<Rightarrow> oidc_identity \<Rightarrow> user \<Rightarrow> instant \<Rightarrow> session \<Rightarrow>
     (provision_error + user) \<times> session \<times> int list" where
  "sync_returning_user cfg i u now s =
     (if u_auth_tenant u \<noteq> None \<and> u_auth_tenant u \<noteq> id_tenant i
      then (Inl (Refused ''identity conflict''), s, [])
      else let v = synced_user cfg i now u
           in if v = u then (Inr u, s, [])
              else let s1 = execute (update_user (u_id u) (\<lambda>_. v)) s
                   in if u_role v = u_role u then (Inr v, commit s1, [])
                      else (Inr v, commit_announcing (connections_close (origin s) (u_id u)) s1, [u_id u]))"

definition identity_user :: "oidc_provider \<Rightarrow> oidc_identity \<Rightarrow> instant \<Rightarrow> database \<Rightarrow> user" where
  "identity_user cfg i now d =
     (let email = map latin_lower (strip (id_email i))
      in \<lparr>u_id = nextval TUser d, u_email = email,
          u_display_name = (if id_display_name i = [] then email else id_display_name i),
          u_hashed_password = None, u_role = map_role cfg i, u_team = None, u_is_active = True,
          u_is_admin = False, u_must_change_password = False, u_created_at = now,
          u_token_valid_after = None, u_auth_provider = op_key cfg, u_subject = Some (id_subject i),
          u_auth_tenant = id_tenant i, u_role_managed_by_idp = True\<rparr>)"

definition find_identity :: "database \<Rightarrow> string \<Rightarrow> string \<Rightarrow> user option" where
  "find_identity d provider subject =
     find (\<lambda>u. u_auth_provider u = provider \<and> u_subject u = Some subject) (users d)"

text \<open>Both unique constraints of the table.\<close>

definition insert_identity :: "user \<Rightarrow> database \<Rightarrow> exn + database" where
  "insert_identity u d =
     (if u_subject u \<noteq> None \<and> (\<exists>x\<in>set (users d). u_auth_provider x = u_auth_provider u \<and> u_subject x = u_subject u)
      then Inl IntegrityError else insert_user u d)"

definition provision_oidc_user ::
  "oidc_env \<Rightarrow> oidc_provider \<Rightarrow> oidc_identity \<Rightarrow> instant \<Rightarrow> session \<Rightarrow>
     (provision_error + user \<times> bool) \<times> session \<times> int list" where
  "provision_oidc_user env cfg i now s =
     (case find_identity (db s) (op_key cfg) (id_subject i) of
        Some u \<Rightarrow>
          if \<not> u_is_active u then (Inl (Refused ''account disabled''), s, [])
          else (case sync_returning_user cfg i u now s of
                  (Inl e, s1, cl) \<Rightarrow> (Inl e, s1, cl) | (Inr v, s1, cl) \<Rightarrow> (Inr (v, False), s1, cl))
      | None \<Rightarrow>
          (case get_by_email (db s) (map latin_lower (strip (id_email i))) of
             Some u \<Rightarrow>
               (Inl (Refused (if u_is_active u then ''account linking required'' else ''account disabled'')), s, [])
           | None \<Rightarrow>
               if \<not> id_email_verified i \<and> \<not> oe_allow_unverified_email env
               then (Inl (Refused ''email not verified by the identity provider''), s, [])
               else let u = identity_user cfg i now (db s)
                    in (case insert_identity u (db s) of
                          Inl e \<Rightarrow> (Inl (Crashed e), rollback s, [])
                        | Inr d \<Rightarrow> (Inr (u, True), commit (execute (\<lambda>_. d) s), []))))"

section \<open>The routes\<close>

definition callback_url :: "oidc_env \<Rightarrow> oidc_process \<Rightarrow> string \<Rightarrow> string \<Rightarrow> string" where
  "callback_url env p derived provider =
     (let base = oi_redirect_base_url (get_oidc_config env p)
      in if base \<noteq> [] then rstrip_slash base @ ''/api/auth/oidc/'' @ provider @ ''/callback'' else derived)"

definition unknown_provider :: exn where
  "unknown_provider = HTTPException 404 ''Unknown SSO provider''"

text \<open>The redirect URI a login hands to the library.\<close>

definition oidc_login ::
  "oidc_env \<Rightarrow> (string \<Rightarrow> exn + proxy_kwargs) \<Rightarrow> string \<Rightarrow> string \<Rightarrow> oidc_process \<Rightarrow>
     (exn + string) \<times> oidc_process" where
  "oidc_login env wire derived provider p =
     (case ensure_registered env wire p of
        (Inl e, p1) \<Rightarrow> (Inl e, p1)
      | (Inr _, p1) \<Rightarrow>
          (if get_provider p1 provider = None then Inl unknown_provider
           else Inr (callback_url env p1 derived provider), p1))"

datatype sso_answer = BackToLogin | SignedIn string

definition callback_claims :: "string + id_claims \<Rightarrow> id_claims option \<Rightarrow> id_claims option" where
  "callback_claims token fetched =
     (case token of Inl _ \<Rightarrow> None
      | Inr cs \<Rightarrow> if cs \<noteq> [] then Some cs
                  else (case fetched of None \<Rightarrow> None | Some cs' \<Rightarrow> if cs' = [] then None else Some cs'))"

definition sign_in ::
  "oidc_env \<Rightarrow> (token_payload \<Rightarrow> string) \<Rightarrow> auth_config \<Rightarrow> oidc_provider \<Rightarrow> oidc_identity \<Rightarrow> instant \<Rightarrow>
     session \<Rightarrow> (exn + sso_answer) \<times> session \<times> int list" where
  "sign_in env encode1 acfg cfg i now s =
     (case provision_oidc_user env cfg i now s of
        (Inl (Refused _), s1, cl) \<Rightarrow> (Inr BackToLogin, s1, cl)
      | (Inl (Crashed e), s1, cl) \<Rightarrow> (Inl e, s1, cl)
      | (Inr (u, _), s1, cl) \<Rightarrow> (Inr (SignedIn (create_access_token encode1 acfg u now)), s1, cl))"

definition oidc_callback ::
  "oidc_env \<Rightarrow> (string \<Rightarrow> exn + proxy_kwargs) \<Rightarrow> (token_payload \<Rightarrow> string) \<Rightarrow> auth_config \<Rightarrow> string \<Rightarrow>
     string + id_claims \<Rightarrow> id_claims option \<Rightarrow> instant \<Rightarrow> oidc_process \<Rightarrow> session \<Rightarrow>
     (exn + sso_answer) \<times> oidc_process \<times> session \<times> int list" where
  "oidc_callback env wire encode1 acfg provider token fetched now p s =
     (case ensure_registered env wire p of
        (Inl e, p1) \<Rightarrow> (Inl e, p1, s, [])
      | (Inr _, p1) \<Rightarrow>
          (case (get_provider p1 provider, get_adapter provider) of
             (Some cfg, Some adapter) \<Rightarrow>
               (case callback_claims token fetched of
                  None \<Rightarrow> (Inr BackToLogin, p1, s, [])
                | Some claims \<Rightarrow>
                    (case adapter claims (op_role_claim cfg) of
                       Inl _ \<Rightarrow> (Inr BackToLogin, p1, s, [])
                     | Inr i \<Rightarrow>
                         (let (r, s1, cl) = sign_in env encode1 acfg cfg i now s in (r, p1, s1, cl))))
           | _ \<Rightarrow> (Inl unknown_provider, p1, s, [])))"

section \<open>Lemmas\<close>

lemma find_identity_Some:
  "find_identity d pr sub = Some u \<Longrightarrow> u \<in> set (users d) \<and> u_auth_provider u = pr \<and> u_subject u = Some sub"
  by (auto simp: find_identity_def find_Some_iff)

lemma find_identity_None:
  "find_identity d pr sub = None \<longleftrightarrow> (\<forall>u\<in>set (users d). u_auth_provider u = pr \<longrightarrow> u_subject u \<noteq> Some sub)"
  by (auto simp: find_identity_def find_None_iff)

text \<open>What a returning login may change of its row.\<close>

definition same_account :: "user \<Rightarrow> user \<Rightarrow> bool" where
  "same_account u v \<longleftrightarrow>
     v\<lparr>u_role := u_role u, u_token_valid_after := u_token_valid_after u, u_auth_tenant := u_auth_tenant u\<rparr> = u"

lemma same_account_fields:
  "same_account u v \<Longrightarrow> u_id v = u_id u \<and> u_email v = u_email u \<and> u_hashed_password v = u_hashed_password u \<and>
     u_is_admin v = u_is_admin u \<and> u_is_active v = u_is_active u \<and> u_subject v = u_subject u"
  by (cases u; cases v) (simp add: same_account_def)

definition idp_role :: "oidc_provider \<Rightarrow> oidc_identity \<Rightarrow> user \<Rightarrow> user_role" where
  "idp_role cfg i u = (if u_role_managed_by_idp u \<and> \<not> u_is_admin u then map_role cfg i else u_role u)"

lemma synced_user_facts:
  "same_account u (synced_user cfg i now u) \<and> u_role (synced_user cfg i now u) = idp_role cfg i u \<and>
   (u_role (synced_user cfg i now u) \<noteq> u_role u \<longrightarrow>
      u_token_valid_after (synced_user cfg i now u) = Some (whole_second now)) \<and>
   (u_auth_tenant u = None \<longrightarrow> u_auth_tenant (synced_user cfg i now u) = id_tenant i) \<and>
   (u_auth_tenant u \<noteq> None \<longrightarrow> u_auth_tenant (synced_user cfg i now u) = u_auth_tenant u)"
  by (cases u) (simp add: synced_user_def same_account_def idp_role_def Let_def)

lemma sync_Inl:
  "sync_returning_user cfg i u now s = (Inl e, s', cl) \<Longrightarrow> s' = s \<and> cl = []"
  by (auto simp: sync_returning_user_def Let_def split: if_splits)

lemma update_where_self:
  assumes "distinct (map k rows)" and "u \<in> set rows"
  shows "update_where (\<lambda>r. k r = k u) (\<lambda>_. u) rows = rows"
proof -
  have "(if k r = k u then u else r) = r" if "r \<in> set rows" for r
    using assms that by (auto simp: distinct_map inj_on_def)
  then show ?thesis by (simp add: update_where_def map_idI)
qed

lemma get_row_replace:
  assumes "distinct (map idk rows)" and "distinct (map k rows)" and "u \<in> set rows"
    and "idk v = idk u" and "k v = k u"
  shows "get_row k (k u) (update_where (\<lambda>r. idk r = idk u) (\<lambda>_. v) rows) = Some v"
proof -
  let ?rows = "update_where (\<lambda>r. idk r = idk u) (\<lambda>_. v) rows"
  have "k (if idk r = idk u then v else r) = k r" if "r \<in> set rows" for r
    using assms that by (auto simp: distinct_map inj_on_def)
  then have "map k ?rows = map k rows" by (simp add: update_where_def)
  moreover have "v \<in> set ?rows" using assms(3) by (force simp: update_where_def)
  ultimately show ?thesis using get_row_unique [of k ?rows v] assms(2,5) by simp
qed

lemma sync_Inr:
  assumes "sync_returning_user cfg i u now s = (Inr v, s', cl)" and "committed s = db s"
    and "u \<in> set (users (db s))" and "distinct (map u_id (users (db s)))"
  shows "v = synced_user cfg i now u \<and> (u_auth_tenant u = None \<or> u_auth_tenant u = id_tenant i) \<and>
    committed s' = update_user (u_id u) (\<lambda>_. v) (db s) \<and>
    (u_role v \<noteq> u_role u \<longrightarrow> cl = [u_id u] \<and> connections_close (origin s) (u_id u) \<in> set (notified s'))"
proof -
  have same: "update_user (u_id u) (\<lambda>_. u) (db s) = db s"
    using update_where_self [OF assms(4,3)] by (simp add: update_user_def)
  then show ?thesis
    using assms(1,2)
    by (auto simp: sync_returning_user_def Let_def commit_announcing_def commit_def split: if_splits)
qed

lemma provision_cases:
  assumes run: "provision_oidc_user env cfg i now s = (r, s', cl)"
    and clean: "committed s = db s" and ids: "distinct (map u_id (users (db s)))"
  obtains
    (Refusal) e where "r = Inl e" "committed s' = db s" "cl = []"
  | (Returning) u v where "r = Inr (v, False)" "find_identity (db s) (op_key cfg) (id_subject i) = Some u"
      "u_is_active u" "sync_returning_user cfg i u now s = (Inr v, s', cl)"
  | (New) "r = Inr (identity_user cfg i now (db s), True)" "cl = []"
      "find_identity (db s) (op_key cfg) (id_subject i) = None"
      "get_by_email (db s) (map latin_lower (strip (id_email i))) = None"
      "id_email_verified i \<or> oe_allow_unverified_email env"
      "users (committed s') = users (db s) @ [identity_user cfg i now (db s)]"
proof (cases "find_identity (db s) (op_key cfg) (id_subject i)")
  case (Some u)
  show ?thesis
  proof (cases "u_is_active u")
    case True
    obtain x s1 c1 where sync: "sync_returning_user cfg i u now s = (x, s1, c1)" by (rule prod_cases3)
    show ?thesis
    proof (cases x)
      case (Inl e)
      then show ?thesis
        using run Some True sync sync_Inl [OF sync [unfolded Inl]] clean
        by (intro Refusal [of e]) (auto simp: provision_oidc_user_def)
    next
      case (Inr v)
      then show ?thesis
        using run Some True sync by (intro Returning [of v u]) (auto simp: provision_oidc_user_def)
    qed
  next
    case False
    then show ?thesis
      using run Some clean by (intro Refusal [of "Refused ''account disabled''"]) (auto simp: provision_oidc_user_def)
  qed
next
  case None
  let ?u = "identity_user cfg i now (db s)"
  show ?thesis
  proof (cases "get_by_email (db s) (map latin_lower (strip (id_email i))) = None \<and>
      (id_email_verified i \<or> oe_allow_unverified_email env)")
    case True
    have ins: "insert_identity ?u (db s) = Inr ((bump TUser (db s))\<lparr>users := users (db s) @ [?u]\<rparr>)"
      using None True
      by (auto simp: insert_identity_def insert_user_def email_exists_def identity_user_def find_identity_None Let_def)
    show ?thesis
      using run None True ins by (intro New) (auto simp: provision_oidc_user_def commit_def Let_def)
  next
    case False
    have "\<exists>e. r = Inl e \<and> s' = s \<and> cl = []"
      using run None False
      by (auto simp: provision_oidc_user_def Let_def split: option.splits if_splits)
    then show ?thesis using clean Refusal by blast
  qed
qed

section \<open>Properties\<close>

text \<open>C34: single sign-on never takes an account over.  A refused login changes nothing.  A login
  that returns a known identity reaches the one active row with that provider and subject, and may
  change its role (only when the identity provider manages it and it is no administrator), its
  token cut-off and an unset tenant, and nothing else anywhere in the table.  A first login adds one
  row without a password and without admin rights, for an address nobody had and an identity nobody
  had, which the provider vouched for unless the operator waived that.\<close>

theorem sso_never_takes_an_account:
  assumes "provision_oidc_user env cfg i now s = (r, s', cl)"
    and "committed s = db s" and "distinct (map u_id (users (db s)))"
  shows "case r of
      Inl e \<Rightarrow> users (committed s') = users (committed s)
    | Inr (v, True) \<Rightarrow> users (committed s') = users (committed s) @ [v] \<and>
        \<not> email_exists (committed s) (u_email v) \<and>
        find_identity (committed s) (op_key cfg) (id_subject i) = None \<and>
        u_hashed_password v = None \<and> \<not> u_is_admin v \<and> u_role v = map_role cfg i \<and>
        (id_email_verified i \<or> oe_allow_unverified_email env)
    | Inr (v, False) \<Rightarrow> \<exists>u. find_identity (committed s) (op_key cfg) (id_subject i) = Some u \<and>
        u_is_active u \<and> same_account u v \<and> u_role v = idp_role cfg i u \<and>
        (u_auth_tenant u \<noteq> None \<longrightarrow> u_auth_tenant u = id_tenant i \<and> u_auth_tenant v = id_tenant i) \<and>
        users (committed s') = update_where (\<lambda>x. u_id x = u_id u) (\<lambda>_. v) (users (committed s))"
  using assms
proof (cases rule: provision_cases)
  case (Refusal e)
  then show ?thesis using assms(2) by simp
next
  case (Returning u v)
  have u: "u \<in> set (users (db s))" using find_identity_Some [OF Returning(2)] by simp
  note f = sync_Inr [OF Returning(4) assms(2) u assms(3)]
  show ?thesis
    using Returning(1-3) f assms(2) synced_user_facts [of u cfg i now]
    by (auto simp: update_user_def intro!: exI [of _ u])
next
  case New
  then show ?thesis using assms(2) by (auto simp: email_exists_def identity_user_def Let_def)
qed

definition demo_provider :: oidc_provider where
  "demo_provider =
     \<lparr>op_key = ''auth0'', op_display_name = ''Auth0'', op_client_id = ''id'', op_client_secret = ''s'',
      op_metadata_url = ''https://t'', op_scopes = ''openid'', op_role_claim = ''roles'',
      op_role_map = [(''staff'', ''facilitator'')], op_issuer = []\<rparr>"

definition demo_identity :: "string list \<Rightarrow> oidc_identity" where
  "demo_identity groups =
     \<lparr>id_subject = ''sub1'', id_email = '' New@X.y'', id_email_verified = True, id_display_name = ''New'',
      id_groups = groups, id_tenant = None\<rparr>"

theorem sso_never_takes_an_account_witness:
  "\<exists>v s'. provision_oidc_user demo_oidc_env demo_provider (demo_identity [''staff'']) 5 (demo_accounts []) =
      (Inr (v, True), s', []) \<and> u_role v = Facilitator \<and> \<not> u_is_admin v \<and>
     users (committed s') = users (committed (demo_accounts [])) @ [v]"
proof -
  let ?r = "provision_oidc_user demo_oidc_env demo_provider (demo_identity [''staff'']) 5 (demo_accounts [])"
  have "(case fst ?r of Inr (v, True) \<Rightarrow> snd (snd ?r) = [] | _ \<Rightarrow> False)" by code_simp
  then obtain v s' where run: "?r = (Inr (v, True), s', [])"
    by (cases ?r) (auto split: sum.splits prod.splits bool.splits)
  have clean: "committed (demo_accounts []) = db (demo_accounts [])"
    "distinct (map u_id (users (db (demo_accounts []))))"
    by (simp_all add: demo_accounts_def demo_session_def open_session_def)
  have "map_role demo_provider (demo_identity [''staff'']) = Facilitator" by code_simp
  then show ?thesis using sso_never_takes_an_account [OF run clean] run by auto
qed

text \<open>A role taken away at the identity provider ends the sessions it was used in.  When a
  returning login changes the role of its account, the change is committed together with the notice
  that makes every other replica drop the user's sockets, this replica drops its own, every access
  token issued in an earlier second is refused, and the token the login issues is accepted with the
  new role.\<close>

lemma idp_downgrade_ends_sessions:
  assumes run: "provision_oidc_user env cfg i now s = (Inr (v, False), s', cl)"
    and clean: "committed s = db s" and ids: "distinct (map u_id (users (db s)))"
    and emails: "distinct (map u_email (users (db s)))"
    and changed: "get_user (db s) (u_id v) = Some u" "u_role v \<noteq> u_role u"
    and jwt: "jwt_faithful encode1 decode"
    and year: "-62135596800000000 \<le> now" "now < 253402300800000000"
  shows "cl = [u_id v] \<and> connections_close (origin s) (u_id v) \<in> set (notified s') \<and>
    (\<forall>p vr vt. tp_sub p = u_email v \<longrightarrow> -62135596800000000 \<le> whole_second (tp_iat p) \<longrightarrow>
       whole_second (tp_iat p) < whole_second now \<longrightarrow>
       resolve_user_from_token decode (committed s') (encode1 p) vr vt = Inr None) \<and>
    (\<forall>acfg vr vt. resolve_user_from_token decode (committed s') (create_access_token encode1 acfg v now) vr vt =
       Inr (Some (apply_role_preview (plain_user v) vr vt)))"
  using run clean ids
proof (cases rule: provision_cases)
  case (Returning u0 v0)
  have v0: "v0 = v" using Returning(1) by simp
  have u0: "u0 \<in> set (users (db s))" using find_identity_Some [OF Returning(2)] by simp
  note f = sync_Inr [OF Returning(4) clean u0 ids]
  have v: "v = synced_user cfg i now u0" using f v0 by simp
  have acc: "same_account u0 v" using synced_user_facts v by blast
  note fields = same_account_fields [OF acc]
  have "u0 = u" using changed(1) fields get_row_unique [OF ids u0] by (simp add: get_user_def)
  then have role: "u_role v \<noteq> u_role u0" using changed(2) by simp
  have cut: "u_token_valid_after v = Some (whole_second now)" "u_is_active v"
    using synced_user_facts [of u0 cfg i now] role v fields Returning(3) by auto
  have c: "committed s' = update_user (u_id u0) (\<lambda>_. v) (db s)" using f v0 by simp
  have email: "get_by_email (committed s') (u_email v) = Some v"
    using get_row_replace [OF ids emails u0, of v] fields by (simp add: c get_by_email_def update_user_def)
  have w: "whole_second now \<le> now" "-62135596800000000 \<le> whole_second now"
    using whole_second_le [of now] whole_second_mono [OF year(1)] whole_second_first by simp_all
  have old: "resolve_user_from_token decode (committed s') (encode1 p) vr vt = Inr None"
    if "tp_sub p = u_email v" "-62135596800000000 \<le> whole_second (tp_iat p)"
      "whole_second (tp_iat p) < whole_second now" for p vr vt
    using resolve_issued [OF jwt, of "committed s'" p v vr vt] email that w year cut
    by (simp add: token_revoked_def fromtimestamp_def)
  have new: "resolve_user_from_token decode (committed s') (create_access_token encode1 acfg v now) vr vt =
      Inr (Some (apply_role_preview (plain_user v) vr vt))" for acfg vr vt
    using resolve_issued [OF jwt, of "committed s'" _ v vr vt] email w year cut
    by (simp add: create_access_token_def token_revoked_def fromtimestamp_def)
  show ?thesis using f v0 role fields old new by auto
qed simp_all

definition demo_member_of_staff :: session where
  "demo_member_of_staff = demo_session (demo_draft_db\<lparr>users :=
     [(demo_user 10 Facilitator None)\<lparr>u_auth_provider := ''auth0'', u_subject := Some ''sub1'',
        u_role_managed_by_idp := True\<rparr>]\<rparr>)"

lemma idp_downgrade_ends_sessions_witness:
  "\<exists>v s'. provision_oidc_user demo_oidc_env demo_provider (demo_identity []) 5000000 demo_member_of_staff =
      (Inr (v, False), s', [10]) \<and> u_role v = Participant \<and>
     resolve_user_from_token demo_jwt_decode (committed s')
       (demo_encode \<lparr>tp_sub = u_email v, tp_role = ''facilitator'', tp_is_admin = False, tp_iat = 3000000,
          tp_exp = 9000000\<rparr>) None None = Inr None"
proof -
  let ?r = "provision_oidc_user demo_oidc_env demo_provider (demo_identity []) 5000000 demo_member_of_staff"
  have "(case fst ?r of Inr (v, False) \<Rightarrow> u_id v = 10 \<and> u_role v = Participant | _ \<Rightarrow> False)" by code_simp
  then obtain v s' cl where run: "?r = (Inr (v, False), s', cl)" and v: "u_id v = 10" "u_role v = Participant"
    by (cases ?r) (auto split: sum.splits prod.splits bool.splits)
  have clean: "committed demo_member_of_staff = db demo_member_of_staff"
    "distinct (map u_id (users (db demo_member_of_staff)))"
    "distinct (map u_email (users (db demo_member_of_staff)))"
    by (simp_all add: demo_member_of_staff_def demo_session_def open_session_def)
  obtain u where u: "get_user (db demo_member_of_staff) (u_id v) = Some u" "u_role u = Facilitator"
    by (auto simp: v demo_member_of_staff_def demo_session_def open_session_def get_user_def demo_user_def table_simps)
  have "cl = [u_id v]" and old: "\<And>p vr vt. tp_sub p = u_email v \<Longrightarrow>
      -62135596800000000 \<le> whole_second (tp_iat p) \<Longrightarrow> whole_second (tp_iat p) < whole_second 5000000 \<Longrightarrow>
      resolve_user_from_token demo_jwt_decode (committed s') (demo_encode p) vr vt = Inr None"
    using idp_downgrade_ends_sessions [OF run clean u(1) _ demo_jwt] u v by simp_all
  then show ?thesis using run v old by (simp add: whole_second_def SECOND_def)
qed

text \<open>The standard adapter takes any true value for a verified address, also the text "false";
  Entra's asks for the boolean.\<close>

lemma unverified_text_passes_for_verified:
  "(\<exists>i. standard_identity [(''sub'', ClaimStr ''1''), (''email'', ClaimStr ''a@b.c''),
      (''email_verified'', ClaimStr ''false'')] [] = Inr i \<and> id_email_verified i) \<and>
   (\<exists>i. entra_identity [(''sub'', ClaimStr ''1''), (''tid'', ClaimStr ''t''), (''email'', ClaimStr ''a@b.c''),
      (''email_verified'', ClaimStr ''false'')] [] = Inr i \<and> \<not> id_email_verified i)"
  by (simp add: standard_identity_def entra_identity_def require_claim_def claim_get_def Let_def)

end
