(* ===== verification/Audit_Log.thy ===== *)
theory Audit_Log
  imports Runtime_Settings
begin

text \<open>
  The audit trail (\<^verbatim>\<open>app/services/audit_service.py\<close>), its forwarding
  (\<^verbatim>\<open>siem_service.py\<close>), the bounded pool of deliveries
  (\<^verbatim>\<open>background.py\<close>) and the retention sweep (\<^verbatim>\<open>retention_service.py\<close>).

  Delivery itself (the database write of one row, the file, the sockets) is outside the model: an
  event is the value handed to it.  \<^verbatim>\<open>str(value)\<close> of what is not a string is the caller's.
\<close>

section \<open>Emitting an event\<close>

record request_context =
  rc_request_id :: "string option"
  rc_source_ip :: "string option"
  rc_method :: "string option"
  rc_path :: "string option"

definition no_context :: request_context where
  "no_context = \<lparr>rc_request_id = None, rc_source_ip = None, rc_method = None, rc_path = None\<rparr>"

text \<open>The arguments of \<^verbatim>\<open>emit\<close>.\<close>

record audit_call =
  al_action :: string
  al_result :: string
  al_actor :: "current_user option"
  al_target_type :: "string option"
  al_target_id :: "string option"
  al_reason :: "string option"
  al_severity :: string
  al_security_relevant :: bool

definition audit_call :: "string \<Rightarrow> current_user \<Rightarrow> string \<Rightarrow> string \<Rightarrow> string \<Rightarrow> audit_call" where
  "audit_call action actor target_type reason severity =
     \<lparr>al_action = action, al_result = ''success'', al_actor = Some actor, al_target_type = Some target_type,
      al_target_id = Some ''1'', al_reason = Some reason, al_severity = severity,
      al_security_relevant = True\<rparr>"

definition MAX_FIELD_LEN :: nat where "MAX_FIELD_LEN = 512"
definition MAX_PENDING_AUDIT_DELIVERIES :: nat where "MAX_PENDING_AUDIT_DELIVERIES = 128"

definition control_char :: "char \<Rightarrow> bool" where
  "control_char c = (let n = (of_char c :: nat) in n \<le> 31 \<or> n = 127)"

definition sanitize_text :: "string \<Rightarrow> string" where
  "sanitize_text s = take MAX_FIELD_LEN (map (\<lambda>c. if control_char c then CHR '' '' else c) s)"

definition sanitize :: "string option \<Rightarrow> string option" where
  "sanitize v = map_option sanitize_text v"

text \<open>\<^verbatim>\<open>getattr(actor, "actual_role", None) or getattr(actor, "role", None)\<close>.\<close>

definition actor_role :: "current_user \<Rightarrow> string" where
  "actor_role u = role_value (case actual_role u of None \<Rightarrow> u_role u | Some r \<Rightarrow> r)"

definition audit_row :: "request_context \<Rightarrow> audit_call \<Rightarrow> instant \<Rightarrow> int \<Rightarrow> audit_event" where
  "audit_row ctx a now i =
     \<lparr>ae_id = i, ae_created_at = now, ae_request_id = rc_request_id ctx, ae_source_ip = rc_source_ip ctx,
      ae_method = rc_method ctx, ae_path = rc_path ctx, ae_action = sanitize_text (al_action a),
      ae_result = (if al_result a = [] then ''success'' else al_result a),
      ae_actor_id = map_option (\<lambda>u. u_id u) (al_actor a),
      ae_actor_email = sanitize (map_option (\<lambda>u. u_email u) (al_actor a)),
      ae_actor_role = sanitize (map_option actor_role (al_actor a)),
      ae_target_type = sanitize (al_target_type a), ae_target_id = sanitize (al_target_id a),
      ae_reason = sanitize (al_reason a),
      ae_severity = (if al_severity a = [] then ''info'' else al_severity a),
      ae_security_relevant = al_security_relevant a\<rparr>"

text \<open>The pools of \<^verbatim>\<open>background.spawn_limited\<close>: a full bucket refuses.\<close>

type_synonym 'w pools = "string \<Rightarrow> 'w list"

definition spawn_limited :: "'w \<Rightarrow> string \<Rightarrow> nat \<Rightarrow> 'w pools \<Rightarrow> 'w pools" where
  "spawn_limited work bucket limit pools =
     (if limit \<le> length (pools bucket) then pools else pools(bucket := pools bucket @ [work]))"

definition finish_work :: "string \<Rightarrow> nat \<Rightarrow> 'w pools \<Rightarrow> 'w pools" where
  "finish_work bucket i pools = pools(bucket := take i (pools bucket) @ drop (Suc i) (pools bucket))"

text \<open>\<^verbatim>\<open>emit\<close> with a running loop: the row when persistence is on, the forwarding when the
  SIEM is enabled.  \<open>Persist\<close> and \<open>Forward\<close> are the two coroutines.\<close>

datatype delivery = Persist audit_event | Forward audit_event siem_config

definition audit_emit ::
  "settings_env \<Rightarrow> config_cache \<Rightarrow> request_context \<Rightarrow> audit_call \<Rightarrow> instant \<Rightarrow> int \<Rightarrow> delivery pools \<Rightarrow> delivery pools" where
  "audit_emit env cache ctx a now i pools =
     (let row = audit_row ctx a now i;
          pools1 = (if gn_audit_persist (get_general_config env cache)
                    then spawn_limited (Persist row) ''audit_persist'' MAX_PENDING_AUDIT_DELIVERIES pools
                    else pools)
      in if sk_enabled (cc_siem cache)
         then spawn_limited (Forward row (cc_siem cache)) ''audit_siem'' MAX_PENDING_AUDIT_DELIVERIES pools1
         else pools1)"

section \<open>Forwarding\<close>

definition severity_rank :: "string \<Rightarrow> nat" where
  "severity_rank s =
     (let l = map latin_lower (if s = [] then ''info'' else s)
      in if l = ''critical'' then 2 else if l = ''warning'' then 1 else 0)"

datatype sink = FileSink string | SyslogSink string int string int | HttpSink string

definition OUTBOX_SIZE :: nat where "OUTBOX_SIZE = 500"

definition syslog_severity :: "string \<Rightarrow> int" where
  "syslog_severity s =
     (let l = map latin_lower (if s = [] then ''info'' else s)
      in if l = ''warning'' then 4 else if l = ''critical'' then 2 else 6)"

text \<open>The sinks one event is written to, with the destination (for syslog the host, the port, the
  transport and the PRI value), and the ring of the last events that passed the gate.\<close>

definition siem_emit :: "siem_config \<Rightarrow> audit_event \<Rightarrow> audit_event list \<Rightarrow> sink list \<times> audit_event list" where
  "siem_emit cfg ev outbox =
     (if \<not> sk_enabled cfg then ([], outbox)
      else if severity_rank (ae_severity ev) < severity_rank (sk_min_severity cfg) then ([], outbox)
      else ((if ''file'' \<in> sk_methods cfg \<and> sk_file_path cfg \<noteq> [] then [FileSink (sk_file_path cfg)] else []) @
            (if ''syslog'' \<in> sk_methods cfg
             then [SyslogSink (sk_syslog_host cfg) (sk_syslog_port cfg)
                     (if map ascii_upper (sk_syslog_protocol cfg) = ''TCP'' then ''TCP'' else ''UDP'')
                     (sk_syslog_facility cfg * 8 + syslog_severity (ae_severity ev))] else []) @
            (if ''http'' \<in> sk_methods cfg \<and> sk_http_endpoint cfg \<noteq> []
             then [HttpSink (sk_http_endpoint cfg)] else []),
            (let all = outbox @ [ev] in drop (length all - OUTBOX_SIZE) all)))"

section \<open>Reading the trail\<close>

definition EVENT_LIMIT :: nat where "EVENT_LIMIT = 200"

text \<open>\<^verbatim>\<open>ILIKE\<close>: \<^verbatim>\<open>%\<close> and \<^verbatim>\<open>_\<close> are wildcards, a backslash
  quotes the next character.\<close>

fun like :: "string \<Rightarrow> string \<Rightarrow> bool" where
  "like [] s = (s = [])"
| "like (p # ps) s =
     (if p = CHR ''%'' then like ps s \<or> (case s of [] \<Rightarrow> False | _ # cs \<Rightarrow> like (p # ps) cs)
      else if p = CHR 0x5C \<and> ps \<noteq> []
      then (case s of [] \<Rightarrow> False | c # cs \<Rightarrow> c = hd ps \<and> like (tl ps) cs)
      else (case s of [] \<Rightarrow> False | c # cs \<Rightarrow> (p = CHR ''_'' \<or> c = p) \<and> like ps cs))"

definition ilike :: "string \<Rightarrow> string \<Rightarrow> bool" where
  "ilike pattern s = like (map latin_lower pattern) (map latin_lower s)"

definition asked :: "string option \<Rightarrow> string \<Rightarrow> bool" where
  "asked filter1 v \<longleftrightarrow> \<not> truthy filter1 \<or> filter1 = Some v"

definition list_events ::
  "current_user \<Rightarrow> string option \<Rightarrow> string option \<Rightarrow> string option \<Rightarrow> string option \<Rightarrow> database \<Rightarrow>
     exn + audit_event list" where
  "list_events u action severity result actor d =
     and_then (require_admin u) (\<lambda>_. Inr (take EVENT_LIMIT (sort_key (\<lambda>e. - ae_created_at e)
       (filter (\<lambda>e. asked action (ae_action e) \<and> asked severity (ae_severity e) \<and>
          asked result (ae_result e) \<and>
          (\<not> truthy actor \<or> (case ae_actor_email e of None \<Rightarrow> False
             | Some m \<Rightarrow> ilike (CHR ''%'' # the actor @ ''%'') m))) (audit_events d)))))"

section \<open>Retention\<close>

definition PURGE_BATCH :: nat where "PURGE_BATCH = 5000"
definition MAX_BATCHES :: nat where "MAX_BATCHES = 200"
definition DAY :: int where "DAY = 86400 * SECOND"

text \<open>One table behind the loop: how to read and to write its rows, and the primary key.
  \<open>pick\<close> is the database's choice of the rows a \<^verbatim>\<open>LIMIT\<close> without an order returns.\<close>

record ('r, 'd) purged_table =
  pt_rows :: "'d \<Rightarrow> 'r list"
  pt_put :: "'r list \<Rightarrow> 'd \<Rightarrow> 'd"
  pt_key :: "'r \<Rightarrow> int"

definition delete_batch ::
  "(nat \<Rightarrow> 'r list \<Rightarrow> 'r list) \<Rightarrow> ('r, database) purged_table \<Rightarrow> ('r \<Rightarrow> bool) \<Rightarrow> session \<Rightarrow> nat \<times> session" where
  "delete_batch pick t dead s =
     (let rows = pt_rows t (db s);
          ids = map (pt_key t) (pick PURGE_BATCH (filter dead rows))
      in (length (filter (\<lambda>r. pt_key t r \<in> set ids) rows),
          commit (execute (pt_put t (filter (\<lambda>r. pt_key t r \<notin> set ids) rows)) s)))"

text \<open>The loop: the total, whether the cap was reached, and the session.\<close>

fun purge_in_batches ::
  "(nat \<Rightarrow> 'r list \<Rightarrow> 'r list) \<Rightarrow> ('r, database) purged_table \<Rightarrow> ('r \<Rightarrow> bool) \<Rightarrow> nat \<Rightarrow> session \<Rightarrow>
     nat \<times> bool \<times> session" where
  "purge_in_batches pick t dead n s =
     (if n = 0 then (0, True, s)
      else let (deleted, s1) = delete_batch pick t dead s
           in if deleted < PURGE_BATCH then (deleted, False, s1)
              else let (total, capped, s2) = purge_in_batches pick t dead (n - 1) s1
                   in (deleted + total, capped, s2))"

declare purge_in_batches.simps [simp del]

definition audit_table :: "(audit_event, database) purged_table" where
  "audit_table = \<lparr>pt_rows = audit_events, pt_put = (\<lambda>rows d. d\<lparr>audit_events := rows\<rparr>), pt_key = ae_id\<rparr>"

definition token_table :: "(auth_token, database) purged_table" where
  "token_table = \<lparr>pt_rows = auth_tokens, pt_put = (\<lambda>rows d. d\<lparr>auth_tokens := rows\<rparr>), pt_key = tk_id\<rparr>"

definition expired_event :: "int \<Rightarrow> instant \<Rightarrow> audit_event \<Rightarrow> bool" where
  "expired_event retention_days now e \<longleftrightarrow> ae_created_at e < now - retention_days * DAY"

definition purge_audit_events ::
  "(nat \<Rightarrow> audit_event list \<Rightarrow> audit_event list) \<Rightarrow> int \<Rightarrow> instant \<Rightarrow> session \<Rightarrow> nat \<times> bool \<times> session" where
  "purge_audit_events pick retention_days now s =
     (if retention_days \<le> 0 then (0, False, s)
      else purge_in_batches pick audit_table (expired_event retention_days now) MAX_BATCHES s)"

definition TOKEN_EXPIRED_GRACE :: int where "TOKEN_EXPIRED_GRACE = 7 * DAY"
definition TOKEN_USED_GRACE :: int where "TOKEN_USED_GRACE = 1 * DAY"

definition dead_token :: "instant \<Rightarrow> auth_token \<Rightarrow> bool" where
  "dead_token now t \<longleftrightarrow>
     (case tk_used_at t of None \<Rightarrow> False | Some u \<Rightarrow> u < now - TOKEN_USED_GRACE) \<or>
     tk_expires_at t < now - TOKEN_EXPIRED_GRACE"

definition purge_auth_tokens ::
  "(nat \<Rightarrow> auth_token list \<Rightarrow> auth_token list) \<Rightarrow> instant \<Rightarrow> session \<Rightarrow> nat \<times> bool \<times> session" where
  "purge_auth_tokens pick now s = purge_in_batches pick token_table (dead_token now) MAX_BATCHES s"

text \<open>One pass: the counts, the event that records it, and the state.\<close>

definition retention_sweep_once ::
  "settings_env \<Rightarrow> (nat \<Rightarrow> audit_event list \<Rightarrow> audit_event list) \<Rightarrow> (nat \<Rightarrow> auth_token list \<Rightarrow> auth_token list) \<Rightarrow>
     instant \<Rightarrow> config_world \<Rightarrow> session \<Rightarrow> (nat \<times> nat) \<times> audit_call list \<times> config_world \<times> session" where
  "retention_sweep_once env pick_events pick_tokens now w s =
     (let (row, w1) = get_audit env w;
          (events, _, s1) = purge_audit_events pick_events (au_retention_days row) now s;
          (tokens, _, s2) = purge_auth_tokens pick_tokens now s1
      in ((events, tokens),
          (if events = 0 \<and> tokens = 0 then []
           else [\<lparr>al_action = ''audit.retention_purge'', al_result = ''success'', al_actor = None,
                  al_target_type = Some ''audit_settings'', al_target_id = None,
                  al_reason = Some (''events='' @ show_nat events @ '' tokens='' @ show_nat tokens @
                    '' retention_days='' @ show_int (au_retention_days row)),
                  al_severity = ''warning'', al_security_relevant = True\<rparr>]),
          w1, s2))"

section \<open>Lemmas: the trail\<close>

definition clean_text :: "string \<Rightarrow> bool" where
  "clean_text s \<longleftrightarrow> length s \<le> MAX_FIELD_LEN \<and> (\<forall>c\<in>set s. \<not> control_char c)"

lemma sanitized_is_clean: "clean_text (sanitize_text s)"
proof -
  have "\<not> control_char (CHR '' '')" by (simp add: control_char_def)
  then show ?thesis by (auto simp: clean_text_def sanitize_text_def dest!: in_set_takeD split: if_splits)
qed

lemma sanitize_clean: "sanitize v = Some s \<Longrightarrow> clean_text s"
  using sanitized_is_clean by (auto simp: sanitize_def)

lemma audit_row_clean:
  "clean_text (ae_action (audit_row ctx a now i))"
  "ae_reason (audit_row ctx a now i) = Some s \<Longrightarrow> clean_text s"
  "ae_actor_email (audit_row ctx a now i) = Some s \<Longrightarrow> clean_text s"
  "ae_target_id (audit_row ctx a now i) = Some s \<Longrightarrow> clean_text s"
  using sanitized_is_clean sanitize_clean by (auto simp: audit_row_def)

text \<open>A pool never holds more than its limit, whatever is emitted.\<close>

lemma spawn_limited_bound:
  "length (pools b) \<le> limit \<Longrightarrow> length (spawn_limited work b limit pools b) \<le> limit"
  by (simp add: spawn_limited_def)

lemma spawn_limited_other: "b \<noteq> b' \<Longrightarrow> spawn_limited work b limit pools b' = pools b'"
  by (simp add: spawn_limited_def)

lemma audit_emit_bound:
  assumes "\<forall>b. length (pools b) \<le> MAX_PENDING_AUDIT_DELIVERIES"
  shows "\<forall>b. length (audit_emit env cache ctx a now i pools b) \<le> MAX_PENDING_AUDIT_DELIVERIES"
proof -
  have one: "\<forall>b. length (spawn_limited w bucket MAX_PENDING_AUDIT_DELIVERIES ps b) \<le> MAX_PENDING_AUDIT_DELIVERIES"
    if "\<forall>b. length (ps b) \<le> MAX_PENDING_AUDIT_DELIVERIES" for w bucket and ps :: "delivery pools"
  proof
    fix b show "length (spawn_limited w bucket MAX_PENDING_AUDIT_DELIVERIES ps b) \<le> MAX_PENDING_AUDIT_DELIVERIES"
      using that by (cases "b = bucket") (simp_all add: spawn_limited_bound spawn_limited_other)
  qed
  show ?thesis using assms one by (simp add: audit_emit_def Let_def)
qed

text \<open>The path of a request is stored as it came: an escape sequence in the URL reaches the row.\<close>

lemma request_path_is_not_sanitized:
  "ae_path (audit_row (no_context\<lparr>rc_path := Some [CHR ''/'', CHR 0x1B]\<rparr>) a now i) = Some [CHR ''/'', CHR 0x1B] \<and>
   \<not> clean_text [CHR ''/'', CHR 0x1B]"
  by (simp add: audit_row_def clean_text_def control_char_def)

section \<open>Lemmas: the purge\<close>

text \<open>What the database promises of \<^verbatim>\<open>SELECT ... LIMIT n\<close>: some of the rows, each once, as many
  as there are up to \<open>n\<close>.\<close>

definition limit_query :: "(nat \<Rightarrow> 'r list \<Rightarrow> 'r list) \<Rightarrow> bool" where
  "limit_query pick \<longleftrightarrow> (\<forall>n xs. set (pick n xs) \<subseteq> set xs \<and> length (pick n xs) = min n (length xs) \<and>
     (distinct xs \<longrightarrow> distinct (pick n xs)))"

definition table_ok :: "('r, 'd) purged_table \<Rightarrow> bool" where
  "table_ok t \<longleftrightarrow> (\<forall>rows d. pt_rows t (pt_put t rows d) = rows) \<and>
     (\<forall>a b d. pt_put t a (pt_put t b d) = pt_put t a d) \<and> (\<forall>d. pt_put t (pt_rows t d) d = d)"

lemma tables_ok: "table_ok audit_table" "table_ok token_table"
  by (simp_all add: table_ok_def audit_table_def token_table_def)

lemma length_filter_set:
  assumes "distinct xs" and "set ys \<subseteq> set xs" and "distinct ys"
  shows "length (filter (\<lambda>x. x \<in> set ys) xs) = length ys"
proof -
  have "set (filter (\<lambda>x. x \<in> set ys) xs) = set ys" using assms(2) by auto
  then show ?thesis using assms(1,3) by (metis distinct_card distinct_filter)
qed

lemma delete_batch_effect:
  assumes pick: "limit_query pick" and t: "table_ok t" and keys: "distinct (map (pt_key t) (pt_rows t (db s)))"
    and run: "delete_batch pick t dead s = (k, s')"
  shows "k = min PURGE_BATCH (length (filter dead (pt_rows t (db s)))) \<and>
    filter (\<lambda>r. \<not> dead r) (pt_rows t (db s')) = filter (\<lambda>r. \<not> dead r) (pt_rows t (db s)) \<and>
    length (filter dead (pt_rows t (db s'))) = length (filter dead (pt_rows t (db s))) - k \<and>
    distinct (map (pt_key t) (pt_rows t (db s'))) \<and>
    db s' = pt_put t (pt_rows t (db s')) (db s) \<and> committed s' = db s'"
proof -
  let ?rows = "pt_rows t (db s)"
  define got where "got = pick PURGE_BATCH (filter dead ?rows)"
  have drows: "distinct ?rows" using keys by (simp add: distinct_map)
  have got: "set got \<subseteq> set (filter dead ?rows)" "length got = min PURGE_BATCH (length (filter dead ?rows))"
    "distinct got"
    using pick drows unfolding limit_query_def got_def by (blast, blast, simp)
  have inj: "inj_on (pt_key t) (set ?rows)" using keys by (simp add: distinct_map)
  have mem: "pt_key t r \<in> set (map (pt_key t) got) \<longleftrightarrow> r \<in> set got" if "r \<in> set ?rows" for r
    using that got(1) inj by (auto simp: inj_on_def)
  have sel: "filter (\<lambda>r. pt_key t r \<in> set (map (pt_key t) got)) ?rows = filter (\<lambda>r. r \<in> set got) ?rows"
    by (rule filter_cong [OF refl]) (rule mem)
  have rest: "filter (\<lambda>r. pt_key t r \<notin> set (map (pt_key t) got)) ?rows = filter (\<lambda>r. r \<notin> set got) ?rows"
    by (rule filter_cong [OF refl]) (simp only: mem)
  have k: "k = length got"
    using run length_filter_set [OF drows, of got] got sel by (auto simp: delete_batch_def got_def Let_def)
  have db: "db s' = pt_put t (filter (\<lambda>r. r \<notin> set got) ?rows) (db s)" "committed s' = db s'"
    using run rest by (auto simp: delete_batch_def got_def Let_def execute_def commit_def)
  have rows': "pt_rows t (db s') = filter (\<lambda>r. r \<notin> set got) ?rows" using t by (simp add: db table_ok_def)
  have live: "filter (\<lambda>r. \<not> dead r) (pt_rows t (db s')) = filter (\<lambda>r. \<not> dead r) ?rows"
    unfolding rows' filter_filter by (rule filter_cong) (use got(1) in auto)
  have "length (filter dead ?rows) =
      length (filter (\<lambda>r. r \<in> set got) (filter dead ?rows)) + length (filter (\<lambda>r. r \<notin> set got) (filter dead ?rows))"
    by (rule sum_length_filter_compl [symmetric])
  moreover have "filter (\<lambda>r. r \<in> set got) (filter dead ?rows) = filter (\<lambda>r. r \<in> set got) ?rows"
    unfolding filter_filter by (rule filter_cong) (use got(1) in auto)
  moreover have "length (filter (\<lambda>r. r \<in> set got) ?rows) = length got"
    using length_filter_set [OF drows _ got(3)] got(1) by auto
  moreover have "filter (\<lambda>r. r \<notin> set got) (filter dead ?rows) = filter dead (pt_rows t (db s'))"
    unfolding rows' filter_filter by (rule filter_cong) auto
  ultimately have "length (filter dead (pt_rows t (db s'))) = length (filter dead ?rows) - k" by (simp add: k)
  moreover have "distinct (map (pt_key t) (pt_rows t (db s')))" using keys by (simp add: rows' distinct_map_filter)
  ultimately show ?thesis using k got(2) live db rows' by simp
qed

lemma purge_effect:
  assumes "limit_query pick" and "table_ok t" and "distinct (map (pt_key t) (pt_rows t (db s)))"
    and "purge_in_batches pick t dead n s = (gone, capped, s')"
  shows "gone = min (n * PURGE_BATCH) (length (filter dead (pt_rows t (db s)))) \<and>
    filter (\<lambda>r. \<not> dead r) (pt_rows t (db s')) = filter (\<lambda>r. \<not> dead r) (pt_rows t (db s)) \<and>
    length (filter dead (pt_rows t (db s'))) = length (filter dead (pt_rows t (db s))) - gone \<and>
    (capped \<longleftrightarrow> n * PURGE_BATCH \<le> length (filter dead (pt_rows t (db s)))) \<and>
    distinct (map (pt_key t) (pt_rows t (db s'))) \<and>
    db s' = pt_put t (pt_rows t (db s')) (db s)"
  using assms(3,4)
proof (induction n arbitrary: s gone capped)
  case 0
  then show ?case using assms(2) by (simp add: purge_in_batches.simps table_ok_def)
next
  case (Suc n)
  obtain k s1 where run: "delete_batch pick t dead s = (k, s1)" by fastforce
  note e = delete_batch_effect [OF assms(1,2) Suc.prems(1) run]
  let ?m = "length (filter dead (pt_rows t (db s)))"
  show ?case
  proof (cases "k < PURGE_BATCH")
    case True
    then have "gone = k" "\<not> capped" "s' = s1"
      using Suc.prems(2) by (auto simp: purge_in_batches.simps [of _ _ _ "Suc n"] run)
    moreover have "k = ?m" using e True by simp
    moreover have "k < Suc n * PURGE_BATCH" using True by simp
    ultimately show ?thesis using e by simp
  next
    case False
    then have kb: "k = PURGE_BATCH" "PURGE_BATCH \<le> ?m" using e by simp_all
    obtain gone1 where rec: "purge_in_batches pick t dead n s1 = (gone1, capped, s')"
      and gone: "gone = k + gone1"
      using Suc.prems(2) False
      by (auto simp: purge_in_batches.simps [of _ _ _ "Suc n"] run Let_def split: prod.splits)
    have d1: "distinct (map (pt_key t) (pt_rows t (db s1)))" using e by simp
    note IH = Suc.IH [OF d1 rec]
    have len: "length (filter dead (pt_rows t (db s1))) = ?m - PURGE_BATCH" using e kb by simp
    have "db s' = pt_put t (pt_rows t (db s')) (db s)"
      using IH e assms(2) by (metis table_ok_def)
    then show ?thesis using IH e kb gone len by auto
  qed
qed

text \<open>One pass over the trail, and as many as are asked for.\<close>

lemma million: "MAX_BATCHES * PURGE_BATCH = 1000000"
  by (simp add: MAX_BATCHES_def PURGE_BATCH_def)

lemma purge_events_pass:
  assumes "limit_query pick" and "distinct (map ae_id (audit_events (db s)))" and "0 < days"
    and "purge_audit_events pick days now s = (gone, capped, s')"
  shows "gone = min 1000000 (length (filter (expired_event days now) (audit_events (db s)))) \<and>
    filter (\<lambda>e. \<not> expired_event days now e) (audit_events (db s')) =
      filter (\<lambda>e. \<not> expired_event days now e) (audit_events (db s)) \<and>
    length (filter (expired_event days now) (audit_events (db s'))) =
      length (filter (expired_event days now) (audit_events (db s))) - gone \<and>
    (capped \<longleftrightarrow> 1000000 \<le> length (filter (expired_event days now) (audit_events (db s)))) \<and>
    distinct (map ae_id (audit_events (db s'))) \<and>
    db s' = (db s)\<lparr>audit_events := audit_events (db s')\<rparr>"
  using purge_effect [OF assms(1) tables_ok(1), of s "expired_event days now" MAX_BATCHES gone capped s'] assms million
  by (simp add: purge_audit_events_def audit_table_def)

lemma purge_events_passes:
  assumes "limit_query pick" and "0 < days" and "distinct (map ae_id (audit_events (db s)))"
    and "length (filter (expired_event days now) (audit_events (db s))) \<le> k * 1000000"
  shows "audit_events (db (((\<lambda>t. snd (snd (purge_audit_events pick days now t))) ^^ k) s)) =
    filter (\<lambda>e. \<not> expired_event days now e) (audit_events (db s))"
  using assms(3,4)
proof (induction k arbitrary: s)
  case 0
  then show ?case by (simp add: filter_empty_conv filter_id_conv)
next
  case (Suc k)
  obtain gone capped s' where run: "purge_audit_events pick days now s = (gone, capped, s')"
    using prod_cases3 by blast
  note e = purge_events_pass [OF assms(1) Suc.prems(1) assms(2) run]
  have "length (filter (expired_event days now) (audit_events (db s'))) \<le> k * 1000000"
    using e Suc.prems(2) by simp
  with Suc.IH [of s'] e show ?case by (simp add: funpow_Suc_right run del: funpow.simps)
qed

section \<open>Properties\<close>


lemma limit_query_take: "limit_query take"
  by (auto simp: limit_query_def min.commute dest: in_set_takeD)

definition demo_event :: "int \<Rightarrow> instant \<Rightarrow> audit_event" where
  "demo_event i at = (audit_row no_context (audit_call ''auth.login'' (plain_user (demo_user 10 Facilitator None))
     ''user'' ''ok'' ''info'') at i)"


end
