(* ===== verification/Config_Sync.thy ===== *)
theory Config_Sync
  imports Runtime_Settings
begin

text \<open>
  Keeping the settings caches of every replica honest (\<^verbatim>\<open>app/services/config_sync.py\<close>):
  the replicas of a deployment over one database and one bus, as a step relation.

  A saved row is announced to every replica that listens; a replica re-reads the rows named by
  the announcements in its queue, in order, and re-reads all of them when its subscription is
  established again.  \<open>rp_missed\<close> is no state of the program: it records the scopes whose
  announcement the replica did not get (it was not listening, or its queue was full) or failed to
  load at startup, since it last read that row.
\<close>

section \<open>Refreshing\<close>

text \<open>The refreshers in the order of \<^verbatim>\<open>SCOPES\<close>.  The sixth, \<^verbatim>\<open>oidc\<close>,
  reads the row of \<open>Oidc_Settings\<close>, whose process state is kept apart.\<close>

definition SCOPES :: "string list" where
  "SCOPES = [''proxy'', ''siem'', ''email'', ''general'', ''llm'', ''oidc'']"

definition refresher ::
  "settings_env \<Rightarrow> instant \<Rightarrow> string \<Rightarrow> (config_world \<Rightarrow> (exn + unit) \<times> config_world) option" where
  "refresher env now =
     [''proxy'' \<mapsto> refresh_proxy env now, ''siem'' \<mapsto> refresh_audit env,
      ''email'' \<mapsto> refresh_email env now, ''general'' \<mapsto> refresh_general env now,
      ''llm'' \<mapsto> refresh_llm env now, ''oidc'' \<mapsto> Pair (Inr ())]"

definition refresh_scope ::
  "settings_env \<Rightarrow> instant \<Rightarrow> string \<Rightarrow> config_world \<Rightarrow> (exn + unit) \<times> config_world" where
  "refresh_scope env now scope w =
     (case refresher env now scope of None \<Rightarrow> (Inr (), w) | Some r \<Rightarrow> r w)"

text \<open>Every scope, whatever the others raise.\<close>

definition refresh_all :: "settings_env \<Rightarrow> instant \<Rightarrow> config_world \<Rightarrow> config_world" where
  "refresh_all env now = fold (\<lambda>scope w. snd (refresh_scope env now scope w)) SCOPES"

section \<open>The deployment\<close>

record replica =
  rp_cache :: config_cache
  rp_listening :: bool
  rp_first_connect :: bool
  rp_queue :: "string list"
  rp_missed :: "string set"

record cluster =
  cl_rows :: config_rows
  cl_replicas :: "nat \<Rightarrow> replica option"

definition world_of :: "config_rows \<Rightarrow> replica \<Rightarrow> config_world" where
  "world_of rows p = \<lparr>cw_rows = rows, cw_cache = rp_cache p, cw_notices = []\<rparr>"

definition QUEUE_MAXSIZE :: nat where "QUEUE_MAXSIZE = 1000"

text \<open>\<^verbatim>\<open>Listener._on_notify\<close> of a replica that is subscribed.\<close>

definition on_notify :: "string \<Rightarrow> replica \<Rightarrow> replica" where
  "on_notify scope p =
     (if rp_listening p \<and> length (rp_queue p) < QUEUE_MAXSIZE
      then p\<lparr>rp_queue := rp_queue p @ [scope]\<rparr>
      else p\<lparr>rp_missed := insert scope (rp_missed p)\<rparr>)"

definition announce :: "string list \<Rightarrow> (nat \<Rightarrow> replica option) \<Rightarrow> nat \<Rightarrow> replica option" where
  "announce scopes ps r = map_option (fold on_notify scopes) (ps r)"

text \<open>The outcome of a service call on replica \<open>r\<close>: its rows are everybody's, its cache is
  its own, its announcements go to all.\<close>

definition after_call :: "nat \<Rightarrow> replica \<Rightarrow> config_world \<Rightarrow> cluster \<Rightarrow> cluster" where
  "after_call r p w c =
     \<lparr>cl_rows = cw_rows w,
      cl_replicas = announce (cw_notices w) ((cl_replicas c)(r \<mapsto> p\<lparr>rp_cache := cw_cache w\<rparr>))\<rparr>"

text \<open>The caches of a process that has read nothing yet, and its startup: the loaders of
  \<^verbatim>\<open>main.lifespan\<close>, each of which may fail (\<open>failed\<close>), in their order.\<close>

definition initial_limiters :: "general_config \<Rightarrow> limiters" where
  "initial_limiters c =
     \<lparr>login_rate_limiter = \<lparr>rl_scope = ''login'', rl_max_attempts = gn_login_max_attempts c,
          rl_window_seconds = gn_login_lockout_seconds c\<rparr>,
      registration_rate_limiter = \<lparr>rl_scope = ''registration'',
          rl_max_attempts = gn_registration_max_attempts c,
          rl_window_seconds = gn_registration_lockout_seconds c\<rparr>,
      password_reset_rate_limiter = \<lparr>rl_scope = ''password_reset'',
          rl_max_attempts = gn_password_reset_max_attempts c,
          rl_window_seconds = gn_password_reset_lockout_seconds c\<rparr>\<rparr>"

definition initial_cache :: "settings_env \<Rightarrow> config_cache" where
  "initial_cache env =
     \<lparr>cc_general = None, cc_limiters = initial_limiters (st_general env), cc_siem = siem_default,
      cc_mail = None, cc_proxy = None, cc_llm = None, cc_provider = None\<rparr>"

definition load_config :: "settings_env \<Rightarrow> instant \<Rightarrow> string set \<Rightarrow> config_rows \<Rightarrow> config_world" where
  "load_config env now failed rows =
     fold (\<lambda>scope w. if scope \<in> failed then w else snd (refresh_scope env now scope w)) SCOPES
       \<lparr>cw_rows = rows, cw_cache = initial_cache env, cw_notices = []\<rparr>"

definition booted :: "string set \<Rightarrow> config_world \<Rightarrow> replica" where
  "booted failed w =
     \<lparr>rp_cache = cw_cache w, rp_listening = False, rp_first_connect = True, rp_queue = [],
      rp_missed = failed\<rparr>"

text \<open>\<^verbatim>\<open>on_bus_connected\<close>, run when the subscription is established.\<close>

definition on_bus_connected :: "settings_env \<Rightarrow> instant \<Rightarrow> config_rows \<Rightarrow> replica \<Rightarrow> replica \<times> config_rows" where
  "on_bus_connected env now rows p =
     (if rp_first_connect p then (p\<lparr>rp_first_connect := False\<rparr>, rows)
      else let w = refresh_all env now (world_of rows p)
           in (p\<lparr>rp_cache := cw_cache w, rp_missed := {}\<rparr>, cw_rows w))"

definition bus_connect :: "settings_env \<Rightarrow> instant \<Rightarrow> nat \<Rightarrow> replica \<Rightarrow> cluster \<Rightarrow> cluster" where
  "bus_connect env now r p c =
     (let (p', rows) = on_bus_connected env now (cl_rows c) (p\<lparr>rp_listening := True\<rparr>)
      in \<lparr>cl_rows = rows, cl_replicas = (cl_replicas c)(r \<mapsto> p')\<rparr>)"

text \<open>\<^verbatim>\<open>handle\<close> on the next announcement of the queue.\<close>

definition handle_next :: "settings_env \<Rightarrow> instant \<Rightarrow> nat \<Rightarrow> replica \<Rightarrow> cluster \<Rightarrow> cluster" where
  "handle_next env now r p c =
     (case rp_queue p of
        [] \<Rightarrow> c
      | scope # rest \<Rightarrow>
          let w = snd (refresh_scope env now scope (world_of (cl_rows c) p))
          in \<lparr>cl_rows = cw_rows w,
              cl_replicas = (cl_replicas c)
                (r \<mapsto> p\<lparr>rp_cache := cw_cache w, rp_queue := rest, rp_missed := rp_missed p - {scope}\<rparr>)\<rparr>)"

text \<open>The calls of the settings services a replica serves.\<close>

datatype config_save =
    SaveGeneral general_changes
  | SaveAudit audit_changes
  | SaveEmail email_changes
  | SaveProxy proxy_changes
  | SaveLlm llm_changes

fun settings_call :: "settings_env \<Rightarrow> instant \<Rightarrow> config_save \<Rightarrow> config_world \<Rightarrow> config_world" where
  "settings_call env now (SaveGeneral c) w = snd (update_general env c now w)"
| "settings_call env now (SaveAudit c) w = snd (update_audit env c w)"
| "settings_call env now (SaveEmail c) w = snd (update_email env c now w)"
| "settings_call env now (SaveProxy c) w = snd (update_proxy env c now w)"
| "settings_call env now (SaveLlm c) w = snd (update_llm env c now w)"

definition use_provider :: "settings_env \<Rightarrow> replica \<Rightarrow> replica" where
  "use_provider env p = p\<lparr>rp_cache := snd (active_provider env (rp_cache p))\<rparr>"

inductive config_step :: "settings_env \<Rightarrow> cluster \<Rightarrow> cluster \<Rightarrow> bool" for env where
  Boot: "cl_replicas c r = None \<Longrightarrow> w = load_config env now failed (cl_rows c) \<Longrightarrow>
    config_step env c \<lparr>cl_rows = cw_rows w, cl_replicas = (cl_replicas c)(r \<mapsto> booted failed w)\<rparr>"
| Stop: "config_step env c (c\<lparr>cl_replicas := (cl_replicas c)(r := None)\<rparr>)"
| Save: "cl_replicas c r = Some p \<Longrightarrow>
    config_step env c (after_call r p (settings_call env now call (world_of (cl_rows c) p)) c)"
| Use: "cl_replicas c r = Some p \<Longrightarrow>
    config_step env c (c\<lparr>cl_replicas := (cl_replicas c)(r \<mapsto> use_provider env p)\<rparr>)"
| Connect: "cl_replicas c r = Some p \<Longrightarrow> \<not> rp_listening p \<Longrightarrow>
    config_step env c (bus_connect env now r p c)"
| Drop: "cl_replicas c r = Some p \<Longrightarrow>
    config_step env c (c\<lparr>cl_replicas := (cl_replicas c)(r \<mapsto> p\<lparr>rp_listening := False\<rparr>)\<rparr>)"
| Handle: "cl_replicas c r = Some p \<Longrightarrow> config_step env c (handle_next env now r p c)"

definition empty_rows :: config_rows where
  "empty_rows = \<lparr>rw_general = None, rw_audit = None, rw_email = None, rw_proxy = None, rw_llm = None\<rparr>"

definition empty_cluster :: cluster where
  "empty_cluster = \<lparr>cl_rows = empty_rows, cl_replicas = (\<lambda>_. None)\<rparr>"

inductive config_reach :: "settings_env \<Rightarrow> cluster \<Rightarrow> bool" for env where
  start: "config_reach env empty_cluster"
| step: "config_reach env c \<Longrightarrow> config_step env c c' \<Longrightarrow> config_reach env c'"

section \<open>What a cache should hold\<close>

definition general_synced :: "config_rows \<Rightarrow> config_cache \<Rightarrow> bool" where
  "general_synced rows cache \<longleftrightarrow> (\<exists>row. rw_general rows = Some row \<and>
     cc_general cache = Some (general_config.truncate row) \<and>
     limits_of (general_config.truncate row) (cc_limiters cache) = cc_limiters cache)"

definition siem_synced :: "config_rows \<Rightarrow> config_cache \<Rightarrow> bool" where
  "siem_synced rows cache \<longleftrightarrow> (\<exists>row. rw_audit rows = Some row \<and> cc_siem cache = siem_config_of row)"

definition email_synced :: "config_rows \<Rightarrow> config_cache \<Rightarrow> bool" where
  "email_synced rows cache \<longleftrightarrow>
     (\<exists>row. rw_email rows = Some row \<and> cc_mail cache = Some (mail_config.truncate row))"

definition proxy_synced :: "config_rows \<Rightarrow> config_cache \<Rightarrow> bool" where
  "proxy_synced rows cache \<longleftrightarrow>
     (\<exists>row. rw_proxy rows = Some row \<and> cc_proxy cache = Some (proxy_config.truncate row))"

definition llm_synced :: "config_rows \<Rightarrow> config_cache \<Rightarrow> bool" where
  "llm_synced rows cache \<longleftrightarrow>
     (\<exists>row. rw_llm rows = Some row \<and> cc_llm cache = Some (llm_config.truncate row))"

definition in_sync :: "config_rows \<Rightarrow> config_cache \<Rightarrow> string \<Rightarrow> bool" where
  "in_sync rows cache scope \<longleftrightarrow>
     (if scope = ''general'' then general_synced rows cache
      else if scope = ''siem'' then siem_synced rows cache
      else if scope = ''email'' then email_synced rows cache
      else if scope = ''proxy'' then proxy_synced rows cache
      else if scope = ''llm'' then llm_synced rows cache
      else True)"

lemmas synced_defs = general_synced_def siem_synced_def email_synced_def proxy_synced_def llm_synced_def

definition provider_current :: "settings_env \<Rightarrow> config_cache \<Rightarrow> bool" where
  "provider_current env cache \<longleftrightarrow>
     (\<forall>p. cc_provider cache = Some p \<longrightarrow> p = active_llm_provider env (get_llm_config env cache))"

text \<open>The rows a service may have written.\<close>

definition rows_sound :: "settings_env \<Rightarrow> config_rows \<Rightarrow> bool" where
  "rows_sound env rows \<longleftrightarrow>
     (\<forall>row. rw_llm rows = Some row \<longrightarrow> validate_selection env (llm_config.truncate row) = Inr ()) \<and>
     (\<forall>row. rw_audit rows = Some row \<longrightarrow> st_siem_http_token env \<noteq> [] \<longrightarrow>
        pinned_to (au_http_endpoint (st_siem env)) (au_http_endpoint row)) \<and>
     (\<forall>row. rw_email rows = Some row \<longrightarrow> st_smtp_password env \<noteq> [] \<longrightarrow>
        pinned_to (st_smtp_host env) (ml_smtp_host row)) \<and>
     (\<forall>row. rw_proxy rows = Some row \<longrightarrow> st_proxy_username env \<noteq> [] \<or> st_proxy_password env \<noteq> [] \<longrightarrow>
        pinned_to (px_proxy_url (st_proxy env)) (px_proxy_url row))"

definition cache_sound :: "settings_env \<Rightarrow> config_cache \<Rightarrow> bool" where
  "cache_sound env cache \<longleftrightarrow>
     (\<forall>c. cc_llm cache = Some c \<longrightarrow> validate_selection env c = Inr ()) \<and>
     (st_siem_http_token env \<noteq> [] \<longrightarrow>
        pinned_to (au_http_endpoint (st_siem env)) (sk_http_endpoint (cc_siem cache))) \<and>
     (\<forall>c. cc_mail cache = Some c \<longrightarrow> st_smtp_password env \<noteq> [] \<longrightarrow>
        pinned_to (st_smtp_host env) (ml_smtp_host c)) \<and>
     (\<forall>c. cc_proxy cache = Some c \<longrightarrow> st_proxy_username env \<noteq> [] \<or> st_proxy_password env \<noteq> [] \<longrightarrow>
        pinned_to (px_proxy_url (st_proxy env)) (px_proxy_url c)) \<and>
     provider_current env cache"

section \<open>Lemmas: one call\<close>

text \<open>Reading may seed a row; it never changes one.\<close>

definition keeps :: "'a option \<Rightarrow> 'a option \<Rightarrow> bool" where
  "keeps old new \<longleftrightarrow> old = None \<or> new = old"

definition rows_extend :: "config_rows \<Rightarrow> config_rows \<Rightarrow> bool" where
  "rows_extend a b \<longleftrightarrow>
     keeps (rw_general a) (rw_general b) \<and> keeps (rw_audit a) (rw_audit b) \<and>
     keeps (rw_email a) (rw_email b) \<and> keeps (rw_proxy a) (rw_proxy b) \<and> keeps (rw_llm a) (rw_llm b)"

lemma rows_extend_refl [simp]: "rows_extend a a"
  by (simp add: rows_extend_def keeps_def)

lemma keeps_trans: "keeps a b \<Longrightarrow> keeps b c \<Longrightarrow> keeps a c"
  by (auto simp: keeps_def)

lemma keeps_Some: "keeps a b \<Longrightarrow> a = Some r \<Longrightarrow> b = Some r"
  by (simp add: keeps_def)

lemma rows_extend_trans: "rows_extend a b \<Longrightarrow> rows_extend b c \<Longrightarrow> rows_extend a c"
  unfolding rows_extend_def by (blast intro: keeps_trans)

lemma in_sync_extend: "rows_extend a b \<Longrightarrow> in_sync a cache sc \<Longrightarrow> in_sync b cache sc"
  by (auto simp: in_sync_def rows_extend_def synced_defs keeps_def split: if_splits)

lemmas world_defs = set_rows_def set_cache_def publish_config_changed_def set_general_config_def
  install_proxy_def install_llm_def

lemma limits_of_idem [simp]: "limits_of c (limits_of c ls) = limits_of c ls"
  by (simp add: limits_of_def apply_config_def reconfigure_def)

lemma disabled_valid: "provider_key c = ''none'' \<Longrightarrow> validate_selection env c = Inr ()"
  unfolding validate_selection_def active_llm_provider_def Let_def
  by (simp add: LLM_DISABLED_KEYS_def)

lemma extend_truncate [simp]:
  "general_config.truncate (general_config.extend g a) = g"
  "mail_config.truncate (mail_config.extend m b) = m"
  "proxy_config.truncate (proxy_config.extend p d) = p"
  "llm_config.truncate (llm_config.extend l e) = l"
  by (simp_all add: general_config.defs mail_config.defs proxy_config.defs llm_config.defs)

lemma extend_fields [simp]:
  "ml_smtp_host (mail_config.extend m b) = ml_smtp_host m"
  "px_proxy_url (proxy_config.extend p d) = px_proxy_url p"
  by (simp_all add: mail_config.defs proxy_config.defs)

lemma provider_key_none: "provider_key (c\<lparr>lz_provider := ''none''\<rparr>) = ''none''"
proof -
  have "map latin_lower (strip ''none'') = ''none''" by code_simp
  then show ?thesis by (simp add: provider_key_def)
qed

text \<open>What a read of each row does.\<close>

lemma get_general_world:
  "get_general env now w = (row, w') \<Longrightarrow> w' = w\<lparr>cw_rows := (cw_rows w)\<lparr>rw_general := Some row\<rparr>\<rparr> \<and>
     keeps (rw_general (cw_rows w)) (Some row)"
  by (auto simp: get_general_def world_defs keeps_def Let_def split: option.splits)

lemma get_audit_world:
  "get_audit env w = (row, w') \<Longrightarrow> w' = w\<lparr>cw_rows := (cw_rows w)\<lparr>rw_audit := Some row\<rparr>\<rparr> \<and>
     keeps (rw_audit (cw_rows w)) (Some row) \<and>
     (rw_audit (cw_rows w) = None \<longrightarrow> au_http_endpoint row = au_http_endpoint (st_siem env))"
  by (auto simp: get_audit_def world_defs keeps_def Let_def split: option.splits)

lemma get_email_world:
  "get_email env now w = (row, w') \<Longrightarrow> w' = w\<lparr>cw_rows := (cw_rows w)\<lparr>rw_email := Some row\<rparr>\<rparr> \<and>
     keeps (rw_email (cw_rows w)) (Some row) \<and>
     (rw_email (cw_rows w) = None \<longrightarrow> ml_smtp_host row = st_smtp_host env)"
  by (auto simp: get_email_def world_defs keeps_def env_mail_def Let_def split: option.splits)

lemma get_proxy_world:
  "get_proxy env now w = (row, w') \<Longrightarrow> w' = w\<lparr>cw_rows := (cw_rows w)\<lparr>rw_proxy := Some row\<rparr>\<rparr> \<and>
     keeps (rw_proxy (cw_rows w)) (Some row) \<and>
     (rw_proxy (cw_rows w) = None \<longrightarrow> px_proxy_url row = px_proxy_url (st_proxy env))"
  by (auto simp: get_proxy_def world_defs keeps_def Let_def split: option.splits)

lemma get_llm_world:
  "get_llm env now w = (row, w') \<Longrightarrow> w' = w\<lparr>cw_rows := (cw_rows w)\<lparr>rw_llm := Some row\<rparr>\<rparr> \<and>
     keeps (rw_llm (cw_rows w)) (Some row) \<and>
     (rw_llm (cw_rows w) = None \<longrightarrow> validate_selection env (llm_config.truncate row) = Inr ())"
  by (auto simp: get_llm_def world_defs keeps_def Let_def disabled_valid provider_key_none
      split: option.splits sum.splits)

text \<open>A refresh of a scope brings the cache in line with the row of that scope, touches no
  other part of the cache, and changes no row that is there.\<close>

lemma refresh_general_world:
  "refresh_general env now w = (r, w') \<Longrightarrow>
     \<exists>row. cw_rows w' = (cw_rows w)\<lparr>rw_general := Some row\<rparr> \<and> keeps (rw_general (cw_rows w)) (Some row) \<and>
       cw_cache w' = set_general_config (general_config.truncate row) (cw_cache w) \<and> cw_notices w' = cw_notices w"
  by (auto simp: refresh_general_def set_cache_def split: prod.splits dest!: get_general_world)

lemma refresh_audit_world:
  "refresh_audit env w = (r, w') \<Longrightarrow>
     \<exists>row. cw_rows w' = (cw_rows w)\<lparr>rw_audit := Some row\<rparr> \<and> keeps (rw_audit (cw_rows w)) (Some row) \<and>
       (rw_audit (cw_rows w) = None \<longrightarrow> au_http_endpoint row = au_http_endpoint (st_siem env)) \<and>
       cw_cache w' = (cw_cache w)\<lparr>cc_siem := siem_config_of row\<rparr> \<and> cw_notices w' = cw_notices w"
  by (auto simp: refresh_audit_def set_cache_def split: prod.splits dest!: get_audit_world)

lemma refresh_email_world:
  "refresh_email env now w = (r, w') \<Longrightarrow>
     \<exists>row. cw_rows w' = (cw_rows w)\<lparr>rw_email := Some row\<rparr> \<and> keeps (rw_email (cw_rows w)) (Some row) \<and>
       (rw_email (cw_rows w) = None \<longrightarrow> ml_smtp_host row = st_smtp_host env) \<and>
       cw_cache w' = (cw_cache w)\<lparr>cc_mail := Some (mail_config.truncate row)\<rparr> \<and> cw_notices w' = cw_notices w"
  by (auto simp: refresh_email_def set_cache_def split: prod.splits dest!: get_email_world)

lemma refresh_proxy_world:
  "refresh_proxy env now w = (r, w') \<Longrightarrow>
     \<exists>row. cw_rows w' = (cw_rows w)\<lparr>rw_proxy := Some row\<rparr> \<and> keeps (rw_proxy (cw_rows w)) (Some row) \<and>
       (rw_proxy (cw_rows w) = None \<longrightarrow> px_proxy_url row = px_proxy_url (st_proxy env)) \<and>
       cw_cache w' = install_proxy row (cw_cache w) \<and> cw_notices w' = cw_notices w"
  by (auto simp: refresh_proxy_def set_cache_def split: prod.splits dest!: get_proxy_world)

lemma refresh_llm_world:
  assumes "refresh_llm env now w = (r, w')" and "rows_sound env (cw_rows w)"
  shows "\<exists>row. cw_rows w' = (cw_rows w)\<lparr>rw_llm := Some row\<rparr> \<and> keeps (rw_llm (cw_rows w)) (Some row) \<and>
       validate_selection env (llm_config.truncate row) = Inr () \<and>
       cw_cache w' = install_llm (llm_config.truncate row) (cw_cache w) \<and> cw_notices w' = cw_notices w"
proof -
  obtain row w1 where g: "get_llm env now w = (row, w1)" by fastforce
  note w1 = get_llm_world [OF g]
  have "validate_selection env (llm_config.truncate row) = Inr ()"
    using w1 assms(2) by (auto simp: rows_sound_def keeps_def)
  then show ?thesis
    using assms(1) w1 by (auto simp: refresh_llm_def g set_cache_def Let_def)
qed

definition sound :: "settings_env \<Rightarrow> config_world \<Rightarrow> bool" where
  "sound env w \<longleftrightarrow> rows_sound env (cw_rows w) \<and> cache_sound env (cw_cache w)"

definition still_in_sync :: "config_world \<Rightarrow> config_world \<Rightarrow> bool" where
  "still_in_sync w w' \<longleftrightarrow>
     (\<forall>sc. in_sync (cw_rows w) (cw_cache w) sc \<longrightarrow> in_sync (cw_rows w') (cw_cache w') sc)"

definition refreshed :: "settings_env \<Rightarrow> string \<Rightarrow> config_world \<Rightarrow> config_world \<Rightarrow> bool" where
  "refreshed env scope w w' \<longleftrightarrow>
     rows_extend (cw_rows w) (cw_rows w') \<and> sound env w' \<and> cw_notices w' = cw_notices w \<and>
     in_sync (cw_rows w') (cw_cache w') scope \<and> still_in_sync w w'"

lemma refreshedI:
  assumes "rows_extend (cw_rows w) (cw_rows w')" and "sound env w'" and "cw_notices w' = cw_notices w"
    and sync: "in_sync (cw_rows w') (cw_cache w') scope"
    and frame: "\<And>sc. sc \<noteq> scope \<Longrightarrow>
      in_sync (cw_rows w') (cw_cache w') sc = in_sync (cw_rows w') (cw_cache w) sc"
  shows "refreshed env scope w w'"
proof -
  have "in_sync (cw_rows w') (cw_cache w') sc" if "in_sync (cw_rows w) (cw_cache w) sc" for sc
    using in_sync_extend [OF assms(1) that] frame [of sc] sync by (cases "sc = scope") simp_all
  then show ?thesis using assms by (simp add: refreshed_def still_in_sync_def)
qed

lemma pinned_to_self: "pinned_to e e"
  by (simp add: pinned_to_def)

lemma refreshed_general:
  assumes "refresh_general env now w = (r, w')" and "sound env w"
  shows "refreshed env ''general'' w w'"
proof -
  obtain row where row: "cw_rows w' = (cw_rows w)\<lparr>rw_general := Some row\<rparr>" "keeps (rw_general (cw_rows w)) (Some row)"
    "cw_cache w' = set_general_config (general_config.truncate row) (cw_cache w)" "cw_notices w' = cw_notices w"
    using refresh_general_world [OF assms(1)] by (elim exE conjE) (rule that)
  have ext: "rows_extend (cw_rows w) (cw_rows w')" using row(2) by (simp add: row rows_extend_def keeps_def)
  have sync: "in_sync (cw_rows w') (cw_cache w') ''general''"
    by (simp add: row in_sync_def general_synced_def set_general_config_def)
  have frame: "in_sync (cw_rows w') (cw_cache w') sc = in_sync (cw_rows w') (cw_cache w) sc" if "sc \<noteq> ''general''" for sc
    using that by (simp add: in_sync_def row set_general_config_def synced_defs)
  have "sound env w'"
    using assms(2) by (simp add: sound_def row rows_sound_def cache_sound_def set_general_config_def
        provider_current_def get_llm_config_def)
  then show ?thesis using refreshedI [OF ext _ row(4) sync frame] by blast
qed

lemma refreshed_audit:
  assumes "refresh_audit env w = (r, w')" and "sound env w"
  shows "refreshed env ''siem'' w w'"
proof -
  obtain row where row: "cw_rows w' = (cw_rows w)\<lparr>rw_audit := Some row\<rparr>" "keeps (rw_audit (cw_rows w)) (Some row)"
    "cw_cache w' = (cw_cache w)\<lparr>cc_siem := siem_config_of row\<rparr>" "cw_notices w' = cw_notices w"
    and new: "rw_audit (cw_rows w) = None \<longrightarrow> au_http_endpoint row = au_http_endpoint (st_siem env)"
    using refresh_audit_world [OF assms(1)] by (elim exE conjE) (rule that)
  have ext: "rows_extend (cw_rows w) (cw_rows w')" using row(2) by (simp add: row rows_extend_def keeps_def)
  have sync: "in_sync (cw_rows w') (cw_cache w') ''siem''" by (simp add: row in_sync_def siem_synced_def)
  have frame: "in_sync (cw_rows w') (cw_cache w') sc = in_sync (cw_rows w') (cw_cache w) sc" if "sc \<noteq> ''siem''" for sc
    using that by (simp add: in_sync_def row synced_defs)
  have "st_siem_http_token env \<noteq> [] \<longrightarrow> pinned_to (au_http_endpoint (st_siem env)) (au_http_endpoint row)"
    using assms(2) new row(2)
    by (cases "rw_audit (cw_rows w)") (simp_all add: sound_def rows_sound_def keeps_def pinned_to_self)
  then have "sound env w'"
    using assms(2) by (simp add: sound_def row rows_sound_def cache_sound_def siem_config_of_def
        provider_current_def get_llm_config_def)
  then show ?thesis using refreshedI [OF ext _ row(4) sync frame] by blast
qed

lemma refreshed_email:
  assumes "refresh_email env now w = (r, w')" and "sound env w"
  shows "refreshed env ''email'' w w'"
proof -
  obtain row where row: "cw_rows w' = (cw_rows w)\<lparr>rw_email := Some row\<rparr>" "keeps (rw_email (cw_rows w)) (Some row)"
    "cw_cache w' = (cw_cache w)\<lparr>cc_mail := Some (mail_config.truncate row)\<rparr>" "cw_notices w' = cw_notices w"
    and new: "rw_email (cw_rows w) = None \<longrightarrow> ml_smtp_host row = st_smtp_host env"
    using refresh_email_world [OF assms(1)] by (elim exE conjE) (rule that)
  have ext: "rows_extend (cw_rows w) (cw_rows w')" using row(2) by (simp add: row rows_extend_def keeps_def)
  have sync: "in_sync (cw_rows w') (cw_cache w') ''email''" by (simp add: row in_sync_def email_synced_def)
  have frame: "in_sync (cw_rows w') (cw_cache w') sc = in_sync (cw_rows w') (cw_cache w) sc" if "sc \<noteq> ''email''" for sc
    using that by (simp add: in_sync_def row synced_defs)
  have "st_smtp_password env \<noteq> [] \<longrightarrow> pinned_to (st_smtp_host env) (ml_smtp_host row)"
    using assms(2) new row(2)
    by (cases "rw_email (cw_rows w)") (simp_all add: sound_def rows_sound_def keeps_def pinned_to_self)
  then have "sound env w'"
    using assms(2) by (simp add: sound_def row rows_sound_def cache_sound_def
        provider_current_def get_llm_config_def mail_config.defs)
  then show ?thesis using refreshedI [OF ext _ row(4) sync frame] by blast
qed

lemma refreshed_proxy:
  assumes "refresh_proxy env now w = (r, w')" and "sound env w"
  shows "refreshed env ''proxy'' w w'"
proof -
  obtain row where row: "cw_rows w' = (cw_rows w)\<lparr>rw_proxy := Some row\<rparr>" "keeps (rw_proxy (cw_rows w)) (Some row)"
    "cw_cache w' = install_proxy row (cw_cache w)" "cw_notices w' = cw_notices w"
    and new: "rw_proxy (cw_rows w) = None \<longrightarrow> px_proxy_url row = px_proxy_url (st_proxy env)"
    using refresh_proxy_world [OF assms(1)] by (elim exE conjE) (rule that)
  have ext: "rows_extend (cw_rows w) (cw_rows w')" using row(2) by (simp add: row rows_extend_def keeps_def)
  have sync: "in_sync (cw_rows w') (cw_cache w') ''proxy''"
    by (simp add: row in_sync_def proxy_synced_def install_proxy_def)
  have frame: "in_sync (cw_rows w') (cw_cache w') sc = in_sync (cw_rows w') (cw_cache w) sc" if "sc \<noteq> ''proxy''" for sc
    using that by (simp add: in_sync_def row install_proxy_def synced_defs)
  have "st_proxy_username env \<noteq> [] \<or> st_proxy_password env \<noteq> [] \<longrightarrow>
      pinned_to (px_proxy_url (st_proxy env)) (px_proxy_url row)"
    using assms(2) new row(2)
    by (cases "rw_proxy (cw_rows w)") (simp_all add: sound_def rows_sound_def keeps_def pinned_to_self)
  then have "sound env w'"
    using assms(2) by (simp add: sound_def row rows_sound_def cache_sound_def install_proxy_def
        provider_current_def proxy_config.defs)
  then show ?thesis using refreshedI [OF ext _ row(4) sync frame] by blast
qed

lemma refreshed_llm:
  assumes "refresh_llm env now w = (r, w')" and "sound env w"
  shows "refreshed env ''llm'' w w'"
proof -
  have rs: "rows_sound env (cw_rows w)" using assms(2) by (simp add: sound_def)
  obtain row where row: "cw_rows w' = (cw_rows w)\<lparr>rw_llm := Some row\<rparr>" "keeps (rw_llm (cw_rows w)) (Some row)"
    "cw_cache w' = install_llm (llm_config.truncate row) (cw_cache w)" "cw_notices w' = cw_notices w"
    and ok: "validate_selection env (llm_config.truncate row) = Inr ()"
    using refresh_llm_world [OF assms(1) rs] by (elim exE conjE) (rule that)
  have ext: "rows_extend (cw_rows w) (cw_rows w')" using row(2) by (simp add: row rows_extend_def keeps_def)
  have sync: "in_sync (cw_rows w') (cw_cache w') ''llm''"
    by (simp add: row in_sync_def llm_synced_def install_llm_def)
  have frame: "in_sync (cw_rows w') (cw_cache w') sc = in_sync (cw_rows w') (cw_cache w) sc" if "sc \<noteq> ''llm''" for sc
    using that by (simp add: in_sync_def row install_llm_def synced_defs)
  have "sound env w'"
    using assms(2) ok by (simp add: sound_def row rows_sound_def cache_sound_def install_llm_def provider_current_def)
  then show ?thesis using refreshedI [OF ext _ row(4) sync frame] by blast
qed

lemma refreshed_same: "sound env w \<Longrightarrow> in_sync (cw_rows w) (cw_cache w) scope \<Longrightarrow> refreshed env scope w w"
  by (simp add: refreshed_def still_in_sync_def)

lemma refresh_scope_refreshed:
  assumes "sound env w"
  shows "refreshed env scope w (snd (refresh_scope env now scope w))"
proof -
  consider "scope = ''proxy''" | "scope = ''siem''" | "scope = ''email''" | "scope = ''general''"
    | "scope = ''llm''" | "scope \<notin> {''proxy'', ''siem'', ''email'', ''general'', ''llm''}" by blast
  then show ?thesis
  proof cases
    case 6
    then have "snd (refresh_scope env now scope w) = w"
      by (auto simp: refresh_scope_def refresher_def)
    then show ?thesis using 6 assms refreshed_same by (simp add: in_sync_def)
  qed (simp_all add: refresh_scope_def refresher_def refreshed_proxy [OF prod.collapse [symmetric] assms]
      refreshed_audit [OF prod.collapse [symmetric] assms] refreshed_email [OF prod.collapse [symmetric] assms]
      refreshed_general [OF prod.collapse [symmetric] assms] refreshed_llm [OF prod.collapse [symmetric] assms])
qed

section \<open>Lemmas: saving\<close>

fun save_scope :: "config_save \<Rightarrow> string" where
  "save_scope (SaveGeneral c) = ''general''"
| "save_scope (SaveAudit c) = ''siem''"
| "save_scope (SaveEmail c) = ''email''"
| "save_scope (SaveProxy c) = ''proxy''"
| "save_scope (SaveLlm c) = ''llm''"

text \<open>A save that is refused changes no cache and announces nothing; one that succeeds announces
  its scope, has its own cache in line with the new row, and leaves the other scopes alone.\<close>

definition unchanged_but_seeded :: "config_world \<Rightarrow> config_world \<Rightarrow> bool" where
  "unchanged_but_seeded w w' \<longleftrightarrow>
     rows_extend (cw_rows w) (cw_rows w') \<and> cw_cache w' = cw_cache w \<and> cw_notices w' = cw_notices w"

definition saved :: "string \<Rightarrow> config_world \<Rightarrow> config_world \<Rightarrow> bool" where
  "saved scope w w' \<longleftrightarrow>
     cw_notices w' = cw_notices w @ [scope] \<and> in_sync (cw_rows w') (cw_cache w') scope \<and>
     (\<forall>sc cache. sc \<noteq> scope \<longrightarrow> in_sync (cw_rows w') cache sc = in_sync (cw_rows w) cache sc) \<and>
     (\<forall>sc rows. sc \<noteq> scope \<longrightarrow> in_sync rows (cw_cache w') sc = in_sync rows (cw_cache w) sc)"

lemma check_pinned_change:
  assumes "check_pinned (change_or c old) env True f e v = Inr ()" and "pinned_to env old"
  shows "pinned_to env (patched c old)"
proof (cases c)
  case (Some x)
  with assms show ?thesis by (cases x) (auto dest: check_pinned_pins)
qed (use assms in simp)

lemma save_general:
  assumes "sound env w" and "update_general env c now w = (r, w')"
  shows "sound env w' \<and> saved ''general'' w w'"
proof -
  obtain row w1 where g: "get_general env now w = (row, w1)" by fastforce
  let ?row = "patch_general c now row"
  have w': "cw_rows w' = (cw_rows w)\<lparr>rw_general := Some ?row\<rparr>"
    "cw_cache w' = set_general_config (general_config.truncate ?row) (cw_cache w)"
    "cw_notices w' = cw_notices w @ [''general'']"
    using assms(2) get_general_world [OF g]
    by (auto simp: update_general_def g set_cache_def publish_config_changed_def set_rows_def Let_def)
  have "saved ''general'' w w'"
    by (simp add: saved_def w' in_sync_def synced_defs set_general_config_def)
  then show ?thesis
    using assms(1) by (simp add: sound_def w' rows_sound_def cache_sound_def set_general_config_def
        provider_current_def get_llm_config_def)
qed

lemma save_audit:
  assumes "sound env w" and "update_audit env c w = (r, w')"
  shows "sound env w' \<and> (saved ''siem'' w w' \<or> unchanged_but_seeded w w')"
proof -
  obtain row w1 where g: "get_audit env w = (row, w1)" by fastforce
  note gw = get_audit_world [OF g]
  have old: "st_siem_http_token env \<noteq> [] \<longrightarrow> pinned_to (au_http_endpoint (st_siem env)) (au_http_endpoint row)"
    using assms(1) gw
    by (cases "rw_audit (cw_rows w)") (simp_all add: sound_def rows_sound_def keeps_def pinned_to_self)
  show ?thesis
  proof (cases "check_audit env row c")
    case (Inl e)
    then have "w' = w1" using assms(2) by (simp add: update_audit_def g)
    with gw have "unchanged_but_seeded w w'"
      by (simp add: unchanged_but_seeded_def rows_extend_def keeps_def)
    moreover have "sound env w'" using assms(1) old gw \<open>w' = w1\<close> by (simp add: sound_def rows_sound_def)
    ultimately show ?thesis by blast
  next
    case (Inr u)
    let ?row = "patch_audit c row"
    have w': "cw_rows w' = (cw_rows w)\<lparr>rw_audit := Some ?row\<rparr>"
      "cw_cache w' = (cw_cache w)\<lparr>cc_siem := siem_config_of ?row\<rparr>" "cw_notices w' = cw_notices w @ [''siem'']"
      using assms(2) gw Inr
      by (auto simp: update_audit_def g set_cache_def publish_config_changed_def set_rows_def Let_def)
    have "saved ''siem'' w w'" by (simp add: saved_def w' in_sync_def synced_defs)
    moreover have "st_siem_http_token env \<noteq> [] \<longrightarrow>
        pinned_to (au_http_endpoint (st_siem env)) (au_http_endpoint ?row)"
      using Inr old check_pinned_change by (auto simp: check_audit_def patch_audit_def)
    then have "sound env w'"
      using assms(1) by (simp add: sound_def w' rows_sound_def cache_sound_def siem_config_of_def
          provider_current_def get_llm_config_def)
    ultimately show ?thesis by blast
  qed
qed

lemma save_email:
  assumes "sound env w" and "update_email env c now w = (r, w')"
  shows "sound env w' \<and> (saved ''email'' w w' \<or> unchanged_but_seeded w w')"
proof -
  obtain row w1 where g: "get_email env now w = (row, w1)" by fastforce
  note gw = get_email_world [OF g]
  have old: "st_smtp_password env \<noteq> [] \<longrightarrow> pinned_to (st_smtp_host env) (ml_smtp_host row)"
    using assms(1) gw
    by (cases "rw_email (cw_rows w)") (simp_all add: sound_def rows_sound_def keeps_def pinned_to_self)
  show ?thesis
  proof (cases "check_email env row c")
    case (Inl e)
    then have "w' = w1" using assms(2) by (simp add: update_email_def g)
    with gw have "unchanged_but_seeded w w'"
      by (simp add: unchanged_but_seeded_def rows_extend_def keeps_def)
    moreover have "sound env w'" using assms(1) old gw \<open>w' = w1\<close> by (simp add: sound_def rows_sound_def)
    ultimately show ?thesis by blast
  next
    case (Inr u)
    let ?row = "patch_email c now row"
    have w': "cw_rows w' = (cw_rows w)\<lparr>rw_email := Some ?row\<rparr>"
      "cw_cache w' = (cw_cache w)\<lparr>cc_mail := Some (mail_config.truncate ?row)\<rparr>"
      "cw_notices w' = cw_notices w @ [''email'']"
      using assms(2) gw Inr
      by (auto simp: update_email_def g set_cache_def publish_config_changed_def set_rows_def Let_def)
    have "saved ''email'' w w'" by (simp add: saved_def w' in_sync_def synced_defs)
    moreover have "st_smtp_password env \<noteq> [] \<longrightarrow> pinned_to (st_smtp_host env) (ml_smtp_host ?row)"
      using Inr old check_pinned_change by (auto simp: check_email_def patch_email_def)
    then have "sound env w'"
      using assms(1) by (simp add: sound_def w' rows_sound_def cache_sound_def
          provider_current_def get_llm_config_def mail_config.defs)
    ultimately show ?thesis by blast
  qed
qed

lemma save_proxy:
  assumes "sound env w" and "update_proxy env c now w = (r, w')"
  shows "sound env w' \<and> (saved ''proxy'' w w' \<or> unchanged_but_seeded w w')"
proof -
  obtain row w1 where g: "get_proxy env now w = (row, w1)" by fastforce
  note gw = get_proxy_world [OF g]
  let ?creds = "st_proxy_username env \<noteq> [] \<or> st_proxy_password env \<noteq> []"
  have old: "?creds \<longrightarrow> pinned_to (px_proxy_url (st_proxy env)) (px_proxy_url row)"
    using assms(1) gw
    by (cases "rw_proxy (cw_rows w)") (simp_all add: sound_def rows_sound_def keeps_def pinned_to_self)
  show ?thesis
  proof (cases "check_proxy env row c")
    case (Inl e)
    then have "w' = w1" using assms(2) by (simp add: update_proxy_def g)
    with gw have "unchanged_but_seeded w w'"
      by (simp add: unchanged_but_seeded_def rows_extend_def keeps_def)
    moreover have "sound env w'" using assms(1) old gw \<open>w' = w1\<close> by (simp add: sound_def rows_sound_def)
    ultimately show ?thesis by blast
  next
    case (Inr u)
    let ?row = "patch_proxy c now row"
    have w': "cw_rows w' = (cw_rows w)\<lparr>rw_proxy := Some ?row\<rparr>"
      "cw_cache w' = install_proxy ?row (cw_cache w)" "cw_notices w' = cw_notices w @ [''proxy'']"
      using assms(2) gw Inr
      by (auto simp: update_proxy_def g set_cache_def publish_config_changed_def set_rows_def Let_def)
    have "saved ''proxy'' w w'" by (simp add: saved_def w' in_sync_def synced_defs install_proxy_def)
    moreover have "?creds \<longrightarrow> pinned_to (px_proxy_url (st_proxy env)) (px_proxy_url ?row)"
      using Inr old check_pinned_change by (auto simp: check_proxy_def patch_proxy_def)
    then have "sound env w'"
      using assms(1) by (simp add: sound_def w' rows_sound_def cache_sound_def install_proxy_def
          provider_current_def proxy_config.defs)
    ultimately show ?thesis by blast
  qed
qed

lemma save_llm:
  assumes "sound env w" and "update_llm env c now w = (r, w')"
  shows "sound env w' \<and> (saved ''llm'' w w' \<or> unchanged_but_seeded w w')"
proof -
  obtain row w1 where g: "get_llm env now w = (row, w1)" by fastforce
  note gw = get_llm_world [OF g]
  let ?new = "patch_llm c (llm_config.truncate row)"
  have old: "validate_selection env (llm_config.truncate row) = Inr ()"
    using assms(1) gw by (cases "rw_llm (cw_rows w)") (simp_all add: sound_def rows_sound_def keeps_def)
  show ?thesis
  proof (cases "validate_selection env ?new")
    case (Inl e)
    then have "w' = w1" using assms(2) by (simp add: update_llm_def g Let_def)
    with gw have "unchanged_but_seeded w w'"
      by (simp add: unchanged_but_seeded_def rows_extend_def keeps_def)
    moreover have "sound env w'" using assms(1) old gw \<open>w' = w1\<close> by (simp add: sound_def rows_sound_def)
    ultimately show ?thesis by blast
  next
    case (Inr u)
    let ?row = "llm_config.extend ?new \<lparr>lz_updated_at = now\<rparr>"
    have w': "cw_rows w' = (cw_rows w)\<lparr>rw_llm := Some ?row\<rparr>"
      "cw_cache w' = install_llm ?new (cw_cache w)" "cw_notices w' = cw_notices w @ [''llm'']"
      using assms(2) gw Inr
      by (auto simp: update_llm_def g set_cache_def publish_config_changed_def set_rows_def Let_def)
    have "saved ''llm'' w w'" by (simp add: saved_def w' in_sync_def synced_defs install_llm_def)
    moreover have "sound env w'"
      using assms(1) Inr by (simp add: sound_def w' rows_sound_def cache_sound_def install_llm_def provider_current_def)
    ultimately show ?thesis by blast
  qed
qed

lemma settings_call_effect:
  assumes "sound env w"
  shows "sound env (settings_call env now call w) \<and>
    (saved (save_scope call) w (settings_call env now call w) \<or>
     unchanged_but_seeded w (settings_call env now call w))"
  by (cases call)
    (simp_all add: save_general [OF assms prod.collapse [symmetric]] save_audit [OF assms prod.collapse [symmetric]]
      save_email [OF assms prod.collapse [symmetric]] save_proxy [OF assms prod.collapse [symmetric]]
      save_llm [OF assms prod.collapse [symmetric]])

section \<open>Lemmas: the deployment\<close>

lemma fold_refresh:
  assumes "sound env w"
  shows "rows_extend (cw_rows w) (cw_rows (fold (\<lambda>sc w. if sc \<in> failed then w
        else snd (refresh_scope env now sc w)) scopes w)) \<and>
    sound env (fold (\<lambda>sc w. if sc \<in> failed then w else snd (refresh_scope env now sc w)) scopes w) \<and>
    still_in_sync w (fold (\<lambda>sc w. if sc \<in> failed then w else snd (refresh_scope env now sc w)) scopes w) \<and>
    (\<forall>sc\<in>set scopes - failed.
       in_sync (cw_rows (fold (\<lambda>sc w. if sc \<in> failed then w else snd (refresh_scope env now sc w)) scopes w))
         (cw_cache (fold (\<lambda>sc w. if sc \<in> failed then w else snd (refresh_scope env now sc w)) scopes w)) sc)"
  using assms
proof (induction scopes arbitrary: w)
  case Nil
  then show ?case by (simp add: still_in_sync_def)
next
  case (Cons sc scopes)
  show ?case
  proof (cases "sc \<in> failed")
    case True
    then show ?thesis using Cons.IH [OF Cons.prems] by auto
  next
    case False
    note r = refresh_scope_refreshed [OF Cons.prems, of sc now]
    then have "sound env (snd (refresh_scope env now sc w))" by (simp add: refreshed_def)
    note IH = Cons.IH [OF this]
    show ?thesis
      using IH r False rows_extend_trans by (auto simp: refreshed_def still_in_sync_def)
  qed
qed

lemma unknown_in_sync: "sc \<notin> set SCOPES \<Longrightarrow> in_sync rows cache sc"
  by (auto simp: in_sync_def SCOPES_def)

definition replica_ok :: "settings_env \<Rightarrow> config_rows \<Rightarrow> replica \<Rightarrow> bool" where
  "replica_ok env rows p \<longleftrightarrow> cache_sound env (rp_cache p) \<and>
     (\<forall>sc. sc \<in> set (rp_queue p) \<or> sc \<in> rp_missed p \<or> in_sync rows (rp_cache p) sc)"

definition cluster_ok :: "settings_env \<Rightarrow> cluster \<Rightarrow> bool" where
  "cluster_ok env c \<longleftrightarrow> rows_sound env (cl_rows c) \<and>
     (\<forall>r p. cl_replicas c r = Some p \<longrightarrow> replica_ok env (cl_rows c) p)"

lemma replica_ok_extend: "rows_extend a b \<Longrightarrow> replica_ok env a p \<Longrightarrow> replica_ok env b p"
  using in_sync_extend by (auto simp: replica_ok_def)

lemma cluster_ok_upd:
  assumes "cluster_ok env c" and "rows_extend (cl_rows c) rows" and "rows_sound env rows"
    and "replica_ok env rows p"
  shows "cluster_ok env \<lparr>cl_rows = rows, cl_replicas = (cl_replicas c)(r \<mapsto> p)\<rparr>"
  using assms replica_ok_extend by (auto simp: cluster_ok_def)

lemma sound_world_of: "cluster_ok env c \<Longrightarrow> cl_replicas c r = Some p \<Longrightarrow> sound env (world_of (cl_rows c) p)"
  by (auto simp: cluster_ok_def replica_ok_def sound_def world_of_def)

lemma boot_ok:
  assumes "cluster_ok env c" and "w = load_config env now failed (cl_rows c)"
  shows "cluster_ok env \<lparr>cl_rows = cw_rows w, cl_replicas = (cl_replicas c)(r \<mapsto> booted failed w)\<rparr>"
proof -
  let ?w0 = "\<lparr>cw_rows = cl_rows c, cw_cache = initial_cache env, cw_notices = []\<rparr>"
  have "sound env ?w0"
    using assms(1) by (simp add: sound_def cluster_ok_def cache_sound_def initial_cache_def siem_default_def
        pinned_to_def strip_def provider_current_def)
  note f = fold_refresh [OF this, of failed now SCOPES]
  have w: "rows_extend (cl_rows c) (cw_rows w)" "sound env w"
    "\<forall>sc\<in>set SCOPES - failed. in_sync (cw_rows w) (cw_cache w) sc"
    using f by (simp_all add: assms(2) load_config_def)
  then have "replica_ok env (cw_rows w) (booted failed w)"
    using unknown_in_sync by (auto simp: replica_ok_def booted_def sound_def)
  then show ?thesis using cluster_ok_upd [OF assms(1) w(1)] w(2) by (simp add: sound_def)
qed

lemma on_notify_facts:
  "rp_cache (on_notify sc p) = rp_cache p" "set (rp_queue p) \<subseteq> set (rp_queue (on_notify sc p))"
  "rp_missed p \<subseteq> rp_missed (on_notify sc p)"
  "sc \<in> set (rp_queue (on_notify sc p)) \<or> sc \<in> rp_missed (on_notify sc p)"
  by (auto simp: on_notify_def)

lemma announce_Nil: "announce [] ps = ps"
  by (rule ext) (simp add: announce_def option.map_id)

lemma notified_ok:
  assumes "cache_sound env (rp_cache q)"
    and "\<And>sc. sc \<noteq> scope \<Longrightarrow> sc \<in> set (rp_queue q) \<or> sc \<in> rp_missed q \<or> in_sync rows (rp_cache q) sc"
  shows "replica_ok env rows (on_notify scope q)"
proof -
  have "sc \<in> set (rp_queue (on_notify scope q)) \<or> sc \<in> rp_missed (on_notify scope q) \<or>
      in_sync rows (rp_cache q) sc" for sc
    using on_notify_facts [where sc = scope and p = q] assms(2) [of sc] by (cases "sc = scope") blast+
  then show ?thesis using assms(1) by (simp add: replica_ok_def on_notify_facts(1))
qed

lemma save_ok:
  assumes ok: "cluster_ok env c" and p: "cl_replicas c r = Some p"
  shows "cluster_ok env (after_call r p (settings_call env now call (world_of (cl_rows c) p)) c)"
proof -
  let ?w = "world_of (cl_rows c) p"
  let ?w' = "settings_call env now call ?w"
  have w: "cw_rows ?w = cl_rows c" "cw_cache ?w = rp_cache p" "cw_notices ?w = []"
    by (simp_all add: world_of_def)
  note eff = settings_call_effect [OF sound_world_of [OF ok p], of now call]
  then have snd: "rows_sound env (cw_rows ?w')" "cache_sound env (cw_cache ?w')" by (simp_all add: sound_def)
  from eff show ?thesis
  proof (elim conjE disjE)
    assume "unchanged_but_seeded ?w ?w'"
    then have u: "rows_extend (cl_rows c) (cw_rows ?w')" "cw_cache ?w' = rp_cache p" "cw_notices ?w' = []"
      by (simp_all add: unchanged_but_seeded_def w)
    have "replica_ok env (cw_rows ?w') p"
      using replica_ok_extend [OF u(1)] ok p by (auto simp: cluster_ok_def)
    from cluster_ok_upd [OF ok u(1) snd(1) this, of r] show ?thesis
      by (simp add: after_call_def announce_Nil u)
  next
    assume s: "saved (save_scope call) ?w ?w'"
    let ?sc = "save_scope call"
    have n: "cw_notices ?w' = [?sc]" using s by (simp add: saved_def w)
    have rows: "in_sync (cw_rows ?w') cache sc = in_sync (cl_rows c) cache sc" if "sc \<noteq> ?sc" for sc cache
      using s that by (simp add: saved_def w)
    have own: "in_sync rs (cw_cache ?w') sc = in_sync rs (rp_cache p) sc" if "sc \<noteq> ?sc" for sc rs
      using s that by (simp add: saved_def w)
    have others: "replica_ok env (cl_rows c) q" if "cl_replicas c r' = Some q" for r' q
      using ok that by (simp add: cluster_ok_def)
    have "replica_ok env (cw_rows ?w') (on_notify ?sc q)" if "cl_replicas c r' = Some q" for r' q
      using others [OF that] rows by (intro notified_ok) (auto simp: replica_ok_def)
    moreover have "replica_ok env (cw_rows ?w') (on_notify ?sc (p\<lparr>rp_cache := cw_cache ?w'\<rparr>))"
      using others [OF p] rows own snd(2) by (intro notified_ok) (auto simp: replica_ok_def)
    ultimately show ?thesis
      using snd(1) by (auto simp: cluster_ok_def after_call_def announce_def n split: if_splits)
  qed
qed

lemma use_ok:
  assumes "replica_ok env rows p"
  shows "replica_ok env rows (use_provider env p)"
proof -
  obtain x where x: "snd (active_provider env (rp_cache p)) = (rp_cache p)\<lparr>cc_provider := x\<rparr>"
    "x = cc_provider (rp_cache p) \<or> x = Some (active_llm_provider env (get_llm_config env (rp_cache p)))"
  proof (cases "cc_provider (rp_cache p)")
    case None
    show ?thesis
      by (rule that [of "Some (active_llm_provider env (get_llm_config env (rp_cache p)))"])
        (simp_all add: active_provider_def None Let_def)
  next
    case (Some a)
    then show ?thesis by (intro that [of "Some a"]) (simp_all add: active_provider_def)
  qed
  have same: "in_sync rows ((rp_cache p)\<lparr>cc_provider := x\<rparr>) sc = in_sync rows (rp_cache p) sc" for sc
    by (simp add: in_sync_def synced_defs)
  have "cache_sound env ((rp_cache p)\<lparr>cc_provider := x\<rparr>)"
    using assms x(2) by (auto simp: replica_ok_def cache_sound_def provider_current_def get_llm_config_def)
  then show ?thesis using assms by (simp add: replica_ok_def use_provider_def x(1) same)
qed

lemma connect_ok:
  assumes ok: "cluster_ok env c" and p: "cl_replicas c r = Some p"
  shows "cluster_ok env (bus_connect env now r p c)"
proof (cases "rp_first_connect p")
  case True
  have "replica_ok env (cl_rows c) (p\<lparr>rp_listening := True, rp_first_connect := False\<rparr>)"
    using ok p by (auto simp: cluster_ok_def replica_ok_def)
  from cluster_ok_upd [OF ok rows_extend_refl _ this] ok show ?thesis
    by (simp add: bus_connect_def on_bus_connected_def True cluster_ok_def)
next
  case False
  let ?w = "refresh_all env now (world_of (cl_rows c) (p\<lparr>rp_listening := True\<rparr>))"
  have "sound env (world_of (cl_rows c) (p\<lparr>rp_listening := True\<rparr>))"
    using sound_world_of [OF ok p] by (simp add: world_of_def)
  note f = fold_refresh [OF this, of "{}" now SCOPES]
  have w: "rows_extend (cl_rows c) (cw_rows ?w)" "sound env ?w"
    "\<forall>sc\<in>set SCOPES. in_sync (cw_rows ?w) (cw_cache ?w) sc"
    using f by (simp_all add: refresh_all_def world_of_def)
  have "replica_ok env (cw_rows ?w) (p\<lparr>rp_listening := True, rp_cache := cw_cache ?w, rp_missed := {}\<rparr>)"
    using w(2,3) unknown_in_sync by (auto simp: replica_ok_def sound_def)
  from cluster_ok_upd [OF ok w(1) _ this] w(2) show ?thesis
    by (simp add: bus_connect_def on_bus_connected_def False sound_def Let_def)
qed

lemma handle_ok:
  assumes ok: "cluster_ok env c" and p: "cl_replicas c r = Some p"
  shows "cluster_ok env (handle_next env now r p c)"
proof (cases "rp_queue p")
  case Nil
  then show ?thesis using ok by (simp add: handle_next_def)
next
  case (Cons scope rest)
  let ?w = "snd (refresh_scope env now scope (world_of (cl_rows c) p))"
  note f = refresh_scope_refreshed [OF sound_world_of [OF ok p], of scope now]
  have w: "rows_extend (cl_rows c) (cw_rows ?w)" "sound env ?w" "in_sync (cw_rows ?w) (cw_cache ?w) scope"
    using f by (simp_all add: refreshed_def world_of_def)
  have keep: "in_sync (cw_rows ?w) (cw_cache ?w) sc" if "in_sync (cl_rows c) (rp_cache p) sc" for sc
    using f that by (simp add: refreshed_def still_in_sync_def world_of_def)
  have pok: "replica_ok env (cl_rows c) p" using ok p by (simp add: cluster_ok_def)
  have "sc \<in> set rest \<or> sc \<in> rp_missed p - {scope} \<or> in_sync (cw_rows ?w) (cw_cache ?w) sc" for sc
    using pok Cons w(3) keep [of sc] by (cases "sc = scope") (auto simp: replica_ok_def)
  then have "replica_ok env (cw_rows ?w)
      (p\<lparr>rp_cache := cw_cache ?w, rp_queue := rest, rp_missed := rp_missed p - {scope}\<rparr>)"
    using w(2) by (simp add: replica_ok_def sound_def)
  from cluster_ok_upd [OF ok w(1) _ this] w(2) show ?thesis
    by (simp add: handle_next_def Cons sound_def Let_def)
qed

lemma config_step_ok: "config_step env c c' \<Longrightarrow> cluster_ok env c \<Longrightarrow> cluster_ok env c'"
proof (induction rule: config_step.induct)
  case (Boot c r w now failed)
  then show ?case using boot_ok by blast
next
  case (Stop c r)
  then show ?case by (auto simp: cluster_ok_def)
next
  case (Save c r p now call)
  then show ?case using save_ok by blast
next
  case (Use c r p)
  then show ?case using use_ok by (auto simp: cluster_ok_def)
next
  case (Connect c r p now)
  then show ?case using connect_ok by blast
next
  case (Drop c r p)
  then show ?case by (auto simp: cluster_ok_def replica_ok_def)
next
  case (Handle c r p now)
  then show ?case using handle_ok by blast
qed

lemma config_reach_ok: "config_reach env c \<Longrightarrow> cluster_ok env c"
proof (induction rule: config_reach.induct)
  case start
  then show ?case by (simp add: cluster_ok_def empty_cluster_def rows_sound_def empty_rows_def)
next
  case (step c c')
  then show ?case using config_step_ok by blast
qed

section \<open>Properties\<close>

definition drain_queue :: "settings_env \<Rightarrow> instant \<Rightarrow> nat \<Rightarrow> cluster \<Rightarrow> cluster" where
  "drain_queue env now r c =
     (case cl_replicas c r of None \<Rightarrow> c | Some p \<Rightarrow> handle_next env now r p c)"

lemma handle_next_queue:
  assumes "cl_replicas c r = Some p"
  shows "\<exists>p'. cl_replicas (handle_next env now r p c) r = Some p' \<and> rp_queue p' = tl (rp_queue p) \<and>
    rp_missed p' \<subseteq> rp_missed p"
  using assms by (cases "rp_queue p") (auto simp: handle_next_def Let_def)

lemma drain_queue_empty:
  assumes "config_reach env c" and "cl_replicas c r = Some p" and "length (rp_queue p) = n"
  shows "config_reach env ((drain_queue env now r ^^ n) c) \<and>
    (\<exists>p'. cl_replicas ((drain_queue env now r ^^ n) c) r = Some p' \<and> rp_queue p' = [] \<and>
       rp_missed p' \<subseteq> rp_missed p)"
  using assms
proof (induction n arbitrary: c p)
  case (Suc n)
  obtain p' where p': "cl_replicas (handle_next env now r p c) r = Some p'" "rp_queue p' = tl (rp_queue p)"
    "rp_missed p' \<subseteq> rp_missed p"
    using handle_next_queue [OF Suc.prems(2)] by blast
  have "config_reach env (handle_next env now r p c)"
    using Suc.prems(1) config_step.Handle [OF Suc.prems(2)] by (rule config_reach.step)
  moreover have "drain_queue env now r c = handle_next env now r p c"
    using Suc.prems(2) by (simp add: drain_queue_def)
  ultimately show ?case
    using Suc.IH [OF _ p'(1)] p'(2,3) Suc.prems(3) by (fastforce simp: funpow_swap1)
qed auto

text \<open>C29: the replicas agree on their settings.  Whatever replicas start, stop, save, lose and
  regain the bus and build providers, in any order: a replica that missed no announcement since its
  last full read, once it has handled what is in its queue, holds exactly the saved rows in its
  caches (rate-limit thresholds included), and a language-model provider it has built is the one
  these settings select.\<close>

theorem settings_caches_converge:
  assumes "config_reach env c" and "cl_replicas c r = Some p" and "rp_missed p = {}"
  shows "\<exists>c' p'. c' = (drain_queue env now r ^^ length (rp_queue p)) c \<and> cl_replicas c' r = Some p' \<and>
    general_synced (cl_rows c') (rp_cache p') \<and> siem_synced (cl_rows c') (rp_cache p') \<and>
    email_synced (cl_rows c') (rp_cache p') \<and> proxy_synced (cl_rows c') (rp_cache p') \<and>
    llm_synced (cl_rows c') (rp_cache p') \<and> provider_current env (rp_cache p')"
proof -
  let ?c = "(drain_queue env now r ^^ length (rp_queue p)) c"
  obtain p' where p': "config_reach env ?c" "cl_replicas ?c r = Some p'" "rp_queue p' = []" "rp_missed p' = {}"
    using drain_queue_empty [OF assms(1,2) refl, of now] assms(3) by auto
  have ok: "replica_ok env (cl_rows ?c) p'" using config_reach_ok [OF p'(1)] p'(2) by (simp add: cluster_ok_def)
  then have sync: "in_sync (cl_rows ?c) (rp_cache p') sc" for sc using p'(3,4) by (simp add: replica_ok_def)
  have "general_synced (cl_rows ?c) (rp_cache p')" "siem_synced (cl_rows ?c) (rp_cache p')"
    "email_synced (cl_rows ?c) (rp_cache p')" "proxy_synced (cl_rows ?c) (rp_cache p')"
    "llm_synced (cl_rows ?c) (rp_cache p')"
    using sync [of "''general''"] sync [of "''siem''"] sync [of "''email''"] sync [of "''proxy''"] sync [of "''llm''"]
    by (simp_all add: in_sync_def)
  moreover have "provider_current env (rp_cache p')" using ok by (simp add: replica_ok_def cache_sound_def)
  ultimately show ?thesis using p'(2) by blast
qed

text \<open>A small deployment: two replicas over an environment with every secret set.\<close>

definition demo_env :: settings_env where
  "demo_env =
     \<lparr>st_general = \<lparr>gn_registration_enabled = True, gn_access_token_expire_minutes = 480,
        gn_audit_persist = True, gn_login_max_attempts = 5, gn_login_lockout_seconds = 300,
        gn_registration_max_attempts = 5, gn_registration_lockout_seconds = 3600,
        gn_password_reset_max_attempts = 5, gn_password_reset_lockout_seconds = 3600\<rparr>,
      st_siem = \<lparr>au_enabled = False, au_methods = [], au_min_severity = ''info'', au_file_path = [],
        au_syslog_host = ''localhost'', au_syslog_port = 514, au_syslog_protocol = ''UDP'',
        au_syslog_facility = 13, au_http_endpoint = ''https://siem.corp'', au_http_verify_tls = True,
        au_retention_days = 0\<rparr>,
      st_siem_methods = ''stdout,http'', st_siem_http_token = ''t'', st_smtp_host = ''mail.corp'',
      st_smtp_port = 587, st_smtp_username = [], st_smtp_password = ''s'', st_smtp_from = ''a@b'',
      st_smtp_starttls = True, st_smtp_tls = False, st_public_base_url = ''https://ttx'',
      st_proxy = \<lparr>px_mode = ''system'', px_proxy_url = [], px_no_proxy = ''localhost''\<rparr>,
      st_proxy_username = [], st_proxy_password = [],
      st_llm = \<lparr>lz_provider = ''anthropic'', lz_max_tokens = 600, lz_anthropic_model = ''m'',
        lz_bedrock_model = ''m'', lz_bedrock_aws_region = [], lz_openai_model = ''m'',
        lz_openai_base_url = [], lz_ollama_model = ''m'', lz_ollama_base_url = [],
        lz_gemini_model = ''m'', lz_gemini_base_url = GEMINI_OPENAI_BASE_URL\<rparr>,
      st_anthropic_api_key = [], st_openai_api_key = ''k'', st_gemini_api_key = []\<rparr>"

definition no_audit_changes :: audit_changes where
  "no_audit_changes = \<lparr>ac_enabled = None, ac_methods = None, ac_min_severity = None, ac_file_path = None,
     ac_syslog_host = None, ac_syslog_port = None, ac_syslog_protocol = None, ac_syslog_facility = None,
     ac_http_endpoint = None, ac_http_verify_tls = None, ac_retention_days = None\<rparr>"

definition demo_booted :: cluster where
  "demo_booted =
     (let w = load_config demo_env 1 {} empty_rows; c = \<lparr>cl_rows = cw_rows w, cl_replicas = [0 \<mapsto> booted {} w]\<rparr>;
          v = load_config demo_env 2 {} (cl_rows c)
      in \<lparr>cl_rows = cw_rows v, cl_replicas = (cl_replicas c)(1 \<mapsto> booted {} v)\<rparr>)"

definition demo_connect :: "nat \<Rightarrow> cluster \<Rightarrow> cluster" where
  "demo_connect r c = bus_connect demo_env 3 r (the (cl_replicas c r)) c"

definition demo_save :: "nat \<Rightarrow> cluster \<Rightarrow> cluster" where
  "demo_save r c = after_call r (the (cl_replicas c r))
     (settings_call demo_env 4 (SaveAudit (no_audit_changes\<lparr>ac_enabled := Some (Some True)\<rparr>))
        (world_of (cl_rows c) (the (cl_replicas c r)))) c"

lemma demo_booted_reach: "config_reach demo_env demo_booted"
proof -
  have "config_reach demo_env \<lparr>cl_rows = cw_rows (load_config demo_env 1 {} empty_rows),
      cl_replicas = [0 \<mapsto> booted {} (load_config demo_env 1 {} empty_rows)]\<rparr>"
    using config_reach.step [OF config_reach.start config_step.Boot [OF _ refl, of empty_cluster 0 demo_env 1 "{}"]]
    by (simp add: empty_cluster_def)
  from config_reach.step [OF this config_step.Boot [OF _ refl, of _ 1 demo_env 2 "{}"]]
  show ?thesis by (simp add: demo_booted_def Let_def)
qed

lemma demo_connect_reach:
  assumes "config_reach demo_env c" and "cl_replicas c r \<noteq> None" and "\<not> rp_listening (the (cl_replicas c r))"
  shows "config_reach demo_env (demo_connect r c)"
  using config_reach.step [OF assms(1) config_step.Connect [of c r "the (cl_replicas c r)" demo_env 3]] assms(2,3)
  by (auto simp: demo_connect_def)

lemma demo_save_reach:
  assumes "config_reach demo_env c" and "cl_replicas c r \<noteq> None"
  shows "config_reach demo_env (demo_save r c)"
  using config_reach.step [OF assms(1) config_step.Save [of c r "the (cl_replicas c r)" demo_env 4
      "SaveAudit (no_audit_changes\<lparr>ac_enabled := Some (Some True)\<rparr>)"]] assms(2)
  by (auto simp: demo_save_def)

definition demo_told :: cluster where
  "demo_told = demo_save 0 (demo_connect 1 demo_booted)"

definition demo_untold :: cluster where
  "demo_untold = demo_connect 1 (demo_save 0 demo_booted)"

lemma demo_booted_replicas:
  "cl_replicas demo_booted 0 \<noteq> None" "cl_replicas demo_booted 1 \<noteq> None"
  "\<not> rp_listening (the (cl_replicas demo_booted 1))"
  by (simp_all add: demo_booted_def booted_def Let_def)

lemma demo_save_replicas:
  assumes "cl_replicas c r \<noteq> None" and "cl_replicas c r' \<noteq> None"
  shows "cl_replicas (demo_save r c) r' \<noteq> None"
    and "rp_listening (the (cl_replicas (demo_save r c) r')) = rp_listening (the (cl_replicas c r'))"
proof -
  have "rp_listening (fold on_notify xs p) = rp_listening p" for xs p
    by (induction xs arbitrary: p) (simp_all add: on_notify_def)
  then show "cl_replicas (demo_save r c) r' \<noteq> None"
    "rp_listening (the (cl_replicas (demo_save r c) r')) = rp_listening (the (cl_replicas c r'))"
    using assms by (auto simp: demo_save_def after_call_def announce_def)
qed

lemma demo_connect_replicas:
  "cl_replicas c r' \<noteq> None \<Longrightarrow> cl_replicas (demo_connect r c) r' \<noteq> None"
  by (simp add: demo_connect_def bus_connect_def split: prod.split)

lemma demo_told_reach: "config_reach demo_env demo_told"
  unfolding demo_told_def
  by (intro demo_save_reach demo_connect_reach demo_booted_reach demo_booted_replicas demo_connect_replicas)

lemma demo_untold_reach: "config_reach demo_env demo_untold"
  unfolding demo_untold_def
  by (intro demo_save_reach demo_connect_reach demo_booted_reach demo_booted_replicas demo_save_replicas(1))
    (use demo_save_replicas(2) [OF demo_booted_replicas(1,2)] demo_booted_replicas(3) in simp)

theorem settings_caches_converge_witness:
  "\<exists>p c' p'. cl_replicas demo_told 1 = Some p \<and> rp_queue p = [''siem''] \<and> \<not> sk_enabled (cc_siem (rp_cache p)) \<and>
     c' = (drain_queue demo_env 5 1 ^^ 1) demo_told \<and> cl_replicas c' 1 = Some p' \<and>
     siem_synced (cl_rows c') (rp_cache p')"
proof -
  have "(case cl_replicas demo_told 1 of None \<Rightarrow> False
     | Some p \<Rightarrow> rp_missed p = {} \<and> rp_queue p = [''siem''] \<and> \<not> sk_enabled (cc_siem (rp_cache p)))"
    by code_simp
  then obtain p where p: "cl_replicas demo_told 1 = Some p" "rp_missed p = {}" "rp_queue p = [''siem'']"
    "\<not> sk_enabled (cc_siem (rp_cache p))"
    by (cases "cl_replicas demo_told 1") auto
  then have "length (rp_queue p) = 1" by simp
  then show ?thesis
    using settings_caches_converge [OF demo_told_reach p(1,2), of 5] p by metis
qed

text \<open>An announcement made between the startup of a replica and its first subscription is lost
  for good: the first connection re-reads nothing.\<close>

lemma first_connect_misses_a_save:
  "\<exists>p. config_reach demo_env demo_untold \<and> cl_replicas demo_untold 1 = Some p \<and> rp_listening p \<and>
     rp_queue p = [] \<and> \<not> siem_synced (cl_rows demo_untold) (rp_cache p)"
proof -
  have "(case cl_replicas demo_untold 1 of None \<Rightarrow> False
     | Some p \<Rightarrow> rp_listening p \<and> rp_queue p = [] \<and> \<not> sk_enabled (cc_siem (rp_cache p))) \<and>
    (case rw_audit (cl_rows demo_untold) of None \<Rightarrow> False | Some row \<Rightarrow> au_enabled row)"
    by code_simp
  then obtain p row where p: "cl_replicas demo_untold 1 = Some p" "rp_listening p" "rp_queue p = []"
    "\<not> sk_enabled (cc_siem (rp_cache p))"
    and row: "rw_audit (cl_rows demo_untold) = Some row" "au_enabled row"
    by (cases "cl_replicas demo_untold 1"; cases "rw_audit (cl_rows demo_untold)") auto
  have "\<not> siem_synced (cl_rows demo_untold) (rp_cache p)"
    using p(4) row by (auto simp: siem_synced_def siem_config_of_def)
  then show ?thesis using p demo_untold_reach by blast
qed

section \<open>Where the secrets go\<close>

text \<open>The host the HTTP sink posts its bearer token to, and the host and password the mailer
  hands to the SMTP library.\<close>

definition http_sink :: "settings_env \<Rightarrow> siem_config \<Rightarrow> (string \<times> string option) option" where
  "http_sink env cfg =
     (if sk_http_endpoint cfg = [] then None
      else Some (sk_http_endpoint cfg,
        if st_siem_http_token env = [] then None else Some (''Bearer '' @ st_siem_http_token env)))"

definition smtp_login :: "settings_env \<Rightarrow> mail_config \<Rightarrow> exn + string \<times> string option" where
  "smtp_login env cfg =
     (if \<not> mail_enabled cfg then Inl (RuntimeError ''SMTP is disabled'')
      else Inr (ml_smtp_host cfg, if st_smtp_password env = [] then None else Some (st_smtp_password env)))"

lemma official_base_url:
  assumes "validate_selection env c = Inr ()" and "active_llm_provider env c = Some pv"
  shows "(pv_key pv = ''openai'' \<longrightarrow> rstrip_slash (pv_base_url pv) \<in> {[], OPENAI_BASE_URL}) \<and>
    (pv_key pv = ''gemini'' \<longrightarrow> rstrip_slash (pv_base_url pv) = rstrip_slash GEMINI_OPENAI_BASE_URL)"
proof -
  consider "provider_key c = ''openai''" | "provider_key c = ''gemini''"
    | "provider_key c \<notin> {''openai'', ''gemini''}" by blast
  then show ?thesis
  proof cases
    case 1
    have "rstrip_slash (lz_openai_base_url c) \<in> {[], OPENAI_BASE_URL}"
      using assms 1 by (auto simp: validate_selection_def Let_def split: if_splits)
    moreover have "pv_key pv = ''openai''" "pv_base_url pv = lz_openai_base_url c"
      using assms(2) 1 by (auto simp: active_llm_provider_def LLM_DISABLED_KEYS_def provider_of_def Let_def)
    ultimately show ?thesis by simp
  next
    case 2
    have "rstrip_slash (lz_gemini_base_url c) = rstrip_slash GEMINI_OPENAI_BASE_URL"
      using assms 2 by (auto simp: validate_selection_def Let_def split: if_splits)
    moreover have "pv_key pv = ''gemini''"
      "pv_base_url pv = or_default (lz_gemini_base_url c) GEMINI_OPENAI_BASE_URL"
      using assms(2) 2 by (auto simp: active_llm_provider_def LLM_DISABLED_KEYS_def provider_of_def Let_def)
    ultimately show ?thesis by (simp add: or_default_def)
  next
    case 3
    have "pv_key pv = provider_key c"
      using assms(2) by (auto simp: active_llm_provider_def provider_of_def Let_def split: if_splits)
    then show ?thesis using 3 by auto
  qed
qed



end
