(* ===== verification/Settings_Api.thy ===== *)
theory Settings_Api
  imports Oidc Audit_Log Config_Sync
begin

text \<open>
  The administrator's settings routes: \<^verbatim>\<open>app/routers/general.py\<close>,
  \<^verbatim>\<open>audit.py\<close>, \<^verbatim>\<open>email.py\<close>, \<^verbatim>\<open>proxy.py\<close>,
  \<^verbatim>\<open>llm.py\<close> and \<^verbatim>\<open>oidc_settings.py\<close>.

  A route answers with the row or an exception, the state it leaves, and the audit events it
  emitted.  What the connectivity tests do on the network is an argument.  A body is a patch; its
  validators may change values, and a rejected body is a \<open>ValidationError\<close>.
\<close>

section \<open>Bodies\<close>

fun within :: "int \<Rightarrow> int \<Rightarrow> int change \<Rightarrow> bool" where
  "within lo hi (Some (Some v)) \<longleftrightarrow> lo \<le> v \<and> v \<le> hi"
| "within lo hi _ \<longleftrightarrow> True"

fun change_map :: "('a \<Rightarrow> 'a) \<Rightarrow> 'a change \<Rightarrow> 'a change" where
  "change_map f (Some (Some v)) = Some (Some (f v))"
| "change_map f c = c"

definition out_of_range :: exn where
  "out_of_range = ValidationError ''Input should be in range''"

definition general_body :: "general_changes \<Rightarrow> exn + general_changes" where
  "general_body c =
     (if within 1 43200 (gc_access_token_expire_minutes c) \<and> within 1 1000 (gc_login_max_attempts c) \<and>
         within 1 86400 (gc_login_lockout_seconds c) \<and> within 1 1000 (gc_registration_max_attempts c) \<and>
         within 1 86400 (gc_registration_lockout_seconds c) \<and> within 1 1000 (gc_password_reset_max_attempts c) \<and>
         within 1 86400 (gc_password_reset_lockout_seconds c)
      then Inr c else Inl out_of_range)"

definition ALLOWED_METHODS :: "string list" where
  "ALLOWED_METHODS = [''stdout'', ''file'', ''syslog'', ''http'']"

definition ALLOWED_SEVERITY :: "string list" where
  "ALLOWED_SEVERITY = [''info'', ''warning'', ''critical'']"

definition valid_methods :: "string list \<Rightarrow> string list" where
  "valid_methods v = filter (\<lambda>m. m \<in> set ALLOWED_METHODS) (map (\<lambda>s. map latin_lower (strip s)) v)"

definition valid_severity :: "string \<Rightarrow> string" where
  "valid_severity v =
     (let l = map latin_lower (strip v) in if l \<in> set ALLOWED_SEVERITY then l else ''info'')"

definition valid_protocol :: "string \<Rightarrow> string" where
  "valid_protocol v = (if map ascii_upper (strip v) = ''TCP'' then ''TCP'' else ''UDP'')"

definition audit_body :: "audit_changes \<Rightarrow> exn + audit_changes" where
  "audit_body c =
     (if within 0 3650 (ac_retention_days c)
      then Inr (c\<lparr>ac_methods := change_map valid_methods (ac_methods c),
                  ac_min_severity := change_map valid_severity (ac_min_severity c),
                  ac_syslog_protocol := change_map valid_protocol (ac_syslog_protocol c)\<rparr>)
      else Inl out_of_range)"

definition email_body :: "email_changes \<Rightarrow> exn + email_changes" where
  "email_body c =
     (if \<not> within 1 65535 (ec_smtp_port c) then Inl out_of_range
      else if ec_smtp_starttls c = Some (Some True) \<and> ec_smtp_tls c = Some (Some True)
      then Inl (ValidationError ''STARTTLS and implicit TLS cannot both be enabled'')
      else Inr (c\<lparr>ec_smtp_host := change_map strip (ec_smtp_host c), ec_smtp_from := change_map strip (ec_smtp_from c),
                  ec_smtp_username := change_map strip (ec_smtp_username c),
                  ec_public_base_url := change_map strip (ec_public_base_url c)\<rparr>))"

definition valid_mode :: "string \<Rightarrow> string" where
  "valid_mode v =
     proxy_mode_value (case read_proxy_mode (strip v) of None \<Rightarrow> ProxySystem | Some m \<Rightarrow> m)"

definition proxy_body :: "proxy_changes \<Rightarrow> proxy_changes" where
  "proxy_body c =
     \<lparr>pc_mode = change_map valid_mode (pc_mode c), pc_proxy_url = change_map strip (pc_proxy_url c),
      pc_no_proxy = change_map strip (pc_no_proxy c)\<rparr>"

definition absolute_url :: "string change \<Rightarrow> exn + unit" where
  "absolute_url c =
     (case c of
        Some (Some v) \<Rightarrow>
          if v = [] then Inr ()
          else (case valid_absolute_url v of
                  Inr True \<Rightarrow> Inr ()
                | _ \<Rightarrow> Inl (ValidationError ''Provider base URL must be an absolute http(s) URL''))
      | _ \<Rightarrow> Inr ())"

definition llm_body :: "llm_changes \<Rightarrow> exn + llm_changes" where
  "llm_body c =
     (let c1 = c\<lparr>lg_provider := change_map (\<lambda>v. map latin_lower (strip v)) (lg_provider c),
                 lg_anthropic_model := change_map strip (lg_anthropic_model c),
                 lg_bedrock_model := change_map strip (lg_bedrock_model c),
                 lg_bedrock_aws_region := change_map strip (lg_bedrock_aws_region c),
                 lg_openai_model := change_map strip (lg_openai_model c),
                 lg_openai_base_url := change_map strip (lg_openai_base_url c),
                 lg_ollama_model := change_map strip (lg_ollama_model c),
                 lg_ollama_base_url := change_map strip (lg_ollama_base_url c),
                 lg_gemini_model := change_map strip (lg_gemini_model c),
                 lg_gemini_base_url := change_map strip (lg_gemini_base_url c)\<rparr>
      in if \<not> within 1 32768 (lg_max_tokens c) then Inl out_of_range
         else and_then (absolute_url (lg_openai_base_url c1)) (\<lambda>_.
              and_then (absolute_url (lg_ollama_base_url c1)) (\<lambda>_.
              and_then (absolute_url (lg_gemini_base_url c1)) (\<lambda>_. Inr c1))))"

section \<open>Audit events of a save\<close>

text \<open>\<^verbatim>\<open>"fields=" + ",".join(sorted(changes))\<close>: the names, in their order, of the
  fields the body has.\<close>

definition fields_text :: "(string \<times> bool) list \<Rightarrow> string" where
  "fields_text fs = ''fields='' @ Launch_Snapshot.join '','' (map fst (filter snd fs))"

definition origin_text :: "string \<Rightarrow> exn + string" where
  "origin_text v = and_then (url_origin (Some v)) (\<lambda>o1. Inr (if o1 = [] then ''unset'' else o1))"

definition destination_changed ::
  "string \<Rightarrow> string \<Rightarrow> current_user \<Rightarrow> string \<Rightarrow> string \<Rightarrow> exn + audit_call list" where
  "destination_changed action target_type u old new =
     and_then (host_changed (Some old) (Some new)) (\<lambda>moved.
       if \<not> moved then Inr []
       else and_then (origin_text old) (\<lambda>a. and_then (origin_text new) (\<lambda>b.
         Inr [audit_call action u target_type (''from='' @ a @ '' to='' @ b) ''critical''])))"

text \<open>What follows the commit of a save: a destination whose port is no number breaks the answer,
  but not the save.\<close>

definition after_save ::
  "(exn + 'r) \<times> config_world \<Rightarrow> ('r \<Rightarrow> exn + audit_call list) \<Rightarrow> ('r \<Rightarrow> audit_call) \<Rightarrow>
     (exn + 'r) \<times> config_world \<times> audit_call list" where
  "after_save out moved saved1 =
     (case out of
        (Inl (ValueError m), w) \<Rightarrow> (Inl (HTTPException 422 m), w, [])
      | (Inl e, w) \<Rightarrow> (Inl e, w, [])
      | (Inr row, w) \<Rightarrow>
          (case moved row of Inl e \<Rightarrow> (Inl e, w, []) | Inr ev \<Rightarrow> (Inr row, w, ev @ [saved1 row])))"

section \<open>The routes\<close>

text \<open>The dependency, then the body, then the handler.\<close>

definition admin_put ::
  "current_user \<Rightarrow> exn + 'b \<Rightarrow> ('b \<Rightarrow> config_world \<Rightarrow> (exn + 'r) \<times> config_world \<times> audit_call list) \<Rightarrow>
     config_world \<Rightarrow> (exn + 'r) \<times> config_world \<times> audit_call list" where
  "admin_put u body handler w =
     (case and_then (require_admin u) (\<lambda>_. body) of Inl e \<Rightarrow> (Inl e, w, []) | Inr b \<Rightarrow> handler b w)"

definition general_fields :: "general_changes \<Rightarrow> (string \<times> bool) list" where
  "general_fields c =
     [(''access_token_expire_minutes'', gc_access_token_expire_minutes c \<noteq> None),
      (''audit_persist'', gc_audit_persist c \<noteq> None),
      (''login_lockout_seconds'', gc_login_lockout_seconds c \<noteq> None),
      (''login_max_attempts'', gc_login_max_attempts c \<noteq> None),
      (''password_reset_lockout_seconds'', gc_password_reset_lockout_seconds c \<noteq> None),
      (''password_reset_max_attempts'', gc_password_reset_max_attempts c \<noteq> None),
      (''registration_enabled'', gc_registration_enabled c \<noteq> None),
      (''registration_lockout_seconds'', gc_registration_lockout_seconds c \<noteq> None),
      (''registration_max_attempts'', gc_registration_max_attempts c \<noteq> None)]"

definition put_general ::
  "settings_env \<Rightarrow> general_changes \<Rightarrow> current_user \<Rightarrow> instant \<Rightarrow> config_world \<Rightarrow>
     (exn + general_settings) \<times> config_world \<times> audit_call list" where
  "put_general env body u now =
     admin_put u (general_body body) (\<lambda>c w.
       after_save (update_general env c now w) (\<lambda>_. Inr [])
         (\<lambda>_. audit_call ''general.settings_updated'' u ''general_settings'' (fields_text (general_fields c)) ''warning''))"

definition audit_fields :: "audit_changes \<Rightarrow> (string \<times> bool) list" where
  "audit_fields c =
     [(''enabled'', ac_enabled c \<noteq> None), (''file_path'', ac_file_path c \<noteq> None),
      (''http_endpoint'', ac_http_endpoint c \<noteq> None), (''http_verify_tls'', ac_http_verify_tls c \<noteq> None),
      (''methods'', ac_methods c \<noteq> None), (''min_severity'', ac_min_severity c \<noteq> None),
      (''retention_days'', ac_retention_days c \<noteq> None), (''syslog_facility'', ac_syslog_facility c \<noteq> None),
      (''syslog_host'', ac_syslog_host c \<noteq> None), (''syslog_port'', ac_syslog_port c \<noteq> None),
      (''syslog_protocol'', ac_syslog_protocol c \<noteq> None)]"

definition put_audit ::
  "settings_env \<Rightarrow> audit_changes \<Rightarrow> current_user \<Rightarrow> config_world \<Rightarrow>
     (exn + audit_settings) \<times> config_world \<times> audit_call list" where
  "put_audit env body u =
     admin_put u (audit_body body) (\<lambda>c w.
       let (old, w1) = get_audit env w
       in after_save (update_audit env c w1)
            (\<lambda>row. destination_changed ''audit.sink_destination_changed'' ''audit_settings'' u
               (au_http_endpoint old) (au_http_endpoint row))
            (\<lambda>_. audit_call ''audit.settings_updated'' u ''audit_settings'' (fields_text (audit_fields c)) ''warning''))"

definition email_guard :: "email_settings \<Rightarrow> email_changes \<Rightarrow> exn + unit" where
  "email_guard row c =
     (if change_or (ec_smtp_starttls c) (ml_smtp_starttls row) = Some True \<and>
         change_or (ec_smtp_tls c) (ml_smtp_tls row) = Some True
      then Inl (HTTPException 422 ''STARTTLS and implicit TLS cannot both be enabled'')
      else if change_or (ec_enabled c) (ml_enabled row) = Some True \<and>
         strip (or_blank (change_or (ec_public_base_url c) (ml_public_base_url row))) = []
      then Inl (HTTPException 422 ''Set a public base URL before enabling email'')
      else Inr ())"

definition email_fields :: "email_changes \<Rightarrow> (string \<times> bool) list" where
  "email_fields c =
     [(''enabled'', ec_enabled c \<noteq> None), (''public_base_url'', ec_public_base_url c \<noteq> None),
      (''smtp_from'', ec_smtp_from c \<noteq> None), (''smtp_host'', ec_smtp_host c \<noteq> None),
      (''smtp_port'', ec_smtp_port c \<noteq> None), (''smtp_starttls'', ec_smtp_starttls c \<noteq> None),
      (''smtp_tls'', ec_smtp_tls c \<noteq> None), (''smtp_username'', ec_smtp_username c \<noteq> None)]"

definition put_email ::
  "settings_env \<Rightarrow> email_changes \<Rightarrow> current_user \<Rightarrow> instant \<Rightarrow> config_world \<Rightarrow>
     (exn + email_settings) \<times> config_world \<times> audit_call list" where
  "put_email env body u now =
     admin_put u (email_body body) (\<lambda>c w.
       let (old, w1) = get_email env now w
       in case email_guard old c of
            Inl e \<Rightarrow> (Inl e, w1, [])
          | Inr _ \<Rightarrow>
              after_save (update_email env c now w1)
                (\<lambda>row. destination_changed ''email.smtp_host_changed'' ''email_settings'' u
                   (ml_smtp_host old) (ml_smtp_host row))
                (\<lambda>_. audit_call ''email.settings_updated'' u ''email_settings'' (fields_text (email_fields c)) ''warning''))"

definition put_proxy ::
  "settings_env \<Rightarrow> proxy_changes \<Rightarrow> current_user \<Rightarrow> instant \<Rightarrow> config_world \<Rightarrow>
     (exn + proxy_settings) \<times> config_world \<times> audit_call list" where
  "put_proxy env body u now =
     admin_put u (Inr (proxy_body body)) (\<lambda>c w.
       let (old, w1) = get_proxy env now w
       in after_save (update_proxy env c now w1)
            (\<lambda>row. destination_changed ''proxy.destination_changed'' ''proxy_settings'' u
               (px_proxy_url old) (px_proxy_url row))
            (\<lambda>row. audit_call ''proxy.settings_updated'' u ''proxy_settings'' (''mode='' @ px_mode row) ''warning''))"

definition llm_fields :: "llm_changes \<Rightarrow> (string \<times> bool) list" where
  "llm_fields c =
     [(''anthropic_model'', lg_anthropic_model c \<noteq> None), (''bedrock_aws_region'', lg_bedrock_aws_region c \<noteq> None),
      (''bedrock_model'', lg_bedrock_model c \<noteq> None), (''gemini_base_url'', lg_gemini_base_url c \<noteq> None),
      (''gemini_model'', lg_gemini_model c \<noteq> None), (''llm_max_tokens'', lg_max_tokens c \<noteq> None),
      (''llm_provider'', lg_provider c \<noteq> None), (''ollama_base_url'', lg_ollama_base_url c \<noteq> None),
      (''ollama_model'', lg_ollama_model c \<noteq> None), (''openai_base_url'', lg_openai_base_url c \<noteq> None),
      (''openai_model'', lg_openai_model c \<noteq> None)]"

text \<open>The answer shows which keys are set, not the keys.\<close>

definition put_llm ::
  "settings_env \<Rightarrow> llm_changes \<Rightarrow> current_user \<Rightarrow> instant \<Rightarrow> config_world \<Rightarrow>
     (exn + llm_settings) \<times> config_world \<times> audit_call list" where
  "put_llm env body u now =
     admin_put u (llm_body body) (\<lambda>c w.
       after_save (update_llm env c now w) (\<lambda>_. Inr [])
         (\<lambda>_. audit_call ''llm.settings_updated'' u ''llm_settings'' (fields_text (llm_fields c)) ''warning''))"

definition llm_public :: "settings_env \<Rightarrow> llm_settings \<Rightarrow> llm_settings \<times> (string \<Rightarrow> bool option)" where
  "llm_public env row = (row, api_key_status env)"

section \<open>Connectivity tests\<close>

text \<open>\<^verbatim>\<open>proxy_settings_service.refresh_cache\<close>: the cache alone, nothing is dropped.\<close>

definition load_proxy :: "settings_env \<Rightarrow> instant \<Rightarrow> config_world \<Rightarrow> proxy_settings \<times> config_world" where
  "load_proxy env now w =
     (let (row, w1) = get_proxy env now w
      in (row, set_cache (\<lambda>k. k\<lparr>cc_proxy := Some (proxy_config.truncate row)\<rparr>) w1))"

definition ANTHROPIC_API_BASE :: string where "ANTHROPIC_API_BASE = ''https://api.anthropic.com''"
definition OPENAI_API_BASE :: string where "OPENAI_API_BASE = ''https://api.openai.com''"

definition api_base :: "llm_provider_config \<Rightarrow> string" where
  "api_base pv =
     (if pv_adapter pv = ''anthropic''
      then if pv_backend pv = ''bedrock'' \<and> pv_aws_region pv \<noteq> []
           then ''https://bedrock-runtime.'' @ pv_aws_region pv @ ''.amazonaws.com'' else ANTHROPIC_API_BASE
      else or_default (pv_base_url pv) OPENAI_API_BASE)"

text \<open>The one map the test may dial from; asking for it may build the provider.\<close>

definition egress_targets ::
  "settings_env \<Rightarrow> oidc_env \<Rightarrow> oidc_process \<Rightarrow> config_cache \<Rightarrow> (string \<times> string) list \<times> config_cache" where
  "egress_targets env oenv p cache =
     (let (pv, cache1) = active_provider env cache; cfg = cc_siem cache1
      in ((case pv of None \<Rightarrow> [] | Some c \<Rightarrow> [(''LLM ('' @ pv_key c @ '')'', api_base c)]) @
          (if sk_http_endpoint cfg = [] then [] else [(''SIEM (http sink)'', sk_http_endpoint cfg)]) @
          map (\<lambda>c. (''OIDC ('' @ op_key c @ '')'', op_metadata_url c)) (enabled_providers oenv (get_oidc_config oenv p)),
          cache1))"

text \<open>\<open>dial\<close> is the HTTP client: given its arguments and the URL, the status or the name of
  an exception.\<close>

definition test_proxy ::
  "settings_env \<Rightarrow> oidc_env \<Rightarrow> oidc_process \<Rightarrow> (proxy_kwargs \<Rightarrow> string \<Rightarrow> string + int) \<Rightarrow> string \<Rightarrow>
     current_user \<Rightarrow> instant \<Rightarrow> config_world \<Rightarrow> (exn + string) \<times> config_world \<times> audit_call list" where
  "test_proxy env oenv p dial target u now =
     admin_put u (Inr target) (\<lambda>label w.
       let (row, w1) = load_proxy env now w;
           (targets, cache) = egress_targets env oenv p (cw_cache w1);
           w2 = w1\<lparr>cw_cache := cache\<rparr>
       in case dict_of targets label of
            None \<Rightarrow> (Inl (HTTPException 400 
              ''Unknown target. Configure an LLM provider, SIEM http sink, or OIDC provider first.''), w2, [])
          | Some url \<Rightarrow>
              let result = (case resolve_proxy (st_proxy_username env) (st_proxy_password env)
                              (proxy_config.truncate row) url of
                     Inl _ \<Rightarrow> ''error: ValueError''
                   | Inr k \<Rightarrow> (case dial k url of Inl name \<Rightarrow> ''error: '' @ name
                                | Inr code \<Rightarrow> ''ok: HTTP '' @ show_int code))
              in (Inr result, w2, [(audit_call ''proxy.test'' u ''proxy_settings'' (label @ '' -> '' @ result) ''info'')
                    \<lparr>al_target_id := None\<rparr>]))"

text \<open>The other two tests, the outcome of the delivery being \<open>\<open>ok\<close>\<close> or an error class.\<close>

definition test_email ::
  "settings_env \<Rightarrow> (exn + string \<times> string option \<Rightarrow> string) \<Rightarrow> current_user \<Rightarrow> instant \<Rightarrow> config_world \<Rightarrow>
     (exn + string) \<times> config_world \<times> audit_call list" where
  "test_email env deliver u now =
     admin_put u (Inr ()) (\<lambda>_ w.
       let w1 = snd (refresh_email env now w);
           result = deliver (smtp_login env (get_mail_config env (cw_cache w1)))
       in (Inr result, w1, [(audit_call ''email.test'' u ''email_settings'' result
             (if result = ''ok'' then ''info'' else ''warning''))\<lparr>al_target_id := None\<rparr>]))"

definition send_test_event ::
  "settings_env \<Rightarrow> current_user \<Rightarrow> config_world \<Rightarrow> (exn + unit) \<times> config_world \<times> audit_call list" where
  "send_test_event env u =
     admin_put u (Inr ()) (\<lambda>_ w.
       (Inr (), snd (refresh_audit env w),
        [(audit_call ''audit.test'' u ''audit_settings'' ''admin-triggered SIEM connectivity test'' ''info'')
          \<lparr>al_target_id := None\<rparr>]))"

definition test_llm_provider ::
  "settings_env \<Rightarrow> (llm_provider_config \<Rightarrow> string) \<Rightarrow> current_user \<Rightarrow> config_world \<Rightarrow>
     (exn + string) \<times> config_world \<times> audit_call list" where
  "test_llm_provider env complete u =
     admin_put u (Inr ()) (\<lambda>_ w.
       let (pv, cache) = active_provider env (cw_cache w);
           result = (case pv of None \<Rightarrow> ''disabled'' | Some c \<Rightarrow> complete c)
       in (Inr result, w\<lparr>cw_cache := cache\<rparr>,
           [(audit_call ''llm.test'' u ''llm_settings'' result
              (if starts_with ''error'' result then ''warning'' else ''info''))\<lparr>al_target_id := None\<rparr>]))"

section \<open>The single sign-on page\<close>

definition bad_url :: exn where
  "bad_url = ValidationError ''URL must be an absolute http(s) URL''"

text \<open>\<^verbatim>\<open>_absolute_url\<close> and \<^verbatim>\<open>_domain_only\<close>; a value that is
  null or empty is left alone.\<close>

definition checked_change :: "(string \<Rightarrow> exn + string) \<Rightarrow> string change \<Rightarrow> exn + string change" where
  "checked_change f c =
     (case c of
        Some (Some v) \<Rightarrow> if v = [] then Inr c else and_then (f v) (\<lambda>v'. Inr (Some (Some v')))
      | _ \<Rightarrow> Inr c)"

definition oidc_url :: "string \<Rightarrow> exn + string" where
  "oidc_url v =
     (case valid_absolute_url v of Inr True \<Rightarrow> Inr (rstrip_slash v) | _ \<Rightarrow> Inl bad_url)"

definition oidc_domain :: "string \<Rightarrow> exn + string" where
  "oidc_domain v =
     (if CHR ''/'' \<in> set v then Inl (ValidationError ''Domain must contain a hostname only'')
      else case urlsplit (''https://'' @ v) of
             Inr p \<Rightarrow> if hostname p = None then Inl (ValidationError ''Domain must contain a hostname only'')
                       else Inr (rstrip_slash v)
           | Inl _ \<Rightarrow> Inl (ValidationError ''Domain must contain a hostname only''))"

definition oidc_body :: "oidc_changes \<Rightarrow> exn + oidc_changes" where
  "oidc_body c0 =
     (let c1 = oidc_map (change_map strip) id c0;
          c = c1\<lparr>oi_auth_mode := change_map (map latin_lower) (oi_auth_mode c1)\<rparr>
      in and_then (checked_change oidc_url (oi_redirect_base_url c)) (\<lambda>redirect.
         and_then (checked_change oidc_url (oi_authentik_base_url c)) (\<lambda>base.
         and_then (checked_change oidc_domain (oi_auth0_domain c)) (\<lambda>auth0.
         and_then (checked_change oidc_domain (oi_okta_domain c)) (\<lambda>okta.
           Inr (c\<lparr>oi_redirect_base_url := redirect, oi_authentik_base_url := base,
                  oi_auth0_domain := auth0, oi_okta_domain := okta\<rparr>))))))"

text \<open>The body's field names are given to the event by the caller; the answer shows which client
  secrets are set.\<close>

definition put_oidc ::
  "oidc_env \<Rightarrow> oidc_changes \<Rightarrow> string \<Rightarrow> current_user \<Rightarrow> instant \<Rightarrow> oidc_world \<Rightarrow>
     (exn + oidc_config \<times> (string \<times> bool) list) \<times> oidc_world \<times> audit_call list" where
  "put_oidc env body fields_note u now w =
     (case and_then (require_admin u) (\<lambda>_. oidc_body body) of
        Inl e \<Rightarrow> (Inl e, w, [])
      | Inr c \<Rightarrow>
          (case update_oidc env c now w of
             (Inl (ValueError m), w1) \<Rightarrow> (Inl (HTTPException 422 m), w1, [])
           | (Inl e, w1) \<Rightarrow> (Inl e, w1, [])
           | (Inr row, w1) \<Rightarrow>
               (Inr (row, client_secret_status env), w1,
                [audit_call ''oidc.settings_updated'' u ''oidc_settings'' fields_note ''warning''])))"

text \<open>Once a bad destination is stored, every later save of its page fails after the commit.\<close>

lemma bad_port_sticks:
  "url_origin (Some old) = Inl e \<Longrightarrow> destination_changed action target_type u old new = Inl e"
  by (simp add: destination_changed_def host_changed_def)

section \<open>A history of requests\<close>

datatype settings_request =
    PutGeneral general_changes
  | PutAudit audit_changes
  | PutEmail email_changes
  | PutProxy proxy_changes
  | PutLlm llm_changes
  | TestEmail
  | TestAudit

fun serve_settings :: "settings_env \<Rightarrow> settings_request \<Rightarrow> current_user \<Rightarrow> instant \<Rightarrow> config_world \<Rightarrow> config_world" where
  "serve_settings env (PutGeneral c) u now w = fst (snd (put_general env c u now w))"
| "serve_settings env (PutAudit c) u now w = fst (snd (put_audit env c u w))"
| "serve_settings env (PutEmail c) u now w = fst (snd (put_email env c u now w))"
| "serve_settings env (PutProxy c) u now w = fst (snd (put_proxy env c u now w))"
| "serve_settings env (PutLlm c) u now w = fst (snd (put_llm env c u now w))"
| "serve_settings env TestEmail u now w = fst (snd (test_email env (\<lambda>_. ''ok'') u now w))"
| "serve_settings env TestAudit u now w = fst (snd (send_test_event env u w))"

definition serve_settings_all ::
  "settings_env \<Rightarrow> (settings_request \<times> current_user \<times> instant) list \<Rightarrow> config_world \<Rightarrow> config_world" where
  "serve_settings_all env rs w = fold (\<lambda>(r, u, now). serve_settings env r u now) rs w"

section \<open>Lemmas\<close>

definition general_in_bounds :: "'a general_config_scheme \<Rightarrow> bool" where
  "general_in_bounds c \<longleftrightarrow>
     gn_access_token_expire_minutes c \<in> {1..43200} \<and> gn_login_max_attempts c \<in> {1..1000} \<and>
     gn_login_lockout_seconds c \<in> {1..86400} \<and> gn_registration_max_attempts c \<in> {1..1000} \<and>
     gn_registration_lockout_seconds c \<in> {1..86400} \<and> gn_password_reset_max_attempts c \<in> {1..1000} \<and>
     gn_password_reset_lockout_seconds c \<in> {1..86400}"

definition audit_in_bounds :: "audit_settings \<Rightarrow> bool" where
  "audit_in_bounds c \<longleftrightarrow> au_retention_days c \<in> {0..3650} \<and> set (au_methods c) \<subseteq> set ALLOWED_METHODS \<and>
     au_min_severity c \<in> set ALLOWED_SEVERITY \<and> au_syslog_protocol c \<in> {''TCP'', ''UDP''}"

definition rows_in_bounds :: "config_rows \<Rightarrow> bool" where
  "rows_in_bounds r \<longleftrightarrow>
     (\<forall>x. rw_general r = Some x \<longrightarrow> general_in_bounds x) \<and>
     (\<forall>x. rw_audit r = Some x \<longrightarrow> audit_in_bounds x) \<and>
     (\<forall>x. rw_email r = Some x \<longrightarrow> ml_smtp_port x \<in> {1..65535}) \<and>
     (\<forall>x. rw_proxy r = Some x \<longrightarrow> read_proxy_mode (px_mode x) \<noteq> None) \<and>
     (\<forall>x. rw_llm r = Some x \<longrightarrow> lz_max_tokens x \<in> {1..32768})"

definition env_in_bounds :: "settings_env \<Rightarrow> bool" where
  "env_in_bounds env \<longleftrightarrow> general_in_bounds (st_general env) \<and>
     audit_in_bounds ((st_siem env)\<lparr>au_methods := []\<rparr>) \<and> st_smtp_port env \<in> {1..65535} \<and>
     lz_max_tokens (st_llm env) \<in> {1..32768}"

lemma patched_within: "within lo hi c \<Longrightarrow> old \<in> {lo..hi} \<Longrightarrow> patched c old \<in> {lo..hi}"
  by (cases "(lo, hi, c)" rule: within.cases) auto

lemma patch_general_bounds:
  assumes "general_body c = Inr b" and "general_in_bounds row"
  shows "general_in_bounds (patch_general b now row)"
proof -
  have c: "b = c" "within 1 43200 (gc_access_token_expire_minutes c)" "within 1 1000 (gc_login_max_attempts c)"
    "within 1 86400 (gc_login_lockout_seconds c)" "within 1 1000 (gc_registration_max_attempts c)"
    "within 1 86400 (gc_registration_lockout_seconds c)" "within 1 1000 (gc_password_reset_max_attempts c)"
    "within 1 86400 (gc_password_reset_lockout_seconds c)"
    using assms(1) by (simp_all add: general_body_def split: if_splits)
  show ?thesis
    using assms(2) c
    by (simp add: general_in_bounds_def patch_general_def patched_within del: atLeastAtMost_iff)
qed

lemma patched_map: "P old \<Longrightarrow> (\<And>v. P (f v)) \<Longrightarrow> P (patched (change_map f c) old)"
  by (cases "(f, c)" rule: change_map.cases) auto

lemma valid_methods_allowed: "set (valid_methods v) \<subseteq> set ALLOWED_METHODS"
  by (auto simp: valid_methods_def)

lemma valid_severity_allowed: "valid_severity v \<in> set ALLOWED_SEVERITY"
  by (simp add: valid_severity_def Let_def) (simp add: ALLOWED_SEVERITY_def)

lemma valid_protocol_allowed: "valid_protocol v \<in> {''TCP'', ''UDP''}"
  by (simp add: valid_protocol_def)

lemma patch_audit_bounds:
  assumes "audit_body c = Inr b" and "audit_in_bounds row"
  shows "audit_in_bounds (patch_audit b row)"
proof -
  have b: "b = c\<lparr>ac_methods := change_map valid_methods (ac_methods c),
      ac_min_severity := change_map valid_severity (ac_min_severity c),
      ac_syslog_protocol := change_map valid_protocol (ac_syslog_protocol c)\<rparr>"
    and days: "within 0 3650 (ac_retention_days c)"
    using assms(1) by (auto simp: audit_body_def split: if_splits)
  have "set (patched (change_map valid_methods (ac_methods c)) (au_methods row)) \<subseteq> set ALLOWED_METHODS"
    using patched_map [where P = "\<lambda>m. set m \<subseteq> set ALLOWED_METHODS", OF _ valid_methods_allowed] assms(2)
    by (simp add: audit_in_bounds_def)
  moreover have "patched (change_map valid_severity (ac_min_severity c)) (au_min_severity row) \<in> set ALLOWED_SEVERITY"
    using patched_map [where P = "\<lambda>m. m \<in> set ALLOWED_SEVERITY", OF _ valid_severity_allowed] assms(2)
    by (simp add: audit_in_bounds_def)
  moreover have "patched (change_map valid_protocol (ac_syslog_protocol c)) (au_syslog_protocol row) \<in> {''TCP'', ''UDP''}"
    using patched_map [where P = "\<lambda>m. m \<in> {''TCP'', ''UDP''}", OF _ valid_protocol_allowed] assms(2)
    by (simp only: audit_in_bounds_def)
  moreover have "patched (ac_retention_days c) (au_retention_days row) \<in> {0..3650}"
    using assms(2) by (intro patched_within [OF days]) (simp add: audit_in_bounds_def)
  ultimately show ?thesis unfolding audit_in_bounds_def patch_audit_def b by simp
qed

lemma mode_values: "read_proxy_mode (proxy_mode_value m) \<noteq> None"
proof -
  have "read_proxy_mode (proxy_mode_value ProxyNone) = Some ProxyNone"
    "read_proxy_mode (proxy_mode_value ProxySystem) = Some ProxySystem"
    "read_proxy_mode (proxy_mode_value ProxyExplicit) = Some ProxyExplicit" by code_simp+
  then show ?thesis by (cases m) (simp_all del: proxy_mode_value.simps)
qed

lemma seed_mode_known: "read_proxy_mode (seed_mode env) \<noteq> None"
  using mode_values unfolding seed_mode_def by (simp split: option.split del: proxy_mode_value.simps)

lemma after_save_world: "fst (snd (after_save out moved saved1)) = snd out"
  by (auto simp: after_save_def split: prod.splits sum.splits exn.splits)

lemma admin_put_world:
  "fst (snd (admin_put u body handler w)) =
     (if u_is_admin u then (case body of Inl _ \<Rightarrow> w | Inr b \<Rightarrow> fst (snd (handler b w))) else w)"
  by (cases body) (simp_all add: admin_put_def require_admin_def)

lemma seed_bounds [simp]:
  "general_in_bounds (general_config.extend c m) = general_in_bounds c"
  "ml_smtp_port (mail_config.extend x b) = ml_smtp_port x"
  "px_mode (proxy_config.extend y d) = px_mode y"
  "lz_max_tokens (llm_config.extend z e) = lz_max_tokens z"
  by (simp_all add: general_in_bounds_def general_config.defs mail_config.defs proxy_config.defs llm_config.defs)

lemmas seed_worlds = get_general_world get_audit_world get_email_world get_proxy_world get_llm_world

text \<open>Reading keeps the bounds; every save keeps them.\<close>

lemma get_general_bounds:
  assumes "get_general env now w = (row, w')" and "rows_in_bounds (cw_rows w)" and "env_in_bounds env"
  shows "rows_in_bounds (cw_rows w') \<and> general_in_bounds row"
  using assms
  by (auto simp: get_general_def rows_in_bounds_def env_in_bounds_def set_rows_def Let_def
      extend_fields split: option.splits)

lemma siem_methods_allowed: "m \<in> set (siem_default_methods env) \<Longrightarrow> m \<in> set ALLOWED_METHODS"
  by (auto simp: siem_default_methods_def ALLOWED_METHODS_def)

lemma get_audit_bounds:
  assumes "get_audit env w = (row, w')" and "rows_in_bounds (cw_rows w)" and "env_in_bounds env"
  shows "rows_in_bounds (cw_rows w') \<and> audit_in_bounds row"
proof (cases "rw_audit (cw_rows w)")
  case None
  let ?row = "(st_siem env)\<lparr>au_methods := siem_default_methods env\<rparr>"
  have "set (siem_default_methods env) \<subseteq> set ALLOWED_METHODS" using siem_methods_allowed by blast
  then have "audit_in_bounds ?row" using assms(3) by (simp add: env_in_bounds_def audit_in_bounds_def)
  moreover have "row = ?row" "w' = set_rows (\<lambda>r. r\<lparr>rw_audit := Some ?row\<rparr>) w"
    using assms(1) None by (auto simp: get_audit_def Let_def)
  ultimately show ?thesis using assms(2) by (simp add: rows_in_bounds_def set_rows_def)
next
  case (Some x)
  then show ?thesis using assms(1,2) by (simp add: get_audit_def rows_in_bounds_def)
qed

lemma get_email_bounds:
  assumes "get_email env now w = (row, w')" and "rows_in_bounds (cw_rows w)" and "env_in_bounds env"
  shows "rows_in_bounds (cw_rows w') \<and> ml_smtp_port row \<in> {1..65535}"
  using assms
  by (auto simp: get_email_def rows_in_bounds_def env_in_bounds_def set_rows_def Let_def env_mail_def
      extend_fields split: option.splits)

lemma get_proxy_bounds:
  assumes "get_proxy env now w = (row, w')" and "rows_in_bounds (cw_rows w)"
  shows "rows_in_bounds (cw_rows w') \<and> read_proxy_mode (px_mode row) \<noteq> None"
  using assms seed_mode_known [of env]
  by (auto simp: get_proxy_def rows_in_bounds_def set_rows_def Let_def extend_fields split: option.splits)

lemma get_llm_bounds:
  assumes "get_llm env now w = (row, w')" and "rows_in_bounds (cw_rows w)" and "env_in_bounds env"
  shows "rows_in_bounds (cw_rows w') \<and> lz_max_tokens row \<in> {1..32768}"
  using assms
  by (auto simp: get_llm_def rows_in_bounds_def env_in_bounds_def set_rows_def Let_def
      extend_fields split: option.splits sum.splits)

lemmas save_defs = set_rows_def set_cache_def publish_config_changed_def

lemma update_general_bounds:
  assumes "general_body c = Inr b" and "rows_in_bounds (cw_rows w)" and "env_in_bounds env"
  shows "rows_in_bounds (cw_rows (snd (update_general env b now w)))"
proof -
  obtain row w1 where g: "get_general env now w = (row, w1)" by fastforce
  note b = get_general_bounds [OF g assms(2,3)]
  show ?thesis
    using b patch_general_bounds [OF assms(1)]
    by (simp add: update_general_def g save_defs rows_in_bounds_def Let_def)
qed

lemma update_audit_bounds:
  assumes "audit_body c = Inr b" and "rows_in_bounds (cw_rows w)" and "env_in_bounds env"
  shows "rows_in_bounds (cw_rows (snd (update_audit env b w)))"
proof -
  obtain row w1 where g: "get_audit env w = (row, w1)" by fastforce
  note k = get_audit_bounds [OF g assms(2,3)]
  show ?thesis
    using k patch_audit_bounds [OF assms(1)]
    by (simp add: update_audit_def g save_defs rows_in_bounds_def Let_def split: sum.split)
qed

lemma email_body_port: "email_body c = Inr b \<Longrightarrow> within 1 65535 (ec_smtp_port b)"
  by (auto simp: email_body_def split: if_splits)

lemma update_email_bounds:
  assumes "email_body c = Inr b" and "rows_in_bounds (cw_rows w)" and "env_in_bounds env"
  shows "rows_in_bounds (cw_rows (snd (update_email env b now w)))"
proof -
  obtain row w1 where g: "get_email env now w = (row, w1)" by fastforce
  note k = get_email_bounds [OF g assms(2,3)]
  have "ml_smtp_port (patch_email b now row) \<in> {1..65535}"
    using k patched_within [OF email_body_port [OF assms(1)]] by (simp add: patch_email_def)
  then show ?thesis
    using k by (simp add: update_email_def g save_defs rows_in_bounds_def Let_def split: sum.split)
qed

lemma valid_mode_known: "read_proxy_mode (valid_mode v) \<noteq> None"
  using mode_values unfolding valid_mode_def by (simp split: option.split del: proxy_mode_value.simps)

lemma update_proxy_bounds:
  assumes "rows_in_bounds (cw_rows w)"
  shows "rows_in_bounds (cw_rows (snd (update_proxy env (proxy_body c) now w)))"
proof -
  obtain row w1 where g: "get_proxy env now w = (row, w1)" by fastforce
  note k = get_proxy_bounds [OF g assms]
  have "read_proxy_mode (px_mode (patch_proxy (proxy_body c) now row)) \<noteq> None"
    using k patched_map [where P = "\<lambda>m. read_proxy_mode m \<noteq> None", OF _ valid_mode_known]
    by (simp add: patch_proxy_def proxy_body_def)
  then show ?thesis
    using k by (simp add: update_proxy_def g save_defs rows_in_bounds_def Let_def split: sum.split)
qed

lemma llm_body_tokens: "llm_body c = Inr b \<Longrightarrow> within 1 32768 (lg_max_tokens b)"
  by (auto simp: llm_body_def Let_def split: if_splits)

lemma update_llm_bounds:
  assumes "llm_body c = Inr b" and "rows_in_bounds (cw_rows w)" and "env_in_bounds env"
  shows "rows_in_bounds (cw_rows (snd (update_llm env b now w)))"
proof -
  obtain row w1 where g: "get_llm env now w = (row, w1)" by fastforce
  note k = get_llm_bounds [OF g assms(2,3)]
  have "lz_max_tokens (patch_llm b (llm_config.truncate row)) \<in> {1..32768}"
    using k patched_within [OF llm_body_tokens [OF assms(1)]] by (simp add: patch_llm_def llm_config.defs)
  then show ?thesis
    using k by (simp add: update_llm_def g save_defs rows_in_bounds_def Let_def split: sum.split)
qed

lemma serve_settings_bounds:
  assumes "rows_in_bounds (cw_rows w)" and "env_in_bounds env"
  shows "rows_in_bounds (cw_rows (serve_settings env r u now w))"
proof (cases r)
  case (PutGeneral c)
  then show ?thesis
    using assms update_general_bounds by (simp add: put_general_def admin_put_world after_save_world split: sum.split)
next
  case (PutAudit c)
  obtain row w1 where g: "get_audit env w = (row, w1)" by fastforce
  then show ?thesis
    using PutAudit assms update_audit_bounds get_audit_bounds [OF g assms]
    by (simp add: put_audit_def admin_put_world after_save_world split: sum.split)
next
  case (PutEmail c)
  obtain row w1 where g: "get_email env now w = (row, w1)" by fastforce
  then show ?thesis
    using PutEmail assms update_email_bounds get_email_bounds [OF g assms]
    by (simp add: put_email_def admin_put_world after_save_world split: sum.split)
next
  case (PutProxy c)
  obtain row w1 where g: "get_proxy env now w = (row, w1)" by fastforce
  then show ?thesis
    using PutProxy assms update_proxy_bounds get_proxy_bounds [OF g assms(1)]
    by (simp add: put_proxy_def admin_put_world after_save_world)
next
  case (PutLlm c)
  then show ?thesis
    using assms update_llm_bounds by (simp add: put_llm_def admin_put_world after_save_world split: sum.split)
next
  case TestEmail
  obtain row w1 where g: "get_email env now w = (row, w1)" by fastforce
  then show ?thesis
    using TestEmail assms get_email_bounds [OF g assms]
    by (simp add: test_email_def admin_put_world refresh_email_def set_cache_def Let_def)
next
  case TestAudit
  obtain row w1 where g: "get_audit env w = (row, w1)" by fastforce
  then show ?thesis
    using TestAudit assms get_audit_bounds [OF g assms]
    by (simp add: send_test_event_def admin_put_world refresh_audit_def set_cache_def Let_def)
qed

lemma serve_settings_refused: "\<not> u_is_admin u \<Longrightarrow> serve_settings env r u now w = w"
  by (cases r) (simp_all add: put_general_def put_audit_def put_email_def put_proxy_def put_llm_def
      test_email_def send_test_event_def admin_put_world)

section \<open>What a null and a bad port do\<close>

definition no_email_changes :: email_changes where
  "no_email_changes = \<lparr>ec_enabled = None, ec_smtp_host = None, ec_smtp_port = None, ec_smtp_from = None,
     ec_smtp_username = None, ec_smtp_starttls = None, ec_smtp_tls = None, ec_public_base_url = None\<rparr>"

definition demo_admin :: current_user where
  "demo_admin = (plain_user (demo_user 10 Facilitator None))\<lparr>u_is_admin := True\<rparr>"

definition demo_world :: config_world where
  "demo_world = \<lparr>cw_rows = empty_rows, cw_cache = initial_cache demo_env, cw_notices = []\<rparr>"

text \<open>The guards of the email route read a null as "off", the save reads it as "unchanged": both
  TLS modes end up on, and mail stays on without a base URL.\<close>

lemma email_nulls_pass_the_guards:
  fixes row :: email_settings
  defines "tls \<equiv> no_email_changes\<lparr>ec_smtp_starttls := Some None, ec_smtp_tls := Some (Some True)\<rparr>"
    and "off \<equiv> no_email_changes\<lparr>ec_enabled := Some None, ec_public_base_url := Some (Some [])\<rparr>"
  assumes "ml_enabled row" and "ml_smtp_starttls row" and "\<not> ml_smtp_tls row"
    and "strip (ml_public_base_url row) \<noteq> []"
  shows "email_body tls = Inr tls \<and> email_guard row tls = Inr () \<and>
    ml_smtp_starttls (patch_email tls now row) \<and> ml_smtp_tls (patch_email tls now row) \<and>
    email_body off = Inr off \<and> email_guard row off = Inr () \<and>
    ml_enabled (patch_email off now row) \<and> ml_public_base_url (patch_email off now row) = []"
  using assms(3-)
  by (simp add: tls_def off_def no_email_changes_def email_body_def email_guard_def patch_email_def strip_def)

text \<open>A destination whose port is no number is saved, the answer is a server error, and no event
  says so.\<close>

definition demo_open_env :: settings_env where
  "demo_open_env = demo_env\<lparr>st_siem_http_token := []\<rparr>"

lemma bad_port_is_saved_unseen:
  "(case put_audit demo_open_env (no_audit_changes\<lparr>ac_http_endpoint := Some (Some ''http://h:x'')\<rparr>) demo_admin demo_world of
      (Inl (ValueError _), w, events) \<Rightarrow> events = [] \<and>
        map_option au_http_endpoint (rw_audit (cw_rows w)) = Some ''http://h:x'' | _ \<Rightarrow> False)"
  by code_simp

section \<open>Properties\<close>

text \<open>C19: what the settings routes save stays in bounds.  From an environment and rows whose
  numbers are in the ranges the forms promise, no sequence of requests by anybody leaves a row with
  a number outside of its range, a severity, transport, sink or proxy mode nobody knows, or a
  retention that could reach into the future; and a request of somebody who is no administrator
  changes nothing.\<close>

theorem saved_settings_stay_in_bounds:
  assumes "env_in_bounds env" and "rows_in_bounds (cw_rows w)"
  shows "rows_in_bounds (cw_rows (serve_settings_all env rs w)) \<and>
    (\<forall>r u now. \<not> u_is_admin u \<longrightarrow> serve_settings env r u now w = w)"
proof -
  have "rows_in_bounds (cw_rows (serve_settings_all env rs w))"
    using assms(2)
  proof (induction rs arbitrary: w)
    case Nil
    then show ?case by (simp add: serve_settings_all_def)
  next
    case (Cons x rs)
    obtain r u now where x: "x = (r, u, now)" by (rule prod_cases3)
    from Cons.IH [OF serve_settings_bounds [OF Cons.prems assms(1), of r u now]] show ?case
      by (simp add: serve_settings_all_def x)
  qed
  then show ?thesis using serve_settings_refused by blast
qed

theorem saved_settings_stay_in_bounds_witness:
  "\<exists>w. w = serve_settings_all demo_env
       [(PutAudit (no_audit_changes\<lparr>ac_retention_days := Some (Some (-5))\<rparr>), demo_admin, 1),
        (PutAudit (no_audit_changes\<lparr>ac_retention_days := Some (Some 30)\<rparr>), demo_admin, 2)] demo_world \<and>
     rows_in_bounds (cw_rows w) \<and> map_option au_retention_days (rw_audit (cw_rows w)) = Some 30"
proof -
  let ?rs = "[(PutAudit (no_audit_changes\<lparr>ac_retention_days := Some (Some (-5))\<rparr>), demo_admin, 1),
        (PutAudit (no_audit_changes\<lparr>ac_retention_days := Some (Some 30)\<rparr>), demo_admin, 2)]"
  have env: "env_in_bounds demo_env" and rows: "rows_in_bounds (cw_rows demo_world)"
    by (simp_all add: env_in_bounds_def demo_env_def general_in_bounds_def audit_in_bounds_def ALLOWED_SEVERITY_def
        rows_in_bounds_def demo_world_def empty_rows_def)
  have "map_option au_retention_days (rw_audit (cw_rows (serve_settings_all demo_env ?rs demo_world))) = Some 30"
    by code_simp
  then show ?thesis using saved_settings_stay_in_bounds [OF env rows, of ?rs] by blast
qed

end
