(* ===== verification/Effective_Config.thy ===== *)
theory Effective_Config
  imports Oidc_Settings Config_Sync
begin

text \<open>
  The environment as a whole (\<^verbatim>\<open>Settings\<close> in \<^verbatim>\<open>app/config.py\<close>): the start-up
  checks, and the administrators' view of the live configuration
  (\<^verbatim>\<open>app/services/effective_config_service.py\<close>).

  \<^verbatim>\<open>Settings\<close> is read from the process environment by its library; what it read is the
  record \<open>process_env\<close>, which joins the parts the services use with the rest of the fields.
\<close>

section \<open>The environment\<close>

record process_env =
  pe_settings :: settings_env
  pe_oidc :: oidc_env
  pe_database_url :: string
  pe_secret_key :: string
  pe_algorithm :: string
  pe_dev_mode :: bool
  pe_cookie_secure :: "bool option"
  pe_trusted_origins :: string
  pe_log_level :: string
  pe_log_json :: bool
  pe_fields_set :: "string set"

datatype setting_value = TextV string | IntV int | BoolV bool | TextsV "string list" | NoneV

type_synonym setting_values = "(string \<times> setting_value) list"

definition DEFAULT_SECRET_KEY :: string where
  "DEFAULT_SECRET_KEY = ''dev-secret-key-change-in-production''"

definition MIN_SECRET_KEY_LENGTH :: nat where "MIN_SECRET_KEY_LENGTH = 32"

definition secret_key_is_insecure :: "process_env \<Rightarrow> bool" where
  "secret_key_is_insecure env \<longleftrightarrow>
     pe_secret_key env = DEFAULT_SECRET_KEY \<or> length (pe_secret_key env) < MIN_SECRET_KEY_LENGTH"

definition cookies_secure :: "process_env \<Rightarrow> bool" where
  "cookies_secure env = (case pe_cookie_secure env of Some b \<Rightarrow> b | None \<Rightarrow> \<not> pe_dev_mode env)"

text \<open>The columns of the rows the view shows, under the names of \<^verbatim>\<open>Settings\<close>.\<close>

definition general_values :: "'a general_config_scheme \<Rightarrow> setting_values" where
  "general_values c =
     [(''registration_enabled'', BoolV (gn_registration_enabled c)),
      (''access_token_expire_minutes'', IntV (gn_access_token_expire_minutes c)),
      (''audit_persist'', BoolV (gn_audit_persist c)),
      (''login_max_attempts'', IntV (gn_login_max_attempts c)),
      (''login_lockout_seconds'', IntV (gn_login_lockout_seconds c)),
      (''registration_max_attempts'', IntV (gn_registration_max_attempts c)),
      (''registration_lockout_seconds'', IntV (gn_registration_lockout_seconds c)),
      (''password_reset_max_attempts'', IntV (gn_password_reset_max_attempts c)),
      (''password_reset_lockout_seconds'', IntV (gn_password_reset_lockout_seconds c))]"

definition llm_values :: "'a llm_config_scheme \<Rightarrow> setting_values" where
  "llm_values c =
     [(''llm_provider'', TextV (lz_provider c)), (''llm_max_tokens'', IntV (lz_max_tokens c)),
      (''anthropic_model'', TextV (lz_anthropic_model c)), (''bedrock_model'', TextV (lz_bedrock_model c)),
      (''bedrock_aws_region'', TextV (lz_bedrock_aws_region c)), (''openai_model'', TextV (lz_openai_model c)),
      (''openai_base_url'', TextV (lz_openai_base_url c)), (''ollama_model'', TextV (lz_ollama_model c)),
      (''ollama_base_url'', TextV (lz_ollama_base_url c)), (''gemini_model'', TextV (lz_gemini_model c)),
      (''gemini_base_url'', TextV (lz_gemini_base_url c))]"

definition oidc_values :: "oidc_config \<Rightarrow> setting_values" where
  "oidc_values c =
     [(''auth_mode'', TextV (oi_auth_mode c)),
      (''oidc_redirect_base_url'', TextV (oi_redirect_base_url c)),
      (''oidc_entra_enabled'', BoolV (oi_entra_enabled c)),
      (''oidc_entra_client_id'', TextV (oi_entra_client_id c)),
      (''oidc_entra_tenant_id'', TextV (oi_entra_tenant_id c)),
      (''oidc_entra_scopes'', TextV (oi_entra_scopes c)),
      (''oidc_entra_role_claim'', TextV (oi_entra_role_claim c)),
      (''oidc_entra_role_map'', TextV (oi_entra_role_map c)),
      (''oidc_authentik_enabled'', BoolV (oi_authentik_enabled c)),
      (''oidc_authentik_client_id'', TextV (oi_authentik_client_id c)),
      (''oidc_authentik_base_url'', TextV (oi_authentik_base_url c)),
      (''oidc_authentik_app_slug'', TextV (oi_authentik_app_slug c)),
      (''oidc_authentik_scopes'', TextV (oi_authentik_scopes c)),
      (''oidc_authentik_role_claim'', TextV (oi_authentik_role_claim c)),
      (''oidc_authentik_role_map'', TextV (oi_authentik_role_map c)),
      (''oidc_auth0_enabled'', BoolV (oi_auth0_enabled c)),
      (''oidc_auth0_client_id'', TextV (oi_auth0_client_id c)),
      (''oidc_auth0_domain'', TextV (oi_auth0_domain c)),
      (''oidc_auth0_scopes'', TextV (oi_auth0_scopes c)),
      (''oidc_auth0_role_claim'', TextV (oi_auth0_role_claim c)),
      (''oidc_auth0_role_map'', TextV (oi_auth0_role_map c)),
      (''oidc_okta_enabled'', BoolV (oi_okta_enabled c)),
      (''oidc_okta_client_id'', TextV (oi_okta_client_id c)),
      (''oidc_okta_domain'', TextV (oi_okta_domain c)),
      (''oidc_okta_auth_server'', TextV (oi_okta_auth_server c)),
      (''oidc_okta_scopes'', TextV (oi_okta_scopes c)),
      (''oidc_okta_role_claim'', TextV (oi_okta_role_claim c)),
      (''oidc_okta_role_map'', TextV (oi_okta_role_map c))]"

definition mail_values :: "'a mail_config_scheme \<Rightarrow> setting_values" where
  "mail_values c =
     [(''smtp_host'', TextV (ml_smtp_host c)), (''smtp_port'', IntV (ml_smtp_port c)),
      (''smtp_from'', TextV (ml_smtp_from c)), (''smtp_username'', TextV (ml_smtp_username c)),
      (''smtp_starttls'', BoolV (ml_smtp_starttls c)), (''smtp_tls'', BoolV (ml_smtp_tls c)),
      (''public_base_url'', TextV (ml_public_base_url c)),
      (''smtp_enabled'', BoolV (ml_enabled c \<and> ml_smtp_host c \<noteq> [] \<and> ml_smtp_from c \<noteq> []))]"

text \<open>The routing columns the two forms of the SIEM configuration share.\<close>

definition siem_sink_values ::
  "bool \<Rightarrow> string list \<Rightarrow> string \<Rightarrow> string \<Rightarrow> string \<Rightarrow> int \<Rightarrow> string \<Rightarrow> int \<Rightarrow> string \<Rightarrow> bool \<Rightarrow> setting_values" where
  "siem_sink_values enabled methods sev file host port protocol facility endpoint tls =
     [(''siem_enabled'', BoolV enabled), (''siem_methods'', TextsV methods), (''siem_min_severity'', TextV sev),
      (''siem_file_path'', TextV file), (''siem_syslog_host'', TextV host), (''siem_syslog_port'', IntV port),
      (''siem_syslog_protocol'', TextV protocol), (''siem_syslog_facility'', IntV facility),
      (''siem_http_endpoint'', TextV endpoint), (''siem_http_verify_tls'', BoolV tls)]"

definition audit_values :: "audit_settings \<Rightarrow> setting_values" where
  "audit_values a =
     siem_sink_values (au_enabled a) (au_methods a) (au_min_severity a) (au_file_path a) (au_syslog_host a)
       (au_syslog_port a) (au_syslog_protocol a) (au_syslog_facility a) (au_http_endpoint a) (au_http_verify_tls a) @
     [(''audit_retention_days'', IntV (au_retention_days a))]"

definition siem_values :: "siem_config \<Rightarrow> setting_values" where
  "siem_values c =
     siem_sink_values (sk_enabled c) (sorted_list_of_set (sk_methods c)) (sk_min_severity c) (sk_file_path c)
       (sk_syslog_host c) (sk_syslog_port c) (sk_syslog_protocol c) (sk_syslog_facility c) (sk_http_endpoint c)
       (sk_http_verify_tls c)"

definition proxy_values :: "'a proxy_config_scheme \<Rightarrow> setting_values" where
  "proxy_values c =
     [(''proxy_mode'', TextV (map latin_lower (px_mode c))), (''proxy_url'', TextV (px_proxy_url c)),
      (''proxy_no_proxy'', TextV (px_no_proxy c))]"

text \<open>\<^verbatim>\<open>settings.model_dump()\<close>, grouped by the records that hold the fields.\<close>

definition siem_env_values :: "settings_env \<Rightarrow> setting_values" where
  "siem_env_values e =
     [(''siem_enabled'', BoolV (au_enabled (st_siem e))), (''siem_methods'', TextV (st_siem_methods e)),
      (''siem_min_severity'', TextV (au_min_severity (st_siem e))), (''siem_file_path'', TextV (au_file_path (st_siem e))),
      (''siem_syslog_host'', TextV (au_syslog_host (st_siem e))), (''siem_syslog_port'', IntV (au_syslog_port (st_siem e))),
      (''siem_syslog_protocol'', TextV (au_syslog_protocol (st_siem e))),
      (''siem_syslog_facility'', IntV (au_syslog_facility (st_siem e))),
      (''siem_http_endpoint'', TextV (au_http_endpoint (st_siem e))),
      (''siem_http_verify_tls'', BoolV (au_http_verify_tls (st_siem e))),
      (''siem_http_token'', TextV (st_siem_http_token e)),
      (''audit_retention_days'', IntV (au_retention_days (st_siem e)))]"

definition smtp_env_values :: "settings_env \<Rightarrow> setting_values" where
  "smtp_env_values e =
     [(''smtp_host'', TextV (st_smtp_host e)), (''smtp_port'', IntV (st_smtp_port e)),
      (''smtp_username'', TextV (st_smtp_username e)), (''smtp_password'', TextV (st_smtp_password e)),
      (''smtp_from'', TextV (st_smtp_from e)), (''smtp_starttls'', BoolV (st_smtp_starttls e)),
      (''smtp_tls'', BoolV (st_smtp_tls e)), (''public_base_url'', TextV (st_public_base_url e))]"

definition proxy_env_values :: "settings_env \<Rightarrow> setting_values" where
  "proxy_env_values e =
     [(''proxy_mode'', TextV (px_mode (st_proxy e))), (''proxy_url'', TextV (px_proxy_url (st_proxy e))),
      (''proxy_no_proxy'', TextV (px_no_proxy (st_proxy e))), (''proxy_username'', TextV (st_proxy_username e)),
      (''proxy_password'', TextV (st_proxy_password e))]"

definition settings_dump :: "process_env \<Rightarrow> setting_values" where
  "settings_dump env =
     [(''database_url'', TextV (pe_database_url env)), (''secret_key'', TextV (pe_secret_key env)),
      (''algorithm'', TextV (pe_algorithm env)),
      (''anthropic_api_key'', TextV (st_anthropic_api_key (pe_settings env))),
      (''openai_api_key'', TextV (st_openai_api_key (pe_settings env))),
      (''gemini_api_key'', TextV (st_gemini_api_key (pe_settings env))),
      (''dev_mode'', BoolV (pe_dev_mode env)),
      (''cookie_secure'', (case pe_cookie_secure env of None \<Rightarrow> NoneV | Some b \<Rightarrow> BoolV b)),
      (''trusted_origins'', TextV (pe_trusted_origins env)), (''log_level'', TextV (pe_log_level env)),
      (''log_json'', BoolV (pe_log_json env)),
      (''oidc_allow_unverified_email'', BoolV (oe_allow_unverified_email (pe_oidc env))),
      (''oidc_entra_client_secret'', TextV (oe_client_secret (pe_oidc env) ''entra'')),
      (''oidc_authentik_client_secret'', TextV (oe_client_secret (pe_oidc env) ''authentik'')),
      (''oidc_auth0_client_secret'', TextV (oe_client_secret (pe_oidc env) ''auth0'')),
      (''oidc_okta_client_secret'', TextV (oe_client_secret (pe_oidc env) ''okta''))] @
     general_values (st_general (pe_settings env)) @ llm_values (st_llm (pe_settings env)) @
     smtp_env_values (pe_settings env) @ siem_env_values (pe_settings env) @
     proxy_env_values (pe_settings env) @ oidc_values (oe_seed (pe_oidc env))"

text \<open>\<^verbatim>\<open>Settings.model_fields\<close>, in the order of their declaration.\<close>

definition model_fields :: "string list" where
  "model_fields =
     [''database_url'', ''secret_key'', ''access_token_expire_minutes'', ''algorithm'',
      ''llm_provider'', ''llm_max_tokens'', ''anthropic_api_key'', ''anthropic_model'',
      ''bedrock_model'', ''bedrock_aws_region'', ''openai_api_key'', ''openai_model'',
      ''openai_base_url'', ''ollama_model'', ''ollama_base_url'', ''gemini_api_key'',
      ''gemini_model'', ''gemini_base_url'', ''dev_mode'', ''cookie_secure'',
      ''trusted_origins'', ''login_max_attempts'', ''login_lockout_seconds'',
      ''registration_enabled'', ''registration_max_attempts'',
      ''registration_lockout_seconds'', ''smtp_host'', ''smtp_port'', ''smtp_username'',
      ''smtp_password'', ''smtp_from'', ''smtp_starttls'', ''smtp_tls'', ''public_base_url'',
      ''password_reset_max_attempts'', ''password_reset_lockout_seconds'', ''audit_persist'',
      ''audit_retention_days'', ''log_level'', ''log_json'', ''siem_enabled'',
      ''siem_methods'', ''siem_min_severity'', ''siem_file_path'', ''siem_syslog_host'',
      ''siem_syslog_port'', ''siem_syslog_protocol'', ''siem_syslog_facility'',
      ''siem_http_endpoint'', ''siem_http_verify_tls'', ''siem_http_token'', ''proxy_mode'',
      ''proxy_url'', ''proxy_no_proxy'', ''proxy_username'', ''proxy_password'',
      ''auth_mode'', ''oidc_redirect_base_url'', ''oidc_allow_unverified_email'',
      ''oidc_entra_enabled'', ''oidc_entra_client_id'', ''oidc_entra_client_secret'',
      ''oidc_entra_tenant_id'', ''oidc_entra_scopes'', ''oidc_entra_role_claim'',
      ''oidc_entra_role_map'', ''oidc_authentik_enabled'', ''oidc_authentik_client_id'',
      ''oidc_authentik_client_secret'', ''oidc_authentik_base_url'',
      ''oidc_authentik_app_slug'', ''oidc_authentik_scopes'', ''oidc_authentik_role_claim'',
      ''oidc_authentik_role_map'', ''oidc_auth0_enabled'', ''oidc_auth0_client_id'',
      ''oidc_auth0_client_secret'', ''oidc_auth0_domain'', ''oidc_auth0_scopes'',
      ''oidc_auth0_role_claim'', ''oidc_auth0_role_map'', ''oidc_okta_enabled'',
      ''oidc_okta_client_id'', ''oidc_okta_client_secret'', ''oidc_okta_domain'',
      ''oidc_okta_auth_server'', ''oidc_okta_scopes'', ''oidc_okta_role_claim'',
      ''oidc_okta_role_map'']"

section \<open>Providers out of the environment\<close>

definition env_llm_provider :: "process_env \<Rightarrow> llm_provider_config option" where
  "env_llm_provider env =
     (let e = pe_settings env; c = st_llm e; key = map latin_lower (strip (lz_provider c)); n = lz_max_tokens c
      in if key \<in> set LLM_DISABLED_KEYS then None
         else if key = ''anthropic''
         then Some ((provider_of ''anthropic'' ''Anthropic'' ''anthropic'' (lz_anthropic_model c) n)
                \<lparr>pv_api_key := st_anthropic_api_key e\<rparr>)
         else if key = ''bedrock''
         then Some ((provider_of ''bedrock'' ''Amazon Bedrock'' ''anthropic'' (lz_bedrock_model c) n)
                \<lparr>pv_backend := ''bedrock'', pv_aws_region := lz_bedrock_aws_region c\<rparr>)
         else if key = ''openai''
         then Some ((provider_of ''openai'' ''OpenAI'' ''openai'' (lz_openai_model c) n)
                \<lparr>pv_api_key := st_openai_api_key e, pv_base_url := lz_openai_base_url c\<rparr>)
         else if key = ''ollama''
         then Some ((provider_of ''ollama'' ''Ollama'' ''openai'' (lz_ollama_model c) n)
                \<lparr>pv_base_url := or_default (lz_ollama_base_url c) OLLAMA_DEFAULT_BASE_URL\<rparr>)
         else if key = ''gemini''
         then Some ((provider_of ''gemini'' ''Google Gemini'' ''openai'' (lz_gemini_model c) n)
                \<lparr>pv_api_key := st_gemini_api_key e,
                 pv_base_url := or_default (lz_gemini_base_url c) GEMINI_OPENAI_BASE_URL\<rparr>)
         else None)"

text \<open>Unlike the runtime's list, this one skips a provider whose inputs are blank.\<close>

definition env_oidc_providers :: "process_env \<Rightarrow> oidc_provider list" where
  "env_oidc_providers env =
     (let o1 = pe_oidc env; c = oe_seed o1; on = oidc_auth_enabled c
      in (if on \<and> oi_entra_enabled c \<and> oi_entra_tenant_id c \<noteq> []
          then let authority = ''https://login.microsoftonline.com/'' @ oi_entra_tenant_id c @ ''/v2.0''
               in [\<lparr>op_key = ''entra'', op_display_name = ''Microsoft Entra ID'',
                   op_client_id = oi_entra_client_id c, op_client_secret = oe_client_secret o1 ''entra'',
                   op_metadata_url = authority @ ''/.well-known/openid-configuration'',
                   op_scopes = oi_entra_scopes c, op_role_claim = oi_entra_role_claim c,
                   op_role_map = parse_role_map (oi_entra_role_map c), op_issuer = authority\<rparr>] else []) @
         (if on \<and> oi_authentik_enabled c \<and> oi_authentik_base_url c \<noteq> [] \<and> oi_authentik_app_slug c \<noteq> []
          then [\<lparr>op_key = ''authentik'', op_display_name = ''Authentik'',
                 op_client_id = oi_authentik_client_id c, op_client_secret = oe_client_secret o1 ''authentik'',
                 op_metadata_url = rstrip_slash (oi_authentik_base_url c) @ ''/application/o/'' @
                   oi_authentik_app_slug c @ ''/.well-known/openid-configuration'',
                 op_scopes = oi_authentik_scopes c, op_role_claim = oi_authentik_role_claim c,
                 op_role_map = parse_role_map (oi_authentik_role_map c), op_issuer = []\<rparr>] else []) @
         (if on \<and> oi_auth0_enabled c \<and> oi_auth0_domain c \<noteq> []
          then [\<lparr>op_key = ''auth0'', op_display_name = ''Auth0'',
                 op_client_id = oi_auth0_client_id c, op_client_secret = oe_client_secret o1 ''auth0'',
                 op_metadata_url =
                   ''https://'' @ rstrip_slash (oi_auth0_domain c) @ ''/.well-known/openid-configuration'',
                 op_scopes = oi_auth0_scopes c, op_role_claim = oi_auth0_role_claim c,
                 op_role_map = parse_role_map (oi_auth0_role_map c), op_issuer = []\<rparr>] else []) @
         (if on \<and> oi_okta_enabled c \<and> oi_okta_domain c \<noteq> []
          then let server = rstrip_slash (dropWhile (\<lambda>x. x = CHR ''/'') (oi_okta_auth_server c));
                   path = (if server \<noteq> [] then ''/oauth2/'' @ server else [])
               in [\<lparr>op_key = ''okta'', op_display_name = ''Okta'',
                   op_client_id = oi_okta_client_id c, op_client_secret = oe_client_secret o1 ''okta'',
                   op_metadata_url = ''https://'' @ rstrip_slash (oi_okta_domain c) @ path @
                     ''/.well-known/openid-configuration'',
                   op_scopes = oi_okta_scopes c, op_role_claim = oi_okta_role_claim c,
                   op_role_map = parse_role_map (oi_okta_role_map c), op_issuer = []\<rparr>] else []))"

section \<open>The start-up checks\<close>

text \<open>\<^verbatim>\<open>repr\<close> of a text.\<close>

definition repr_char :: "char \<Rightarrow> char \<Rightarrow> string" where
  "repr_char quote1 c =
     (let n = of_char c :: nat
      in if c = quote1 \<or> n = 92 then [CHR 0x5C, c]
         else if n = 9 then [CHR 0x5C, CHR ''t'']
         else if n = 10 then [CHR 0x5C, CHR ''n'']
         else if n = 13 then [CHR 0x5C, CHR ''r'']
         else if n < 32 \<or> (127 \<le> n \<and> n \<le> 160) \<or> n = 173
         then [CHR 0x5C, CHR ''x'', ''0123456789abcdef'' ! (n div 16), ''0123456789abcdef'' ! (n mod 16)]
         else [c])"

definition py_repr :: "string \<Rightarrow> string" where
  "py_repr s =
     (let quote1 = (if CHR 0x27 \<in> set s \<and> CHR 0x22 \<notin> set s then CHR 0x22 else CHR 0x27)
      in [quote1] @ concat (map (repr_char quote1) s) @ [quote1])"

definition PROXY_MODES :: "string list" where
  "PROXY_MODES = [''none'', ''system'', ''explicit'']"

definition PROXY_URL_SCHEMES :: "string list" where
  "PROXY_URL_SCHEMES = [''http'', ''https'', ''socks5'', ''socks5h'']"

definition proxy_url_error :: exn where
  "proxy_url_error = RuntimeError (''PROXY_URL must be an absolute URL with scheme '' @
     Launch_Snapshot.join ''|'' PROXY_URL_SCHEMES @ '' and a host (e.g. http://proxy.corp:3128).'')"

definition validate_proxy_settings :: "settings_env \<Rightarrow> exn + unit" where
  "validate_proxy_settings e =
     (let mode = map latin_lower (strip (px_mode (st_proxy e))); url = strip (px_proxy_url (st_proxy e))
      in if mode \<notin> set PROXY_MODES
         then Inl (RuntimeError (''PROXY_MODE must be one of '' @ Launch_Snapshot.join ''|'' PROXY_MODES @
                '', got '' @ py_repr (px_mode (st_proxy e)) @ ''.''))
         else if mode = ''explicit'' \<and> url = []
         then Inl (RuntimeError ''PROXY_MODE=explicit requires PROXY_URL to be set.'')
         else if url = [] then Inr ()
         else and_then (urlsplit url) (\<lambda>parsed.
           if up_scheme parsed \<notin> set PROXY_URL_SCHEMES \<or> hostname parsed = None
           then Inl proxy_url_error else Inr ()))"

definition base_url_error :: exn where
  "base_url_error = RuntimeError (''SMTP_HOST is set but PUBLIC_BASE_URL is empty. Password-reset and '' @
     ''invite links must be rooted at an operator-configured origin (e.g. '' @
     ''PUBLIC_BASE_URL=https://ttx.example.com); deriving them from the '' @
     ''request Host header lets an attacker poison the emailed link.'')"

definition secret_key_error :: exn where
  "secret_key_error = RuntimeError (''SECRET_KEY is unset, using the insecure default, or shorter than '' @
     show_nat MIN_SECRET_KEY_LENGTH @ '' characters. Generate one with '' @
     ''`python -c '' @ [CHR 0x22] @ ''import secrets; print(secrets.token_hex(32))'' @ [CHR 0x22] @ ''` and set it '' @
     ''via the SECRET_KEY environment variable, or set DEV_MODE=true for '' @
     ''local development.'')"

definition validate_settings :: "process_env \<Rightarrow> exn + unit" where
  "validate_settings env =
     (let e = pe_settings env; llm_key = map latin_lower (strip (lz_provider (st_llm e)))
      in if llm_key \<notin> set (LLM_DISABLED_KEYS @ LLM_PROVIDER_KEYS)
         then Inl (RuntimeError (''LLM_PROVIDER must be one of '' @ Launch_Snapshot.join ''|'' LLM_PROVIDER_KEYS @
                '' (or empty to disable), got '' @ py_repr (lz_provider (st_llm e)) @ ''.''))
         else and_then (validate_proxy_settings e) (\<lambda>_.
           if st_smtp_host e \<noteq> [] \<and> st_smtp_from e = []
           then Inl (RuntimeError ''SMTP_HOST is set but SMTP_FROM is empty.'')
           else if st_smtp_host e \<noteq> [] \<and> strip (st_public_base_url e) = [] then Inl base_url_error
           else if pe_dev_mode env then Inr ()
           else if secret_key_is_insecure env then Inl secret_key_error
           else Inr ()))"

section \<open>The effective configuration\<close>

definition SECRET_FIELDS :: "string list" where
  "SECRET_FIELDS =
     [''database_url'', ''secret_key'', ''anthropic_api_key'', ''openai_api_key'', ''gemini_api_key'',
      ''smtp_password'', ''siem_http_token'', ''proxy_url'', ''proxy_username'', ''proxy_password'',
      ''oidc_entra_client_secret'', ''oidc_authentik_client_secret'', ''oidc_auth0_client_secret'',
      ''oidc_okta_client_secret'']"

definition starts_with :: "string \<Rightarrow> string \<Rightarrow> bool" where
  "starts_with s p \<longleftrightarrow> take (length p) s = p"

definition category :: "string \<Rightarrow> string" where
  "category name =
     (if list_ex (starts_with name) [''llm_'', ''anthropic_'', ''bedrock_'', ''openai_'', ''ollama_'', ''gemini_'']
      then ''AI provider''
      else if starts_with name ''oidc_'' \<or> name = ''auth_mode'' then ''Single sign-on''
      else if starts_with name ''smtp_'' \<or>
          name \<in> {''public_base_url'', ''password_reset_max_attempts'', ''password_reset_lockout_seconds''}
      then ''Email''
      else if starts_with name ''siem_'' \<or> starts_with name ''audit_'' then ''Audit and SIEM''
      else if starts_with name ''proxy_'' then ''Outbound proxy''
      else if name \<in> {''access_token_expire_minutes'', ''registration_enabled'', ''registration_max_attempts'',
          ''registration_lockout_seconds'', ''login_max_attempts'', ''login_lockout_seconds''}
      then ''General runtime''
      else ''Process and security'')"

text \<open>\<^verbatim>\<open>bool(value)\<close>; a value a name does not have is \<^verbatim>\<open>None\<close>.\<close>

fun truth :: "setting_value \<Rightarrow> bool" where
  "truth (TextV s) = (s \<noteq> [])"
| "truth (IntV i) = (i \<noteq> 0)"
| "truth (BoolV b) = b"
| "truth (TextsV ss) = (ss \<noteq> [])"
| "truth NoneV = False"

text \<open>The dictionaries built by assignments, the last one counting.\<close>

definition value_of :: "setting_values \<Rightarrow> string \<Rightarrow> setting_value" where
  "value_of vs name = (case map_of (rev vs) name of None \<Rightarrow> NoneV | Some v \<Rightarrow> v)"

definition database_overrides :: "config_rows \<Rightarrow> oidc_config option \<Rightarrow> setting_values" where
  "database_overrides rows oidc =
     (case rw_general rows of None \<Rightarrow> [] | Some r \<Rightarrow> general_values r) @
     (case rw_llm rows of None \<Rightarrow> [] | Some r \<Rightarrow> llm_values r) @
     (case oidc of None \<Rightarrow> [] | Some c \<Rightarrow> oidc_values c) @
     (case rw_email rows of None \<Rightarrow> [] | Some r \<Rightarrow> mail_values r) @
     (case rw_audit rows of None \<Rightarrow> [] | Some r \<Rightarrow> audit_values r) @
     (case rw_proxy rows of None \<Rightarrow> [] | Some r \<Rightarrow> proxy_values r)"

definition live_fallbacks :: "process_env \<Rightarrow> config_cache \<Rightarrow> oidc_process \<Rightarrow> setting_values" where
  "live_fallbacks env cache proc =
     (let e = pe_settings env
      in settings_dump env @ general_values (get_general_config e cache) @ llm_values (get_llm_config e cache) @
         oidc_values (get_oidc_config (pe_oidc env) proc) @ mail_values (get_mail_config e cache) @
         siem_values (cc_siem cache) @
         (case cc_proxy cache of
            None \<Rightarrow> [(''proxy_mode'', TextV (px_mode (st_proxy e))), (''proxy_url'', TextV (px_proxy_url (st_proxy e))),
                     (''proxy_no_proxy'', TextV (px_no_proxy (st_proxy e)))]
          | Some c \<Rightarrow> proxy_values c))"

definition check_errors :: "exn + unit \<Rightarrow> string list" where
  "check_errors r =
     (case r of Inl (RuntimeError m) \<Rightarrow> [m] | Inl (ValueError m) \<Rightarrow> [m] | _ \<Rightarrow> [])"

text \<open>\<^verbatim>\<open>_validation\<close>: the messages; the view is valid when there is none.\<close>

definition validation_errors :: "process_env \<Rightarrow> config_cache \<Rightarrow> oidc_process \<Rightarrow> string list" where
  "validation_errors env cache proc =
     check_errors (validate_settings env) @
     check_errors (validate_selection (pe_settings env) (get_llm_config (pe_settings env) cache)) @
     check_errors (validate_config (pe_oidc env) (nullable (get_oidc_config (pe_oidc env) proc)))"

record setting_row =
  sr_name :: string
  sr_category :: string
  sr_secret :: bool
  sr_value :: setting_value
  sr_provenance :: string

record config_features =
  ft_smtp_enabled :: bool
  ft_local_auth_enabled :: bool
  ft_registration_enabled :: bool
  ft_active_llm_provider :: string
  ft_oidc_providers :: "string list"

record config_view =
  cv_settings :: "setting_row list"
  cv_ok :: bool
  cv_errors :: "string list"
  cv_features :: config_features

definition source_for_env_field :: "process_env \<Rightarrow> string \<Rightarrow> string" where
  "source_for_env_field env name = (if name \<in> pe_fields_set env then ''environment'' else ''built-in default'')"

definition setting_row :: "process_env \<Rightarrow> string list \<Rightarrow> setting_values \<Rightarrow> string \<Rightarrow> setting_row" where
  "setting_row env database_fields vs name =
     (let secret = (name \<in> set SECRET_FIELDS); v = value_of vs name
      in \<lparr>sr_name = name, sr_category = category name, sr_secret = secret,
          sr_value = (if secret then BoolV (truth v) else v),
          sr_provenance = (if name \<in> set database_fields then ''database'' else source_for_env_field env name)\<rparr>)"

definition features_of :: "process_env \<Rightarrow> config_cache \<Rightarrow> oidc_process \<Rightarrow> setting_values \<Rightarrow> config_features" where
  "features_of env cache proc vs =
     (let oidc = get_oidc_config (pe_oidc env) proc; e = pe_settings env
      in \<lparr>ft_smtp_enabled = truth (value_of vs ''smtp_enabled''), ft_local_auth_enabled = local_auth oidc,
          ft_registration_enabled = truth (value_of vs ''registration_enabled''),
          ft_active_llm_provider =
            (case active_llm_provider e (get_llm_config e cache) of None \<Rightarrow> ''none'' | Some p \<Rightarrow> pv_key p),
          ft_oidc_providers = map op_key (enabled_providers (pe_oidc env) oidc)\<rparr>)"

definition config_snapshot ::
  "process_env \<Rightarrow> config_cache \<Rightarrow> oidc_process \<Rightarrow> config_rows \<Rightarrow> oidc_config option \<Rightarrow> config_view" where
  "config_snapshot env cache proc rows oidc =
     (let overrides = database_overrides rows oidc;
          vs = live_fallbacks env cache proc @ overrides;
          names = model_fields @ (if ''smtp_enabled'' \<notin> set model_fields then [''smtp_enabled''] else []);
          errors = validation_errors env cache proc
      in \<lparr>cv_settings = map (setting_row env (map fst overrides) vs) names,
          cv_ok = (errors = []), cv_errors = errors, cv_features = features_of env cache proc vs\<rparr>)"

definition get_effective_config ::
  "process_env \<Rightarrow> current_user \<Rightarrow> config_cache \<Rightarrow> oidc_process \<Rightarrow> config_rows \<Rightarrow> oidc_config option \<Rightarrow>
     exn + config_view" where
  "get_effective_config env u cache proc rows oidc =
     and_then (require_admin u) (\<lambda>_. Inr (config_snapshot env cache proc rows oidc))"

section \<open>Lemmas\<close>

text \<open>Two lists of values an observer of the view cannot tell apart.\<close>

definition alike :: "setting_values \<Rightarrow> setting_values \<Rightarrow> bool" where
  "alike = list_all2 (\<lambda>(n, v) (m, w). n = m \<and> truth v = truth w \<and> (n \<notin> set SECRET_FIELDS \<longrightarrow> v = w))"

lemma alike_refl [simp]: "alike vs vs"
  by (simp add: alike_def list.rel_refl split_beta)

lemma alike_append: "alike a b \<Longrightarrow> alike c d \<Longrightarrow> alike (a @ c) (b @ d)"
  by (simp add: alike_def list_all2_appendI)

lemma alike_Cons: "alike ((n, v) # vs) ((m, w) # ws) \<longleftrightarrow>
    n = m \<and> truth v = truth w \<and> (n \<notin> set SECRET_FIELDS \<longrightarrow> v = w) \<and> alike vs ws"
  by (simp add: alike_def)

lemma alike_map_of:
  "list_all2 (\<lambda>(n, v) (m, w). n = m \<and> truth v = truth w \<and> (n \<notin> set SECRET_FIELDS \<longrightarrow> v = w)) vs ws \<Longrightarrow>
   rel_option (\<lambda>v w. truth v = truth w \<and> (name \<notin> set SECRET_FIELDS \<longrightarrow> v = w)) (map_of vs name) (map_of ws name)"
  by (induction rule: list_all2_induct) auto

lemma alike_value:
  assumes "alike vs ws"
  shows "truth (value_of vs name) = truth (value_of ws name) \<and>
    (name \<notin> set SECRET_FIELDS \<longrightarrow> value_of vs name = value_of ws name)"
proof -
  have "list_all2 (\<lambda>(n, v) (m, w). n = m \<and> truth v = truth w \<and> (n \<notin> set SECRET_FIELDS \<longrightarrow> v = w)) (rev vs) (rev ws)"
    using assms by (simp add: alike_def list_all2_rev)
  from alike_map_of [OF this, of name] show ?thesis
    by (cases "map_of (rev vs) name"; cases "map_of (rev ws) name") (simp_all add: value_of_def)
qed

lemma alike_row:
  assumes "alike vs ws" and "pe_fields_set env = pe_fields_set env'"
  shows "setting_row env fs vs = setting_row env' fs ws"
  using alike_value [OF assms(1)] assms(2)
  by (auto simp: setting_row_def source_for_env_field_def Let_def)

text \<open>The same environment with other secrets, and the stored and the cached proxy address.\<close>

definition with_secrets :: "(string \<Rightarrow> string) \<Rightarrow> process_env \<Rightarrow> process_env" where
  "with_secrets f env =
     (let e = pe_settings env
      in env\<lparr>pe_database_url := f ''database_url'', pe_secret_key := f ''secret_key'',
           pe_oidc := (pe_oidc env)\<lparr>oe_client_secret := \<lambda>k. f (''oidc_'' @ k @ ''_client_secret'')\<rparr>,
           pe_settings := e\<lparr>st_anthropic_api_key := f ''anthropic_api_key'',
             st_openai_api_key := f ''openai_api_key'', st_gemini_api_key := f ''gemini_api_key'',
             st_smtp_password := f ''smtp_password'', st_siem_http_token := f ''siem_http_token'',
             st_proxy := (st_proxy e)\<lparr>px_proxy_url := f ''proxy_url''\<rparr>,
             st_proxy_username := f ''proxy_username'', st_proxy_password := f ''proxy_password''\<rparr>\<rparr>)"

definition with_stored_url :: "string \<Rightarrow> config_rows \<Rightarrow> config_rows" where
  "with_stored_url u rows = rows\<lparr>rw_proxy := map_option (\<lambda>p. p\<lparr>px_proxy_url := u\<rparr>) (rw_proxy rows)\<rparr>"

definition with_cached_url :: "string \<Rightarrow> config_cache \<Rightarrow> config_cache" where
  "with_cached_url u cache = cache\<lparr>cc_proxy := map_option (\<lambda>p. p\<lparr>px_proxy_url := u\<rparr>) (cc_proxy cache)\<rparr>"

definition same_presence :: "(string \<Rightarrow> string) \<Rightarrow> (string \<Rightarrow> string) \<Rightarrow> bool" where
  "same_presence f g \<longleftrightarrow> (\<forall>n\<in>set SECRET_FIELDS. (f n = []) = (g n = []))"

lemma dump_alike:
  assumes "same_presence f g"
  shows "alike (settings_dump (with_secrets f env)) (settings_dump (with_secrets g env))"
proof -
  note secrets = assms [unfolded same_presence_def SECRET_FIELDS_def, simplified]
  show ?thesis
    unfolding settings_dump_def
    by (intro alike_append)
      (simp_all add: alike_Cons with_secrets_def Let_def secrets SECRET_FIELDS_def smtp_env_values_def
        siem_env_values_def proxy_env_values_def)
qed

lemma fallbacks_alike:
  assumes "same_presence f g" and "(a = []) = (b = [])"
  shows "alike (live_fallbacks (with_secrets f env) (with_cached_url a cache) proc)
    (live_fallbacks (with_secrets g env) (with_cached_url b cache) proc)"
proof -
  note secrets = assms(1) [unfolded same_presence_def SECRET_FIELDS_def, simplified]
  have env: "get_general_config (pe_settings (with_secrets h env)) (with_cached_url x cache) =
        get_general_config (pe_settings env) cache"
      "get_llm_config (pe_settings (with_secrets h env)) (with_cached_url x cache) = get_llm_config (pe_settings env) cache"
      "get_oidc_config (pe_oidc (with_secrets h env)) proc = get_oidc_config (pe_oidc env) proc"
      "get_mail_config (pe_settings (with_secrets h env)) (with_cached_url x cache) = get_mail_config (pe_settings env) cache"
      "cc_siem (with_cached_url x cache) = cc_siem cache" for h x
    by (simp_all add: get_general_config_def get_llm_config_def get_oidc_config_def get_mail_config_def env_mail_def
        env_smtp_enabled_def with_secrets_def with_cached_url_def Let_def split: option.split)
  have proxy: "alike
      (case cc_proxy (with_cached_url a cache) of
         None \<Rightarrow> [(''proxy_mode'', TextV (px_mode (st_proxy (pe_settings (with_secrets f env))))),
                  (''proxy_url'', TextV (px_proxy_url (st_proxy (pe_settings (with_secrets f env))))),
                  (''proxy_no_proxy'', TextV (px_no_proxy (st_proxy (pe_settings (with_secrets f env)))))]
       | Some c \<Rightarrow> proxy_values c)
      (case cc_proxy (with_cached_url b cache) of
         None \<Rightarrow> [(''proxy_mode'', TextV (px_mode (st_proxy (pe_settings (with_secrets g env))))),
                  (''proxy_url'', TextV (px_proxy_url (st_proxy (pe_settings (with_secrets g env))))),
                  (''proxy_no_proxy'', TextV (px_no_proxy (st_proxy (pe_settings (with_secrets g env)))))]
       | Some c \<Rightarrow> proxy_values c)"
    using assms(2) secrets
    by (cases "cc_proxy cache")
      (simp_all add: with_cached_url_def with_secrets_def Let_def proxy_values_def alike_Cons SECRET_FIELDS_def)
  show ?thesis
    unfolding live_fallbacks_def Let_def env
    by (intro alike_append dump_alike assms(1) proxy alike_refl)
qed

lemma overrides_alike:
  assumes "(u = []) = (v = [])"
  shows "alike (database_overrides (with_stored_url u rows) oidc) (database_overrides (with_stored_url v rows) oidc) \<and>
    map fst (database_overrides (with_stored_url u rows) oidc) = map fst (database_overrides (with_stored_url v rows) oidc)"
  using assms
  by (cases "rw_proxy rows")
    (simp_all add: database_overrides_def with_stored_url_def proxy_values_def alike_append alike_Cons SECRET_FIELDS_def)

lemma map_checked_cong:
  "(\<And>x. x \<in> set xs \<Longrightarrow> f x = g x) \<Longrightarrow> map_checked f xs = map_checked g xs"
  by (induction xs) (simp_all split: sum.split)

lemma validate_config_presence:
  assumes "\<And>k. k \<in> set PROVIDER_KEYS \<Longrightarrow> (oe_client_secret e1 k = []) = (oe_client_secret e2 k = [])"
  shows "validate_config e1 c = validate_config e2 c"
proof -
  have "map_checked (validate_provider e1 c) PROVIDER_KEYS = map_checked (validate_provider e2 c) PROVIDER_KEYS"
    by (rule map_checked_cong) (simp add: validate_provider_def assms)
  then show ?thesis unfolding validate_config_def by (rule arg_cong)
qed

lemma validate_selection_presence:
  assumes "(st_anthropic_api_key e1 = []) = (st_anthropic_api_key e2 = [])"
    and "(st_openai_api_key e1 = []) = (st_openai_api_key e2 = [])"
    and "(st_gemini_api_key e1 = []) = (st_gemini_api_key e2 = [])"
    and "st_llm e1 = st_llm e2"
  shows "validate_selection e1 cfg = validate_selection e2 cfg"
proof -
  have status: "api_key_status e1 = api_key_status e2" by (simp add: api_key_status_def assms)
  have provider: "map_option (\<lambda>p. (pv_model p, pv_display_name p, pv_aws_region p)) (active_llm_provider e1 cfg) =
      map_option (\<lambda>p. (pv_model p, pv_display_name p, pv_aws_region p)) (active_llm_provider e2 cfg)"
    by (simp add: active_llm_provider_def Let_def)
  show ?thesis
    using provider
    by (cases "active_llm_provider e1 cfg"; cases "active_llm_provider e2 cfg")
      (simp_all add: validate_selection_def status assms(4) Let_def)
qed

lemma active_key:
  "map_option pv_key (active_llm_provider e1 cfg) = map_option pv_key (active_llm_provider e2 cfg)"
  by (simp add: active_llm_provider_def Let_def)

lemma enabled_keys: "map op_key (enabled_providers e1 c) = map op_key (enabled_providers e2 c)"
  by (simp add: enabled_providers_def)

lemma validation_presence:
  assumes "same_presence f g"
    and "validate_settings (with_secrets f env) = validate_settings (with_secrets g env)"
  shows "validation_errors (with_secrets f env) (with_cached_url a cache) proc =
    validation_errors (with_secrets g env) (with_cached_url b cache) proc"
proof -
  note secrets = assms(1) [unfolded same_presence_def SECRET_FIELDS_def, simplified]
  have config: "validate_config (pe_oidc (with_secrets f env)) c = validate_config (pe_oidc (with_secrets g env)) c" for c
    by (rule validate_config_presence) (auto simp: with_secrets_def Let_def PROVIDER_KEYS_def secrets)
  have selection: "validate_selection (pe_settings (with_secrets f env)) c =
      validate_selection (pe_settings (with_secrets g env)) c" for c
    by (rule validate_selection_presence) (simp_all add: with_secrets_def Let_def secrets)
  have cached: "get_llm_config (pe_settings (with_secrets h env)) (with_cached_url x cache) =
        get_llm_config (pe_settings env) cache"
      "get_oidc_config (pe_oidc (with_secrets h env)) proc = get_oidc_config (pe_oidc env) proc" for h x
    by (simp_all add: get_llm_config_def get_oidc_config_def with_secrets_def with_cached_url_def Let_def
        split: option.split)
  show ?thesis by (simp add: validation_errors_def assms(2) config selection cached)
qed

lemma features_alike:
  assumes "alike vs ws"
  shows "features_of (with_secrets f env) (with_cached_url a cache) proc vs =
    features_of (with_secrets g env) (with_cached_url b cache) proc ws"
proof -
  have cached: "get_llm_config (pe_settings (with_secrets h env)) (with_cached_url x cache) =
        get_llm_config (pe_settings env) cache"
      "get_oidc_config (pe_oidc (with_secrets h env)) proc = get_oidc_config (pe_oidc env) proc" for h x
    by (simp_all add: get_llm_config_def get_oidc_config_def with_secrets_def with_cached_url_def Let_def
        split: option.split)
  let ?c = "get_llm_config (pe_settings env) cache"
  have key: "(case active_llm_provider (pe_settings (with_secrets f env)) ?c of None \<Rightarrow> ''none'' | Some p \<Rightarrow> pv_key p) =
      (case active_llm_provider (pe_settings (with_secrets g env)) ?c of None \<Rightarrow> ''none'' | Some p \<Rightarrow> pv_key p)"
    using active_key [of "pe_settings (with_secrets f env)" ?c "pe_settings (with_secrets g env)"]
    by (cases "active_llm_provider (pe_settings (with_secrets f env)) ?c";
        cases "active_llm_provider (pe_settings (with_secrets g env)) ?c") simp_all
  show ?thesis
    unfolding features_of_def Let_def cached key
    using alike_value [OF assms] enabled_keys by simp
qed

lemma validate_settings_Inr:
  "validate_settings env = Inr () \<longleftrightarrow>
     provider_key (st_llm (pe_settings env)) \<in> set (LLM_DISABLED_KEYS @ LLM_PROVIDER_KEYS) \<and>
     validate_proxy_settings (pe_settings env) = Inr () \<and>
     (st_smtp_host (pe_settings env) \<noteq> [] \<longrightarrow>
        st_smtp_from (pe_settings env) \<noteq> [] \<and> strip (st_public_base_url (pe_settings env)) \<noteq> []) \<and>
     (pe_dev_mode env \<or> \<not> secret_key_is_insecure env)"
  by (auto simp: validate_settings_def provider_key_def base_url_error_def secret_key_error_def Let_def)

text \<open>In production a process that started has a key of its own of at least 32 characters, and its
  cookies are secure unless the operator said otherwise.\<close>

lemma production_is_hardened:
  "validate_settings env = Inr () \<Longrightarrow> \<not> pe_dev_mode env \<Longrightarrow>
     32 \<le> length (pe_secret_key env) \<and> pe_secret_key env \<noteq> DEFAULT_SECRET_KEY \<and>
     (pe_cookie_secure env \<noteq> Some False \<longrightarrow> cookies_secure env)"
  by (auto simp: validate_settings_Inr secret_key_is_insecure_def MIN_SECRET_KEY_LENGTH_def cookies_secure_def
    split: option.splits)

text \<open>The start-up check accepts a proxy address with credentials inside, and the first read stores it
  in the row the administrators' page shows.\<close>

lemma seeded_proxy_row_carries_credentials:
  assumes "rw_proxy (cw_rows w) = None" and "px_proxy_url (st_proxy env) = ''http://u:p@proxy:1''"
    and "px_mode (st_proxy env) = ''explicit''"
  shows "validate_proxy_settings env = Inr () \<and> px_proxy_url (fst (get_proxy env now w)) = ''http://u:p@proxy:1''"
proof -
  have "strip ''http://u:p@proxy:1'' = ''http://u:p@proxy:1''" "strip ''explicit'' = ''explicit''" by code_simp+
  moreover have "\<exists>p. urlsplit ''http://u:p@proxy:1'' = Inr p \<and> up_scheme p = ''http'' \<and> hostname p = Some ''proxy''"
  proof -
    have "(case urlsplit ''http://u:p@proxy:1'' of Inr p \<Rightarrow> up_scheme p = ''http'' \<and> hostname p = Some ''proxy'' | Inl _ \<Rightarrow> False)"
      by code_simp
    then show ?thesis by (auto split: sum.splits)
  qed
  moreover have "map latin_lower ''explicit'' = ''explicit''" by code_simp
  ultimately show ?thesis
    using assms
    by (auto simp: validate_proxy_settings_def get_proxy_def PROXY_MODES_def PROXY_URL_SCHEMES_def Let_def)
qed

section \<open>Properties\<close>

text \<open>C32: the administrators' view of the configuration says of a secret whether it is set, and
  nothing more.  Take two processes that started, with environments that differ only in the
  fourteen secrets, and give the stored and the cached proxy address different values too: as long
  as the same secrets are set, the two views are equal in every row, in the validation messages and in
  the features.\<close>

theorem config_view_hides_secrets:
  assumes "same_presence f g" and "(u = []) = (v = [])" and "(a = []) = (b = [])"
    and "validate_settings (with_secrets f env) = Inr ()" and "validate_settings (with_secrets g env) = Inr ()"
  shows "config_snapshot (with_secrets f env) (with_cached_url a cache) proc (with_stored_url u rows) oidc =
    config_snapshot (with_secrets g env) (with_cached_url b cache) proc (with_stored_url v rows) oidc"
proof -
  note over = overrides_alike [OF assms(2), of rows oidc]
  have vs: "alike
      (live_fallbacks (with_secrets f env) (with_cached_url a cache) proc @ database_overrides (with_stored_url u rows) oidc)
      (live_fallbacks (with_secrets g env) (with_cached_url b cache) proc @ database_overrides (with_stored_url v rows) oidc)"
    using over by (intro alike_append fallbacks_alike assms) simp
  have fields: "pe_fields_set (with_secrets f env) = pe_fields_set (with_secrets g env)"
    by (simp add: with_secrets_def Let_def)
  have errors: "validation_errors (with_secrets f env) (with_cached_url a cache) proc =
      validation_errors (with_secrets g env) (with_cached_url b cache) proc"
    by (rule validation_presence [OF assms(1)]) (simp add: assms)
  show ?thesis
    unfolding config_snapshot_def Let_def errors
    using over features_alike [OF vs, of f env a cache proc g b] by (simp add: alike_row [OF vs fields])
qed

definition demo_process_env :: process_env where
  "demo_process_env =
     \<lparr>pe_settings = demo_env, pe_oidc = demo_oidc_env, pe_database_url = [], pe_secret_key = [], pe_algorithm = ''HS256'',
      pe_dev_mode = False, pe_cookie_secure = None, pe_trusted_origins = [], pe_log_level = ''INFO'',
      pe_log_json = False, pe_fields_set = {''secret_key''}\<rparr>"

definition demo_secrets :: "char \<Rightarrow> string \<Rightarrow> string" where
  "demo_secrets c n =
     (if n = ''proxy_url'' then ''http://u:'' @ [c] @ ''@proxy:1'' else replicate 40 c)"

definition demo_oidc_process :: oidc_process where
  "demo_oidc_process = \<lparr>oq_config = None, oq_registered = [], oq_done = False\<rparr>"

theorem config_view_hides_secrets_witness:
  "with_secrets (demo_secrets CHR ''a'') demo_process_env \<noteq> with_secrets (demo_secrets CHR ''b'') demo_process_env \<and>
   config_snapshot (with_secrets (demo_secrets CHR ''a'') demo_process_env)
     (with_cached_url ''p'' (initial_cache demo_env)) demo_oidc_process (with_stored_url ''r'' empty_rows) None =
   config_snapshot (with_secrets (demo_secrets CHR ''b'') demo_process_env)
     (with_cached_url ''q'' (initial_cache demo_env)) demo_oidc_process (with_stored_url ''s'' empty_rows) None"
proof -
  have presence: "same_presence (demo_secrets CHR ''a'') (demo_secrets CHR ''b'')"
    by (simp add: same_presence_def demo_secrets_def)
  have started: "validate_settings (with_secrets (demo_secrets CHR ''a'') demo_process_env) = Inr ()"
      "validate_settings (with_secrets (demo_secrets CHR ''b'') demo_process_env) = Inr ()"
    by code_simp+
  have "pe_secret_key (with_secrets (demo_secrets CHR ''a'') demo_process_env) \<noteq>
      pe_secret_key (with_secrets (demo_secrets CHR ''b'') demo_process_env)"
    by (simp add: with_secrets_def demo_secrets_def Let_def)
  moreover note config_view_hides_secrets [OF presence _ _ started,
      where u = "''r''" and v = "''s''" and a = "''p''" and b = "''q''" and cache = "initial_cache demo_env"
        and proc = demo_oidc_process and rows = empty_rows and oidc = None]
  ultimately show ?thesis by force
qed

lemma all_set_True: "all_set vs = Inr True \<Longrightarrow> \<forall>v\<in>set vs. \<exists>t. v = Some t \<and> strip t \<noteq> []"
  by (induction vs rule: all_set.induct) (auto split: if_splits)

lemma enabled_columns_set:
  assumes "validate_provider env c k = Inr ()" and "fst (provider_columns c k) = Some True"
    and "v \<in> set (fst (snd (provider_columns c k)))"
  shows "\<exists>t. v = Some t \<and> strip t \<noteq> []"
proof -
  have "all_set (fst (snd (provider_columns c k))) = Inr True"
    using assms(1,2) by (auto simp: validate_provider_def split: if_splits option.splits prod.splits)
  then show ?thesis using all_set_True assms(3) by blast
qed

text \<open>The two copies of the provider table agree where it counts.  For every configuration
  that passes the validation, the providers \<^verbatim>\<open>Settings\<close> derives from the environment
  are the ones the running service derives from its row, and the language model provider is the
  same one as well.\<close>

lemma seed_and_runtime_providers_agree:
  assumes "validate_config (pe_oidc env) (nullable (oe_seed (pe_oidc env))) = Inr ()"
  shows "env_oidc_providers env = enabled_providers (pe_oidc env) (oe_seed (pe_oidc env)) \<and>
    env_llm_provider env = active_llm_provider (pe_settings env) (st_llm (pe_settings env))"
proof -
  let ?c = "oe_seed (pe_oidc env)"
  have llm: "env_llm_provider env = active_llm_provider (pe_settings env) (st_llm (pe_settings env))"
    by (simp add: env_llm_provider_def active_llm_provider_def provider_key_def Let_def)
  have filled: "t \<noteq> []"
    if "oidc_auth_enabled ?c" "fst (provider_columns ?c k)" "t \<in> set (fst (snd (provider_columns ?c k)))"
      "k \<in> set PROVIDER_KEYS" for k t
  proof -
    have "oi_auth_mode (nullable ?c) \<noteq> Some ''local''" using that(1) by (auto simp: oidc_auth_enabled_def)
    note ok = valid_config_provider [OF assms this that(4)]
    have "fst (provider_columns (nullable ?c) k) = Some True"
      "Some t \<in> set (fst (snd (provider_columns (nullable ?c) k)))"
      using that(2,3) by (auto split: prod.splits)
    from enabled_columns_set [OF ok this] show ?thesis by (auto simp: strip_def)
  qed
  show ?thesis
    using filled [of "''entra''"] filled [of "''authentik''"] filled [of "''auth0''"] filled [of "''okta''"] llm
    by (auto simp: env_oidc_providers_def enabled_providers_def provider_columns_def PROVIDER_KEYS_def
      entra_authority_def okta_path_def DISCOVERY_def Let_def)
qed

end
