(* ===== verification/Bootstrap.thy ===== *)
theory Bootstrap
  imports Oidc Audit_Log Effective_Config
begin

text \<open>
  The two command-line tools of the operator: the account override
  (\<^verbatim>\<open>app/bootstrap_admin.py\<close>) and the clean-up of stored attachments
  (\<^verbatim>\<open>app/reconcile_attachments.py\<close>).

  The argument parser, the terminal and the environment are arguments.  A path is the list of its components below the root
  directory; \<open>real\<close> resolves symbolic links and \<^verbatim>\<open>..\<close>, and \<open>disk\<close>
  lists the entries that are files.
\<close>

section \<open>The operator override\<close>

definition promoted_user ::
  "string option \<Rightarrow> user_role \<Rightarrow> bool \<Rightarrow> user \<Rightarrow> user" where
  "promoted_user display_name role is_admin1 u =
     (let u1 = u\<lparr>u_role := role, u_role_managed_by_idp := False, u_is_admin := is_admin1, u_is_active := True\<rparr>
      in if truthy display_name then u1\<lparr>u_display_name := the display_name\<rparr> else u1)"

definition override_password ::
  "(string \<Rightarrow> string) \<Rightarrow> string option \<Rightarrow> bool \<Rightarrow> instant \<Rightarrow> user \<Rightarrow> exn + user" where
  "override_password hash_password password reset_it now u =
     (if \<not> reset_it then Inr u
      else if \<not> truthy password then Inl (ValueError ''--reset-password requires a password.'')
      else and_then (validate_password_strength (the password)) (\<lambda>pw.
        Inr (u\<lparr>u_hashed_password := Some (hash_password pw), u_token_valid_after := Some (whole_second now)\<rparr>)))"

definition create_operator ::
  "(string \<Rightarrow> string) \<Rightarrow> string \<Rightarrow> string option \<Rightarrow> string option \<Rightarrow> user_role \<Rightarrow> bool \<Rightarrow> instant \<Rightarrow>
     database \<Rightarrow> exn + user" where
  "create_operator hash_password email display_name password role is_admin1 now d =
     (if \<not> truthy password then Inl (ValueError ''A password is required to create a new account.'')
      else and_then (validate_password_strength (the password)) (\<lambda>pw.
        Inr (new_user email (if truthy display_name then the display_name else before CHR ''@'' email)
               (hash_password pw) role None is_admin1 now d)))"

text \<open>The account and whether it is new; nothing is flushed before the only commit.\<close>

definition upsert_admin ::
  "(string \<Rightarrow> string) \<Rightarrow> string \<Rightarrow> string option \<Rightarrow> string option \<Rightarrow> user_role \<Rightarrow> bool \<Rightarrow> bool \<Rightarrow> instant \<Rightarrow>
     session \<Rightarrow> (exn + user \<times> bool) \<times> session" where
  "upsert_admin hash_password raw_email display_name password role is_admin1 reset_it now s =
     (let email = map latin_lower (strip raw_email)
      in if \<not> email_shape email then (Inl (ValueError (''Not a valid email address: '' @ py_repr email)), s)
         else case get_by_email (db s) email of
           None \<Rightarrow>
             (case create_operator hash_password email display_name password role is_admin1 now (db s) of
                Inl e \<Rightarrow> (Inl e, s)
              | Inr u \<Rightarrow> (case add_user u s of (Inl e, s1) \<Rightarrow> (Inl e, s1) | (Inr v, s1) \<Rightarrow> (Inr (v, True), s1)))
         | Some u \<Rightarrow>
             (case override_password hash_password password reset_it now (promoted_user display_name role is_admin1 u) of
                Inl e \<Rightarrow> (Inl e, s)
              | Inr v \<Rightarrow> (Inr (v, False), commit (execute (update_user (u_id u) (\<lambda>_. v)) s))))"

definition bootstrap_audit :: "user \<Rightarrow> bool \<Rightarrow> audit_call" where
  "bootstrap_audit u created =
     (audit_call ''admin.bootstrap'' (plain_user u) ''user''
        (if created then ''created'' else ''promoted'') ''warning'')\<lparr>al_target_id := Some (show_int (u_id u))\<rparr>"

record bootstrap_args =
  ba_email :: string
  ba_display_name :: "string option"
  ba_password :: "string option"
  ba_role :: user_role
  ba_is_admin :: bool
  ba_reset_password :: bool

text \<open>What the parser answers when only the address is given.\<close>

definition bootstrap_defaults :: "string \<Rightarrow> bootstrap_args" where
  "bootstrap_defaults email =
     \<lparr>ba_email = email, ba_display_name = None, ba_password = None, ba_role = Facilitator, ba_is_admin = True,
      ba_reset_password = False\<rparr>"

definition resolve_password ::
  "bootstrap_args \<Rightarrow> string option \<Rightarrow> string \<times> string \<Rightarrow> bool \<Rightarrow> exn + string option" where
  "resolve_password args env typed needed =
     (if truthy (ba_password args) then Inr (ba_password args)
      else if truthy env then Inr env
      else if \<not> needed then Inr None
      else if fst typed \<noteq> snd typed then Inl (ValueError ''Passwords did not match.'')
      else Inr (Some (fst typed)))"

text \<open>The exit code with what is printed and the audit events handed out; an exception that is not
  a \<^verbatim>\<open>ValueError\<close> ends the program.\<close>

datatype bootstrap_exit = Exit int string "audit_call list" | Traceback exn

definition bootstrap_message :: "user \<Rightarrow> bool \<Rightarrow> string" where
  "bootstrap_message u created =
     (if created then ''Created '' else ''Updated '') @ u_email u @ '' (role='' @ role_value (u_role u) @
     (if u_is_admin u then '', admin'' else []) @ '').''"

definition run_bootstrap ::
  "(string \<Rightarrow> string) \<Rightarrow> bootstrap_args \<Rightarrow> string option \<Rightarrow> string \<times> string \<Rightarrow> instant \<Rightarrow> session \<Rightarrow>
     bootstrap_exit \<times> session" where
  "run_bootstrap hash_password args env typed now s =
     (let existing = get_by_email (db s) (map latin_lower (strip (ba_email args)));
          needed = (existing = None \<or> ba_reset_password args);
          (r, s1) = (case resolve_password args env typed needed of
             Inl e \<Rightarrow> (Inl e, s)
           | Inr password \<Rightarrow>
               upsert_admin hash_password (ba_email args) (ba_display_name args) password (ba_role args)
                 (ba_is_admin args) (ba_reset_password args) now s)
      in case r of
           Inr (u, created) \<Rightarrow> (Exit 0 (bootstrap_message u created) [bootstrap_audit u created], s1)
         | Inl (ValueError m) \<Rightarrow> (Exit 2 (''error: '' @ m) [], rollback s1)
         | Inl e \<Rightarrow> (Traceback e, rollback s1))"

section \<open>Reconciling the attachment store\<close>

type_synonym fs_path = "string list"

definition parents :: "fs_path \<Rightarrow> fs_path list" where
  "parents p = map (\<lambda>n. take n p) (rev [0..<length p])"

definition under_root :: "fs_path \<Rightarrow> fs_path \<Rightarrow> bool" where
  "under_root p root \<longleftrightarrow> root = p \<or> root \<in> set (parents p)"

definition path_of :: "fs_path \<Rightarrow> string \<Rightarrow> fs_path" where
  "path_of cwd t =
     (let parts = filter (\<lambda>w. w \<noteq> [] \<and> w \<noteq> ''.'') (components t)
      in if take 1 t = ''/'' then parts else cwd @ parts)"

definition path_str :: "fs_path \<Rightarrow> string" where
  "path_str p = (if p = [] then ''/'' else concat (map (\<lambda>w. ''/'' @ w) p))"

record reconcile_report =
  rr_dry_run :: bool
  rr_missing_files :: "string list"
  rr_orphan_files :: "string list"
  rr_removed_files :: "string list"

definition referenced_files :: "(string \<Rightarrow> fs_path) \<Rightarrow> fs_path \<Rightarrow> inject list \<Rightarrow> fs_path list" where
  "referenced_files resolve root injs =
     remdups (filter (\<lambda>p. under_root p root)
       (map (\<lambda>ij. resolve (the (ij_attachment_path ij))) (filter (\<lambda>ij. truthy (ij_attachment_path ij)) injs)))"

definition orphan_files :: "(fs_path \<Rightarrow> fs_path) \<Rightarrow> fs_path list \<Rightarrow> fs_path \<Rightarrow> fs_path list \<Rightarrow> fs_path list" where
  "orphan_files real referenced root disk =
     sort (filter (\<lambda>p. p \<notin> set referenced) (remdups (map real (filter (\<lambda>p. root \<in> set (parents p)) disk))))"

definition reconcile ::
  "(fs_path \<Rightarrow> fs_path) \<Rightarrow> fs_path \<Rightarrow> string \<Rightarrow> bool \<Rightarrow> inject list \<Rightarrow> fs_path list \<Rightarrow>
     reconcile_report \<times> fs_path list" where
  "reconcile real cwd root_name do_apply injs disk =
     (let root = real (path_of cwd root_name);
          referenced = referenced_files (\<lambda>t. real (path_of cwd t)) root injs;
          existing = map real (filter (\<lambda>p. root \<in> set (parents p)) disk);
          orphans = orphan_files real referenced root disk;
          removed = (if do_apply then filter (\<lambda>p. under_root p root) orphans else [])
      in (\<lparr>rr_dry_run = (\<not> do_apply),
           rr_missing_files = sort (map path_str (filter (\<lambda>p. p \<notin> set existing) referenced)),
           rr_orphan_files = map path_str orphans, rr_removed_files = map path_str removed\<rparr>,
          filter (\<lambda>p. p \<notin> set removed) disk))"

definition reconcile_audit :: "reconcile_report \<Rightarrow> audit_call" where
  "reconcile_audit r =
     \<lparr>al_action = ''attachments.reconcile'', al_result = ''success'', al_actor = None,
      al_target_type = Some ''attachment_storage'', al_target_id = None,
      al_reason = Some (''removed='' @ show_nat (length (rr_removed_files r)) @ '' missing='' @
        show_nat (length (rr_missing_files r))),
      al_severity = ''warning'', al_security_relevant = True\<rparr>"

section \<open>Lemmas\<close>

lemma upsert_admin_Inr:
  assumes "upsert_admin hash_password raw_email display_name password role is_admin1 reset_it now s = (Inr (u, created), s1)"
  shows "u_role u = role \<and> u_is_admin u = is_admin1 \<and> u_is_active u \<and> \<not> u_role_managed_by_idp u \<and>
    u_email u = map latin_lower (strip raw_email) \<and>
    (if created
     then u_id u = nextval TUser (db s) \<and> committed s1 = (bump TUser (db s))\<lparr>users := users (db s) @ [u]\<rparr>
     else (\<exists>old. old \<in> set (users (db s)) \<and> u_id old = u_id u \<and>
             committed s1 = update_user (u_id u) (\<lambda>_. u) (db s)))"
proof -
  let ?email = "map latin_lower (strip raw_email)"
  have promoted: "u_id (promoted_user display_name role is_admin1 o1) = u_id o1 \<and>
      u_email (promoted_user display_name role is_admin1 o1) = u_email o1 \<and>
      u_role (promoted_user display_name role is_admin1 o1) = role \<and>
      u_is_admin (promoted_user display_name role is_admin1 o1) = is_admin1 \<and>
      u_is_active (promoted_user display_name role is_admin1 o1) \<and>
      \<not> u_role_managed_by_idp (promoted_user display_name role is_admin1 o1)" for o1
    by (simp add: promoted_user_def Let_def)
  show ?thesis
  proof (cases "get_by_email (db s) ?email")
    case None
    obtain v where v: "create_operator hash_password ?email display_name password role is_admin1 now (db s) = Inr v"
        "add_user v s = (Inr u, s1)" "created"
      using assms None by (auto simp: upsert_admin_def Let_def split: if_splits sum.splits prod.splits)
    note added = add_user_Inr [OF v(2)]
    have "v = u" using added(1) by simp
    then show ?thesis
      using v(1,3) added(3)
      by (auto simp: create_operator_def new_user_def split: if_splits)
  next
    case (Some old)
    have old: "old \<in> set (users (db s))" "u_email old = ?email"
      using get_row_Some [OF Some [unfolded get_by_email_def]] by simp_all
    have kept: "u_id u = u_id old \<and> u_email u = u_email old \<and> u_role u = role \<and> u_is_admin u = is_admin1 \<and>
        u_is_active u \<and> \<not> u_role_managed_by_idp u \<and> \<not> created \<and>
        committed s1 = update_user (u_id old) (\<lambda>_. u) (db s)"
      using assms Some promoted [of old]
      by (auto simp: upsert_admin_def override_password_def Let_def split: if_splits sum.splits)
    then show ?thesis using old by auto
  qed
qed

text \<open>A row of the user table that the override wrote, and logins after it.\<close>

definition user_ids_ok :: "database \<Rightarrow> bool" where
  "user_ids_ok d \<longleftrightarrow> distinct (map u_id (users d)) \<and> (\<forall>u\<in>set (users d). u_id u < nextval TUser d)"

definition overridden :: "int \<Rightarrow> string \<Rightarrow> user_role \<Rightarrow> bool \<Rightarrow> user \<Rightarrow> bool" where
  "overridden i email role is_admin1 u \<longleftrightarrow>
     u_id u = i \<and> u_email u = email \<and> u_role u = role \<and> u_is_admin u = is_admin1 \<and> u_is_active u \<and>
     \<not> u_role_managed_by_idp u"

definition override_kept :: "int \<Rightarrow> string \<Rightarrow> user_role \<Rightarrow> bool \<Rightarrow> database \<Rightarrow> bool" where
  "override_kept i email role is_admin1 d \<longleftrightarrow>
     user_ids_ok d \<and> (\<exists>u\<in>set (users d). overridden i email role is_admin1 u)"

text \<open>Logins through identity providers, each in a request of its own.\<close>

fun sso_run ::
  "oidc_env \<Rightarrow> string \<Rightarrow> (oidc_provider \<times> oidc_identity \<times> instant) list \<Rightarrow> database \<Rightarrow> database" where
  "sso_run env me [] d = d"
| "sso_run env me ((cfg, i, now) # logins) d =
     sso_run env me logins (committed (fst (snd (provision_oidc_user env cfg i now (open_session me d)))))"

lemma user_ids_ok_update:
  "user_ids_ok d \<Longrightarrow> u_id v = i \<Longrightarrow> user_ids_ok (update_user i (\<lambda>_. v) d)"
proof -
  assume ok: "user_ids_ok d" and id: "u_id v = i"
  have ids: "map u_id (users (update_user i (\<lambda>_. v) d)) = map u_id (users d)"
    using id by (auto simp: update_user_def update_where_def)
  moreover have "nextval TUser (update_user i (\<lambda>_. v) d) = nextval TUser d"
    by (simp add: nextval_def update_user_def)
  moreover have "(\<forall>u\<in>set (users (update_user i (\<lambda>_. v) d)). u_id u < nextval TUser d) \<longleftrightarrow>
      (\<forall>x\<in>set (map u_id (users (update_user i (\<lambda>_. v) d))). x < nextval TUser d)"
    by simp
  ultimately show ?thesis using ok by (simp add: user_ids_ok_def)
qed

lemma user_ids_ok_insert:
  "user_ids_ok d \<Longrightarrow> u_id u = nextval TUser d \<Longrightarrow> user_ids_ok ((bump TUser d)\<lparr>users := users d @ [u]\<rparr>)"
  by (auto simp: user_ids_ok_def nextval_def bump_def less_le)

lemma open_session_clean: "committed (open_session me d) = d" "db (open_session me d) = d"
  by (simp_all add: open_session_def)

lemma override_kept_login:
  assumes kept: "override_kept i email role is_admin1 d"
  shows "override_kept i email role is_admin1
    (committed (fst (snd (provision_oidc_user env cfg ident now (open_session me d)))))"
proof -
  let ?s = "open_session me d"
  obtain r s' cl where run: "provision_oidc_user env cfg ident now ?s = (r, s', cl)"
    by (cases "provision_oidc_user env cfg ident now ?s") auto
  have ok: "user_ids_ok d" and ids: "distinct (map u_id (users (db ?s)))"
    using kept by (simp_all add: override_kept_def user_ids_ok_def open_session_clean)
  obtain x where x: "x \<in> set (users d)" "overridden i email role is_admin1 x"
    using kept by (auto simp: override_kept_def)
  have clean: "committed ?s = db ?s" by (simp add: open_session_clean)
  from run clean ids have "override_kept i email role is_admin1 (committed s')"
  proof (cases rule: provision_cases)
    case (Refusal e)
    then show ?thesis using kept by (simp add: open_session_clean)
  next
    case (Returning u v)
    have u: "u \<in> set (users (db ?s))" using find_identity_Some [OF Returning(2)] by simp
    note f = sync_Inr [OF Returning(4) clean u ids]
    have v: "v = synced_user cfg ident now u" using f by simp
    have same: "same_account u v" and r: "u_role v = idp_role cfg ident u"
      using synced_user_facts v by blast+
    have managed: "u_role_managed_by_idp v = u_role_managed_by_idp u"
      using same by (cases u; cases v) (simp add: same_account_def)
    have c: "committed s' = update_user (u_id u) (\<lambda>_. v) d"
      using f by (simp add: open_session_clean)
    let ?y = "if u_id x = u_id u then v else x"
    have "?y \<in> set (users (committed s'))"
      using x(1) by (auto simp: c update_user_def update_where_def)
    moreover have "overridden i email role is_admin1 ?y"
    proof (cases "u_id x = u_id u")
      case True
      then have "x = u" using ids x(1) u by (auto simp: open_session_clean distinct_map inj_on_def)
      then show ?thesis
        using x(2) same_account_fields [OF same] r managed by (simp add: overridden_def idp_role_def)
    qed (simp add: x(2))
    moreover have "user_ids_ok (committed s')"
      using user_ids_ok_update [OF ok, of v "u_id u"] same_account_fields [OF same] by (simp add: c)
    ultimately show ?thesis unfolding override_kept_def by blast
  next
    case New
    let ?u = "identity_user cfg ident now d"
    have "committed s' = (bump TUser d)\<lparr>users := users d @ [?u]\<rparr>"
      using run New(1,3,4)
      by (auto simp: provision_oidc_user_def insert_identity_def insert_user_def open_session_clean Let_def
        split: if_splits)
    then show ?thesis
      using user_ids_ok_insert [OF ok, of ?u] x by (auto simp: override_kept_def identity_user_def Let_def)
  qed
  then show ?thesis by (simp add: run)
qed

lemma override_kept_run:
  "override_kept i email role is_admin1 d \<Longrightarrow> override_kept i email role is_admin1 (sso_run env me logins d)"
proof (induction logins arbitrary: d)
  case (Cons l logins)
  obtain cfg ident now where l: "l = (cfg, ident, now)" by (cases l) auto
  show ?case using Cons.IH [OF override_kept_login [OF Cons.prems]] by (simp add: l)
qed simp

lemma upsert_admin_kept:
  assumes run: "upsert_admin hash_password raw_email display_name password role is_admin1 reset_it now s = (Inr (u, created), s1)"
    and ok: "user_ids_ok (db s)"
  shows "override_kept (u_id u) (map latin_lower (strip raw_email)) role is_admin1 (committed s1)"
proof -
  note f = upsert_admin_Inr [OF run]
  have "user_ids_ok (committed s1) \<and> u \<in> set (users (committed s1))"
  proof (cases created)
    case True
    then show ?thesis using f user_ids_ok_insert [OF ok] by simp
  next
    case False
    then obtain old where "old \<in> set (users (db s))" "u_id old = u_id u"
        and c: "committed s1 = update_user (u_id u) (\<lambda>_. u) (db s)" using f by auto
    then have "u \<in> set (users (committed s1))" by (force simp: c update_user_def update_where_def)
    then show ?thesis using user_ids_ok_update [OF ok refl] by (simp add: c)
  qed
  then show ?thesis using f by (auto simp: override_kept_def overridden_def)
qed

lemma reconcile_facts:
  assumes "reconcile real cwd root_name do_apply injs disk = (rep, disk')" and "p \<in> set disk" and "p \<notin> set disk'"
  shows "do_apply \<and> under_root p (real (path_of cwd root_name)) \<and>
    p \<notin> set (referenced_files (\<lambda>t. real (path_of cwd t)) (real (path_of cwd root_name)) injs)"
  using assms by (auto simp: reconcile_def orphan_files_def Let_def split: if_splits)

section \<open>Properties\<close>

text \<open>C33: an operator's override outlives every later single sign-on.  Once the tool has created or
  promoted an account, no sequence of logins through identity providers, whatever groups they
  claim, changes the account's role, takes its admin flag or locks it; the account keeps its address.\<close>

theorem override_outlives_sso:
  assumes "upsert_admin hash_password raw_email display_name password role is_admin1 reset_it now s = (Inr (u, created), s1)"
    and "user_ids_ok (db s)"
  shows "\<exists>v. get_user (sso_run env me logins (committed s1)) (u_id u) = Some v \<and>
    u_email v = map latin_lower (strip raw_email) \<and> u_role v = role \<and> u_is_admin v = is_admin1 \<and> u_is_active v"
proof -
  let ?d = "sso_run env me logins (committed s1)"
  have kept: "override_kept (u_id u) (map latin_lower (strip raw_email)) role is_admin1 ?d"
    by (rule override_kept_run [OF upsert_admin_kept [OF assms]])
  then obtain v where v: "v \<in> set (users ?d)" "overridden (u_id u) (map latin_lower (strip raw_email)) role is_admin1 v"
    by (auto simp: override_kept_def)
  have "get_user ?d (u_id v) = Some v"
    using kept v(1) by (simp add: get_user_def override_kept_def user_ids_ok_def get_row_unique)
  then show ?thesis using v(2) by (auto simp: overridden_def)
qed

text \<open>The member of staff whose group the identity provider takes away keeps the operator's role.\<close>

definition demo_staff :: session where
  "demo_staff = open_session ''me'' (empty_database\<lparr>users :=
     [(demo_user 0 Facilitator None)\<lparr>u_email := ''p@x.y'', u_auth_provider := ''auth0'', u_subject := Some ''sub1'',
        u_role_managed_by_idp := True\<rparr>]\<rparr>)"

theorem override_outlives_sso_witness:
  "\<exists>u s1 v. upsert_admin (\<lambda>p. p) '' P@X.Y '' None None Facilitator False False 7 demo_staff = (Inr (u, False), s1) \<and>
     get_user (sso_run demo_oidc_env ''me'' [(demo_provider, demo_identity [], 9)] (committed s1)) (u_id u) = Some v \<and>
     u_role v = Facilitator"
proof -
  let ?r = "upsert_admin (\<lambda>p. p) '' P@X.Y '' None None Facilitator False False 7 demo_staff"
  have "(case fst ?r of Inr (u, False) \<Rightarrow> True | _ \<Rightarrow> False)" by code_simp
  then obtain u s1 where run: "?r = (Inr (u, False), s1)"
    by (cases ?r) (auto split: sum.splits prod.splits bool.splits)
  have "user_ids_ok (db demo_staff)"
    by (simp add: demo_staff_def open_session_clean user_ids_ok_def demo_user_def nextval_def empty_database_def)
  then show ?thesis using override_outlives_sso [OF run] run by blast
qed

text \<open>The clean-up of the attachment store removes orphans only.  A file that disappears was
  removed in apply mode, lies inside the resolved root, and is not the resolved path of any
  attachment of any inject; so every attachment whose file was there can still be read.\<close>

lemma reconcile_spares_attachments:
  assumes "reconcile real cwd root_name do_apply injs disk = (rep, disk')"
  shows "(\<forall>p\<in>set disk - set disk'. do_apply \<and> under_root p (real (path_of cwd root_name)) \<and>
            (\<forall>ij\<in>set injs. truthy (ij_attachment_path ij) \<longrightarrow> real (path_of cwd (the (ij_attachment_path ij))) \<noteq> p)) \<and>
    (\<forall>ij\<in>set injs. truthy (ij_attachment_path ij) \<longrightarrow>
        real (path_of cwd (the (ij_attachment_path ij))) \<in> set disk \<longrightarrow>
        real (path_of cwd (the (ij_attachment_path ij))) \<in> set disk')"
proof -
  have gone: "do_apply \<and> under_root p (real (path_of cwd root_name)) \<and>
      (\<forall>ij\<in>set injs. truthy (ij_attachment_path ij) \<longrightarrow> real (path_of cwd (the (ij_attachment_path ij))) \<noteq> p)"
    if "p \<in> set disk" "p \<notin> set disk'" for p
    using reconcile_facts [OF assms that] by (auto simp: referenced_files_def)
  then show ?thesis by blast
qed

lemma reconcile_spares_attachments_witness:
  "\<exists>rep disk'. reconcile (\<lambda>p. p) [''srv''] ''uploads/a'' True
      [(demo_inject 1 ''a'' None Pending)\<lparr>ij_attachment_path := Some ''uploads/a/x''\<rparr>]
      [[''srv'', ''uploads'', ''a'', ''x''], [''srv'', ''uploads'', ''a'', ''y''], [''etc'', ''z'']] = (rep, disk') \<and>
     rr_removed_files rep = [''/srv/uploads/a/y''] \<and> [''srv'', ''uploads'', ''a'', ''x''] \<in> set disk'"
proof -
  let ?ij = "(demo_inject 1 ''a'' None Pending)\<lparr>ij_attachment_path := Some ''uploads/a/x''\<rparr>"
  let ?disk = "[[''srv'', ''uploads'', ''a'', ''x''], [''srv'', ''uploads'', ''a'', ''y''], [''etc'', ''z'']]"
  let ?r = "reconcile (\<lambda>p. p) [''srv''] ''uploads/a'' True [?ij] ?disk"
  obtain rep disk' where run: "?r = (rep, disk')" by (cases ?r)
  have "rr_removed_files (fst ?r) = [''/srv/uploads/a/y'']" by code_simp
  moreover have "path_of [''srv''] ''uploads/a/x'' = [''srv'', ''uploads'', ''a'', ''x'']" by code_simp
  ultimately show ?thesis
    using reconcile_spares_attachments [OF run] run by (auto intro!: exI [of _ rep] exI [of _ disk'])
qed

end
