(* ===== verification/Scenario_Api.thy ===== *)
theory Scenario_Api
  imports Inject_Api
begin

text \<open>
  The scenario library's routes (\<^verbatim>\<open>app/routers/scenarios.py\<close>): listing, creation,
  import, reading, editing, deletion, export and validation.

  The body of a creation or an edit is a \<^verbatim>\<open>ScenarioDefinition\<close>: FastAPI validates it
  after the guard of the dependency has passed and before the handler runs.  The acting user is
  the one of \<open>get_current_actual_user\<close>.
\<close>

section \<open>Payloads\<close>

record scenario_listing =
  sm_id :: int
  sm_title :: string
  sm_description :: "string option"
  sm_version :: string
  sm_tags :: "string list"
  sm_inject_count :: nat
  sm_branch_count :: nat
  sm_created_by :: int
  sm_created_at :: string
  sm_updated_at :: string

record scenario_detail = scenario_listing +
  sm_definition :: scenario_definition

definition scenario_summary_of :: "scenario \<Rightarrow> scenario_listing" where
  "scenario_summary_of sc =
     (let injects1 = sd_injects (sc_definition sc)
      in \<lparr>sm_id = sc_id sc, sm_title = sc_title sc, sm_description = sc_description sc,
          sm_version = sc_version sc,
          sm_tags = (case sc_tags sc of None \<Rightarrow> [] | Some ts \<Rightarrow> ts),
          sm_inject_count = length injects1,
          sm_branch_count = length (filter (\<lambda>n. 1 < length (in_options n)) injects1),
          sm_created_by = sc_created_by sc, sm_created_at = isoformat (sc_created_at sc),
          sm_updated_at = isoformat (sc_updated_at sc)\<rparr>)"

definition scenario_detail_of :: "scenario \<Rightarrow> scenario_detail" where
  "scenario_detail_of sc =
     scenario_listing.extend (scenario_summary_of sc) \<lparr>sm_definition = sc_definition sc\<rparr>"

section \<open>Guards\<close>

definition scenario_or_404 :: "database \<Rightarrow> int \<Rightarrow> exn + scenario" where
  "scenario_or_404 d scenario_id =
     (case get_scenario d scenario_id of
        None \<Rightarrow> Inl (HTTPException 404 ''Scenario not found'') | Some sc \<Rightarrow> Inr sc)"

definition posted_definition :: "scenario_definition \<Rightarrow> exn + scenario_definition" where
  "posted_definition body =
     (case model_validate body of Inl e \<Rightarrow> Inl (HTTPException 422 e) | Inr d \<Rightarrow> Inr d)"

definition scenario_in_use :: "database \<Rightarrow> int \<Rightarrow> bool" where
  "scenario_in_use d scenario_id \<longleftrightarrow> (\<exists>ex\<in>set (exercises d). ex_scenario_id ex = scenario_id)"

definition delete_guard :: "int \<Rightarrow> current_user \<Rightarrow> database \<Rightarrow> exn + scenario" where
  "delete_guard scenario_id u d =
     and_then (require_role [Facilitator] u) (\<lambda>_.
     and_then (scenario_or_404 d scenario_id) (\<lambda>sc.
       if scenario_in_use d scenario_id
       then Inl (HTTPException 409 ''Scenario is in use by one or more exercises'')
       else Inr sc))"

section \<open>Routes\<close>

definition list_scenarios :: "current_user \<Rightarrow> database \<Rightarrow> exn + scenario_listing list" where
  "list_scenarios u d =
     and_then (require_role [Facilitator] u) (\<lambda>_. Inr (map scenario_summary_of (scenarios d)))"

definition create_route ::
  "scenario_definition \<Rightarrow> current_user \<Rightarrow> instant \<Rightarrow> session \<Rightarrow> (exn + scenario_detail) \<times> session" where
  "create_route body u now s =
     guarded (and_then (require_role [Facilitator] u) (\<lambda>_. posted_definition body))
       (\<lambda>d s. answered (create_scenario d (u_id u) now s) (\<lambda>sc _. Inr (scenario_detail_of sc))) s"

text \<open>\<^verbatim>\<open>POST /scenarios/import\<close> wraps the document in a body of one field.\<close>

record import_body =
  ib_definition :: scenario_definition

definition import_scenario ::
  "import_body \<Rightarrow> current_user \<Rightarrow> instant \<Rightarrow> session \<Rightarrow> (exn + scenario_detail) \<times> session" where
  "import_scenario body u now s =
     guarded (and_then (require_role [Facilitator] u) (\<lambda>_. posted_definition (ib_definition body)))
       (\<lambda>d s. answered (create_scenario d (u_id u) now s) (\<lambda>sc _. Inr (scenario_detail_of sc))) s"

definition read_scenario :: "int \<Rightarrow> current_user \<Rightarrow> database \<Rightarrow> exn + scenario_detail" where
  "read_scenario scenario_id u d =
     and_then (require_role [Facilitator] u) (\<lambda>_.
     and_then (scenario_or_404 d scenario_id) (\<lambda>sc. Inr (scenario_detail_of sc)))"

definition update_guard ::
  "int \<Rightarrow> scenario_definition \<Rightarrow> current_user \<Rightarrow> database \<Rightarrow> exn + scenario \<times> scenario_definition" where
  "update_guard scenario_id body u d =
     and_then (require_role [Facilitator] u) (\<lambda>_.
     and_then (posted_definition body) (\<lambda>def1.
     and_then (scenario_or_404 d scenario_id) (\<lambda>sc. Inr (sc, def1))))"

definition update_route ::
  "int \<Rightarrow> scenario_definition \<Rightarrow> current_user \<Rightarrow> instant \<Rightarrow> session \<Rightarrow>
     (exn + scenario_detail) \<times> session" where
  "update_route scenario_id body u now s =
     guarded (update_guard scenario_id body u (db s))
       (\<lambda>(sc, d) s. answered (update_scenario sc d (Some (u_id u)) now s)
                      (\<lambda>sc _. Inr (scenario_detail_of sc))) s"

definition delete_route :: "int \<Rightarrow> current_user \<Rightarrow> session \<Rightarrow> (exn + unit) \<times> session" where
  "delete_route scenario_id u s =
     guarded (delete_guard scenario_id u (db s))
       (\<lambda>sc s. (Inr (), commit (execute
          (\<lambda>t. t\<lparr>scenarios := filter (\<lambda>r. sc_id r \<noteq> sc_id sc) (scenarios t)\<rparr>) s))) s"

text \<open>\<^verbatim>\<open>re.sub(r"[^\w\-]", "_", title.lower())\<close> on the code points below 256:
  the letters, digits and numbers of Latin-1, the underscore and the hyphen are kept.\<close>

definition word_char :: "char \<Rightarrow> bool" where
  "word_char c =
     (let n = (of_char c :: nat)
      in 48 \<le> n \<and> n \<le> 57 \<or> 65 \<le> n \<and> n \<le> 90 \<or> n = 95 \<or> 97 \<le> n \<and> n \<le> 122 \<or>
         n \<in> {170, 178, 179, 181, 185, 186, 188, 189, 190} \<or>
         192 \<le> n \<and> n \<noteq> 215 \<and> n \<noteq> 247)"

definition export_filename :: "string \<Rightarrow> string" where
  "export_filename title =
     map (\<lambda>c. if word_char c \<or> c = CHR ''-'' then c else CHR ''_'') (map latin_lower title) @ ''.json''"

definition export_route ::
  "int \<Rightarrow> current_user \<Rightarrow> database \<Rightarrow> exn + scenario_definition \<times> string" where
  "export_route scenario_id u d =
     and_then (require_role [Facilitator] u) (\<lambda>_.
     and_then (scenario_or_404 d scenario_id) (\<lambda>sc.
     and_then (export_definition sc) (\<lambda>definition.
       Inr (definition, export_filename (sc_title sc)))))"

text \<open>The verdict and, when it is negative, the text of the exception.\<close>

definition validate_route ::
  "int \<Rightarrow> current_user \<Rightarrow> database \<Rightarrow> exn + bool \<times> string option" where
  "validate_route scenario_id u d =
     and_then (require_role [Facilitator] u) (\<lambda>_.
     and_then (scenario_or_404 d scenario_id) (\<lambda>sc.
       case parse_definition (sc_definition sc) of
         Inr _ \<Rightarrow> Inr (True, None)
       | Inl (ValidationError e) \<Rightarrow> Inr (False, Some e)
       | Inl (ValueError e) \<Rightarrow> Inr (False, Some e)
       | Inl e \<Rightarrow> Inl e))"

section \<open>A run of the library\<close>

text \<open>The requests that write, each answered on the session the last one left.\<close>

datatype library_request =
    CreateScenario scenario_definition current_user instant
  | ImportScenario import_body current_user instant
  | UpdateScenario int scenario_definition current_user instant
  | DeleteScenario int current_user

fun serve_library :: "library_request \<Rightarrow> session \<Rightarrow> session" where
  "serve_library (CreateScenario body u now) s = snd (create_route body u now s)"
| "serve_library (ImportScenario body u now) s = snd (import_scenario body u now s)"
| "serve_library (UpdateScenario i body u now) s = snd (update_route i body u now s)"
| "serve_library (DeleteScenario i u) s = snd (delete_route i u s)"

section \<open>Lemmas\<close>

text \<open>The foreign key of \<^verbatim>\<open>Exercise.scenario_id\<close>.\<close>

definition scenarios_present :: "database \<Rightarrow> bool" where
  "scenarios_present d \<longleftrightarrow> (\<forall>ex\<in>set (exercises d). get_scenario d (ex_scenario_id ex) \<noteq> None)"

text \<open>What every write of the library keeps.\<close>

definition exercises_spared :: "database \<Rightarrow> database \<Rightarrow> bool" where
  "exercises_spared d d' \<longleftrightarrow>
     exercises d' = exercises d \<and> snapshots d' = snapshots d \<and>
     (\<forall>ex\<in>set (exercises d). get_scenario d' (ex_scenario_id ex) = get_scenario d (ex_scenario_id ex))"

lemma exercises_spared_refl: "exercises_spared d d"
  by (simp add: exercises_spared_def)

lemma exercises_spared_trans:
  "exercises_spared a b \<Longrightarrow> exercises_spared b c \<Longrightarrow> exercises_spared a c"
  by (simp add: exercises_spared_def)

lemma spared_present: "exercises_spared d d' \<Longrightarrow> scenarios_present d \<Longrightarrow> scenarios_present d'"
  by (simp add: exercises_spared_def scenarios_present_def)

lemma spared_definition:
  assumes "exercises_spared d d'"
  shows "definition_for_exercise d' i = definition_for_exercise d i"
proof -
  have reads: "get_exercise d' i = get_exercise d i" "get_snapshot d' = get_snapshot d"
    using assms by (simp_all add: exercises_spared_def get_defs fun_eq_iff)
  show ?thesis
  proof (cases "get_exercise d i")
    case (Some ex)
    then have "ex \<in> set (exercises d)" by (auto simp: get_exercise_def dest: get_row_Some)
    then have same: "get_scenario d' (ex_scenario_id ex) = get_scenario d (ex_scenario_id ex)"
      using assms by (simp add: exercises_spared_def)
    then have eqs: "launch_definition_for_exercise d' ex = launch_definition_for_exercise d ex"
      "get_scenario_definition d' (Some (ex_scenario_id ex)) =
        get_scenario_definition d (Some (ex_scenario_id ex))"
      unfolding launch_definition_for_exercise_def get_scenario_definition_def reads by (simp_all add: same)
    show ?thesis unfolding definition_for_exercise_def reads Some by (simp add: eqs cong: sum.case_cong option.case_cong)
  qed (simp add: definition_for_exercise_def reads)
qed

lemma create_scenario_spares:
  assumes "scenarios_present (db s)"
  shows "exercises_spared (db s) (db (snd (create_scenario d u now s)))"
  using assms
  by (auto simp: create_scenario_def exercises_spared_def scenarios_present_def get_scenario_def
      get_row_append Let_def split: option.splits)

lemma update_scenario_spares:
  assumes "scenarios_present (db s)"
  shows "exercises_spared (db s) (db (snd (update_scenario sc d u now s)))"
proof (cases "get_scenario (db s) (sc_id sc)")
  case None
  then show ?thesis by (simp add: update_scenario_def exercises_spared_refl)
next
  case (Some sc0)
  then have id: "sc_id sc0 = sc_id sc" by (auto simp: get_scenario_def dest: get_row_Some)
  show ?thesis
  proof (cases "\<exists>ex\<in>set (exercises (db s)). ex_scenario_id ex = sc_id sc0")
    case True
    then show ?thesis
      using Some create_scenario_spares [OF assms] by (simp add: update_scenario_def)
  next
    case False
    then show ?thesis
      using Some id
      by (auto simp: update_scenario_def exercises_spared_def get_scenario_def Let_def
          intro!: get_row_update_other)
  qed
qed

lemma get_row_filter_other:
  "k \<noteq> j \<Longrightarrow> get_row idf k (filter (\<lambda>r. idf r \<noteq> j) rows) = get_row idf k rows"
  by (induction rows) (auto simp: table_simps)

lemma serve_library_spares:
  assumes "scenarios_present (db s)"
  shows "exercises_spared (db s) (db (serve_library r s))"
proof (cases r)
  case (CreateScenario body u now)
  then show ?thesis
    using create_scenario_spares [OF assms]
    by (simp add: create_route_def guarded_def exercises_spared_refl split: sum.split)
next
  case (ImportScenario body u now)
  then show ?thesis
    using create_scenario_spares [OF assms]
    by (simp add: import_scenario_def guarded_def exercises_spared_refl split: sum.split)
next
  case (UpdateScenario i body u now)
  then show ?thesis
    using update_scenario_spares [OF assms]
    by (simp add: update_route_def guarded_def exercises_spared_refl split: sum.split prod.split)
next
  case (DeleteScenario i u)
  show ?thesis
  proof (cases "delete_guard i u (db s)")
    case (Inl e)
    then show ?thesis using DeleteScenario by (simp add: delete_route_def exercises_spared_refl)
  next
    case (Inr sc)
    then have "\<not> scenario_in_use (db s) i" "sc_id sc = i"
      by (auto simp: delete_guard_def scenario_or_404_def get_scenario_def
          split: option.splits if_splits dest: get_row_Some)
    then show ?thesis
      using Inr DeleteScenario
      by (auto simp: delete_route_def exercises_spared_def scenario_in_use_def get_scenario_def
          intro!: get_row_filter_other)
  qed
qed

lemma library_spares:
  "scenarios_present (db s) \<Longrightarrow> exercises_spared (db s) (db (fold serve_library rs s))"
proof (induction rs arbitrary: s)
  case (Cons r rs)
  note step = serve_library_spares [OF Cons.prems]
  show ?case
    using exercises_spared_trans [OF step Cons.IH [OF spared_present [OF step Cons.prems]]] by simp
qed (simp add: exercises_spared_refl)

section \<open>Properties\<close>

text \<open>C28: whatever facilitators create, import, edit and delete in the scenario library, in any
  order, no exercise changes the scenario it runs on: the definition read for every exercise is
  the same after the run as before, for a launched exercise and for one that was only prepared,
  and no exercise is left pointing at a deleted scenario.\<close>

theorem library_spares_exercises:
  assumes "scenarios_present (db s)"
  shows "definition_for_exercise (db (fold serve_library rs s)) i = definition_for_exercise (db s) i \<and>
    scenarios_present (db (fold serve_library rs s)) \<and>
    exercises (db (fold serve_library rs s)) = exercises (db s)"
proof -
  note spared = library_spares [OF assms, of rs]
  have "exercises (db (fold serve_library rs s)) = exercises (db s)"
    using spared by (simp add: exercises_spared_def)
  with spared_definition [OF spared] spared_present [OF spared assms] show ?thesis by blast
qed

definition demo_edits :: "library_request list" where
  "demo_edits =
     (let u = plain_user (demo_user 10 Facilitator None)
      in [UpdateScenario 1 (demo_definition\<lparr>sd_injects := [demo_node ''a'' [] [] []]\<rparr>) u 5,
          DeleteScenario 1 u, ImportScenario \<lparr>ib_definition = demo_definition\<rparr> u 6])"

theorem library_spares_exercises_witness:
  "definition_for_exercise (db (fold serve_library demo_edits (demo_session demo_draft_db))) 1 =
     Inr (Some demo_definition)"
proof -
  have "scenarios_present (db (demo_session demo_draft_db))" by code_simp
  moreover have "definition_for_exercise demo_draft_db 1 = Inr (Some demo_definition)" by code_simp
  ultimately show ?thesis by (simp add: library_spares_exercises)
qed

end
