(* ===== verification/Samples.thy ===== *)
theory Samples
  imports Scenario_Api Exercise_Api Egress
begin

text \<open>
  The sample scenarios shipped with the program (\<^verbatim>\<open>app/services/sample_service.py\<close>) and
  their routes (\<^verbatim>\<open>app/routers/settings.py\<close>).

  The directory of samples is an argument: the documents of its JSON files that are regular files
  inside it, under their stems and in the order of their paths.
\<close>

section \<open>The samples\<close>

type_synonym sample_files = "(string \<times> scenario_definition) list"

text \<open>\<^verbatim>\<open>SAMPLE_ID_RE.match\<close>; the dollar sign also matches before a final newline.\<close>

definition sample_char :: "char \<Rightarrow> bool" where
  "sample_char c \<longleftrightarrow> ascii_digit c \<or> ascii_letter c \<or> c = CHR ''_'' \<or> c = CHR ''-''"

definition sample_id_ok :: "string \<Rightarrow> bool" where
  "sample_id_ok s =
     (let stem = (if s \<noteq> [] \<and> last s = CHR 0x0A then butlast s else s)
      in stem \<noteq> [] \<and> list_all sample_char stem)"

definition parse_sample :: "scenario_definition \<Rightarrow> exn + scenario_definition" where
  "parse_sample d = (case model_validate d of Inl e \<Rightarrow> Inl (ValidationError e) | Inr v \<Rightarrow> Inr v)"

definition list_sample_definitions :: "sample_files \<Rightarrow> exn + (string \<times> scenario_definition) list" where
  "list_sample_definitions files =
     map_checked (\<lambda>(stem, d). and_then (parse_sample d) (\<lambda>v. Inr (stem, v))) files"

definition get_sample_definition :: "sample_files \<Rightarrow> string \<Rightarrow> exn + scenario_definition option" where
  "get_sample_definition files sample_id =
     (if \<not> sample_id_ok sample_id then Inr None
      else case map_of files sample_id of
             None \<Rightarrow> Inr None
           | Some d \<Rightarrow> and_then (parse_sample d) (\<lambda>v. Inr (Some v)))"

record sample_listing =
  sp_id :: string
  sp_title :: string
  sp_description :: "string option"
  sp_tags :: "string list"
  sp_inject_count :: nat
  sp_team_count :: nat
  sp_estimated_duration_minutes :: "int option"

definition sample_summary :: "string \<Rightarrow> scenario_definition \<Rightarrow> sample_listing" where
  "sample_summary sample_id d =
     \<lparr>sp_id = sample_id, sp_title = sd_title d, sp_description = sd_description d, sp_tags = sd_tags d,
      sp_inject_count = length (sd_injects d), sp_team_count = length (sd_participant_teams d),
      sp_estimated_duration_minutes = sm_estimated_duration_minutes (sd_metadata d)\<rparr>"

text \<open>The \<^verbatim>\<open>FileNotFoundError\<close> of an unknown sample is \<open>None\<close>; the scenario
  comes with whether it is new.  The stored column is the JSON text of the definition, so equal text
  is an equal definition.\<close>

definition load_sample_scenario ::
  "sample_files \<Rightarrow> string \<Rightarrow> int \<Rightarrow> instant \<Rightarrow> session \<Rightarrow> (exn + (scenario \<times> bool) option) \<times> session" where
  "load_sample_scenario files sample_id created_by now s =
     (case get_sample_definition files sample_id of
        Inl e \<Rightarrow> (Inl e, s)
      | Inr None \<Rightarrow> (Inr None, s)
      | Inr (Some d) \<Rightarrow>
          (case find (\<lambda>sc. sc_definition sc = d) (scenarios (db s)) of
             Some sc \<Rightarrow> (Inr (Some (sc, False)), s)
           | None \<Rightarrow>
               (case create_scenario d created_by now s of
                  (Inl e, s1) \<Rightarrow> (Inl e, s1)
                | (Inr sc, s1) \<Rightarrow> (Inr (Some (sc, True)), s1))))"

section \<open>A demonstration exercise\<close>

text \<open>The steps after the scenario is there, each with its own commit.\<close>

definition transition_state ::
  "(string \<Rightarrow> string) \<Rightarrow> file_reader \<Rightarrow> exercise \<Rightarrow> exercise_state \<Rightarrow> int option \<Rightarrow> instant \<Rightarrow>
     session \<Rightarrow> (exn + exercise) \<times> session" where
  "transition_state sha256 read_file ex new_state actor_id now s =
     (case transition_state_with_history sha256 read_file ex new_state actor_id now s of
        (Inl e, s1) \<Rightarrow> (Inl e, s1) | (Inr (ex1, _, _), s1) \<Rightarrow> (Inr ex1, s1))"

definition demo_start_inject :: "exercise \<Rightarrow> string option \<Rightarrow> database \<Rightarrow> inject option" where
  "demo_start_inject ex demo_group d =
     find (\<lambda>i. inject_matches_group i demo_group None)
       (sort_key (\<lambda>i. (ij_sequence_order i, ij_id i))
          (filter (\<lambda>i. ij_exercise_id i = ex_id ex \<and> ij_scenario_node_id i = ex_current_node_id ex) (injects d)))"

definition release_demo_start ::
  "exercise \<Rightarrow> string option \<Rightarrow> int \<Rightarrow> instant \<Rightarrow> session \<Rightarrow> (exn + exercise) \<times> session" where
  "release_demo_start ex demo_group created_by now s =
     (case demo_start_inject ex demo_group (db s) of
        None \<Rightarrow> (Inr ex, s)
      | Some i \<Rightarrow>
          (case release_inject i (Some created_by) False now s of
             (Inl e, s1) \<Rightarrow> (Inl e, s1) | (Inr _, s1) \<Rightarrow> (Inr ex, s1)))"

definition start_demo ::
  "(string \<Rightarrow> string) \<Rightarrow> file_reader \<Rightarrow> exercise \<Rightarrow> string option \<Rightarrow> int \<Rightarrow> instant \<Rightarrow> session \<Rightarrow>
     (exn + exercise) \<times> session" where
  "start_demo sha256 read_file ex0 demo_group created_by now s =
     (case transition_state sha256 read_file ex0 Active None now s of
        (Inl e, s1) \<Rightarrow> (Inl e, s1)
      | (Inr ex, s1) \<Rightarrow>
          (case schedule_exercise_injects ex now (db s1) of
             Inl e \<Rightarrow> (Inl e, rollback s1)
           | Inr d \<Rightarrow> release_demo_start ex demo_group created_by now (commit (execute (\<lambda>_. d) s1))))"

definition play_as_participant :: "exercise_member \<Rightarrow> database \<Rightarrow> database" where
  "play_as_participant m d =
     d\<lparr>members := update_where (\<lambda>r. em_id r = em_id m) (\<lambda>r. r\<lparr>em_role_at_enrolment := Participant\<rparr>) (members d)\<rparr>"

definition create_demo ::
  "(string \<Rightarrow> string) \<Rightarrow> file_reader \<Rightarrow> scenario \<Rightarrow> scenario_definition \<Rightarrow> int \<Rightarrow> instant \<Rightarrow> session \<Rightarrow>
     (exn + exercise) \<times> session" where
  "create_demo sha256 read_file sc d created_by now s =
     (case create_exercise (sc_id sc) (''Demo: '' @ sc_title sc) created_by False now s of
        (Inl e, s1) \<Rightarrow> (Inl e, s1)
      | (Inr ex, s1) \<Rightarrow>
          (let demo_group = (case sd_participant_teams d of [] \<Rightarrow> None | t # ts \<Rightarrow> Some (pt_id t))
           in case enrol_member ex created_by demo_group True now s1 of
                (Inl e, s2) \<Rightarrow> (Inl e, s2)
              | (Inr m, s2) \<Rightarrow>
                  start_demo sha256 read_file ex demo_group created_by now
                    (commit (execute (play_as_participant m) s2))))"

definition create_sample_demo_exercise ::
  "(string \<Rightarrow> string) \<Rightarrow> file_reader \<Rightarrow> sample_files \<Rightarrow> string \<Rightarrow> int \<Rightarrow> instant \<Rightarrow> session \<Rightarrow>
     (exn + (scenario \<times> exercise) option) \<times> session" where
  "create_sample_demo_exercise sha256 read_file files sample_id created_by now s =
     (case load_sample_scenario files sample_id created_by now s of
        (Inl e, s1) \<Rightarrow> (Inl e, s1)
      | (Inr None, s1) \<Rightarrow> (Inr None, s1)
      | (Inr (Some (sc, _)), s1) \<Rightarrow>
          (case get_sample_definition files sample_id of
             Inr (Some d) \<Rightarrow>
               (case create_demo sha256 read_file sc d created_by now s1 of
                  (Inl e, s2) \<Rightarrow> (Inl e, s2) | (Inr ex, s2) \<Rightarrow> (Inr (Some (sc, ex)), s2))
           | Inr None \<Rightarrow> (Inl AssertionError, s1)
           | Inl e \<Rightarrow> (Inl e, s1)))"

section \<open>Routes\<close>

definition sample_not_found :: exn where
  "sample_not_found = HTTPException 404 ''Sample scenario not found''"

definition list_sample_scenarios :: "sample_files \<Rightarrow> current_user \<Rightarrow> exn + sample_listing list" where
  "list_sample_scenarios files u =
     and_then (require_role [Facilitator] u) (\<lambda>_.
     and_then (list_sample_definitions files) (\<lambda>ds. Inr (map (\<lambda>(i, d). sample_summary i d) ds)))"

definition load_sample ::
  "sample_files \<Rightarrow> string \<Rightarrow> current_user \<Rightarrow> instant \<Rightarrow> session \<Rightarrow> (exn + bool \<times> scenario_detail) \<times> session" where
  "load_sample files sample_id u now s =
     guarded (require_role [Facilitator] u) (\<lambda>_ s.
       answered (load_sample_scenario files sample_id (u_id u) now s) (\<lambda>r _.
         case r of None \<Rightarrow> Inl sample_not_found
         | Some (sc, created) \<Rightarrow> Inr (created, scenario_detail_of sc))) s"

definition create_demo_exercise ::
  "(string \<Rightarrow> string) \<Rightarrow> file_reader \<Rightarrow> sample_files \<Rightarrow> string \<Rightarrow> current_user \<Rightarrow> instant \<Rightarrow> session \<Rightarrow>
     (exn + scenario_detail \<times> exercise_public) \<times> session" where
  "create_demo_exercise sha256 read_file files sample_id u now s =
     guarded (require_role [Facilitator] u) (\<lambda>_ s.
       answered (create_sample_demo_exercise sha256 read_file files sample_id (u_id u) now s) (\<lambda>r _.
         case r of None \<Rightarrow> Inl sample_not_found
         | Some (sc, ex) \<Rightarrow> Inr (scenario_detail_of sc, exercise_out ex None))) s"

section \<open>Lemmas\<close>

lemma sample_id_is_a_stem: "sample_id_ok s \<Longrightarrow> CHR ''/'' \<notin> set s \<and> CHR ''.'' \<notin> set s"
proof -
  assume ok: "sample_id_ok s"
  have "\<not> sample_char CHR ''/''" "\<not> sample_char CHR ''.''"
    by (simp_all add: sample_char_def ascii_digit_def ascii_letter_def)
  then have "CHR ''/'' \<notin> set t \<and> CHR ''.'' \<notin> set t" if "list_all sample_char t" for t
    using that by (auto simp: list_all_iff)
  from this [of s] this [of "butlast s"] show ?thesis
    using ok by (cases s rule: rev_cases) (auto simp: sample_id_ok_def Let_def split: if_splits)
qed

lemma load_sample_loaded:
  assumes "load_sample_scenario files sample_id created_by now s = (Inr (Some (sc, created)), s')"
  shows "exercises (db s') = exercises (db s) \<and> sequences (db s') TExercise = sequences (db s) TExercise \<and>
    find (\<lambda>r. sc_definition r = sc_definition sc) (scenarios (db s')) = Some sc \<and>
    get_sample_definition files sample_id = Inr (Some (sc_definition sc))"
proof -
  obtain d where d: "get_sample_definition files sample_id = Inr (Some d)"
    using assms by (auto simp: load_sample_scenario_def split: sum.splits option.splits)
  show ?thesis
  proof (cases "find (\<lambda>r. sc_definition r = d) (scenarios (db s))")
    case None
    have "find (\<lambda>r. sc_definition r = d) (xs @ [r]) = Some r"
      if "find (\<lambda>r. sc_definition r = d) xs = None" "sc_definition r = d" for xs and r :: scenario
      using that by (induction xs) (auto split: if_splits)
    then show ?thesis
      using assms d None
      by (auto simp: load_sample_scenario_def create_scenario_def bump_def Let_def)
  next
    case (Some r)
    then have "sc_definition r = d" by (auto simp: find_Some_iff)
    then show ?thesis using assms d Some by (auto simp: load_sample_scenario_def)
  qed
qed

lemma enrol_exercises:
  assumes "enrol_member ex0 i g True now s = (Inr m, s')"
  shows "exercises (db s') = exercises (db s)"
  using assms
  by (auto simp: enrol_member_def Let_def bump_def split: sum.splits option.splits if_splits)

lemma find_in_list: "find P xs = Some x \<Longrightarrow> x \<in> set xs \<and> P x"
  by (induction xs) (auto split: if_splits)

lemma find_released:
  assumes "demo_start_inject ex g d = Some i"
  shows "i \<in> set (injects d) \<and> ij_exercise_id i = ex_id ex \<and> ij_scenario_node_id i = ex_current_node_id ex \<and>
    inject_matches_group i g None"
  using find_in_list [OF assms [unfolded demo_start_inject_def]] by simp

text \<open>The start inject is out, for whoever of the exercise's group it was chosen.\<close>

definition start_is_out :: "exercise \<Rightarrow> string option \<Rightarrow> database \<Rightarrow> bool" where
  "start_is_out ex g d \<longleftrightarrow>
     (let start = (\<lambda>i. ij_exercise_id i = ex_id ex \<and> ij_scenario_node_id i = ex_current_node_id ex \<and>
                       inject_matches_group i g None)
      in (\<exists>i\<in>set (injects d). start i) \<longrightarrow> (\<exists>i\<in>set (injects d). start i \<and> ij_state i \<noteq> Pending))"

lemma release_demo_start_Inr:
  assumes "release_demo_start ex g created_by now s = (Inr ex1, s')" and "committed s = db s"
  shows "ex1 = ex \<and> exercises (committed s') = exercises (committed s) \<and> start_is_out ex g (committed s')"
proof (cases "demo_start_inject ex g (db s)")
  case None
  then have "ex1 = ex \<and> s' = s" using assms(1) by (simp add: release_demo_start_def)
  moreover have "start_is_out ex g (db s)"
    using None by (auto simp: start_is_out_def demo_start_inject_def find_None_iff Let_def)
  ultimately show ?thesis using assms(2) by simp
next
  case (Some i)
  note i = find_released [OF Some]
  obtain ij where rel: "release_inject i (Some created_by) False now s = (Inr ij, s')" and ex1: "ex1 = ex"
    using assms(1) Some by (auto simp: release_demo_start_def split: sum.splits prod.splits)
  obtain d4 where enq: "enqueued (released_db i (Some created_by) now (db s)) d4"
      and s': "s' = dispatch (commit ((execute (\<lambda>_. d4) s)
        \<lparr>pending := pending s @ [InjectReleased (ij_exercise_id i) (ij_id i)]\<rparr>))"
    using rel by (rule release_inject_Inr)
  have c: "committed s' = d4" by (simp add: s')
  note same = enqueued_frame [OF enq]
  let ?i = "if ij_state i = Pending
    then i\<lparr>ij_state := Released, ij_released_at := Some now, ij_released_by := Some created_by\<rparr> else i"
  have "?i \<in> set (injects d4)" using same i by (force simp: update_where_def)
  moreover have "ij_state ?i \<noteq> Pending" by simp
  moreover have "ij_exercise_id ?i = ex_id ex \<and> ij_scenario_node_id ?i = ex_current_node_id ex \<and>
      inject_matches_group ?i g None"
    using i by (simp add: inject_matches_group_def)
  ultimately have "start_is_out ex g d4" unfolding start_is_out_def Let_def by blast
  then show ?thesis using same assms(2) ex1 by (simp add: c)
qed

lemma start_demo_Inr:
  assumes run: "start_demo sha256 read_file ex0 g created_by now s = (Inr ex, s')"
    and row: "get_exercise (db s) (ex_id ex0) = Some ex0"
  shows "get_exercise (committed s') (ex_id ex) = Some ex \<and> ex_id ex = ex_id ex0 \<and> ex_state ex = Active \<and>
    ex_started_at ex \<noteq> None \<and> start_is_out ex g (committed s')"
proof -
  obtain ex1 t action s1 d where tr: "transition_state_with_history sha256 read_file ex0 Active None now s =
        (Inr (ex1, t, action), s1)"
      and sch: "schedule_exercise_injects ex1 now (db s1) = Inr d"
      and rel: "release_demo_start ex1 g created_by now (commit (execute (\<lambda>_. d) s1)) = (Inr ex, s')"
    using run by (auto simp: start_demo_def transition_state_def split: sum.splits prod.splits)
  note r = transition_row [OF tr row]
  have "committed (commit (execute (\<lambda>_. d) s1)) = db (commit (execute (\<lambda>_. d) s1))" by simp
  note out = release_demo_start_Inr [OF rel this]
  have "exercises d = exercises (db s1)" using enqueued_frame [OF schedule_exercise_enqueued [OF sch]] by simp
  then have "get_exercise (committed s') (ex_id ex0) = Some ex1"
    using r(1) out by (simp add: get_exercise_def)
  then show ?thesis using r out by simp
qed

section \<open>Properties\<close>

text \<open>Loading a sample twice loads it once.  After a sample has been loaded, loading it again,
  whoever asks and whenever, answers with the same row, says it is not new and changes nothing.\<close>

lemma sample_loads_once:
  assumes "load_sample_scenario files sample_id created_by now s = (Inr (Some (sc, created)), s1)"
  shows "load_sample_scenario files sample_id created_by' now' s1 = (Inr (Some (sc, False)), s1)"
  using load_sample_loaded [OF assms] by (auto simp: load_sample_scenario_def)

definition demo_samples :: sample_files where
  "demo_samples =
     [(''demo'', \<lparr>sd_schema_version = ''1.0'', sd_title = ''T'', sd_description = None, sd_tags = [],
         sd_metadata = \<lparr>sm_author = None, sm_estimated_duration_minutes = None\<rparr>, sd_participant_teams = [],
         sd_injects = [\<lparr>in_id = ''a'', in_title = ''A'', in_content = ''c'', in_target_teams = [],
           in_sequence_order = 0, in_next_inject_id = None, in_options = [], in_free_text_response = True,
           in_triggers_communications = [], in_expected_actions = [], in_release_at_minutes = None\<rparr>],
         sd_start_inject_id = ''a'', sd_debrief_notes = None\<rparr>)]"

definition demo_library :: session where
  "demo_library = demo_session (empty_database\<lparr>users := [demo_user 10 Facilitator None]\<rparr>)"

lemma sample_loads_once_witness:
  "\<exists>sc s1. load_sample_scenario demo_samples ''demo'' 10 5 demo_library = (Inr (Some (sc, True)), s1) \<and>
     load_sample_scenario demo_samples ''demo'' 11 6 s1 = (Inr (Some (sc, False)), s1)"
proof -
  let ?r = "load_sample_scenario demo_samples ''demo'' 10 5 demo_library"
  have "(case fst ?r of Inr (Some (_, True)) \<Rightarrow> True | _ \<Rightarrow> False)" by code_simp
  then obtain sc s1 where run: "?r = (Inr (Some (sc, True)), s1)"
    by (cases ?r) (auto split: sum.splits prod.splits bool.splits option.splits)
  show ?thesis using run sample_loads_once [OF run] by blast
qed

text \<open>A sample demonstration is running when it is handed over.  The exercise the call answers
  with is the stored row, it is active and its clock has started, and if the demonstrator's team has
  a copy of the start inject, one such copy is released.\<close>

lemma sample_demo_is_running:
  assumes run: "create_sample_demo_exercise sha256 read_file files sample_id created_by now s = (Inr (Some (sc, ex)), s')"
    and fresh: "\<forall>x\<in>set (exercises (db s)). ex_id x < sequences (db s) TExercise"
  shows "get_exercise (committed s') (ex_id ex) = Some ex \<and> ex_state ex = Active \<and> ex_started_at ex \<noteq> None \<and>
    start_is_out ex (case sd_participant_teams (sc_definition sc) of [] \<Rightarrow> None | t # ts \<Rightarrow> Some (pt_id t)) (committed s')"
proof -
  obtain created s1 where load: "load_sample_scenario files sample_id created_by now s = (Inr (Some (sc, created)), s1)"
      and demo: "create_demo sha256 read_file sc (sc_definition sc) created_by now s1 = (Inr ex, s')"
    using run load_sample_loaded
    by (fastforce simp: create_sample_demo_exercise_def split: sum.splits prod.splits option.splits)
  note l = load_sample_loaded [OF load]
  let ?g = "case sd_participant_teams (sc_definition sc) of [] \<Rightarrow> None | t # ts \<Rightarrow> Some (pt_id t)"
  obtain ex0 s2 m s3 where create: "create_exercise (sc_id sc) (''Demo: '' @ sc_title sc) created_by False now s1 = (Inr ex0, s2)"
      and enrol: "enrol_member ex0 created_by ?g True now s2 = (Inr m, s3)"
      and start: "start_demo sha256 read_file ex0 ?g created_by now
        (commit (execute (play_as_participant m) s3)) = (Inr ex, s')"
    using demo by (auto simp: create_demo_def Let_def split: sum.splits prod.splits)
  note c = create_exercise_Inr [OF create]
  have "get_exercise (db s2) (ex_id ex0) = Some ex0"
  proof -
    have "get_row ex_id (ex_id ex0) (exercises (db s)) = None" using c l fresh by (auto simp: get_row_None)
    then show ?thesis using c l by (simp add: get_exercise_def get_row_append table_simps)
  qed
  then have "get_exercise (db (commit (execute (play_as_participant m) s3))) (ex_id ex0) = Some ex0"
    using enrol_exercises [OF enrol] by (simp add: get_exercise_def play_as_participant_def)
  from start_demo_Inr [OF start this] show ?thesis by blast
qed

lemma sample_demo_is_running_witness:
  "\<exists>sc ex s'. create_sample_demo_exercise (\<lambda>b. ''d'') (\<lambda>p. None) demo_samples ''demo'' 10 5 demo_library =
      (Inr (Some (sc, ex)), s') \<and> get_exercise (committed s') (ex_id ex) = Some ex \<and> ex_state ex = Active \<and>
     start_is_out ex (case sd_participant_teams (sc_definition sc) of [] \<Rightarrow> None | t # ts \<Rightarrow> Some (pt_id t)) (committed s')"
proof -
  let ?r = "create_sample_demo_exercise (\<lambda>b. ''d'') (\<lambda>p. None) demo_samples ''demo'' 10 5 demo_library"
  have "(case fst ?r of Inr (Some _) \<Rightarrow> True | _ \<Rightarrow> False)" by code_simp
  then obtain sc ex s' where run: "?r = (Inr (Some (sc, ex)), s')"
    by (cases ?r) (auto split: sum.splits prod.splits option.splits)
  have fresh: "\<forall>x\<in>set (exercises (db demo_library)). ex_id x < sequences (db demo_library) TExercise"
    by (simp add: demo_library_def demo_session_def open_session_def empty_database_def)
  show ?thesis using run sample_demo_is_running [OF run fresh] by blast
qed

end
