(* ===== verification/Http_Stack.thy ===== *)
theory Http_Stack
  imports Middleware Audit_Log
begin

text \<open>
  How the server wraps a request: the three ASGI layers of \<^verbatim>\<open>app/middleware.py\<close> and
  the three exception handlers of \<^verbatim>\<open>app/main.py\<close>, in the order they are added.

  An application maps the audit context and the request to an outcome (a whole response, or the
  exception it raised) and the events it emitted, each with the context of the moment.  Starlette
  runs the handler registered for \<^verbatim>\<open>Exception\<close> in its
  \<^verbatim>\<open>ServerErrorMiddleware\<close>, outside the layers the application adds, and every other
  handler inside them; \<^verbatim>\<open>SessionMiddleware\<close> and the router with its routes are
  parameters.  Content lengths are left out.
\<close>

section \<open>Requests, outcomes and applications\<close>

record web_request = http_request +
  wr_scope :: string
  wr_request_id :: "string option"
  wr_client :: "string option"

text \<open>A validation error is the list of its entries.\<close>

type_synonym validation_error = "(string \<times> string) list"

datatype failure =
    Redirected string
  | Unprocessable "validation_error list"
  | Refused int string
  | Crashed string

datatype 'b payload = Detail string | Errors "validation_error list" | Content 'b

datatype 'b outcome = Answer int "(string \<times> string) list" "'b payload" | Raised failure

type_synonym 'b app = "request_context \<Rightarrow> web_request \<Rightarrow> 'b outcome \<times> (request_context \<times> audit_call) list"

definition JSON_TYPE :: "string \<times> string" where
  "JSON_TYPE = (''content-type'', ''application/json'')"

definition json_response :: "int \<Rightarrow> 'b payload \<Rightarrow> 'b outcome" where
  "json_response status body = Answer status [JSON_TYPE] body"

definition redirect_response :: "string \<Rightarrow> 'b outcome" where
  "redirect_response url = Answer 307 [(''location'', url)] (Detail [])"

text \<open>Headers added to a response on its way out; an exception passes.\<close>

fun map_headers :: "((string \<times> string) list \<Rightarrow> (string \<times> string) list) \<Rightarrow> 'b outcome \<Rightarrow> 'b outcome" where
  "map_headers f (Answer status hs body) = Answer status (f hs) body"
| "map_headers f (Raised e) = Raised e"

section \<open>The layers\<close>

definition client_ip :: "web_request \<Rightarrow> string option" where
  "client_ip r = wr_client r"

definition request_id :: "string \<Rightarrow> web_request \<Rightarrow> string" where
  "request_id new_id r = (if truthy (wr_request_id r) then the (wr_request_id r) else new_id)"

definition context_of :: "string \<Rightarrow> web_request \<Rightarrow> request_context" where
  "context_of new_id r =
     \<lparr>rc_request_id = Some (request_id new_id r), rc_source_ip = client_ip r,
      rc_method = Some (hr_method r), rc_path = Some (hr_path r)\<rparr>"

definition audit_context :: "string \<Rightarrow> 'b app \<Rightarrow> 'b app" where
  "audit_context new_id app ctx r =
     (if wr_scope r \<noteq> ''http'' then app ctx r
      else let (res, events) = app (context_of new_id r) r
           in (map_headers (\<lambda>hs. hs @ [(''X-Request-ID'', request_id new_id r)]) res, events))"

definition security_headers :: "bool \<Rightarrow> 'b app \<Rightarrow> 'b app" where
  "security_headers dev_mode app ctx r =
     (if wr_scope r \<noteq> ''http'' then app ctx r
      else let (res, events) = app ctx r in (map_headers (secured dev_mode) res, events))"

definition csrf_blocked :: audit_call where
  "csrf_blocked =
     \<lparr>al_action = ''csrf.blocked'', al_result = ''deny'', al_actor = None, al_target_type = None,
      al_target_id = None, al_reason = Some ''origin check failed'', al_severity = ''warning'',
      al_security_relevant = True\<rparr>"

definition csrf_origin :: "string \<Rightarrow> 'b app \<Rightarrow> 'b app" where
  "csrf_origin trusted app ctx r =
     (if wr_scope r \<noteq> ''http'' then app ctx r
      else case csrf_check trusted (http_request.truncate r) of
             Inr _ \<Rightarrow> app ctx r
           | Inl (HTTPException code detail) \<Rightarrow> (json_response code (Detail detail), [(ctx, csrf_blocked)])
           | Inl (ValueError m) \<Rightarrow> (Raised (Crashed ''ValueError''), [])
           | Inl _ \<Rightarrow> (Raised (Crashed ''Exception''), []))"

section \<open>The exception handlers\<close>

definition ui_redirect_handler :: "string \<Rightarrow> 'b outcome" where
  "ui_redirect_handler url = redirect_response url"

definition request_validation_handler :: "validation_error list \<Rightarrow> 'b outcome" where
  "request_validation_handler errs =
     json_response 422 (Errors (map (filter (\<lambda>(key, value). key \<notin> {''input'', ''ctx''})) errs))"

definition app_error :: "string \<Rightarrow> audit_call" where
  "app_error name =
     \<lparr>al_action = ''app.error'', al_result = ''fail'', al_actor = None, al_target_type = None,
      al_target_id = None, al_reason = Some name, al_severity = ''critical'', al_security_relevant = True\<rparr>"

definition unhandled_exception_handler :: "string \<Rightarrow> 'b outcome \<times> audit_call" where
  "unhandled_exception_handler name =
     (json_response 500 (Detail ''An unexpected error occurred''), app_error name)"

fun handled :: "'b outcome \<Rightarrow> 'b outcome" where
  "handled (Raised (Redirected url)) = ui_redirect_handler url"
| "handled (Raised (Unprocessable errs)) = request_validation_handler errs"
| "handled (Raised (Refused code detail)) = json_response code (Detail detail)"
| "handled (Raised (Crashed name)) = Raised (Crashed name)"
| "handled (Answer status hs body) = Answer status hs body"

definition exceptions_inside :: "'b app \<Rightarrow> 'b app" where
  "exceptions_inside app ctx r = (let (res, events) = app ctx r in (handled res, events))"

definition server_errors :: "'b app \<Rightarrow> 'b app" where
  "server_errors app ctx r =
     (case app ctx r of
        (Raised (Crashed name), events) \<Rightarrow>
          (let (res, event) = unhandled_exception_handler name in (res, events @ [(ctx, event)]))
      | (res, events) \<Rightarrow> (res, events))"

text \<open>The stack of \<^verbatim>\<open>main.py\<close>.\<close>

definition http_stack :: "string \<Rightarrow> bool \<Rightarrow> string \<Rightarrow> ('b app \<Rightarrow> 'b app) \<Rightarrow> 'b app \<Rightarrow> 'b app" where
  "http_stack new_id dev_mode trusted session_mw app =
     server_errors (audit_context new_id (security_headers dev_mode (csrf_origin trusted
       (session_mw (exceptions_inside app)))))"

definition serve_http ::
  "string \<Rightarrow> bool \<Rightarrow> string \<Rightarrow> ('b app \<Rightarrow> 'b app) \<Rightarrow> 'b app \<Rightarrow> web_request \<Rightarrow>
     'b outcome \<times> (request_context \<times> audit_call) list" where
  "serve_http new_id dev_mode trusted session_mw app r =
     http_stack new_id dev_mode trusted session_mw app no_context r"

section \<open>Lemmas\<close>

lemma has_header_appended: "has_header n hs \<Longrightarrow> has_header n (hs @ more1)"
  by (auto simp: has_header_def)

lemma secured_has: "(n, v) \<in> set (build_security_headers dev) \<Longrightarrow> has_header n (secured dev hs)"
  unfolding secured_def by (rule has_header_fold) force

lemma secured_keeps: "p \<in> set hs \<Longrightarrow> p \<in> set (secured dev hs)"
proof -
  have "p \<in> set (fold (\<lambda>(name, value) hs. if has_header name hs then hs else hs @ [(name, value)]) ps hs)"
    if "p \<in> set hs" for ps using that by (induction ps arbitrary: hs) auto
  then show "p \<in> set hs \<Longrightarrow> p \<in> set (secured dev hs)" by (simp add: secured_def)
qed

definition dressed :: "bool \<Rightarrow> string \<Rightarrow> (string \<times> string) list \<Rightarrow> (string \<times> string) list" where
  "dressed dev_mode rid hs = secured dev_mode hs @ [(''X-Request-ID'', rid)]"

text \<open>What the two outer layers make of a response.\<close>

lemma serve_http_unfold:
  assumes "wr_scope r = ''http''"
    and "csrf_origin trusted (session_mw (exceptions_inside app)) (context_of new_id r) r = (res, events)"
  shows "serve_http new_id dev_mode trusted session_mw app r =
    (case res of Answer status hs body \<Rightarrow> (Answer status (dressed dev_mode (request_id new_id r) hs) body, events)
     | Raised (Crashed name) \<Rightarrow>
         (json_response 500 (Detail ''An unexpected error occurred''), events @ [(no_context, app_error name)])
     | Raised e \<Rightarrow> (Raised e, events))"
  using assms
  by (simp add: serve_http_def http_stack_def server_errors_def audit_context_def security_headers_def
      unhandled_exception_handler_def dressed_def split: outcome.split failure.split)

lemma truncated [simp]: "http_request.truncate (http_request.truncate r) = http_request.truncate r"
  by (simp add: http_request.defs)

text \<open>The 422 answer repeats no value the client sent.\<close>

lemma validation_answer_drops_input:
  "request_validation_handler errs = Answer 422 [JSON_TYPE] (Errors out) \<Longrightarrow>
     e \<in> set out \<Longrightarrow> (k, v) \<in> set e \<Longrightarrow> k \<noteq> ''input'' \<and> k \<noteq> ''ctx''"
  by (auto simp: request_validation_handler_def json_response_def)

text \<open>An unhandled exception: the answer carries neither a security header nor the request id, and
  its audit event names neither the request nor its source.\<close>

lemma crash_is_bare:
  assumes "wr_scope r = ''http''" and "csrf_check trusted (http_request.truncate r) = Inr ()"
    and "exceptions_inside app (context_of new_id r) r = (Raised (Crashed name), events)"
  shows "serve_http new_id dev_mode trusted id app r =
    (Answer 500 [JSON_TYPE] (Detail ''An unexpected error occurred''), events @ [(no_context, app_error name)])"
proof -
  have "csrf_origin trusted (id (exceptions_inside app)) (context_of new_id r) r = (Raised (Crashed name), events)"
    using assms by (simp add: csrf_origin_def)
  from serve_http_unfold [where app = app and session_mw = id, OF assms(1) this] show ?thesis by (simp add: json_response_def)
qed

text \<open>An origin urlparse refuses ends there as well: the check raises instead of refusing.\<close>

lemma bad_origin_crashes:
  "serve_http ''i'' False [] id app
     \<lparr>hr_method = ''POST'', hr_path = ''/api/exercises'', hr_host = Some ''ttx'', hr_origin = Some ''http://['',
      hr_referer = None, hr_authorization = None, hr_cookie = Some ''t'', wr_scope = ''http'',
      wr_request_id = None, wr_client = None\<rparr> =
   (Answer 500 [JSON_TYPE] (Detail ''An unexpected error occurred''), [(no_context, app_error ''ValueError'')])"
proof -
  let ?r = "\<lparr>hr_method = ''POST'', hr_path = ''/api/exercises'', hr_host = Some ''ttx'', hr_origin = Some ''http://['',
      hr_referer = None, hr_authorization = None, hr_cookie = Some ''t'', wr_scope = ''http'',
      wr_request_id = None, wr_client = None\<rparr>"
  have "csrf_check [] (http_request.truncate ?r) = Inl (ValueError ''Invalid IPv6 URL'')"
    by (simp add: http_request.defs) code_simp
  then have "csrf_origin [] (id (exceptions_inside app)) (context_of ''i'' ?r) ?r = (Raised (Crashed ''ValueError''), [])"
    by (simp add: csrf_origin_def)
  from serve_http_unfold [where app = app and session_mw = id, OF _ this] show ?thesis by (simp add: json_response_def)
qed

section \<open>Properties\<close>


definition forged_write :: web_request where
  "forged_write =
     \<lparr>hr_method = ''POST'', hr_path = ''/api/exercises'', hr_host = Some ''ttx.example.com'',
      hr_origin = Some ''https://evil.example.com'', hr_referer = None, hr_authorization = None,
      hr_cookie = Some ''t'', wr_scope = ''http'', wr_request_id = None, wr_client = Some ''203.0.113.9''\<rparr>"


end
