(* ===== verification/Pages.thy ===== *)
theory Pages
  imports Http_Stack Oidc_Settings Config_Sync
begin

text \<open>
  The server-rendered pages (\<^verbatim>\<open>app/routers/ui.py\<close>): the visitor behind the cookies,
  the guards, every page, and the routing of the paths.  A page is the name of its template and the
  values handed to it.

  The guards raise \<^verbatim>\<open>UIRedirect\<close>, the pages return redirects or templates; both are
  outcomes of \<open>Http_Stack\<close>.  Decoding a token is PyJWT's and reading a path parameter as an
  integer is pydantic's: parameters.  The router's redirect of a trailing slash is left out.
\<close>

section \<open>The visitor\<close>

record ui_claims =
  uc_sub :: "string option"
  uc_role :: "string option"
  uc_team :: "string option"
  uc_is_admin :: bool

record ui_user =
  uu_email :: "string option"
  uu_role :: "string option"
  uu_actual_role :: "string option"
  uu_team :: "string option"
  uu_is_admin :: bool

record ui_cookies =
  ck_access_token :: "string option"
  ck_view_role :: "string option"
  ck_view_team :: "string option"

definition optional_user :: "(string \<Rightarrow> ui_claims option) \<Rightarrow> ui_cookies \<Rightarrow> ui_user option" where
  "optional_user decode c =
     (if \<not> truthy (ck_access_token c) then None
      else map_option (\<lambda>payload.
             \<lparr>uu_email = uc_sub payload, uu_role = effective_role (uc_role payload) (ck_view_role c),
              uu_actual_role = uc_role payload,
              uu_team = (if uc_role payload = Some ''facilitator'' then ck_view_team c else uc_team payload),
              uu_is_admin = uc_is_admin payload\<rparr>) (decode (the (ck_access_token c))))"

section \<open>Guards\<close>

text \<open>\<open>Inl\<close> is the address of a \<^verbatim>\<open>UIRedirect\<close>.\<close>

type_synonym ui_guard = "ui_user option \<Rightarrow> string + ui_user"

definition ui_facilitator :: "ui_user \<Rightarrow> bool" where
  "ui_facilitator u \<longleftrightarrow> uu_role u = Some ''facilitator''"

definition ui_actual_facilitator :: "ui_user \<Rightarrow> bool" where
  "ui_actual_facilitator u \<longleftrightarrow> uu_actual_role u = Some ''facilitator''"

definition require_ui_user :: ui_guard where
  "require_ui_user v = (case v of None \<Rightarrow> Inl ''/login'' | Some u \<Rightarrow> Inr u)"

definition require_ui_facilitator :: ui_guard where
  "require_ui_facilitator v =
     and_then (require_ui_user v) (\<lambda>u. if \<not> ui_facilitator u then Inl ''/dashboard'' else Inr u)"

definition require_ui_actual_facilitator :: ui_guard where
  "require_ui_actual_facilitator v =
     and_then (require_ui_user v) (\<lambda>u. if \<not> ui_actual_facilitator u then Inl ''/dashboard'' else Inr u)"

definition require_ui_admin :: ui_guard where
  "require_ui_admin v =
     and_then (require_ui_user v) (\<lambda>u. if \<not> uu_is_admin u then Inl ''/dashboard'' else Inr u)"

section \<open>Pages\<close>

datatype ui_value = UserV ui_user | IdV int | NoneV | FlagV bool | ProvidersV "(string \<times> string) list"

record page =
  pg_template :: string
  pg_context :: "(string \<times> ui_value) list"

type_synonym page_outcome = "page outcome"

definition template_response :: "string \<Rightarrow> (string \<times> ui_value) list \<Rightarrow> page_outcome" where
  "template_response name ctx =
     Answer 200 [(''content-type'', ''text/html; charset=utf-8'')] (Content \<lparr>pg_template = name, pg_context = ctx\<rparr>)"

definition guarded_page :: "ui_guard \<Rightarrow> string \<Rightarrow> (string \<times> ui_value) list \<Rightarrow> ui_user option \<Rightarrow> page_outcome" where
  "guarded_page guard name extra v =
     (case guard v of Inl url \<Rightarrow> Raised (Redirected url)
      | Inr u \<Rightarrow> template_response name ((''user'', UserV u) # extra))"

text \<open>A path parameter is validated after the guard has run.\<close>

definition id_page ::
  "(string \<Rightarrow> int option) \<Rightarrow> ui_guard \<Rightarrow> string \<Rightarrow> string \<Rightarrow> string \<Rightarrow> ui_user option \<Rightarrow> page_outcome" where
  "id_page as_int guard name parameter raw v =
     (case guard v of Inl url \<Rightarrow> Raised (Redirected url)
      | Inr u \<Rightarrow>
          (case as_int raw of
             None \<Rightarrow> Raised (Unprocessable [[(''type'', ''int_parsing''), (''loc'', parameter), (''input'', raw)]])
           | Some i \<Rightarrow> template_response name [(''user'', UserV u), (parameter, IdV i)]))"

record ui_env =
  ue_settings :: settings_env
  ue_oidc :: oidc_env
  ue_wire :: "string \<Rightarrow> exn + proxy_kwargs"
  ue_decode :: "string \<Rightarrow> ui_claims option"
  ue_int :: "string \<Rightarrow> int option"

definition page_smtp :: "ui_env \<Rightarrow> config_cache \<Rightarrow> bool" where
  "page_smtp env cache =
     (let c = get_mail_config (ue_settings env) cache
      in ml_enabled c \<and> ml_smtp_host c \<noteq> [] \<and> ml_smtp_from c \<noteq> [])"

definition page_local_auth :: "ui_env \<Rightarrow> oidc_process \<Rightarrow> bool" where
  "page_local_auth env p = local_auth (get_oidc_config (ue_oidc env) p)"

definition page_registration :: "ui_env \<Rightarrow> config_cache \<Rightarrow> bool" where
  "page_registration env cache = gn_registration_enabled (get_general_config (ue_settings env) cache)"

text \<open>\<^verbatim>\<open>_auth_context\<close> registers the providers first: a page of this group may change the
  process, and an unusable proxy makes it fail.\<close>

definition auth_context :: "ui_env \<Rightarrow> config_cache \<Rightarrow> oidc_process \<Rightarrow> (exn + (string \<times> ui_value) list) \<times> oidc_process" where
  "auth_context env cache p =
     (case ensure_registered (ue_oidc env) (ue_wire env) p of
        (Inl x, p1) \<Rightarrow> (Inl x, p1)
      | (Inr _, p1) \<Rightarrow>
          (Inr [(''local_auth'', FlagV (page_local_auth env p1)),
                (''registration_enabled'', FlagV (page_registration env cache)),
                (''smtp_enabled'', FlagV (page_smtp env cache)),
                (''oidc_providers'', ProvidersV (map (\<lambda>(c, _). (op_key c, op_display_name c)) (oq_registered p1)))],
           p1))"

definition auth_template :: "string \<Rightarrow> ui_env \<Rightarrow> config_cache \<Rightarrow> oidc_process \<Rightarrow> page_outcome \<times> oidc_process" where
  "auth_template name env cache p =
     (case auth_context env cache p of
        (Inl x, p1) \<Rightarrow> (Raised (Crashed ''Exception''), p1)
      | (Inr ctx, p1) \<Rightarrow> (template_response name ctx, p1))"

datatype auth_name = Login | Register | ForgotPassword | ResetPassword | AcceptInvite

fun auth_page :: "auth_name \<Rightarrow> ui_env \<Rightarrow> config_cache \<Rightarrow> ui_user option \<Rightarrow> oidc_process \<Rightarrow> page_outcome \<times> oidc_process" where
  "auth_page Login env cache v p =
     (if v \<noteq> None then (redirect_response ''/dashboard'', p) else auth_template ''auth/login.html'' env cache p)"
| "auth_page Register env cache v p =
     (if v \<noteq> None then (redirect_response ''/dashboard'', p)
      else if \<not> page_local_auth env p \<or> \<not> page_registration env cache then (redirect_response ''/login'', p)
      else auth_template ''auth/register.html'' env cache p)"
| "auth_page ForgotPassword env cache v p =
     (if v \<noteq> None then (redirect_response ''/dashboard'', p)
      else if \<not> page_local_auth env p \<or> \<not> page_smtp env cache then (redirect_response ''/login'', p)
      else auth_template ''auth/forgot_password.html'' env cache p)"
| "auth_page ResetPassword env cache v p =
     (if \<not> page_local_auth env p \<or> \<not> page_smtp env cache then (redirect_response ''/login'', p)
      else auth_template ''auth/reset_password.html'' env cache p)"
| "auth_page AcceptInvite env cache v p =
     (if \<not> page_local_auth env p \<or> \<not> page_smtp env cache then (redirect_response ''/login'', p)
      else auth_template ''auth/accept_invite.html'' env cache p)"

datatype scenario_name = ScenariosList | ScenarioNew | ScenarioDetail string | ScenarioEdit string

fun scenario_page :: "scenario_name \<Rightarrow> ui_env \<Rightarrow> ui_user option \<Rightarrow> page_outcome" where
  "scenario_page ScenariosList env v = guarded_page require_ui_actual_facilitator ''scenarios/list.html'' [] v"
| "scenario_page ScenarioNew env v =
     guarded_page require_ui_actual_facilitator ''scenarios/editor.html'' [(''scenario_id'', NoneV)] v"
| "scenario_page (ScenarioDetail i) env v =
     id_page (ue_int env) require_ui_actual_facilitator ''scenarios/detail.html'' ''scenario_id'' i v"
| "scenario_page (ScenarioEdit i) env v =
     id_page (ue_int env) require_ui_actual_facilitator ''scenarios/editor.html'' ''scenario_id'' i v"

datatype exercise_name = ExercisesList | ExerciseNew | Facilitate string | Review string | Report string
  | Participate string | ExerciseComms string

fun exercise_page :: "exercise_name \<Rightarrow> ui_env \<Rightarrow> ui_user option \<Rightarrow> page_outcome" where
  "exercise_page ExercisesList env v = guarded_page require_ui_user ''exercises/list.html'' [] v"
| "exercise_page ExerciseNew env v =
     guarded_page require_ui_facilitator ''exercises/list.html'' [(''show_create'', FlagV True)] v"
| "exercise_page (Facilitate i) env v =
     id_page (ue_int env) require_ui_facilitator ''exercises/facilitator.html'' ''exercise_id'' i v"
| "exercise_page (Review i) env v =
     id_page (ue_int env) require_ui_facilitator ''exercises/review.html'' ''exercise_id'' i v"
| "exercise_page (Report i) env v =
     id_page (ue_int env) require_ui_facilitator ''exercises/report.html'' ''exercise_id'' i v"
| "exercise_page (Participate i) env v =
     id_page (ue_int env) require_ui_user ''exercises/participant.html'' ''exercise_id'' i v"
| "exercise_page (ExerciseComms i) env v =
     id_page (ue_int env) require_ui_user ''communications/inbox.html'' ''exercise_id'' i v"

datatype admin_name = AdminUsers | AdminAudit | AdminProxy | AdminEmail | AdminSettings | AdminLlm | AdminOidc
  | AdminConfig

fun admin_page :: "admin_name \<Rightarrow> ui_env \<Rightarrow> config_cache \<Rightarrow> ui_user option \<Rightarrow> page_outcome" where
  "admin_page AdminUsers env cache v =
     guarded_page require_ui_admin ''admin/users.html'' [(''smtp_enabled'', FlagV (page_smtp env cache))] v"
| "admin_page AdminAudit env cache v = guarded_page require_ui_admin ''admin/audit.html'' [] v"
| "admin_page AdminProxy env cache v = guarded_page require_ui_admin ''admin/proxy.html'' [] v"
| "admin_page AdminEmail env cache v = guarded_page require_ui_admin ''admin/email.html'' [] v"
| "admin_page AdminSettings env cache v = guarded_page require_ui_admin ''admin/general.html'' [] v"
| "admin_page AdminLlm env cache v = guarded_page require_ui_admin ''admin/llm.html'' [] v"
| "admin_page AdminOidc env cache v = guarded_page require_ui_admin ''admin/oidc.html'' [] v"
| "admin_page AdminConfig env cache v = guarded_page require_ui_admin ''admin/config.html'' [] v"

datatype plain_name = Dashboard | CommunicationsHub | Help | SettingsPage

fun plain_page :: "plain_name \<Rightarrow> ui_user option \<Rightarrow> page_outcome" where
  "plain_page Dashboard v = guarded_page require_ui_user ''dashboard.html'' [] v"
| "plain_page CommunicationsHub v = guarded_page require_ui_user ''communications/index.html'' [] v"
| "plain_page Help v = guarded_page require_ui_user ''help.html'' [] v"
| "plain_page SettingsPage v = guarded_page require_ui_user ''settings.html'' [] v"

definition index :: "ui_user option \<Rightarrow> page_outcome" where
  "index v = (if v \<noteq> None then redirect_response ''/dashboard'' else redirect_response ''/login'')"

section \<open>Routing\<close>

datatype ui_page = Index | Auth auth_name | Scenario scenario_name | Exercise exercise_name | Admin admin_name
  | Plain plain_name

text \<open>The routes in their order: \<^verbatim>\<open>/scenarios/new\<close> comes before
  \<^verbatim>\<open>/scenarios/{scenario_id}\<close>; a parameter matches a non-empty segment.\<close>

definition scenario_route :: "string list \<Rightarrow> scenario_name option" where
  "scenario_route rest =
     (case rest of [] \<Rightarrow> Some ScenariosList
      | [a] \<Rightarrow> if a = ''new'' then Some ScenarioNew else if a \<noteq> [] then Some (ScenarioDetail a) else None
      | [a, b] \<Rightarrow> if a \<noteq> [] \<and> b = ''edit'' then Some (ScenarioEdit a) else None
      | _ \<Rightarrow> None)"

definition exercise_route :: "string list \<Rightarrow> exercise_name option" where
  "exercise_route rest =
     (case rest of [] \<Rightarrow> Some ExercisesList
      | [a] \<Rightarrow> if a = ''new'' then Some ExerciseNew else None
      | [a, b] \<Rightarrow> if a = [] then None
          else map_of [(''facilitate'', Facilitate a), (''review'', Review a), (''report'', Report a),
                 (''participate'', Participate a), (''communications'', ExerciseComms a)] b
      | _ \<Rightarrow> None)"

definition admin_route :: "string list \<Rightarrow> admin_name option" where
  "admin_route rest =
     (case rest of
        [a] \<Rightarrow> map_of [(''users'', AdminUsers), (''audit'', AdminAudit), (''proxy'', AdminProxy),
                 (''email'', AdminEmail), (''settings'', AdminSettings), (''llm'', AdminLlm),
                 (''oidc'', AdminOidc), (''config'', AdminConfig)] a
      | _ \<Rightarrow> None)"

definition single_route :: "string \<Rightarrow> ui_page option" where
  "single_route a =
     map_of [([], Index), (''login'', Auth Login), (''register'', Auth Register),
       (''forgot-password'', Auth ForgotPassword), (''reset-password'', Auth ResetPassword),
       (''accept-invite'', Auth AcceptInvite), (''dashboard'', Plain Dashboard),
       (''communications'', Plain CommunicationsHub), (''help'', Plain Help), (''settings'', Plain SettingsPage)] a"

definition ui_route :: "string \<Rightarrow> ui_page option" where
  "ui_route path =
     (case path of [] \<Rightarrow> None
      | c # cs \<Rightarrow>
          if c \<noteq> CHR ''/'' then None
          else (case split_on (CHR ''/'') cs of [] \<Rightarrow> None
                | a # rest \<Rightarrow>
                    if a = ''scenarios'' then map_option Scenario (scenario_route rest)
                    else if a = ''exercises'' then map_option Exercise (exercise_route rest)
                    else if a = ''admin'' then map_option Admin (admin_route rest)
                    else if rest = [] then single_route a else None))"

fun serve_page :: "ui_page \<Rightarrow> ui_env \<Rightarrow> config_cache \<Rightarrow> ui_user option \<Rightarrow> oidc_process \<Rightarrow> page_outcome \<times> oidc_process" where
  "serve_page Index env cache v p = (index v, p)"
| "serve_page (Auth a) env cache v p = auth_page a env cache v p"
| "serve_page (Scenario a) env cache v p = (scenario_page a env v, p)"
| "serve_page (Exercise a) env cache v p = (exercise_page a env v, p)"
| "serve_page (Admin a) env cache v p = (admin_page a env cache v, p)"
| "serve_page (Plain a) env cache v p = (plain_page a v, p)"

text \<open>A GET of a path, the exceptions of the routes handled as \<open>Http_Stack\<close> handles them.\<close>

definition visit ::
  "ui_env \<Rightarrow> config_cache \<Rightarrow> ui_cookies \<Rightarrow> string \<Rightarrow> oidc_process \<Rightarrow> page_outcome \<times> oidc_process" where
  "visit env cache c path p =
     (case ui_route path of
        None \<Rightarrow> (json_response 404 (Detail ''Not Found''), p)
      | Some pg \<Rightarrow>
          (let (res, p1) = serve_page pg env cache (optional_user (ue_decode env) c) p
           in (handled res, p1)))"

section \<open>A browser\<close>

text \<open>What a client does with an answer: a redirect is followed, anything else is the end.\<close>

definition location :: "'b outcome \<Rightarrow> string option" where
  "location res = (case res of Answer status hs body \<Rightarrow> if status = 307 then map_of hs ''location'' else None
     | Raised e \<Rightarrow> None)"

lemma location_simps [simp]:
  "location (template_response name extra) = None"
  "location (redirect_response url) = Some url"
  "location (json_response status body) = None"
  "location (Raised e) = None"
  by (simp_all add: location_def template_response_def redirect_response_def json_response_def JSON_TYPE_def)

lemma handled_simps [simp]:
  "handled (template_response name extra) = template_response name extra"
  "handled (redirect_response url) = redirect_response url"
  "handled (Raised (Redirected url)) = redirect_response url"
  by (simp_all add: template_response_def redirect_response_def ui_redirect_handler_def)

lemma location_guarded [simp]:
  "location (handled (guarded_page guard name extra v)) = (case guard v of Inl url \<Rightarrow> Some url | Inr u \<Rightarrow> None)"
  "location (handled (id_page as_int guard name param raw v)) = (case guard v of Inl url \<Rightarrow> Some url | Inr u \<Rightarrow> None)"
  by (simp_all add: guarded_page_def id_page_def request_validation_handler_def ui_redirect_handler_def split: sum.split option.split)

lemma location_auth_template [simp]: "location (handled (fst (auth_template name env cache p))) = None"
  by (simp add: auth_template_def split: prod.split sum.split)

lemma guards_anonymous [simp]:
  "require_ui_user None = Inl ''/login''" "require_ui_facilitator None = Inl ''/login''"
  "require_ui_actual_facilitator None = Inl ''/login''" "require_ui_admin None = Inl ''/login''"
  by (simp_all add: require_ui_user_def require_ui_facilitator_def require_ui_actual_facilitator_def require_ui_admin_def)

lemma guards_signed_in [simp]:
  "require_ui_user (Some u) = Inr u"
  "require_ui_facilitator (Some u) = (if ui_facilitator u then Inr u else Inl ''/dashboard'')"
  "require_ui_actual_facilitator (Some u) = (if ui_actual_facilitator u then Inr u else Inl ''/dashboard'')"
  "require_ui_admin (Some u) = (if uu_is_admin u then Inr u else Inl ''/dashboard'')"
  by (simp_all add: require_ui_user_def require_ui_facilitator_def require_ui_actual_facilitator_def require_ui_admin_def)

text \<open>Where a page may send its visitor.\<close>

lemma anonymous_redirect:
  assumes "location (handled (fst (serve_page pg env cache None p))) = Some url"
  shows "url = ''/login'' \<and> pg \<noteq> Auth Login"
proof (cases pg)
  case (Auth a) then show ?thesis using assms by (cases a) (auto split: if_splits)
next
  case (Scenario a) then show ?thesis using assms by (cases a) auto
next
  case (Exercise a) then show ?thesis using assms by (cases a) auto
next
  case (Admin a) then show ?thesis using assms by (cases a) auto
next
  case (Plain a) then show ?thesis using assms by (cases a) auto
qed (use assms in \<open>simp add: index_def\<close>)

lemma signed_in_redirect:
  assumes "location (handled (fst (serve_page pg env cache (Some u) p))) = Some url"
  shows "pg \<noteq> Plain Dashboard \<and> (url = ''/dashboard'' \<or> url = ''/login'' \<and> pg \<noteq> Auth Login)"
proof (cases pg)
  case (Auth a) then show ?thesis using assms by (cases a) (auto split: if_splits)
next
  case (Scenario a) then show ?thesis using assms by (cases a) (auto split: if_splits)
next
  case (Exercise a) then show ?thesis using assms by (cases a) (auto split: if_splits)
next
  case (Admin a) then show ?thesis using assms by (cases a) (auto split: if_splits)
next
  case (Plain a) then show ?thesis using assms by (cases a) auto
qed (use assms in \<open>simp add: index_def\<close>)

lemma landing_routes: "ui_route ''/login'' = Some (Auth Login)" "ui_route ''/dashboard'' = Some (Plain Dashboard)"
  by code_simp+

definition hops_left :: "ui_user option \<Rightarrow> string \<Rightarrow> nat" where
  "hops_left v path =
     (if v = None then (if path = ''/login'' then 0 else 1)
      else if path = ''/dashboard'' then 0 else if path = ''/login'' then 1 else 2)"

lemma visit_redirect:
  assumes "visit env cache c path p = (res, p')" and "location res = Some url"
  shows "hops_left (optional_user (ue_decode env) c) url < hops_left (optional_user (ue_decode env) c) path \<and>
    url \<in> {''/dashboard'', ''/login''}"
proof -
  let ?v = "optional_user (ue_decode env) c"
  obtain pg where pg: "ui_route path = Some pg" "location (handled (fst (serve_page pg env cache ?v p))) = Some url"
    using assms by (auto simp: visit_def split: option.splits prod.splits)
  show ?thesis
  proof (cases ?v)
    case None
    with anonymous_redirect [of pg env cache p url] pg landing_routes show ?thesis by (auto simp: hops_left_def)
  next
    case (Some u)
    with signed_in_redirect [of pg env cache u p url] pg landing_routes show ?thesis by (auto simp: hops_left_def)
  qed
qed

function browse ::
  "ui_env \<Rightarrow> config_cache \<Rightarrow> ui_cookies \<Rightarrow> string \<Rightarrow> oidc_process \<Rightarrow> string list \<times> page_outcome \<times> oidc_process" where
  "browse env cache c path p =
     (case visit env cache c path p of (res, p1) \<Rightarrow>
        (case location res of None \<Rightarrow> ([path], res, p1)
         | Some url \<Rightarrow> (case browse env cache c url p1 of (trail, res2, p2) \<Rightarrow> (path # trail, res2, p2))))"
  by pat_completeness auto
termination
  by (relation "measure (\<lambda>(env, cache, c, path, p). hops_left (optional_user (ue_decode env) c) path)")
    (auto dest!: visit_redirect [OF sym])

declare browse.simps [simp del]

section \<open>Who sees which page\<close>

definition may_see :: "ui_user option \<Rightarrow> string \<Rightarrow> bool" where
  "may_see v t \<longleftrightarrow>
     (if starts_with ''auth/'' t then True
      else case v of None \<Rightarrow> False
        | Some u \<Rightarrow>
            (starts_with ''admin/'' t \<longrightarrow> uu_is_admin u) \<and>
            (starts_with ''scenarios/'' t \<longrightarrow> ui_actual_facilitator u) \<and>
            (t \<in> {''exercises/facilitator.html'', ''exercises/review.html'', ''exercises/report.html''} \<longrightarrow>
               ui_facilitator u))"

definition rendered :: "page_outcome \<Rightarrow> string option" where
  "rendered res = (case res of Answer status hs (Content pg) \<Rightarrow> Some (pg_template pg) | _ \<Rightarrow> None)"

lemma rendered_simps [simp]:
  "rendered (template_response name extra) = Some name"
  "rendered (redirect_response url) = None"
  "rendered (Answer status hs (Detail d)) = None"
  "rendered (Answer status hs (Errors errs)) = None"
  "rendered (Raised e) = None"
  by (simp_all add: rendered_def template_response_def redirect_response_def)

lemma rendered_guarded [simp]:
  "rendered (handled (guarded_page guard name extra v)) = (case guard v of Inl url \<Rightarrow> None | Inr u \<Rightarrow> Some name)"
  "rendered (handled (id_page as_int guard name param raw v)) =
     (case guard v of Inl url \<Rightarrow> None | Inr u \<Rightarrow> if as_int raw = None then None else Some name)"
  by (simp_all add: guarded_page_def id_page_def request_validation_handler_def json_response_def
      ui_redirect_handler_def split: sum.split option.split)

lemma rendered_auth_template:
  "rendered (handled (fst (auth_template name env cache p))) = Some t \<Longrightarrow> t = name"
  by (auto simp: auth_template_def split: prod.splits sum.splits)

lemma serve_page_may_see:
  assumes "rendered (handled (fst (serve_page pg env cache v p))) = Some t"
  shows "may_see v t"
proof (cases pg)
  case (Auth a) then show ?thesis using assms
    by (cases a) (auto simp: may_see_def starts_with_def split: if_splits dest!: rendered_auth_template)
next
  case (Scenario a) then show ?thesis using assms
    by (cases a; cases v) (auto simp: may_see_def starts_with_def split: if_splits)
next
  case (Exercise a) then show ?thesis using assms
    by (cases a; cases v) (auto simp: may_see_def starts_with_def split: if_splits)
next
  case (Admin a) then show ?thesis using assms
    by (cases a; cases v) (auto simp: may_see_def starts_with_def split: if_splits)
next
  case (Plain a) then show ?thesis using assms
    by (cases a; cases v) (auto simp: may_see_def starts_with_def split: if_splits)
qed (use assms in \<open>auto simp: index_def split: if_splits\<close>)

lemma visit_may_see:
  assumes "visit env cache c path p = (res, p')" and "rendered res = Some t"
  shows "may_see (optional_user (ue_decode env) c) t"
proof -
  obtain pg x where "serve_page pg env cache (optional_user (ue_decode env) c) p = (x, p')" "rendered (handled x) = Some t"
    using assms by (auto simp: visit_def json_response_def split: option.splits prod.splits)
  then show ?thesis using serve_page_may_see [of pg env cache "optional_user (ue_decode env) c" p t] by simp
qed

lemma browse_ends:
  assumes "browse env cache c path p = (trail, res, p')"
  shows "length trail \<le> Suc (hops_left (optional_user (ue_decode env) c) path) \<and> location res = None \<and>
    (\<exists>at p1. last trail = at \<and> at \<in> {path, ''/dashboard'', ''/login''} \<and> visit env cache c at p1 = (res, p')) \<and>
    trail \<noteq> []"
  using assms
proof (induction env cache c path p arbitrary: trail res p' rule: browse.induct)
  case (1 env cache c path p)
  obtain r p1 where v: "visit env cache c path p = (r, p1)" by fastforce
  show ?case
  proof (cases "location r")
    case None
    with 1(2) v show ?thesis by (auto simp: browse.simps [of env cache c path p])
  next
    case (Some url)
    obtain trail1 where run: "browse env cache c url p1 = (trail1, res, p')" "trail = path # trail1"
      using 1(2) v Some by (auto simp: browse.simps [of env cache c path p] split: prod.splits)
    have url: "hops_left (optional_user (ue_decode env) c) url < hops_left (optional_user (ue_decode env) c) path"
      "url \<in> {''/dashboard'', ''/login''}"
      using visit_redirect [OF v Some] by auto
    show ?thesis using 1(1) [OF v [symmetric] Some run(1)] url run(2) by auto
  qed
qed

text \<open>A form that is shown is a form the API accepts: the guards of the routes behind the
  registration and the mailed links pass under the same settings.\<close>

definition api_config :: "ui_env \<Rightarrow> config_cache \<Rightarrow> oidc_process \<Rightarrow> auth_config" where
  "api_config env cache p =
     \<lparr>local_auth_enabled = page_local_auth env p, registration_enabled = page_registration env cache,
      smtp_enabled = page_smtp env cache,
      public_base_url = ml_public_base_url (get_mail_config (ue_settings env) cache),
      access_token_expire_minutes = gn_access_token_expire_minutes (get_general_config (ue_settings env) cache)\<rparr>"

lemma shown_forms_are_live:
  assumes "rendered (fst (visit env cache c path p)) = Some t"
  shows "(t = ''auth/register.html'' \<longrightarrow> require_local_auth (api_config env cache p) = Inr () \<and>
      require_registration_enabled (api_config env cache p) = Inr ()) \<and>
    (t \<in> {''auth/forgot_password.html'', ''auth/reset_password.html'', ''auth/accept_invite.html''} \<longrightarrow>
      require_smtp (api_config env cache p) = Inr ())"
proof -
  let ?v = "optional_user (ue_decode env) c"
  obtain pg where r: "rendered (handled (fst (serve_page pg env cache ?v p))) = Some t"
    using assms by (cases "ui_route path") (auto simp: visit_def json_response_def case_prod_beta Let_def)
  show ?thesis
  proof (cases pg)
    case (Auth a) then show ?thesis using r
      by (cases a) (auto simp: api_config_def require_local_auth_def require_registration_enabled_def require_smtp_def
          split: if_splits dest!: rendered_auth_template)
  next
    case (Scenario a) then show ?thesis using r by (cases a; cases ?v) (auto split: if_splits)
  next
    case (Exercise a) then show ?thesis using r by (cases a; cases ?v) (auto split: if_splits)
  next
    case (Admin a) then show ?thesis using r by (cases a; cases ?v) (auto split: if_splits)
  next
    case (Plain a) then show ?thesis using r by (cases a; cases ?v) (auto split: if_splits)
  qed (use r in \<open>auto simp: index_def split: if_splits\<close>)
qed

text \<open>The guards of the email settings ask for a base URL that is not blank; a slash is one, and no
  link can be built on it: the form is shown and every request for a link is refused.\<close>

lemma slash_is_no_base:
  assumes "ml_public_base_url (get_mail_config (ue_settings env) cache) = ''/''" and "page_smtp env cache"
  shows "strip ''/'' \<noteq> [] \<and> require_smtp (api_config env cache p) = Inr () \<and>
    is_ok (require_link_base (api_config env cache p)) = False"
  using assms by (simp add: api_config_def require_smtp_def require_link_base_def link_base_def strip_def is_space_def)

section \<open>Properties\<close>


text \<open>A participant who asks for the administration lands on the dashboard.\<close>

lemma browse_two:
  assumes "visit env cache c path p = (r, p1)" and "location r = Some url"
    and "visit env cache c url p1 = (res, p2)" and "location res = None"
  shows "browse env cache c path p = ([path, url], res, p2)"
  using assms by (simp add: browse.simps [of env cache c path p] browse.simps [of env cache c url p1])

definition demo_claims :: ui_claims where
  "demo_claims = \<lparr>uc_sub = Some ''p@x.io'', uc_role = Some ''participant'', uc_team = None, uc_is_admin = False\<rparr>"

definition demo_ui :: ui_env where
  "demo_ui = \<lparr>ue_settings = demo_env, ue_oidc = demo_oidc_env, ue_wire = (\<lambda>_. Inr NoKwargs),
     ue_decode = (\<lambda>t. if t = ''t'' then Some demo_claims else None), ue_int = (\<lambda>_. None)\<rparr>"

definition demo_cookies :: ui_cookies where
  "demo_cookies = \<lparr>ck_access_token = Some ''t'', ck_view_role = Some ''facilitator'', ck_view_team = None\<rparr>"


end
