(* ===== verification/Bus.thy ===== *)
theory Bus
  imports Complex_Main Config_Sync Access_Control
begin

text \<open>
  The process's subscription to the bus (\<^verbatim>\<open>app/services/pg_listener.py\<close>), the
  database addresses it is opened with (\<^verbatim>\<open>app/database.py\<close>), and the shutdown drain
  of the background work (\<^verbatim>\<open>app/services/background.py\<close>).

  The connection loop runs against a list of attempts, each with what the database did; the
  random part of a pause is given with it.  \<^verbatim>\<open>json.loads\<close> of a payload, as far as it
  yields an object, is the parameter \<open>parse\<close>.  The drain runs against
  \<open>wait\<close>, \<^verbatim>\<open>asyncio.wait\<close> of this process; times are whole clock ticks.
\<close>

section \<open>Database addresses\<close>

definition make_async_url :: "string \<Rightarrow> string" where
  "make_async_url url =
     (if starts_with ''postgresql+'' url \<or> starts_with ''postgres+'' url then url
      else if starts_with ''postgresql://'' url then ''postgresql+asyncpg://'' @ drop (length ''postgresql://'') url
      else if starts_with ''postgres://'' url then ''postgresql+asyncpg://'' @ drop (length ''postgres://'') url
      else url)"

definition make_asyncpg_dsn :: "string \<Rightarrow> string" where
  "make_asyncpg_dsn url0 =
     (let url = make_async_url url0
      in if starts_with ''postgresql+asyncpg://'' url then ''postgresql://'' @ drop (length ''postgresql+asyncpg://'') url
         else if starts_with ''postgres+asyncpg://'' url then ''postgresql://'' @ drop (length ''postgres+asyncpg://'') url
         else url)"

section \<open>The listener\<close>

type_synonym 's bus_handler = "descriptor \<Rightarrow> 's \<Rightarrow> (exn + unit) \<times> 's"
type_synonym 's bus_hook = "'s \<Rightarrow> (exn + unit) \<times> 's"

text \<open>\<open>li_connection\<close> holds the channels the open connection listens on.\<close>

record 's listener =
  li_handlers :: "(string \<times> 's bus_handler list) list"
  li_hooks :: "(string \<times> 's bus_hook list) list"
  li_queue :: "(string \<times> string) list option"
  li_connection :: "string list option"
  li_connected :: bool
  li_running :: bool

definition new_listener :: "'s listener" where
  "new_listener = \<lparr>li_handlers = [], li_hooks = [], li_queue = None, li_connection = None,
     li_connected = False, li_running = False\<rparr>"

text \<open>\<^verbatim>\<open>d.setdefault(key, []).append(value)\<close>.\<close>

definition file_under :: "string \<Rightarrow> 'a \<Rightarrow> (string \<times> 'a list) list \<Rightarrow> (string \<times> 'a list) list" where
  "file_under key v d =
     (if key \<in> fst ` set d then map (\<lambda>(k, vs). if k = key then (k, vs @ [v]) else (k, vs)) d
      else d @ [(key, [v])])"

definition filed :: "(string \<times> 'a list) list \<Rightarrow> string \<Rightarrow> 'a list" where
  "filed d key = (case map_of d key of None \<Rightarrow> [] | Some vs \<Rightarrow> vs)"

definition register_handler :: "string \<Rightarrow> 's bus_handler \<Rightarrow> 's listener \<Rightarrow> 's listener" where
  "register_handler channel h l = l\<lparr>li_handlers := file_under channel h (li_handlers l)\<rparr>"

definition on_reconnect :: "string \<Rightarrow> 's bus_hook \<Rightarrow> 's listener \<Rightarrow> 's listener" where
  "on_reconnect channel h l = l\<lparr>li_hooks := file_under channel h (li_hooks l)\<rparr>"

definition start_listener :: "'s listener \<Rightarrow> 's listener" where
  "start_listener l =
     (if li_running l then l else if li_handlers l = [] then l
      else l\<lparr>li_queue := Some [], li_running := True\<rparr>)"

definition close_connection :: "'s listener \<Rightarrow> 's listener" where
  "close_connection l = l\<lparr>li_connection := None, li_connected := False\<rparr>"

definition stop_listener :: "'s listener \<Rightarrow> 's listener" where
  "stop_listener l = (close_connection (l\<lparr>li_running := False\<rparr>))\<lparr>li_queue := None\<rparr>"

definition notify_queue :: "string \<Rightarrow> string \<Rightarrow> 's listener \<Rightarrow> 's listener" where
  "notify_queue channel payload l =
     (case li_queue l of None \<Rightarrow> l
      | Some q \<Rightarrow> if length q < QUEUE_MAXSIZE then l\<lparr>li_queue := Some (q @ [(channel, payload)])\<rparr> else l)"

text \<open>A handler that raises is logged; the next one runs on the state it left.\<close>

definition dispatch_payload ::
  "(string \<Rightarrow> descriptor option) \<Rightarrow> 's listener \<Rightarrow> string \<Rightarrow> string \<Rightarrow> 's \<Rightarrow> 's" where
  "dispatch_payload parse l channel payload st =
     (case Option.bind (parse payload) accept_version of None \<Rightarrow> st
      | Some d \<Rightarrow> fold (\<lambda>h st. snd (h d st)) (filed (li_handlers l) channel) st)"

definition consume_next :: "(string \<Rightarrow> descriptor option) \<Rightarrow> 's listener \<Rightarrow> 's \<Rightarrow> 's listener \<times> 's" where
  "consume_next parse l st =
     (case li_queue l of
        Some ((channel, payload) # rest) \<Rightarrow>
          (l\<lparr>li_queue := Some rest\<rparr>, dispatch_payload parse l channel payload st)
      | _ \<Rightarrow> (l, st))"

section \<open>The connection loop\<close>

definition BACKOFF_INITIAL :: real where "BACKOFF_INITIAL = 1"
definition BACKOFF_MAX :: real where "BACKOFF_MAX = 30"

text \<open>What the database does with one attempt: no connection; a connection lost after listening on
  some channels; a subscription that answers a number of keepalives before it dies.\<close>

datatype attempt = Unreachable | LostEarly nat | Subscribed nat

definition run_reconnect_hooks :: "'s listener \<Rightarrow> 's \<Rightarrow> 's" where
  "run_reconnect_hooks l st = fold (\<lambda>(channel, hs) st. fold (\<lambda>h st. snd (h st)) hs st) (li_hooks l) st"

fun connect_and_subscribe :: "attempt \<Rightarrow> 's listener \<Rightarrow> 's \<Rightarrow> bool \<times> 's listener \<times> 's" where
  "connect_and_subscribe Unreachable l st = (False, l, st)"
| "connect_and_subscribe (LostEarly n) l st =
     (False, l\<lparr>li_connection := Some (take n (map fst (li_handlers l)))\<rparr>, st)"
| "connect_and_subscribe (Subscribed n) l st =
     (let l1 = l\<lparr>li_connection := Some (map fst (li_handlers l)), li_connected := True\<rparr>
      in (True, l1, run_reconnect_hooks l1 st))"

definition sleep_before_retry :: "real \<Rightarrow> real \<Rightarrow> real" where
  "sleep_before_retry delay jitter = delay * (1 / 2 + jitter)"

text \<open>One turn of \<^verbatim>\<open>_maintain_connection\<close> (connect, hold open until it fails, close, pause)
  and the turns one after the other: the pauses, the next delay, the listener and the state.\<close>

definition maintain_once ::
  "attempt \<Rightarrow> real \<Rightarrow> real \<Rightarrow> 's listener \<Rightarrow> 's \<Rightarrow> real \<times> real \<times> 's listener \<times> 's" where
  "maintain_once att jitter delay l st =
     (let (subscribed, l1, st1) = connect_and_subscribe att l st;
          d = (if subscribed then BACKOFF_INITIAL else delay)
      in (sleep_before_retry d jitter, min (d * 2) BACKOFF_MAX, close_connection l1, st1))"

fun maintain_connection ::
  "(attempt \<times> real) list \<Rightarrow> real \<Rightarrow> 's listener \<Rightarrow> 's \<Rightarrow> real list \<times> real \<times> 's listener \<times> 's" where
  "maintain_connection [] delay l st = ([], delay, l, st)"
| "maintain_connection ((att, jitter) # rest) delay l st =
     (case maintain_once att jitter delay l st of (pause, d1, l1, st1) \<Rightarrow>
        (case maintain_connection rest d1 l1 st1 of (pauses, d2, l2, st2) \<Rightarrow> (pause # pauses, d2, l2, st2)))"

section \<open>Background work\<close>

text \<open>The tasks of the process: the spawned ones, the limited ones by bucket, and those done.\<close>

record 't task_pool =
  wk_tasks :: "'t list"
  wk_limited :: "(string \<times> 't list) list"
  wk_done :: "'t list"

definition DRAIN_CANCEL_GRACE :: int where "DRAIN_CANCEL_GRACE = SECOND"

definition spawn :: "'t \<Rightarrow> 't task_pool \<Rightarrow> 't task_pool" where
  "spawn t w = w\<lparr>wk_tasks := wk_tasks w @ [t]\<rparr>"

text \<open>\<^verbatim>\<open>_pending\<close>: the extra workers seen so far, and every task not done.\<close>

definition pending_work :: "('t task_pool \<Rightarrow> 't list) \<Rightarrow> 't list \<Rightarrow> 't task_pool \<Rightarrow> 't list \<times> 't list" where
  "pending_work collect_extra tracked w =
     (let tracked1 = tracked @ collect_extra w
      in (tracked1, filter (\<lambda>t. t \<notin> set (wk_done w))
            (remdups (wk_tasks w @ concat (map snd (wk_limited w)) @ tracked1))))"

partial_function (option) drain_loop ::
  "('t list \<Rightarrow> int \<Rightarrow> 't task_pool \<Rightarrow> 't task_pool \<times> int) \<Rightarrow> ('t task_pool \<Rightarrow> 't list) \<Rightarrow> int \<Rightarrow> int \<Rightarrow> 't list \<Rightarrow> 't task_pool \<Rightarrow>
     (int \<times> 't list \<times> 't task_pool) option" where
  "drain_loop wait collect_extra deadline now tracked w =
     (case pending_work collect_extra tracked w of (tracked1, todo) \<Rightarrow>
        if todo = [] \<or> deadline - now \<le> 0 then Some (now, tracked1, w)
        else (case wait todo (deadline - now) w of (w1, elapsed) \<Rightarrow>
                drain_loop wait collect_extra deadline (now + elapsed) tracked1 w1))"

text \<open>The tasks cancelled at the end, the state and the time.\<close>

definition drain ::
  "('t list \<Rightarrow> int \<Rightarrow> 't task_pool \<Rightarrow> 't task_pool \<times> int) \<Rightarrow> ('t list \<Rightarrow> 't task_pool \<Rightarrow> 't task_pool) \<Rightarrow> ('t task_pool \<Rightarrow> 't list) \<Rightarrow> int \<Rightarrow>
     int \<Rightarrow> 't task_pool \<Rightarrow> ('t list \<times> 't task_pool \<times> int) option" where
  "drain wait cancel collect_extra timeout now w =
     map_option (\<lambda>(now1, tracked, w1).
         let (_, stragglers) = pending_work collect_extra tracked w1
         in if stragglers = [] then ([], w1, now1)
            else (case wait stragglers DRAIN_CANCEL_GRACE (cancel stragglers w1) of (w2, elapsed) \<Rightarrow>
                    (stragglers, w2, now1 + elapsed)))
       (drain_loop wait collect_extra (now + timeout) now [] w)"

section \<open>Lemmas: addresses\<close>

lemma async_urls:
  "make_async_url (''postgresql://'' @ rest) = ''postgresql+asyncpg://'' @ rest"
  "make_async_url (''postgres://'' @ rest) = ''postgresql+asyncpg://'' @ rest"
  "make_async_url (''postgresql+asyncpg://'' @ rest) = ''postgresql+asyncpg://'' @ rest"
  "make_async_url (''postgres+asyncpg://'' @ rest) = ''postgres+asyncpg://'' @ rest"
  by (simp_all add: make_async_url_def starts_with_def)

lemma plain_dsns:
  "make_async_url url = ''postgresql+asyncpg://'' @ rest \<Longrightarrow> make_asyncpg_dsn url = ''postgresql://'' @ rest"
  "make_async_url url = ''postgres+asyncpg://'' @ rest \<Longrightarrow> make_asyncpg_dsn url = ''postgresql://'' @ rest"
  by (simp_all add: make_asyncpg_dsn_def starts_with_def)

text \<open>The spellings of the address the application documents lead to one connection string.\<close>

lemma dsn_is_plain:
  assumes "prefix \<in> {''postgresql://'', ''postgres://'', ''postgresql+asyncpg://'', ''postgres+asyncpg://''}"
  shows "make_asyncpg_dsn (prefix @ rest) = ''postgresql://'' @ rest"
  using assms by (elim insertE emptyE) (simp_all only: async_urls(1-3) [THEN plain_dsns(1)] async_urls(4) [THEN plain_dsns(2)])

text \<open>Another asynchronous driver, which SQLAlchemy accepts, is handed to asyncpg with its marker.\<close>

lemma other_driver_keeps_its_marker:
  "make_asyncpg_dsn (''postgresql+psycopg://'' @ rest) = ''postgresql+psycopg://'' @ rest"
  by (simp add: make_asyncpg_dsn_def make_async_url_def starts_with_def)

section \<open>Lemmas: the subscription\<close>

lemma file_under_adds: "filed (file_under key v d) key = filed d key @ [v]"
proof (cases "key \<in> fst ` set d")
  case True
  then have "map_of (map (\<lambda>(k, vs). if k = key then (k, vs @ [v]) else (k, vs)) d) key =
      map_option (\<lambda>vs. vs @ [v]) (map_of d key)" by (induction d) auto
  moreover have "map_of d key \<noteq> None" using True by (simp add: map_of_eq_None_iff)
  ultimately show ?thesis using True by (auto simp: file_under_def filed_def)
next
  case False
  then have "map_of d key = None" by (simp add: map_of_eq_None_iff)
  then show ?thesis using False by (simp add: file_under_def filed_def map_add_def)
qed

lemma maintain_once_listener:
  "li_hooks (fst (snd (snd (maintain_once att jitter delay l st)))) = li_hooks l"
  "li_connected (fst (snd (snd (maintain_once att jitter delay l st)))) = False"
  by (cases att; simp add: maintain_once_def close_connection_def Let_def)+

definition subscriptions :: "(attempt \<times> real) list \<Rightarrow> nat" where
  "subscriptions atts = length (filter (\<lambda>(att, _). case att of Subscribed n \<Rightarrow> True | _ \<Rightarrow> False) atts)"

lemma hooks_of_once:
  "snd (snd (snd (maintain_once att jitter delay l st))) =
     (run_reconnect_hooks l ^^ subscriptions [(att, jitter)]) st"
  by (cases att) (simp_all add: maintain_once_def subscriptions_def Let_def run_reconnect_hooks_def)

text \<open>The reconnection never gives up and never storms: a pause lasts from half a second to 45
  seconds, and the hooks run once for each subscription that came about.\<close>

lemma reconnection_paces_itself:
  assumes "\<forall>(att, jitter)\<in>set atts. 0 \<le> jitter \<and> jitter < 1" and "1 \<le> delay" and "delay \<le> BACKOFF_MAX"
    and "maintain_connection atts delay l st = (pauses, delay', l', st')"
  shows "length pauses = length atts \<and> (\<forall>p\<in>set pauses. 1 / 2 \<le> p \<and> p < 45) \<and>
    st' = (run_reconnect_hooks l ^^ subscriptions atts) st"
  using assms
proof (induction atts arbitrary: delay l st pauses)
  case (Cons a atts)
  obtain att jitter where a: "a = (att, jitter)" by (cases a)
  obtain p d1 l1 st1 where one: "maintain_once att jitter delay l st = (p, d1, l1, st1)"
    by (cases "maintain_once att jitter delay l st") auto
  obtain ps where rest: "maintain_connection atts d1 l1 st1 = (ps, delay', l', st')" "pauses = p # ps"
    using Cons.prems(4) by (auto simp: a one split: prod.splits)
  obtain d where d: "1 \<le> d" "d \<le> 30" "p = d * (1 / 2 + jitter)" "d1 = min (d * 2) 30"
  proof (cases att)
    case (Subscribed n)
    show ?thesis by (rule that [of 1])
      (use one Subscribed in \<open>auto simp: maintain_once_def sleep_before_retry_def BACKOFF_INITIAL_def BACKOFF_MAX_def Let_def\<close>)
  qed (rule that [of delay], use one Cons.prems(2,3) in
      \<open>auto simp: maintain_once_def sleep_before_retry_def BACKOFF_MAX_def Let_def\<close>)+
  have j: "0 \<le> jitter" "jitter < 1" using Cons.prems(1) by (auto simp: a)
  have p: "1 / 2 \<le> p" "p < 45"
  proof -
    have "1 * (1 / 2) \<le> d * (1 / 2 + jitter)" by (rule mult_mono) (use d j in auto)
    then show "1 / 2 \<le> p" by (simp add: d(3))
    have "d * (1 / 2 + jitter) \<le> 30 * (1 / 2 + jitter)" by (rule mult_right_mono) (use d j in auto)
    then show "p < 45" using j by (simp add: d(3))
  qed
  have "length ps = length atts \<and> (\<forall>p\<in>set ps. 1 / 2 \<le> p \<and> p < 45) \<and>
      st' = (run_reconnect_hooks l1 ^^ subscriptions atts) st1"
    by (rule Cons.IH [OF _ _ _ rest(1)]) (use Cons.prems(1) d in \<open>auto simp: BACKOFF_MAX_def\<close>)
  moreover have "run_reconnect_hooks l1 = (run_reconnect_hooks l :: _ \<Rightarrow> _)"
    using maintain_once_listener(1) [of att jitter delay l st] one by (simp add: run_reconnect_hooks_def fun_eq_iff)
  moreover have "st1 = (run_reconnect_hooks l ^^ subscriptions [a]) st"
    using hooks_of_once [of att jitter delay l st] one by (simp add: a)
  moreover have "subscriptions (a # atts) = subscriptions atts + subscriptions [a]"
    by (simp add: subscriptions_def)
  ultimately show ?case using p rest(2) by (simp add: funpow_add)
qed (simp add: subscriptions_def)

section \<open>Lemmas: the drain\<close>

text \<open>What \<^verbatim>\<open>asyncio.wait(tasks, timeout=t)\<close> promises: it comes back after a positive
  time within the timeout, and earlier than that only when every task is done.\<close>

definition asyncio_wait :: "('t list \<Rightarrow> int \<Rightarrow> 't task_pool \<Rightarrow> 't task_pool \<times> int) \<Rightarrow> bool" where
  "asyncio_wait wait \<longleftrightarrow> (\<forall>todo timeout w w1 elapsed. 0 < timeout \<longrightarrow> wait todo timeout w = (w1, elapsed) \<longrightarrow>
     0 < elapsed \<and> elapsed \<le> timeout \<and> (elapsed < timeout \<longrightarrow> set todo \<subseteq> set (wk_done w1)))"

lemma asyncio_waitD:
  assumes "asyncio_wait wait" and "0 < timeout" and "wait todo timeout w = (w1, elapsed)"
  shows "0 < elapsed" "elapsed \<le> timeout"
  using assms by (auto simp: asyncio_wait_def)

lemma drain_loop_ends:
  assumes "asyncio_wait wait" and "now \<le> deadline"
  shows "\<exists>now1 tracked1 w1. drain_loop wait collect_extra deadline now tracked w = Some (now1, tracked1, w1) \<and>
    now \<le> now1 \<and> now1 \<le> deadline \<and> (now1 < deadline \<longrightarrow> snd (pending_work collect_extra tracked1 w1) = [])"
  using assms(2)
proof (induction "nat (deadline - now)" arbitrary: now tracked w rule: less_induct)
  case less
  obtain tracked1 todo where p: "pending_work collect_extra tracked w = (tracked1, todo)" by fastforce
  show ?case
  proof (cases "todo = [] \<or> deadline - now \<le> 0")
    case True
    have "todo = [] \<Longrightarrow> snd (pending_work collect_extra tracked1 w) = []"
      using p by (auto simp: pending_work_def Let_def filter_empty_conv)
    then show ?thesis using True p less.prems by (auto simp: drain_loop.simps)
  next
    case False
    obtain w1 elapsed where wt: "wait todo (deadline - now) w = (w1, elapsed)" by fastforce
    have e: "0 < elapsed" "elapsed \<le> deadline - now"
      using asyncio_waitD [OF assms(1) _ wt] False by auto
    have step: "drain_loop wait collect_extra deadline now tracked w =
        drain_loop wait collect_extra deadline (now + elapsed) tracked1 w1"
      using False p wt by (simp add: drain_loop.simps [of wait collect_extra deadline now])
    have "nat (deadline - (now + elapsed)) < nat (deadline - now)" using e by simp
    from less.hyps [OF this, of tracked1 w1] e show ?thesis unfolding step by fastforce
  qed
qed

section \<open>Properties\<close>

text \<open>C38: shutdown is never held up.  Whatever the background tasks do (spawn more work as they
  finish, never finish, swallow their cancellation), the drain returns, at most the grace period and
  one second after it began; it cancels nothing before the grace period is over, and when it cancels
  nothing every task left in the process is done.\<close>

theorem drain_always_returns:
  assumes "asyncio_wait wait" and "0 \<le> timeout"
  shows "\<exists>cancelled w' end. drain wait cancel collect_extra timeout now w = Some (cancelled, w', end) \<and>
    end \<le> now + timeout + DRAIN_CANCEL_GRACE \<and> (cancelled \<noteq> [] \<longrightarrow> now + timeout \<le> end) \<and>
    (cancelled = [] \<longrightarrow>
      set (wk_tasks w' @ concat (map snd (wk_limited w')) @ collect_extra w') \<subseteq> set (wk_done w'))"
proof -
  obtain now1 tracked1 w1 where loop:
    "drain_loop wait collect_extra (now + timeout) now [] w = Some (now1, tracked1, w1)"
    "now1 \<le> now + timeout" "now1 < now + timeout \<longrightarrow> snd (pending_work collect_extra tracked1 w1) = []"
    using drain_loop_ends [OF assms(1), of now "now + timeout" collect_extra "[]" w] assms(2) by auto
  obtain tracked2 left where p: "pending_work collect_extra tracked1 w1 = (tracked2, left)" by fastforce
  show ?thesis
  proof (cases "left = []")
    case True
    then have "set (wk_tasks w1 @ concat (map snd (wk_limited w1)) @ collect_extra w1) \<subseteq> set (wk_done w1)"
      using p by (auto simp: pending_work_def Let_def filter_empty_conv)
    moreover have "drain wait cancel collect_extra timeout now w = Some ([], w1, now1)"
      using loop(1) p True by (simp add: drain_def)
    ultimately show ?thesis using loop(2) by (simp add: DRAIN_CANCEL_GRACE_def SECOND_def)
  next
    case False
    obtain w2 elapsed where wt: "wait left DRAIN_CANCEL_GRACE (cancel left w1) = (w2, elapsed)" by fastforce
    have "0 < elapsed" "elapsed \<le> DRAIN_CANCEL_GRACE"
      using asyncio_waitD [OF assms(1) _ wt] by (simp_all add: DRAIN_CANCEL_GRACE_def SECOND_def)
    then show ?thesis using loop p False wt by (auto simp: drain_def)
  qed
qed

text \<open>A task that never ends and ignores its cancellation, and one that ends at once after spawning
  the next: the clock runs to the end of the grace period.\<close>

definition demo_wait :: "nat list \<Rightarrow> int \<Rightarrow> nat task_pool \<Rightarrow> nat task_pool \<times> int" where
  "demo_wait todo timeout w =
     (if 0 \<in> set todo then (w\<lparr>wk_done := filter (\<lambda>t. t \<noteq> 0) todo @ wk_done w\<rparr>, timeout)
      else (spawn 0 (w\<lparr>wk_done := todo @ wk_done w\<rparr>), 1))"

theorem drain_always_returns_witness:
  "\<exists>cancelled w' end. drain demo_wait (\<lambda>_ w. w) (\<lambda>_. []) (10 * SECOND) 0
      \<lparr>wk_tasks = [1], wk_limited = [(''audit_siem'', [2])], wk_done = []\<rparr> = Some (cancelled, w', end) \<and>
    end \<le> 11 * SECOND"
proof -
  have c: "asyncio_wait demo_wait" by (auto simp: asyncio_wait_def demo_wait_def spawn_def split: if_splits)
  show ?thesis
    using drain_always_returns [OF c, of "10 * SECOND" "\<lambda>_ w. w" "\<lambda>_. []" 0
        "\<lparr>wk_tasks = [1], wk_limited = [(''audit_siem'', [2])], wk_done = []\<rparr>"]
    by (auto simp: DRAIN_CANCEL_GRACE_def SECOND_def)
qed

end
