(* ===== verification/Attachments.thy ===== *)
theory Attachments
  imports Bootstrap Exercise_Api
begin

text \<open>
  The rest of the inject and exercise routes: the multipart form behind a new inject, and the
  attachment files that come and go with their rows (\<^verbatim>\<open>app/routers/injects.py\<close>,
  \<^verbatim>\<open>app/routers/exercises.py\<close>).

  Files are the resolved paths of \<open>Bootstrap\<close>; empty directories are not modelled.
  \<^verbatim>\<open>json.loads\<close> of a list (its elements as text), Python's \<^verbatim>\<open>int\<close> and the
  text of an uploaded file object are parameters.
\<close>

section \<open>The form\<close>

datatype form_value = FormText string | FormFile upload

type_synonym form_data = "(string \<times> form_value) list"

datatype raw_teams = NoTeams | TeamsText string | TeamsList "string list"

definition nonblank :: "string list \<Rightarrow> string list" where
  "nonblank xs = filter (\<lambda>t. t \<noteq> []) (map strip xs)"

definition parse_target_teams ::
  "(string \<Rightarrow> exn + string list option) \<Rightarrow> raw_teams \<Rightarrow> exn + string list option" where
  "parse_target_teams loads raw =
     (case raw of NoTeams \<Rightarrow> Inr None
      | TeamsList xs \<Rightarrow> Inr (Some (nonblank xs))
      | TeamsText raw_text \<Rightarrow>
          if raw_text = [] then Inr None
          else let t = strip raw_text
               in if t = [] then Inr None
                  else if starts_with ''['' t
                  then and_then (loads t) (\<lambda>parsed.
                         case parsed of None \<Rightarrow> Inl (ValueError ''target_teams must be a list'')
                         | Some xs \<Rightarrow> Inr (Some (nonblank xs)))
                  else Inr (Some (nonblank (split_on (CHR '','') t))))"

fun value_text :: "(upload \<Rightarrow> string) \<Rightarrow> form_value \<Rightarrow> string" where
  "value_text file_text (FormText t) = t"
| "value_text file_text (FormFile f) = file_text f"

text \<open>\<^verbatim>\<open>form.get\<close> returns the last value of a name, \<^verbatim>\<open>form.getlist\<close> all.\<close>

definition form_get :: "form_data \<Rightarrow> string \<Rightarrow> form_value option" where
  "form_get form name = map_of (rev form) name"

definition form_getlist :: "form_data \<Rightarrow> string \<Rightarrow> form_value list" where
  "form_getlist form name = map snd (filter (\<lambda>(k, v). k = name) form)"

definition form_text :: "(upload \<Rightarrow> string) \<Rightarrow> form_data \<Rightarrow> string \<Rightarrow> string" where
  "form_text file_text form name =
     (case form_get form name of None \<Rightarrow> [] | Some v \<Rightarrow> value_text file_text v)"

definition text_or_none :: "string \<Rightarrow> string option" where
  "text_or_none t = (if t = [] then None else Some t)"

definition form_teams ::
  "(string \<Rightarrow> exn + string list option) \<Rightarrow> (upload \<Rightarrow> string) \<Rightarrow> form_data \<Rightarrow> exn + string list option" where
  "form_teams loads file_text form =
     (let listed = nonblank (map (value_text file_text) (form_getlist form ''target_teams''))
      in if listed \<noteq> [] then Inr (Some listed)
         else parse_target_teams loads
                (case form_get form ''target_teams'' of None \<Rightarrow> NoTeams
                 | Some v \<Rightarrow> TeamsText (value_text file_text v)))"

definition form_attachment :: "form_data \<Rightarrow> upload option" where
  "form_attachment form =
     (case form_get form ''attachment'' of
        Some (FormFile f) \<Rightarrow> if truthy (uf_filename f) then Some f else None
      | _ \<Rightarrow> None)"

text \<open>A JSON body is validated by pydantic (\<open>Inl\<close> what it raises); what fails is a 422.\<close>

datatype request_content = JsonBody "exn + create_inject_request" | FormBody form_data

definition request_body_and_attachment ::
  "(string \<Rightarrow> exn + string list option) \<Rightarrow> (string \<Rightarrow> exn + int) \<Rightarrow> (upload \<Rightarrow> string) \<Rightarrow> request_content \<Rightarrow>
     exn + create_inject_request \<times> upload option" where
  "request_body_and_attachment loads as_int file_text content =
     (case content of
        JsonBody body \<Rightarrow> and_then body (\<lambda>b. Inr (b, None))
      | FormBody form \<Rightarrow>
          and_then (form_teams loads file_text form) (\<lambda>teams.
          let order = form_text file_text form ''sequence_order''
          in and_then (as_int (if order = [] then ''0'' else order)) (\<lambda>n.
               Inr (\<lparr>jr_title = form_text file_text form ''title'',
                      jr_content = form_text file_text form ''content'',
                      jr_scenario_node_id = text_or_none (form_text file_text form ''scenario_node_id''),
                      jr_target_teams = (if teams = Some [] then None else teams),
                      jr_group_id = text_or_none (form_text file_text form ''group_id''),
                      jr_sequence_order = n\<rparr>, form_attachment form))))"

definition parsed_request :: "exn + 'a \<Rightarrow> exn + 'a" where
  "parsed_request r =
     (case r of Inl (ValueError m) \<Rightarrow> Inl (HTTPException 422 m)
      | Inl (ValidationError m) \<Rightarrow> Inl (HTTPException 422 m)
      | _ \<Rightarrow> r)"

section \<open>The files\<close>

record file_store =
  fs_real :: "fs_path \<Rightarrow> fs_path"
  fs_cwd :: fs_path

definition ATTACHMENT_ROOT :: string where
  "ATTACHMENT_ROOT = ''uploads/inject_attachments''"

definition resolve_path :: "file_store \<Rightarrow> string \<Rightarrow> fs_path" where
  "resolve_path fs t = fs_real fs (path_of (fs_cwd fs) t)"

definition in_store :: "file_store \<Rightarrow> string \<Rightarrow> bool" where
  "in_store fs t \<longleftrightarrow> resolve_path fs ATTACHMENT_ROOT \<in> set (parents (resolve_path fs t))"

text \<open>What lies outside the root is left alone, and no failure gets out.\<close>

definition delete_attachment_path :: "file_store \<Rightarrow> string option \<Rightarrow> fs_path list \<Rightarrow> fs_path list" where
  "delete_attachment_path fs path disk =
     (if \<not> truthy path then disk
      else if \<not> in_store fs (the path) then disk
      else filter (\<lambda>p. p \<noteq> resolve_path fs (the path)) disk)"

text \<open>The routes with their files.  A refused or failed creation takes its file back.\<close>

definition create_inject_with_file ::
  "file_store \<Rightarrow> (string \<Rightarrow> string) \<Rightarrow> string \<Rightarrow> int \<Rightarrow> exn + create_inject_request \<times> upload option \<Rightarrow> current_user \<Rightarrow>
     session \<Rightarrow> fs_path list \<Rightarrow> (exn + inject_public) \<times> session \<times> fs_path list" where
  "create_inject_with_file fs sha256 hex exercise_id request u s disk =
     (case parsed_request request of
        Inl e \<Rightarrow> (Inl e, s, disk)
      | Inr (body, file) \<Rightarrow>
          (case create_inject_guard sha256 hex exercise_id body file u (db s) of
             Inl e \<Rightarrow> (Inl e, s, disk)
           | Inr (ex, teams, group_id, meta) \<Rightarrow>
               (let disk1 = (case meta of None \<Rightarrow> disk | Some m \<Rightarrow> resolve_path fs (am_path m) # disk)
                in case create_inject exercise_id (jr_title body) (jr_content body) (jr_scenario_node_id body)
                          teams group_id (jr_sequence_order body) None meta (ex_state ex \<noteq> Draft) True s of
                     (Inl e, s1) \<Rightarrow> (Inl e, s1, delete_attachment_path fs (map_option am_path meta) disk1)
                   | (Inr ij, s1) \<Rightarrow> (inject_payload (db s1) ij True None, s1, disk1))))"

definition delete_inject_with_file ::
  "file_store \<Rightarrow> int \<Rightarrow> int \<Rightarrow> current_user \<Rightarrow> session \<Rightarrow> fs_path list \<Rightarrow> (exn + unit) \<times> session \<times> fs_path list" where
  "delete_inject_with_file fs exercise_id inject_id u s disk =
     (case delete_inject_guard exercise_id inject_id u (db s) of
        Inl e \<Rightarrow> (Inl e, s, disk)
      | Inr ij \<Rightarrow>
          (case delete_pending_inject ij s of
             (Inl e, s1) \<Rightarrow> (Inl e, s1, disk)
           | (Inr _, s1) \<Rightarrow> (Inr (), s1, delete_attachment_path fs (ij_attachment_path ij) disk)))"

definition delete_exercise_with_files ::
  "file_store \<Rightarrow> int \<Rightarrow> current_user \<Rightarrow> session \<Rightarrow> fs_path list \<Rightarrow> (exn + unit) \<times> session \<times> fs_path list" where
  "delete_exercise_with_files fs exercise_id u s disk =
     (case delete_exercise exercise_id u s of
        (Inl e, s1) \<Rightarrow> (Inl e, s1, disk)
      | (Inr paths, s1) \<Rightarrow> (Inr (), s1, fold (\<lambda>p. delete_attachment_path fs (Some p)) paths disk))"

section \<open>Lemmas\<close>

lemma strip_Nil [simp]: "strip [] = []"
  by (simp add: strip_def)

lemma form_get_listed: "form_get form name = Some v \<Longrightarrow> v \<in> set (form_getlist form name)"
  by (force simp: form_get_def form_getlist_def dest: map_of_SomeD)

text \<open>The text of a form's \<^verbatim>\<open>target_teams\<close> is never parsed: the values are taken as team
  ids one by one, so a comma-separated or a JSON list names a single team.\<close>

lemma form_teams_are_the_values:
  "form_teams loads file_text form =
     (let listed = nonblank (map (value_text file_text) (form_getlist form ''target_teams''))
      in Inr (if listed = [] then None else Some listed))"
proof -
  let ?all = "map (value_text file_text) (form_getlist form ''target_teams'')"
  have "strip (value_text file_text v) = []" if "nonblank ?all = []" "form_get form ''target_teams'' = Some v" for v
    using that form_get_listed [OF that(2)] by (auto simp: nonblank_def filter_empty_conv)
  then show ?thesis
    by (auto simp: form_teams_def parse_target_teams_def Let_def split: option.split)
qed

lemma list_text_is_one_team:
  "form_teams loads file_text [(''target_teams'', FormText ''it_ops,legal'')] = Inr (Some [''it_ops,legal'']) \<and>
   parse_target_teams loads (TeamsText ''it_ops,legal'') = Inr (Some [''it_ops'', ''legal''])"
  unfolding form_teams_are_the_values
  by (simp add: form_getlist_def nonblank_def strip_def is_space_def parse_target_teams_def starts_with_def)

lemma set_fold_delete:
  "set (fold (\<lambda>p. delete_attachment_path fs (Some p)) paths disk) =
     set disk - {resolve_path fs t |t. t \<in> set paths \<and> t \<noteq> [] \<and> in_store fs t}"
proof (induction paths arbitrary: disk)
  case (Cons t paths)
  have "set (delete_attachment_path fs (Some t) disk) =
      set disk - (if t \<noteq> [] \<and> in_store fs t then {resolve_path fs t} else {})"
    by (auto simp: delete_attachment_path_def)
  then show ?case by (auto simp: Cons.IH split: if_splits)
qed simp

lemma delete_exercise_Inr:
  assumes "delete_exercise e u s = (Inr paths, s1)"
  shows "paths = attachment_paths_for_exercise (db s) e"
  using assms by (auto simp: delete_exercise_def guarded_def split: sum.splits)

text \<open>The files of an exercise go with it and no others do: after a deletion exactly the stored
  files its injects named are gone, after a refused one none is.\<close>

lemma exercise_files_go_with_it:
  assumes "delete_exercise_with_files fs e u s disk = (r, s', disk')"
  shows "set disk' = set disk - (if is_ok r
    then {resolve_path fs t |t. t \<in> set (attachment_paths_for_exercise (db s) e) \<and> t \<noteq> [] \<and> in_store fs t} else {})"
proof (cases "delete_exercise e u s")
  case (Pair out s1)
  show ?thesis
  proof (cases out)
    case (Inl x) then show ?thesis using assms Pair by (auto simp: delete_exercise_with_files_def)
  next
    case (Inr paths)
    then have "paths = attachment_paths_for_exercise (db s) e" using Pair delete_exercise_Inr by blast
    then show ?thesis using assms Pair Inr by (auto simp: delete_exercise_with_files_def set_fold_delete)
  qed
qed

text \<open>A creation that is refused or fails leaves no file behind, when the name it drew was new.\<close>

lemma failed_creation_leaves_no_file:
  assumes "create_inject_guard sha256 hex e body file u (db s) = Inr (ex, teams, group_id, Some meta)"
    and "fst (create_inject e (jr_title body) (jr_content body) (jr_scenario_node_id body) teams group_id
      (jr_sequence_order body) None (Some meta) (ex_state ex \<noteq> Draft) True s) = Inl x"
    and "am_path meta \<noteq> []" and "in_store fs (am_path meta)" and "resolve_path fs (am_path meta) \<notin> set disk"
  shows "snd (snd (create_inject_with_file fs sha256 hex e (Inr (body, file)) u s disk)) = disk"
proof -
  have "delete_attachment_path fs (Some (am_path meta)) (resolve_path fs (am_path meta) # disk) = disk"
    using assms(3-5) by (auto simp: delete_attachment_path_def filter_id_conv)
  then show ?thesis using assms(1,2)
    by (auto simp: create_inject_with_file_def parsed_request_def Let_def split: prod.splits)
qed

end
