(* ===== verification/Spec2Isabelle.thy ===== *)
theory Spec2Isabelle
  imports Ws_Projector Reports Settings_Api Bootstrap Effective_Config Samples Pages Bus Attachments
begin

text \<open>
  IcebergTTX runs cyber tabletop exercises: a facilitator releases injects to teams, teams answer,
  and the answers steer a branching scenario.  This library models the server under
  \<^verbatim>\<open>src/app\<close>: what it stores, what each request, job and message does to it, and what follows.
  Paths below are relative to \<^verbatim>\<open>src/app\<close>.

  \<^bold>\<open>How the parts work together.\<close>
  A route checks who is asking (\<open>Access_Control\<close>), runs a service on the request's database session and
  answers with a payload.  A service changes rows, records domain events and enqueues jobs in one
  transaction; a commit releases the events to the handlers of this process and, as descriptors on a
  Postgres channel, to the other replicas (\<open>Domain_Events\<close>).  The handlers turn them into frames for
  the WebSockets allowed to see them (\<open>Ws_Projector\<close> over \<open>Ws_Manager\<close>).  Jobs are run by the worker
  (\<open>Task_Queue\<close>), which releases scheduled injects and delivers triggered messages, and calls the
  language model (\<open>Llm_Service\<close>).  Administrators change settings at run time; the rows are projected
  into the caches of every replica (\<open>Runtime_Settings\<close>, \<open>Config_Sync\<close>, \<open>Settings_Api\<close>).  Every request
  passes the layers of \<open>Http_Stack\<close>; the browser's pages are \<open>Pages\<close>.

  \<^bold>\<open>Foundations.\<close>
  \<open>Prelude\<close> holds exceptions as values, rows and tables as lists, text and the lemma collections, and the
  contract of an insert that ignores duplicates (locale \<open>conflict_insert\<close>, interpreted on every table
  the code fills that way).  \<open>Scenario_Schema\<close> is the scenario document with its validators
  (\<^verbatim>\<open>schemas/scenario_json.py\<close>); \<open>Models\<close> is the database, a record per table of \<^verbatim>\<open>models/\<close>.
  \<open>Domain_Events\<close> is the session: the tables as its statements see them, the tables of the last commit,
  the event buffer, the descriptors sent and the events dispatched
  (\<^verbatim>\<open>services/domain_events.py\<close>, \<^verbatim>\<open>services/pg_bus.py\<close>).  Its locale \<open>unit_of_work\<close> is the discipline of a
  service (events leave exactly with a commit), interpreted on the operations that publish events.

  \<^bold>\<open>The exercise.\<close>
  \<open>Scenario_Service\<close>, \<open>Access_Control\<close>, \<open>Progression\<close>, \<open>Schedule\<close>, \<open>Inject_Service\<close>, \<open>Launch_Snapshot\<close>,
  \<open>Exercise_Service\<close>, \<open>Response_Service\<close>, \<open>Communication_Service\<close>, \<open>Comment_Service\<close> and \<open>Provider_Rows\<close>
  model the modules of the same names in \<^verbatim>\<open>services/\<close> (with \<^verbatim>\<open>role_preview.py\<close>, \<^verbatim>\<open>team_service.py\<close> and
  \<^verbatim>\<open>dependencies.py\<close>); \<open>Requests\<close> composes guards, operations and answers.  The routes are \<open>Exercise_Api\<close>,
  \<open>Inject_Api\<close>, \<open>Response_Api\<close>, \<open>Scenario_Api\<close>, the second halves of \<open>Communication_Service\<close> and
  \<open>Comment_Service\<close>, \<open>Attachments\<close> (forms and stored files), and \<open>Samples\<close> (\<^verbatim>\<open>sample_service.py\<close>).
  \<open>Task_Queue\<close> is \<^verbatim>\<open>task_queue.py\<close>, \<open>Llm_Service\<close> \<^verbatim>\<open>llm_service.py\<close>, \<open>Timeline\<close> and \<open>Reports\<close> the
  after-action views (\<^verbatim>\<open>timeline_service.py\<close>, \<^verbatim>\<open>report_service.py\<close>, \<^verbatim>\<open>csv_export.py\<close>).

  \<^bold>\<open>The server.\<close>
  \<open>Ws_Manager\<close> and \<open>Ws_Projector\<close> are \<^verbatim>\<open>ws_manager.py\<close>, \<^verbatim>\<open>ws_projector.py\<close>, \<^verbatim>\<open>ws_relay.py\<close>, \<^verbatim>\<open>routers/ws.py\<close>;
  the locale \<open>fan_out\<close> is what a broadcast promises, interpreted on the five of them.  \<open>Middleware\<close> is the origin test, the
  CSRF check and the headers, \<open>Http_Stack\<close> their composition with the exception handlers of \<^verbatim>\<open>main.py\<close>,
  \<open>Pages\<close> \<^verbatim>\<open>routers/ui.py\<close>, \<open>Bus\<close> the subscription of \<^verbatim>\<open>pg_listener.py\<close>, the drain of \<^verbatim>\<open>background.py\<close> and
  the addresses of \<^verbatim>\<open>database.py\<close>.  \<open>Rate_Limit\<close> is \<^verbatim>\<open>rate_limit.py\<close>; \<open>Accounts\<close> the accounts, passwords and
  link tokens (\<^verbatim>\<open>auth_service.py\<close>, \<^verbatim>\<open>token_service.py\<close>, \<^verbatim>\<open>routers/auth.py\<close>, \<^verbatim>\<open>routers/users.py\<close>);
  \<open>Oidc_Settings\<close> and \<open>Oidc\<close> single sign-on (\<^verbatim>\<open>oidc_settings_service.py\<close>, \<^verbatim>\<open>services/oidc/\<close>,
  \<^verbatim>\<open>routers/oidc.py\<close>); \<open>Audit_Log\<close> the trail, its forwarding and the retention sweep (\<^verbatim>\<open>audit_service.py\<close>,
  \<^verbatim>\<open>siem_service.py\<close>, \<^verbatim>\<open>retention_service.py\<close>); \<open>Egress\<close> the pinning of destinations and the outbound proxy
  (\<^verbatim>\<open>sink_pinning.py\<close>, \<^verbatim>\<open>proxy.py\<close>); \<open>Runtime_Settings\<close> and \<open>Settings_Api\<close> the five settings services and
  their routes; \<open>Effective_Config\<close> the checks of \<^verbatim>\<open>config.py\<close> and the administrators' view of the
  configuration; \<open>Bootstrap\<close> the operator's tools (\<^verbatim>\<open>bootstrap_admin.py\<close>, \<^verbatim>\<open>reconcile_attachments.py\<close>).

  \<^bold>\<open>How the code is translated.\<close>
  A table is a list of records, a row is replaced by its key, a primary key comes from a sequence.
  An exception is a left value of a sum, and every early return a branch.  A guard is a function of
  the database; an operation maps a session to a result and a session; what survives an exception is
  what was committed.  One session runs at a time: a concurrent commit is modelled where the code
  defends against it, by letting the row an operation was handed differ from the stored one, by the
  parameter \<open>meanwhile\<close> of the provider tasks, and by the interleavings of the step relations
  (\<open>lifecycle\<close>, \<open>limiter_step\<close>, \<open>config_step\<close>, \<open>oidc_step\<close>).  Instants and durations are microseconds.
  Strings hold the code points below 256; where the code changes case or normalises, the definitions are exact on those.

  \<^bold>\<open>Parameters.\<close>
  Code outside the repository is an argument of the definitions that use it: SHA-256, bcrypt, PyJWT's
  encoder and decoder, random tokens and identifiers, the clock, reading a file, the language model and
  \<^verbatim>\<open>json.loads\<close>, the OAuth library's outcomes, the effects of connectivity tests, template rendering, the
  path resolution of the file system, the rows a \<^verbatim>\<open>LIMIT\<close> without an order returns, \<^verbatim>\<open>asyncio.wait\<close>, and
  what the database does with a connection attempt.  The properties that rely on one of them name the
  law they need (a decoder that inverts the encoder, a wait that honours its timeout) and their
  witnesses instantiate it.

  \<^bold>\<open>What the properties show.\<close>
  Exercises: the lifecycle and its clocks (\<open>Exercise_Service\<close>), release exactly once with everything it
  owes (\<open>Inject_Service\<close>, \<open>Task_Queue\<close>), resolution of an inject by its audience and the unlocking of its
  successors (\<open>Progression\<close>, \<open>Response_Service\<close>), schedules that are always armed (\<open>Schedule\<close>,
  \<open>Exercise_Api\<close>), launch configurations and library edits that leave running exercises alone
  (\<open>Launch_Snapshot\<close>, \<open>Scenario_Api\<close>).  Delivery: frames reach exactly those who may read the same thing
  over HTTP, on every replica (\<open>Ws_Projector\<close>).  Accounts: single-use links, revocation, invitations,
  lock-out, sign-on that never takes over an account and an operator override that outlives it
  (\<open>Accounts\<close>, \<open>Rate_Limit\<close>, \<open>Oidc\<close>, \<open>Bootstrap\<close>).  Containment: provider output, uploads, settings and
  secrets stay within bounds (\<open>Llm_Service\<close>, \<open>Inject_Api\<close>, \<open>Settings_Api\<close>, \<open>Config_Sync\<close>,
  \<open>Effective_Config\<close>), forged writes are stopped and traced (\<open>Http_Stack\<close>).  Termination: visits end on a
  page (\<open>Pages\<close>), the drain returns (\<open>Bus\<close>), the retention sweep gets through (\<open>Audit_Log\<close>).  Functions
  with a bound of their own run to it: the purge stops after 200 batches of 5000 rows, which the
  property repeats until nothing is left, and every other recursion is structural or has a measure;
  the drain, whose loop ends only because the clock moves, is a partial function proved to return.
  Where the code falls short of its intent, a lemma states what happens instead
  (\<open>stale_resume_overwrites_clock\<close>, \<open>groupless_comment_is_overheard\<close>, \<open>bracketed_origins_collide\<close>,
  \<open>first_connect_misses_a_save\<close>, \<open>seeded_proxy_row_carries_credentials\<close>, \<open>crash_is_bare\<close>,
  \<open>list_text_is_one_team\<close> and others).

  \<^bold>\<open>Not modelled.\<close>
  The calls of the provider client libraries; the sockets and files of the log sinks and the mailer;
  template rendering and the JavaScript client; the health probes; the order of start-up and teardown and
  the database engine; the migrations; the screenshot script.  Audit events are modelled where they are
  the point (\<open>Settings_Api\<close>, \<open>Bootstrap\<close>, \<open>Http_Stack\<close>) and left out of the other routes, as are response
  cookies.  pydantic's coercions are not modelled: bodies are taken as parsed, with the validators the
  code writes itself.
\<close>

end
